(* ===== verification/Prelude.thy ===== *)
theory Prelude
  imports Main "HOL-Library.Word" "HOL-Library.AList"
begin

text \<open>
  Shared layer of the development: the collections that the component theories extend, the
  sequencing operator that models the early return of the macro JF_RETURN_NOT_OK, decimal
  printing (std::to_string on integers), and generic lemmas on association lists and on lists
  that more than one component uses.
\<close>

named_theorems jf_enum "classification predicates on the enumerations of type.h"
named_theorems jf_ops "definitions of the small state operations that component proofs unfold"

type_synonym u8 = "8 word"
type_synonym u16 = "16 word"
type_synonym u32 = "32 word"
type_synonym u64 = "64 word"

section \<open>Sequencing of fallible steps\<close>

definition bind_result :: "'e + 'a \<Rightarrow> ('a \<Rightarrow> 'e + 'b) \<Rightarrow> 'e + 'b" where
  "bind_result r f = (case r of Inl e \<Rightarrow> Inl e | Inr x \<Rightarrow> f x)"

lemma bind_result_Inl [simp]: "bind_result (Inl e) f = Inl e"
  by (simp add: bind_result_def)

lemma bind_result_Inr [simp]: "bind_result (Inr x) f = f x"
  by (simp add: bind_result_def)

lemma bind_result_cong [fundef_cong]:
  "r = r' \<Longrightarrow> (\<And>x. r' = Inr x \<Longrightarrow> f x = f' x) \<Longrightarrow> bind_result r f = bind_result r' f'"
  by (auto simp: bind_result_def split: sum.splits)

lemma bind_result_eq_Inr [simp]:
  "bind_result r f = Inr y \<longleftrightarrow> (\<exists>x. r = Inr x \<and> f x = Inr y)"
  by (cases r) auto

lemma bind_result_eq_Inl:
  "bind_result r f = Inl e \<longleftrightarrow> r = Inl e \<or> (\<exists>x. r = Inr x \<and> f x = Inl e)"
  by (cases r) auto

lemma bind_result_assoc: "bind_result (bind_result r f) g = bind_result r (\<lambda>x. bind_result (f x) g)"
  by (cases r) auto

lemma those_map_Some [simp]: "those (map Some xs) = Some xs"
  by (induction xs) simp_all

section \<open>Decimal printing\<close>

definition digit_char :: "nat \<Rightarrow> char" where
  "digit_char d = char_of (48 + d)"

fun nat_to_string :: "nat \<Rightarrow> string" where
  "nat_to_string n =
     (if n < 10 then [digit_char n] else nat_to_string (n div 10) @ [digit_char (n mod 10)])"

declare nat_to_string.simps [simp del]

definition int_to_string :: "int \<Rightarrow> string" where
  "int_to_string i = (if i < 0 then CHR ''-'' # nat_to_string (nat (- i)) else nat_to_string (nat i))"

definition parse_nat :: "string \<Rightarrow> nat" where
  "parse_nat s = foldl (\<lambda>acc c. 10 * acc + (of_char c - 48)) 0 s"

lemma of_digit_char [simp]: "d < 10 \<Longrightarrow> (of_char (digit_char d) :: nat) = 48 + d"
  by (simp add: digit_char_def)

lemma parse_nat_to_string [simp]: "parse_nat (nat_to_string n) = n"
proof (induction n rule: nat_to_string.induct)
  case (1 n)
  show ?case
  proof (cases "n < 10")
    case True
    then show ?thesis by (subst nat_to_string.simps) (simp add: parse_nat_def)
  next
    case False
    with 1 have "parse_nat (nat_to_string (n div 10)) = n div 10" by simp
    with False show ?thesis by (subst nat_to_string.simps) (simp add: parse_nat_def)
  qed
qed

lemma nat_to_string_inject [simp]: "nat_to_string m = nat_to_string n \<longleftrightarrow> m = n"
  by (metis parse_nat_to_string)

lemma nat_to_string_nonempty [simp]: "nat_to_string n \<noteq> []"
  by (subst nat_to_string.simps) simp

lemma nat_to_string_digits: "c \<in> set (nat_to_string n) \<Longrightarrow> \<exists>d<10. c = digit_char d"
proof (induction n rule: nat_to_string.induct)
  case (1 n)
  show ?case
  proof (cases "n < 10")
    case True
    with "1.prems" show ?thesis by (subst (asm) nat_to_string.simps) auto
  next
    case False
    from False "1.prems" have "c \<in> set (nat_to_string (n div 10)) \<or> c = digit_char (n mod 10)"
      by (subst (asm) nat_to_string.simps) auto
    moreover have "n mod 10 < 10" by simp
    ultimately show ?thesis using False "1.IH" by blast
  qed
qed

section \<open>Association lists\<close>

text \<open>A hash map of the source is an association list with distinct keys; \<open>AList.update\<close>
  overwrites in place or appends, so the list is also one iteration order of the map.\<close>

lemma map_of_update: "map_of (AList.update k v xs) = (map_of xs)(k \<mapsto> v)"
  by (rule update_conv')

lemma keys_update: "fst ` set (AList.update k v xs) = insert k (fst ` set xs)"
  by (simp add: dom_update)

lemma map_of_eq_Some_iff_in_dom: "(\<exists>v. map_of xs k = Some v) \<longleftrightarrow> k \<in> fst ` set xs"
  by (metis map_of_eq_None_iff not_None_eq)

lemma length_filter_le_drop: "length (filter P xs) \<le> length xs"
  by simp

end
