(* ===== verification/Status.thy ===== *)
theory Status
  imports Prelude
begin

text \<open>
  Model of include/status.h: a status is the pointer to its state (absent for OK), a state is a
  code and a message. Fallible operations of the source return \<open>status + 'a\<close>: the left side
  is a status that is not OK, as every early return of JF_RETURN_NOT_OK is.
\<close>

datatype status_code = kOk | kInvalidArgument | kRuntimeError | kParseError | kNotImplemented

datatype status = Status "(status_code \<times> string) option"

definition OK :: status where "OK = Status None"

definition InvalidArgument :: "string \<Rightarrow> status" where
  "InvalidArgument msg = Status (Some (kInvalidArgument, msg))"

definition RuntimeError :: "string \<Rightarrow> status" where
  "RuntimeError msg = Status (Some (kRuntimeError, msg))"

definition ParseError :: "string \<Rightarrow> status" where
  "ParseError msg = Status (Some (kParseError, msg))"

definition NotImplemented :: "string \<Rightarrow> status" where
  "NotImplemented msg = Status (Some (kNotImplemented, msg))"

lemmas status_ctor_defs = OK_def InvalidArgument_def RuntimeError_def ParseError_def NotImplemented_def

fun ok :: "status \<Rightarrow> bool" where
  "ok (Status None) = True"
| "ok (Status (Some (code, msg))) = (code = kOk)"

fun ErrName :: "status_code \<Rightarrow> string" where
  "ErrName kOk = ''OK''"
| "ErrName kRuntimeError = ''Runtime Error''"
| "ErrName kInvalidArgument = ''Argument Invalid''"
| "ErrName kNotImplemented = ''NotImplemented''"
| "ErrName kParseError = ''Parse Error''"

fun status_ToString :: "status \<Rightarrow> string" where
  "status_ToString (Status None) = ''OK''"
| "status_ToString (Status (Some (code, msg))) =
     ErrName (if ok (Status (Some (code, msg))) then kOk else code) @ '': '' @ msg"

lemma ok_ctors [simp]:
  "ok OK" "\<not> ok (InvalidArgument m)" "\<not> ok (RuntimeError m)" "\<not> ok (ParseError m)"
  "\<not> ok (NotImplemented m)"
  by (simp_all add: status_ctor_defs)

lemma status_ToString_RuntimeError [simp]: "status_ToString (RuntimeError m) = ''Runtime Error: '' @ m"
  by (simp add: RuntimeError_def)

lemma status_ToString_nonempty [simp]: "status_ToString s \<noteq> []"
proof (cases s rule: status_ToString.cases)
  case (2 code msg)
  then show ?thesis by (cases code) simp_all
qed simp

text \<open>The macro JF_RETURN_NOT_OK: continue with the rest unless the status is an error.\<close>

definition return_not_ok :: "status \<Rightarrow> (unit \<Rightarrow> status + 'a) \<Rightarrow> status + 'a" where
  "return_not_ok st rest = (if ok st then rest () else Inl st)"

definition status_of :: "status + 'a \<Rightarrow> status" where
  "status_of r = (case r of Inl e \<Rightarrow> e | Inr _ \<Rightarrow> OK)"

lemma status_of_simps [simp]: "status_of (Inl e) = e" "status_of (Inr x) = OK"
  by (simp_all add: status_of_def)

end
