(* ===== verification/Types.thy ===== *)
theory Types
  imports Status
begin

text \<open>
  Model of include/type.h and src/type.cc: the enumerations of the engine (node kinds, binary and
  unary operators, value types) with the source's constructors and codes, the constant variants,
  and every function of the class TypeHelper. Floating-point constants are their IEEE bit patterns.
\<close>

section \<open>Enumerations and constants\<close>

datatype exec_node_type =
    kEntryArgumentNode | kExecContextNode | kOutputNode | kConstValueNode | kConstListValueNode
  | kUnaryOPNode | kBinaryOPNode | kFunctionNode | kNoOPNode | kIfNode | kSwitchNode | kRefNode
  | kIfBlockNode

datatype binary_op =
    kAdd | kSub | kMul | kDiv | kMod
  | kLarge | kLargeEqual | kEqual | kLess | kLessEqual | kNotEqual
  | kAnd | kOr
  | kBitwiseAnd | kBitwiseOr | kBitwiseXor | kBitwiseShiftLeft | kBitwiseShiftRight

datatype unary_op = kPlus | kMinus | kNot | kBitwiseNot

datatype value_type =
    kUnknown | kVoid
  | kU8 | kU16 | kU32 | kU64 | kI8 | kI16 | kI32 | kI64 | kF32 | kF64
  | kString
  | kU8List | kU16List | kU32List | kU64List | kI8List | kI16List | kI32List | kI64List
  | kF32List | kF64List | kStringList
  | kPtr

text \<open>The underlying value of an enumerator of ValueType (no initialisers: 0, 1, 2, ...).\<close>

definition value_type_code :: "value_type \<Rightarrow> nat" where
  "value_type_code t = (case t of
     kUnknown \<Rightarrow> 0 | kVoid \<Rightarrow> 1 | kU8 \<Rightarrow> 2 | kU16 \<Rightarrow> 3 | kU32 \<Rightarrow> 4 | kU64 \<Rightarrow> 5 | kI8 \<Rightarrow> 6
   | kI16 \<Rightarrow> 7 | kI32 \<Rightarrow> 8 | kI64 \<Rightarrow> 9 | kF32 \<Rightarrow> 10 | kF64 \<Rightarrow> 11 | kString \<Rightarrow> 12 | kU8List \<Rightarrow> 13
   | kU16List \<Rightarrow> 14 | kU32List \<Rightarrow> 15 | kU64List \<Rightarrow> 16 | kI8List \<Rightarrow> 17 | kI16List \<Rightarrow> 18
   | kI32List \<Rightarrow> 19 | kI64List \<Rightarrow> 20 | kF32List \<Rightarrow> 21 | kF64List \<Rightarrow> 22 | kStringList \<Rightarrow> 23
   | kPtr \<Rightarrow> 24)"

lemma value_type_code_inject [simp]: "value_type_code s = value_type_code t \<longleftrightarrow> s = t"
  by (cases s; simp add: value_type_code_def split: value_type.split)

text \<open>Enumerators are compared by their codes, as the scoped enumeration of the source is.\<close>

instantiation value_type :: linorder
begin

definition less_eq_value_type :: "value_type \<Rightarrow> value_type \<Rightarrow> bool" where
  "less_eq_value_type s t \<longleftrightarrow> value_type_code s \<le> value_type_code t"

definition less_value_type :: "value_type \<Rightarrow> value_type \<Rightarrow> bool" where
  "less_value_type s t \<longleftrightarrow> value_type_code s < value_type_code t"

instance
  by standard (auto simp: less_eq_value_type_def less_value_type_def)

end

text \<open>ConstantValueType and ConstantListValueType: the alternatives of the two variants.\<close>

datatype const_value =
    CI8 "8 word" | CI16 "16 word" | CI32 "32 word" | CI64 "64 word"
  | CU8 "8 word" | CU16 "16 word" | CU32 "32 word" | CU64 "64 word"
  | CF32 "32 word" | CF64 "64 word" | CString string

datatype const_list =
    LI8 "8 word list" | LI16 "16 word list" | LI32 "32 word list" | LI64 "64 word list"
  | LU8 "8 word list" | LU16 "16 word list" | LU32 "32 word list" | LU64 "64 word list"
  | LF32 "32 word list" | LF64 "64 word list" | LString "string list"

section \<open>TypeHelper\<close>

definition UnaryOPTypeToString :: "unary_op \<Rightarrow> string" where
  "UnaryOPTypeToString op = (case op of
     kPlus \<Rightarrow> ''+'' | kMinus \<Rightarrow> ''-'' | kNot \<Rightarrow> ''!'' | kBitwiseNot \<Rightarrow> ''~'')"

definition BinaryOPTypeToString :: "binary_op \<Rightarrow> string" where
  "BinaryOPTypeToString op = (case op of
     kAdd \<Rightarrow> ''+'' | kSub \<Rightarrow> ''-'' | kMul \<Rightarrow> ''*'' | kDiv \<Rightarrow> ''/'' | kMod \<Rightarrow> ''%''
   | kLarge \<Rightarrow> ''>'' | kLargeEqual \<Rightarrow> ''>='' | kEqual \<Rightarrow> ''=='' | kLess \<Rightarrow> ''<''
   | kLessEqual \<Rightarrow> ''<='' | kNotEqual \<Rightarrow> ''!=''
   | kAnd \<Rightarrow> ''&&'' | kOr \<Rightarrow> ''||''
   | kBitwiseAnd \<Rightarrow> ''&'' | kBitwiseOr \<Rightarrow> ''|'' | kBitwiseXor \<Rightarrow> ''^''
   | kBitwiseShiftLeft \<Rightarrow> ''<<'' | kBitwiseShiftRight \<Rightarrow> ''>>'')"

definition TypeToString :: "value_type \<Rightarrow> string" where
  "TypeToString t = (case t of
     kUnknown \<Rightarrow> ''unknown'' | kVoid \<Rightarrow> ''void''
   | kU8 \<Rightarrow> ''u8'' | kU16 \<Rightarrow> ''u16'' | kU32 \<Rightarrow> ''u32'' | kU64 \<Rightarrow> ''u64''
   | kI8 \<Rightarrow> ''i8'' | kI16 \<Rightarrow> ''i16'' | kI32 \<Rightarrow> ''i32'' | kI64 \<Rightarrow> ''i64''
   | kF32 \<Rightarrow> ''f32'' | kF64 \<Rightarrow> ''f64'' | kString \<Rightarrow> ''string''
   | kU8List \<Rightarrow> ''u8list'' | kU16List \<Rightarrow> ''u16list'' | kU32List \<Rightarrow> ''u32list'' | kU64List \<Rightarrow> ''u64list''
   | kI8List \<Rightarrow> ''i8list'' | kI16List \<Rightarrow> ''i16list'' | kI32List \<Rightarrow> ''i32list'' | kI64List \<Rightarrow> ''i64list''
   | kF32List \<Rightarrow> ''f32list'' | kF64List \<Rightarrow> ''f64list'' | kStringList \<Rightarrow> ''stringlist''
   | kPtr \<Rightarrow> ''ptr'')"

definition IsNumericType :: "value_type \<Rightarrow> bool" where [jf_enum]:
  "IsNumericType t = (case t of
     kF32 \<Rightarrow> True | kF64 \<Rightarrow> True
   | kI8 \<Rightarrow> True | kI16 \<Rightarrow> True | kI32 \<Rightarrow> True | kI64 \<Rightarrow> True
   | kU8 \<Rightarrow> True | kU16 \<Rightarrow> True | kU32 \<Rightarrow> True | kU64 \<Rightarrow> True
   | _ \<Rightarrow> False)"

definition IsIntegerType :: "value_type \<Rightarrow> bool" where [jf_enum]:
  "IsIntegerType t = (case t of
     kI8 \<Rightarrow> True | kI16 \<Rightarrow> True | kI32 \<Rightarrow> True | kI64 \<Rightarrow> True
   | kU8 \<Rightarrow> True | kU16 \<Rightarrow> True | kU32 \<Rightarrow> True | kU64 \<Rightarrow> True
   | _ \<Rightarrow> False)"

definition IsSignedType :: "value_type \<Rightarrow> bool" where [jf_enum]:
  "IsSignedType t = (case t of
     kI8 \<Rightarrow> True | kI16 \<Rightarrow> True | kI32 \<Rightarrow> True | kI64 \<Rightarrow> True | kF32 \<Rightarrow> True | kF64 \<Rightarrow> True
   | _ \<Rightarrow> False)"

definition IsFloatType :: "value_type \<Rightarrow> bool" where [jf_enum]:
  "IsFloatType t = (case t of kF32 \<Rightarrow> True | kF64 \<Rightarrow> True | _ \<Rightarrow> False)"

definition IsListType :: "value_type \<Rightarrow> bool" where [jf_enum]:
  "IsListType t = (case t of
     kU8List \<Rightarrow> True | kU16List \<Rightarrow> True | kU32List \<Rightarrow> True | kU64List \<Rightarrow> True
   | kI8List \<Rightarrow> True | kI16List \<Rightarrow> True | kI32List \<Rightarrow> True | kI64List \<Rightarrow> True
   | kF32List \<Rightarrow> True | kF64List \<Rightarrow> True | kStringList \<Rightarrow> True
   | _ \<Rightarrow> False)"

definition IsComplexType :: "value_type \<Rightarrow> bool" where [jf_enum]:
  "IsComplexType t = (case t of
     kString \<Rightarrow> True
   | kU8List \<Rightarrow> True | kU16List \<Rightarrow> True | kU32List \<Rightarrow> True | kU64List \<Rightarrow> True
   | kI8List \<Rightarrow> True | kI16List \<Rightarrow> True | kI32List \<Rightarrow> True | kI64List \<Rightarrow> True
   | kF32List \<Rightarrow> True | kF64List \<Rightarrow> True | kStringList \<Rightarrow> True
   | _ \<Rightarrow> False)"

text \<open>kWeightTable: an array of 256 weights, -1 where no entry is assigned.\<close>

definition kWeightTable :: "value_type \<Rightarrow> int" where
  "kWeightTable t = (case t of
     kI8 \<Rightarrow> 0 | kU8 \<Rightarrow> 1 | kI16 \<Rightarrow> 2 | kU16 \<Rightarrow> 3 | kI32 \<Rightarrow> 4 | kU32 \<Rightarrow> 5 | kI64 \<Rightarrow> 6 | kU64 \<Rightarrow> 7
   | kF32 \<Rightarrow> 8 | kF64 \<Rightarrow> 9 | kString \<Rightarrow> 10
   | kI8List \<Rightarrow> 11 | kU8List \<Rightarrow> 12 | kI16List \<Rightarrow> 13 | kU16List \<Rightarrow> 14 | kI32List \<Rightarrow> 15 | kU32List \<Rightarrow> 16
   | kI64List \<Rightarrow> 17 | kU64List \<Rightarrow> 18 | kF32List \<Rightarrow> 19 | kF64List \<Rightarrow> 20 | kStringList \<Rightarrow> 21
   | _ \<Rightarrow> - 1)"

definition GetPromotedType :: "value_type \<Rightarrow> value_type \<Rightarrow> value_type" where
  "GetPromotedType lhs rhs = (if kWeightTable lhs > kWeightTable rhs then lhs else rhs)"

definition IsRelationalBinaryOPType :: "binary_op \<Rightarrow> bool" where [jf_enum]:
  "IsRelationalBinaryOPType op = (case op of
     kLarge \<Rightarrow> True | kLargeEqual \<Rightarrow> True | kEqual \<Rightarrow> True | kLess \<Rightarrow> True | kLessEqual \<Rightarrow> True
   | kNotEqual \<Rightarrow> True | _ \<Rightarrow> False)"

definition IsLogicalBinaryOPType :: "binary_op \<Rightarrow> bool" where [jf_enum]:
  "IsLogicalBinaryOPType op = (case op of kAnd \<Rightarrow> True | kOr \<Rightarrow> True | _ \<Rightarrow> False)"

definition GetBitWidthFromType :: "value_type \<Rightarrow> int" where
  "GetBitWidthFromType t = (case t of
     kI8 \<Rightarrow> 8 | kI16 \<Rightarrow> 16 | kI32 \<Rightarrow> 32 | kI64 \<Rightarrow> 64
   | kU8 \<Rightarrow> 8 | kU16 \<Rightarrow> 16 | kU32 \<Rightarrow> 32 | kU64 \<Rightarrow> 64
   | kF32 \<Rightarrow> 32 | kF64 \<Rightarrow> 64 | _ \<Rightarrow> - 1)"

text \<open>The kElementSize and kElementType members of the list structures (a StringStruct is a
  pointer and a 32-bit length, padded to 16 bytes on the LP64 targets the engine supports).\<close>

definition GetElementSize :: "value_type \<Rightarrow> 32 word" where
  "GetElementSize t = (case t of
     kI8List \<Rightarrow> 1 | kI16List \<Rightarrow> 2 | kI32List \<Rightarrow> 4 | kI64List \<Rightarrow> 8
   | kU8List \<Rightarrow> 1 | kU16List \<Rightarrow> 2 | kU32List \<Rightarrow> 4 | kU64List \<Rightarrow> 8
   | kF32List \<Rightarrow> 4 | kF64List \<Rightarrow> 8 | kString \<Rightarrow> 1 | kStringList \<Rightarrow> 16
   | _ \<Rightarrow> - 1)"

definition GetElementType :: "value_type \<Rightarrow> value_type" where
  "GetElementType t = (case t of
     kI8List \<Rightarrow> kI8 | kI16List \<Rightarrow> kI16 | kI32List \<Rightarrow> kI32 | kI64List \<Rightarrow> kI64
   | kU8List \<Rightarrow> kU8 | kU16List \<Rightarrow> kU16 | kU32List \<Rightarrow> kU32 | kU64List \<Rightarrow> kU64
   | kF32List \<Rightarrow> kF32 | kF64List \<Rightarrow> kF64 | kString \<Rightarrow> kI8 | kStringList \<Rightarrow> kStringList
   | _ \<Rightarrow> kUnknown)"

section \<open>Facts on the type lattice\<close>

lemma numeric_iff_integer_or_float: "IsNumericType t \<longleftrightarrow> IsIntegerType t \<or> IsFloatType t"
  by (cases t) (simp_all add: jf_enum)

lemma complex_iff_string_or_list: "IsComplexType t \<longleftrightarrow> t = kString \<or> IsListType t"
  by (cases t) (simp_all add: jf_enum)

lemma numeric_not_special [simp]:
  "\<not> IsNumericType kVoid" "\<not> IsNumericType kUnknown" "\<not> IsNumericType kString" "\<not> IsNumericType kPtr"
  by (simp_all add: jf_enum)

lemma list_not_special [simp]:
  "\<not> IsListType kVoid" "\<not> IsListType kUnknown" "\<not> IsListType kString" "\<not> IsListType kPtr"
  by (simp_all add: jf_enum)

lemma integer_not_float: "IsIntegerType t \<Longrightarrow> \<not> IsFloatType t"
  by (cases t) (simp_all add: jf_enum)

lemma integer_is_numeric: "IsIntegerType t \<Longrightarrow> IsNumericType t"
  by (simp add: numeric_iff_integer_or_float)

lemma numeric_not_list: "IsNumericType t \<Longrightarrow> \<not> IsListType t"
  by (cases t) (simp_all add: jf_enum)

lemma weight_numeric_inject:
  "IsNumericType s \<Longrightarrow> kWeightTable s = kWeightTable t \<longleftrightarrow> s = t"
  by (cases s; cases t; simp add: jf_enum kWeightTable_def)

lemma weight_nonneg: "IsNumericType t \<Longrightarrow> 0 \<le> kWeightTable t"
  by (cases t) (simp_all add: jf_enum kWeightTable_def)

lemma promoted_cases: "GetPromotedType s t = s \<or> GetPromotedType s t = t"
  by (simp add: GetPromotedType_def)

lemma promoted_idem [simp]: "GetPromotedType t t = t"
  by (simp add: GetPromotedType_def)

lemma promoted_numeric: "IsNumericType s \<Longrightarrow> IsNumericType t \<Longrightarrow> IsNumericType (GetPromotedType s t)"
  by (simp add: GetPromotedType_def)

lemma promoted_integer: "IsIntegerType s \<Longrightarrow> IsIntegerType t \<Longrightarrow> IsIntegerType (GetPromotedType s t)"
  by (simp add: GetPromotedType_def)

lemma promoted_weight: "kWeightTable (GetPromotedType s t) = max (kWeightTable s) (kWeightTable t)"
  by (simp add: GetPromotedType_def)

lemma promoted_unknown [simp]: "IsNumericType t \<Longrightarrow> GetPromotedType kUnknown t = t"
  by (cases t) (simp_all add: jf_enum kWeightTable_def GetPromotedType_def)

lemma promoted_commute:
  assumes "IsNumericType s" "IsNumericType t"
  shows "GetPromotedType s t = GetPromotedType t s"
  using assms weight_numeric_inject [of s t] by (auto simp: GetPromotedType_def)

lemma promoted_assoc:
  "GetPromotedType (GetPromotedType r s) t = GetPromotedType r (GetPromotedType s t)"
  by (simp add: GetPromotedType_def)

lemma TypeToString_inject [simp]: "TypeToString s = TypeToString t \<longleftrightarrow> s = t"
  by (cases s; simp add: TypeToString_def split: value_type.split)

lemma TypeToString_no_punct:
  "CHR ''('' \<notin> set (TypeToString t)" "CHR '','' \<notin> set (TypeToString t)"
  "CHR '')'' \<notin> set (TypeToString t)" "CHR '' '' \<notin> set (TypeToString t)"
  by (cases t; simp add: TypeToString_def)+

lemma TypeToString_nonempty [simp]: "TypeToString t \<noteq> []"
  by (cases t) (simp_all add: TypeToString_def)

end
