(* ===== verification/Diagnostic.thy ===== *)
theory Diagnostic
  imports Types
begin

text \<open>
  Model of include/diagnostic.h, src/diagnostic.cc and of the struct SourceLocation of
  include/exec_node.h: source locations, splitting of the program text into lines and rendering
  of a diagnostic with its gutter and caret underline.
\<close>

record source_location =
  source_code :: string
  begin_line :: int
  begin_col :: int
  end_line :: int
  end_col :: int

definition no_location :: source_location where
  "no_location = \<lparr>source_code = [], begin_line = 0, begin_col = 0, end_line = 0, end_col = 0\<rparr>"

definition Valid :: "source_location \<Rightarrow> bool" where
  "Valid loc \<longleftrightarrow> begin_line loc > 0"

datatype diag_level = kError | kWarning

record diagnostic =
  d_level :: diag_level
  d_message :: string
  d_loc :: source_location
  d_notes :: "string list"
  d_hints :: "string list"

definition MakeDiagnostic :: "diag_level \<Rightarrow> string \<Rightarrow> source_location \<Rightarrow> diagnostic" where
  "MakeDiagnostic level msg loc =
     \<lparr>d_level = level, d_message = msg, d_loc = loc, d_notes = [], d_hints = []\<rparr>"

definition WithNote :: "string \<Rightarrow> diagnostic \<Rightarrow> diagnostic" where
  "WithNote note d = d\<lparr>d_notes := d_notes d @ [note]\<rparr>"

definition WithHint :: "string \<Rightarrow> diagnostic \<Rightarrow> diagnostic" where
  "WithHint hint d = d\<lparr>d_hints := d_hints d @ [hint]\<rparr>"

fun LevelToString :: "diag_level \<Rightarrow> string" where
  "LevelToString kError = ''error''"
| "LevelToString kWarning = ''warning''"

definition newline :: char where "newline = CHR 0x0A"

text \<open>The loop of SplitLines over the position \<open>i\<close>, with the start of the current line.\<close>

function split_lines_loop :: "string \<Rightarrow> nat \<Rightarrow> nat \<Rightarrow> string list \<Rightarrow> nat \<times> string list" where
  "split_lines_loop src start i lines =
     (if i < length src then
        (if src ! i = newline
         then split_lines_loop src (i + 1) (i + 1) (lines @ [take (i - start) (drop start src)])
         else split_lines_loop src start (i + 1) lines)
      else (start, lines))"
  by pat_completeness auto
termination
  by (relation "measure (\<lambda>(src, start, i, lines). length src - i)") auto

declare split_lines_loop.simps [simp del]

definition SplitLines :: "string \<Rightarrow> string list" where
  "SplitLines src =
     (case split_lines_loop src 0 0 [] of
        (start, lines) \<Rightarrow> if start \<le> length src then lines @ [drop start src] else lines)"

definition PadLeft :: "string \<Rightarrow> nat \<Rightarrow> string" where
  "PadLeft s width = (if length s \<ge> width then s else replicate (width - length s) CHR '' '' @ s)"

text \<open>The caret row under line \<open>ln\<close>: first column and length of the underline.\<close>

definition caret_range :: "source_location \<Rightarrow> int \<Rightarrow> string \<Rightarrow> int \<times> int" where
  "caret_range loc ln src_line =
     (let caret_begin = (if ln = begin_line loc then max 1 (begin_col loc) else 1);
          caret_end = (if ln = end_line loc then max (caret_begin + 1) (end_col loc)
                       else int (length src_line) + 1)
      in (caret_begin, max (caret_end - caret_begin) 1))"

function render_lines :: "source_location \<Rightarrow> string list \<Rightarrow> nat \<Rightarrow> int \<Rightarrow> int \<Rightarrow> string" where
  "render_lines loc lines gutter ln stop_line =
     (if ln \<le> stop_line \<and> ln \<le> int (length lines) then
        (let src_line = lines ! nat (ln - 1);
             (caret_begin, caret_len) = caret_range loc ln src_line
         in [newline] @ '' '' @ PadLeft (int_to_string ln) gutter @ '' | '' @ src_line
            @ [newline] @ '' '' @ replicate gutter CHR '' '' @ '' | ''
            @ replicate (nat (caret_begin - 1)) CHR '' '' @ replicate (nat caret_len) CHR ''^'')
        @ render_lines loc lines gutter (ln + 1) stop_line
      else [])"
  by pat_completeness auto
termination
  by (relation "measure (\<lambda>(loc, lines, gutter, ln, stop_line). nat (stop_line + 1 - ln))") auto

declare render_lines.simps [simp del]

definition Render :: "diagnostic \<Rightarrow> string" where
  "Render d =
     (let head = LevelToString (d_level d) @ '': '' @ d_message d; loc = d_loc d in
      if \<not> Valid loc \<or> source_code loc = []
      then head @ concat (map (\<lambda>note. [newline] @ ''  = note: '' @ note) (d_notes d))
                @ concat (map (\<lambda>hint. [newline] @ ''  = hint: '' @ hint) (d_hints d))
      else
        (let lines = SplitLines (source_code loc);
             total_lines = int (length lines);
             gutter = length (int_to_string (min (end_line loc) total_lines));
             empty_gutter = replicate gutter CHR '' '';
             start_line = max 1 (begin_line loc);
             stop_line = max (end_line loc) (begin_line loc)
         in head
            @ [newline] @ ''  --> line '' @ int_to_string (begin_line loc) @ '', column ''
            @ int_to_string (begin_col loc)
            @ [newline] @ '' '' @ empty_gutter @ '' |''
            @ render_lines loc lines gutter start_line stop_line
            @ concat (map (\<lambda>note. [newline] @ '' '' @ empty_gutter @ '' = note: '' @ note) (d_notes d))
            @ concat (map (\<lambda>hint. [newline] @ '' '' @ empty_gutter @ '' = hint: '' @ hint) (d_hints d))))"

section \<open>Splitting into lines\<close>

text \<open>\<open>join_lines\<close> puts a newline between consecutive lines.\<close>

fun join_lines :: "string list \<Rightarrow> string" where
  "join_lines [] = []"
| "join_lines [l] = l"
| "join_lines (l # ls) = l @ newline # join_lines ls"

lemma join_lines_snoc:
  "join_lines (ls @ [l]) = (if ls = [] then l else join_lines ls @ newline # l)"
proof (induction ls rule: join_lines.induct)
  case (3 l1 l2 ls)
  then show ?case by simp
qed simp_all

definition split_inv :: "string \<Rightarrow> nat \<Rightarrow> nat \<Rightarrow> string list \<Rightarrow> bool" where
  "split_inv src start i lines \<longleftrightarrow>
     start \<le> i \<and> i \<le> length src \<and> newline \<notin> set (take (i - start) (drop start src))
     \<and> (\<forall>l\<in>set lines. newline \<notin> set l)
     \<and> (if lines = [] then start = 0 else join_lines lines @ [newline] = take start src)"

lemma take_drop_snoc:
  "start \<le> i \<Longrightarrow> i < length src \<Longrightarrow>
     take (Suc i - start) (drop start src) = take (i - start) (drop start src) @ [src ! i]"
  by (simp add: Suc_diff_le take_Suc_conv_app_nth)

lemma split_inv_newline:
  assumes "split_inv src start i lines" "i < length src" "src ! i = newline"
  shows "split_inv src (i + 1) (i + 1) (lines @ [take (i - start) (drop start src)])"
proof -
  have "take (i + 1) src = take start src @ take (i - start) (drop start src) @ [newline]"
    using assms by (simp add: split_inv_def take_Suc_conv_app_nth flip: take_add)
  then show ?thesis
    using assms by (auto simp: split_inv_def join_lines_snoc split: if_splits)
qed

lemma split_inv_char:
  assumes "split_inv src start i lines" "i < length src" "src ! i \<noteq> newline"
  shows "split_inv src start (i + 1) lines"
  using assms by (auto simp: split_inv_def take_drop_snoc)

lemma split_loop_inv:
  assumes "split_inv src start i lines" "split_lines_loop src start i lines = (start', lines')"
  shows "split_inv src start' (length src) lines'"
  using assms
proof (induction src start i lines rule: split_lines_loop.induct)
  case (1 src start i lines)
  show ?case
  proof (cases "i < length src")
    case True
    show ?thesis
    proof (cases "src ! i = newline")
      case nl: True
      have "split_lines_loop src (i + 1) (i + 1) (lines @ [take (i - start) (drop start src)]) = (start', lines')"
        using "1.prems"(2) True nl by (subst (asm) split_lines_loop.simps) simp
      with "1.IH"(1) [OF True nl] split_inv_newline [OF "1.prems"(1) True nl]
      show ?thesis by blast
    next
      case no: False
      have "split_lines_loop src start (i + 1) lines = (start', lines')"
        using "1.prems"(2) True no by (subst (asm) split_lines_loop.simps) simp
      with "1.IH"(2) [OF True no] split_inv_char [OF "1.prems"(1) True no]
      show ?thesis by blast
    qed
  next
    case False
    with "1.prems" show ?thesis
      by (subst (asm) split_lines_loop.simps) (auto simp: split_inv_def)
  qed
qed

lemma SplitLines_spec:
  "join_lines (SplitLines src) = src \<and> (\<forall>l\<in>set (SplitLines src). newline \<notin> set l) \<and> SplitLines src \<noteq> []"
proof -
  obtain start lines where res: "split_lines_loop src 0 0 [] = (start, lines)" by fastforce
  have "split_inv src 0 0 []" by (simp add: split_inv_def)
  from split_loop_inv [OF this res] have inv: "split_inv src start (length src) lines" .
  have join: "join_lines lines @ newline # drop start src = src" if "lines \<noteq> []"
  proof -
    from inv that have "join_lines lines @ [newline] = take start src" by (simp add: split_inv_def)
    then have "(join_lines lines @ [newline]) @ drop start src = src" by simp
    then show ?thesis by simp
  qed
  from inv show ?thesis
    by (auto simp: SplitLines_def res split_inv_def join_lines_snoc join split: if_splits)
qed

lemma caret_range_bounds:
  "caret_range loc ln src = (b, n) \<Longrightarrow> 1 \<le> b \<and> 1 \<le> n"
  by (auto simp: caret_range_def Let_def split: if_splits)

lemma Render_no_location:
  "\<not> Valid loc \<Longrightarrow> Render (MakeDiagnostic kError msg loc) = ''error: '' @ msg"
  by (simp add: Render_def MakeDiagnostic_def)

end
