(* ===== verification/ExecNode.thy ===== *)
theory ExecNode
  imports Diagnostic
begin

text \<open>
  Model of include/exec_node.h and src/exec_node.cc: the abstract syntax tree (one constructor per
  node class, each with the fields of the base class: return type and source location), the
  Append operations, ToString and Clone. A NoOPNode keeps its two parallel vectors as one list of
  pairs: every constructor and operation of the source keeps them at the same length.
\<close>

section \<open>Nodes\<close>

record node_info =
  return_type :: value_type
  loc :: source_location

definition new_info :: node_info where
  "new_info = \<lparr>return_type = kUnknown, loc = no_location\<rparr>"

record var_info =
  name :: string
  is_const :: bool

definition no_var :: var_info where
  "no_var = \<lparr>name = [], is_const = False\<rparr>"

datatype exec_node =
    EntryArgumentNode node_info
  | ExecContextNode node_info
  | OutputNode node_info
  | ConstantValueNode node_info const_value
  | ConstantListValueNode node_info const_list
  | UnaryOPNode node_info unary_op exec_node
  | BinaryOPNode node_info binary_op exec_node exec_node
  | FunctionNode node_info string "exec_node list"
  | NoOPNode node_info "(var_info \<times> exec_node) list" bool
  | IfNode node_info "exec_node list"
  | SwitchNode node_info "exec_node list"
  | IfBlockNode node_info "exec_node list"
  | RefNode node_info string

fun GetExecNodeType :: "exec_node \<Rightarrow> exec_node_type" where
  "GetExecNodeType (EntryArgumentNode _) = kEntryArgumentNode"
| "GetExecNodeType (ExecContextNode _) = kExecContextNode"
| "GetExecNodeType (OutputNode _) = kOutputNode"
| "GetExecNodeType (ConstantValueNode _ _) = kConstValueNode"
| "GetExecNodeType (ConstantListValueNode _ _) = kConstListValueNode"
| "GetExecNodeType (UnaryOPNode _ _ _) = kUnaryOPNode"
| "GetExecNodeType (BinaryOPNode _ _ _ _) = kBinaryOPNode"
| "GetExecNodeType (FunctionNode _ _ _) = kFunctionNode"
| "GetExecNodeType (NoOPNode _ _ _) = kNoOPNode"
| "GetExecNodeType (IfNode _ _) = kIfNode"
| "GetExecNodeType (SwitchNode _ _) = kSwitchNode"
| "GetExecNodeType (IfBlockNode _ _) = kIfBlockNode"
| "GetExecNodeType (RefNode _ _) = kRefNode"

fun node_info_of :: "exec_node \<Rightarrow> node_info" where
  "node_info_of (EntryArgumentNode i) = i"
| "node_info_of (ExecContextNode i) = i"
| "node_info_of (OutputNode i) = i"
| "node_info_of (ConstantValueNode i _) = i"
| "node_info_of (ConstantListValueNode i _) = i"
| "node_info_of (UnaryOPNode i _ _) = i"
| "node_info_of (BinaryOPNode i _ _ _) = i"
| "node_info_of (FunctionNode i _ _) = i"
| "node_info_of (NoOPNode i _ _) = i"
| "node_info_of (IfNode i _) = i"
| "node_info_of (SwitchNode i _) = i"
| "node_info_of (IfBlockNode i _) = i"
| "node_info_of (RefNode i _) = i"

fun map_info :: "(node_info \<Rightarrow> node_info) \<Rightarrow> exec_node \<Rightarrow> exec_node" where
  "map_info f (EntryArgumentNode i) = EntryArgumentNode (f i)"
| "map_info f (ExecContextNode i) = ExecContextNode (f i)"
| "map_info f (OutputNode i) = OutputNode (f i)"
| "map_info f (ConstantValueNode i v) = ConstantValueNode (f i) v"
| "map_info f (ConstantListValueNode i v) = ConstantListValueNode (f i) v"
| "map_info f (UnaryOPNode i op c) = UnaryOPNode (f i) op c"
| "map_info f (BinaryOPNode i op l r) = BinaryOPNode (f i) op l r"
| "map_info f (FunctionNode i fn as) = FunctionNode (f i) fn as"
| "map_info f (NoOPNode i as isol) = NoOPNode (f i) as isol"
| "map_info f (IfNode i as) = IfNode (f i) as"
| "map_info f (SwitchNode i as) = SwitchNode (f i) as"
| "map_info f (IfBlockNode i as) = IfBlockNode (f i) as"
| "map_info f (RefNode i n) = RefNode (f i) n"

definition GetReturnType :: "exec_node \<Rightarrow> value_type" where
  "GetReturnType n = return_type (node_info_of n)"

definition SetReturnType :: "value_type \<Rightarrow> exec_node \<Rightarrow> exec_node" where
  "SetReturnType t n = map_info (\<lambda>i. i\<lparr>return_type := t\<rparr>) n"

definition GetLocation :: "exec_node \<Rightarrow> source_location" where
  "GetLocation n = loc (node_info_of n)"

definition SetLocation :: "source_location \<Rightarrow> exec_node \<Rightarrow> exec_node" where
  "SetLocation l n = map_info (\<lambda>i. i\<lparr>loc := l\<rparr>) n"

text \<open>AppendArgs of FunctionNode, IfNode and SwitchNode, and the three overloads of NoOPNode.\<close>

fun AppendArgs :: "exec_node \<Rightarrow> exec_node \<Rightarrow> exec_node" where
  "AppendArgs arg (FunctionNode i fn as) = FunctionNode i fn (as @ [arg])"
| "AppendArgs arg (IfNode i as) = IfNode i (as @ [arg])"
| "AppendArgs arg (SwitchNode i as) = SwitchNode i (as @ [arg])"
| "AppendArgs arg (NoOPNode i as isol) = NoOPNode i (as @ [(no_var, arg)]) isol"
| "AppendArgs arg n = n"

fun AppendNamedArgs :: "string \<Rightarrow> exec_node \<Rightarrow> bool \<Rightarrow> exec_node \<Rightarrow> exec_node" where
  "AppendNamedArgs nm arg const (NoOPNode i as isol) =
     NoOPNode i (as @ [(\<lparr>name = nm, is_const = const\<rparr>, arg)]) isol"
| "AppendNamedArgs nm arg const n = n"

lemma node_info_map_info [simp]: "node_info_of (map_info f n) = f (node_info_of n)"
  by (cases n) simp_all

lemma GetReturnType_Set [simp]: "GetReturnType (SetReturnType t n) = t"
  by (simp add: GetReturnType_def SetReturnType_def)

lemma GetLocation_SetReturnType [simp]: "GetLocation (SetReturnType t n) = GetLocation n"
  by (simp add: GetLocation_def SetReturnType_def)

lemma GetReturnType_SetLocation [simp]: "GetReturnType (SetLocation l n) = GetReturnType n"
  by (simp add: GetReturnType_def SetLocation_def)

lemma GetLocation_SetLocation [simp]: "GetLocation (SetLocation l n) = l"
  by (simp add: GetLocation_def SetLocation_def)

section \<open>Printing\<close>

text \<open>std::to_string of a floating-point number: the C format with six decimals, exact value
  rounded half to even.\<close>

definition round_half_even :: "nat \<Rightarrow> nat \<Rightarrow> nat" where
  "round_half_even num den =
     (let q = num div den; r = num mod den
      in if 2 * r < den then q else if 2 * r > den then q + 1 else if even q then q else q + 1)"

definition six_digits :: "nat \<Rightarrow> string" where
  "six_digits n = (let s = nat_to_string n in replicate (6 - length s) CHR ''0'' @ s)"

definition float_to_string :: "nat \<Rightarrow> nat \<Rightarrow> nat \<Rightarrow> string" where
  "float_to_string mant_bits exp_bits bits =
     (let mant = bits mod 2 ^ mant_bits;
          expo = (bits div 2 ^ mant_bits) mod 2 ^ exp_bits;
          sign = (if bits div 2 ^ (mant_bits + exp_bits) = 0 then [] else ''-'');
          max_expo = 2 ^ exp_bits - 1;
          shift = 2 ^ (exp_bits - 1) - 1 + mant_bits;
          m = (if expo = 0 then mant else mant + 2 ^ mant_bits);
          e = (if expo = 0 then 1 else expo);
          scaled = (if e \<ge> shift then m * 2 ^ (e - shift) * 1000000
                    else round_half_even (m * 1000000) (2 ^ (shift - e)))
      in if expo = max_expo then sign @ (if mant = 0 then ''inf'' else ''nan'')
         else sign @ nat_to_string (scaled div 1000000) @ ''.'' @ six_digits (scaled mod 1000000))"

definition to_string_f32 :: "32 word \<Rightarrow> string" where
  "to_string_f32 w = float_to_string 23 8 (unat w)"

definition to_string_f64 :: "64 word \<Rightarrow> string" where
  "to_string_f64 w = float_to_string 52 11 (unat w)"

fun ValueToString :: "const_value \<Rightarrow> string" where
  "ValueToString (CI8 v) = int_to_string (sint v)"
| "ValueToString (CI16 v) = int_to_string (sint v)"
| "ValueToString (CI32 v) = int_to_string (sint v)"
| "ValueToString (CI64 v) = int_to_string (sint v)"
| "ValueToString (CU8 v) = int_to_string (uint v)"
| "ValueToString (CU16 v) = int_to_string (uint v)"
| "ValueToString (CU32 v) = int_to_string (uint v)"
| "ValueToString (CU64 v) = int_to_string (uint v)"
| "ValueToString (CF32 v) = to_string_f32 v"
| "ValueToString (CF64 v) = to_string_f64 v"
| "ValueToString (CString v) = v"

text \<open>The loop of VectorValueToString with its flag \<open>is_first\<close>.\<close>

fun list_body_to_string :: "bool \<Rightarrow> string list \<Rightarrow> string" where
  "list_body_to_string is_first [] = []"
| "list_body_to_string is_first (s # ss) =
     (if is_first then [] else '','') @ s @ list_body_to_string False ss"

fun VectorValueToString :: "const_list \<Rightarrow> string" where
  "VectorValueToString (LI8 vs) = ''['' @ list_body_to_string True (map (int_to_string \<circ> sint) vs) @ '']''"
| "VectorValueToString (LI16 vs) = ''['' @ list_body_to_string True (map (int_to_string \<circ> sint) vs) @ '']''"
| "VectorValueToString (LI32 vs) = ''['' @ list_body_to_string True (map (int_to_string \<circ> sint) vs) @ '']''"
| "VectorValueToString (LI64 vs) = ''['' @ list_body_to_string True (map (int_to_string \<circ> sint) vs) @ '']''"
| "VectorValueToString (LU8 vs) = ''['' @ list_body_to_string True (map (int_to_string \<circ> uint) vs) @ '']''"
| "VectorValueToString (LU16 vs) = ''['' @ list_body_to_string True (map (int_to_string \<circ> uint) vs) @ '']''"
| "VectorValueToString (LU32 vs) = ''['' @ list_body_to_string True (map (int_to_string \<circ> uint) vs) @ '']''"
| "VectorValueToString (LU64 vs) = ''['' @ list_body_to_string True (map (int_to_string \<circ> uint) vs) @ '']''"
| "VectorValueToString (LF32 vs) = ''['' @ list_body_to_string True (map to_string_f32 vs) @ '']''"
| "VectorValueToString (LF64 vs) = ''['' @ list_body_to_string True (map to_string_f64 vs) @ '']''"
| "VectorValueToString (LString vs) = ''['' @ list_body_to_string True vs @ '']''"

definition nl :: string where "nl = [newline]"

fun NodeToString :: "string \<Rightarrow> exec_node \<Rightarrow> string"
  and NodesToString :: "string \<Rightarrow> exec_node list \<Rightarrow> string"
  and NamedToString :: "string \<Rightarrow> (var_info \<times> exec_node) list \<Rightarrow> string" where
  "NodeToString prefix (EntryArgumentNode _) = prefix @ ''|--entry_argument'' @ nl"
| "NodeToString prefix (ExecContextNode _) = prefix @ ''|--exec_context'' @ nl"
| "NodeToString prefix (OutputNode _) = prefix @ ''|--output'' @ nl"
| "NodeToString prefix (ConstantValueNode _ v) = prefix @ ''|--'' @ ValueToString v @ nl"
| "NodeToString prefix (ConstantListValueNode _ v) = prefix @ ''|--'' @ VectorValueToString v @ nl"
| "NodeToString prefix (UnaryOPNode _ op c) =
     prefix @ ''|--'' @ UnaryOPTypeToString op @ nl @ NodeToString (prefix @ ''|   '') c"
| "NodeToString prefix (BinaryOPNode _ op l r) =
     prefix @ ''|--'' @ BinaryOPTypeToString op @ nl @ NodeToString (prefix @ ''|   '') l
       @ NodeToString (prefix @ ''|   '') r"
| "NodeToString prefix (FunctionNode _ fn as) =
     prefix @ ''|--'' @ fn @ nl @ NodesToString (prefix @ ''|   '') as"
| "NodeToString prefix (NoOPNode _ as _) = prefix @ ''|--no_op'' @ nl @ NamedToString prefix as"
| "NodeToString prefix (IfNode _ as) = prefix @ ''|--if'' @ nl @ NodesToString (prefix @ ''|   '') as"
| "NodeToString prefix (SwitchNode _ as) =
     prefix @ ''|--switch'' @ nl @ NodesToString (prefix @ ''|   '') as"
| "NodeToString prefix (IfBlockNode _ as) =
     prefix @ ''|--if_block'' @ nl @ NodesToString (prefix @ ''|   '') as"
| "NodeToString prefix (RefNode _ nm) = prefix @ ''|--ref('' @ nm @ '')'' @ nl"
| "NodesToString prefix [] = []"
| "NodesToString prefix (n # ns) = NodeToString prefix n @ NodesToString prefix ns"
| "NamedToString prefix [] = []"
| "NamedToString prefix ((vi, n) # ns) =
     (if name vi \<noteq> []
      then prefix @ ''|   |--['' @ (if is_const vi then ''let '' else []) @ name vi @ '']'' @ nl
      else [])
     @ NodeToString (prefix @ ''|   '') n @ NamedToString prefix ns"

section \<open>Cloning\<close>

text \<open>CloneImpl builds a fresh node (a copy for the two constant classes), Clone then copies the
  location.\<close>

fun Clone :: "exec_node \<Rightarrow> exec_node"
  and CloneArgs :: "exec_node list \<Rightarrow> exec_node list"
  and CloneNamed :: "(var_info \<times> exec_node) list \<Rightarrow> (var_info \<times> exec_node) list" where
  "Clone (EntryArgumentNode i) = SetLocation (loc i) (EntryArgumentNode new_info)"
| "Clone (ExecContextNode i) = SetLocation (loc i) (ExecContextNode new_info)"
| "Clone (OutputNode i) = SetLocation (loc i) (OutputNode new_info)"
| "Clone (ConstantValueNode i v) = SetLocation (loc i) (ConstantValueNode i v)"
| "Clone (ConstantListValueNode i v) = SetLocation (loc i) (ConstantListValueNode i v)"
| "Clone (UnaryOPNode i op c) = SetLocation (loc i) (UnaryOPNode new_info op (Clone c))"
| "Clone (BinaryOPNode i op l r) = SetLocation (loc i) (BinaryOPNode new_info op (Clone l) (Clone r))"
| "Clone (FunctionNode i fn as) = SetLocation (loc i) (FunctionNode new_info fn (CloneArgs as))"
| "Clone (NoOPNode i as isol) = SetLocation (loc i) (NoOPNode new_info (CloneNamed as) isol)"
| "Clone (IfNode i as) = SetLocation (loc i) (IfNode new_info (CloneArgs as))"
| "Clone (SwitchNode i as) = SetLocation (loc i) (SwitchNode new_info (CloneArgs as))"
| "Clone (IfBlockNode i as) = SetLocation (loc i) (IfBlockNode new_info (CloneArgs as))"
| "Clone (RefNode i nm) = SetLocation (loc i) (RefNode new_info nm)"
| "CloneArgs [] = []"
| "CloneArgs (n # ns) = Clone n # CloneArgs ns"
| "CloneNamed [] = []"
| "CloneNamed ((vi, n) # ns) = (vi, Clone n) # CloneNamed ns"

text \<open>The tree without the types that validation computes: structure and locations.\<close>

fun erase :: "exec_node \<Rightarrow> exec_node"
  and erase_args :: "exec_node list \<Rightarrow> exec_node list"
  and erase_named :: "(var_info \<times> exec_node) list \<Rightarrow> (var_info \<times> exec_node) list" where
  "erase (EntryArgumentNode i) = EntryArgumentNode (i\<lparr>return_type := kUnknown\<rparr>)"
| "erase (ExecContextNode i) = ExecContextNode (i\<lparr>return_type := kUnknown\<rparr>)"
| "erase (OutputNode i) = OutputNode (i\<lparr>return_type := kUnknown\<rparr>)"
| "erase (ConstantValueNode i v) = ConstantValueNode (i\<lparr>return_type := kUnknown\<rparr>) v"
| "erase (ConstantListValueNode i v) = ConstantListValueNode (i\<lparr>return_type := kUnknown\<rparr>) v"
| "erase (UnaryOPNode i op c) = UnaryOPNode (i\<lparr>return_type := kUnknown\<rparr>) op (erase c)"
| "erase (BinaryOPNode i op l r) = BinaryOPNode (i\<lparr>return_type := kUnknown\<rparr>) op (erase l) (erase r)"
| "erase (FunctionNode i fn as) = FunctionNode (i\<lparr>return_type := kUnknown\<rparr>) fn (erase_args as)"
| "erase (NoOPNode i as isol) = NoOPNode (i\<lparr>return_type := kUnknown\<rparr>) (erase_named as) isol"
| "erase (IfNode i as) = IfNode (i\<lparr>return_type := kUnknown\<rparr>) (erase_args as)"
| "erase (SwitchNode i as) = SwitchNode (i\<lparr>return_type := kUnknown\<rparr>) (erase_args as)"
| "erase (IfBlockNode i as) = IfBlockNode (i\<lparr>return_type := kUnknown\<rparr>) (erase_args as)"
| "erase (RefNode i nm) = RefNode (i\<lparr>return_type := kUnknown\<rparr>) nm"
| "erase_args [] = []"
| "erase_args (n # ns) = erase n # erase_args ns"
| "erase_named [] = []"
| "erase_named ((vi, n) # ns) = (vi, erase n) # erase_named ns"

lemma erase_SetReturnType [simp]: "erase (SetReturnType t n) = erase n"
  by (cases n) (simp_all add: SetReturnType_def)

lemma erase_Clone_aux:
  "erase (Clone n) = erase n" "erase_args (CloneArgs ns) = erase_args ns"
  "erase_named (CloneNamed vs) = erase_named vs"
  by (induction n and ns and vs rule: Clone_CloneArgs_CloneNamed.induct)
     (simp_all add: SetLocation_def new_info_def)

lemmas erase_Clone [simp] = erase_Clone_aux(1)

lemma NodeToString_erase_aux:
  "NodeToString p (erase n) = NodeToString p n" "NodesToString p (erase_args ns) = NodesToString p ns"
  "NamedToString p (erase_named vs) = NamedToString p vs"
  by (induction p n and p ns and p vs rule: NodeToString_NodesToString_NamedToString.induct)
     simp_all

lemma NodeToString_Clone [simp]: "NodeToString p (Clone n) = NodeToString p n"
  by (metis NodeToString_erase_aux(1) erase_Clone)

lemma Clone_idem_aux:
  "Clone (Clone n) = Clone n" "CloneArgs (CloneArgs ns) = CloneArgs ns"
  "CloneNamed (CloneNamed vs) = CloneNamed vs"
  by (induction n and ns and vs rule: Clone_CloneArgs_CloneNamed.induct)
     (simp_all add: SetLocation_def new_info_def)

lemma GetLocation_Clone [simp]: "GetLocation (Clone n) = GetLocation n"
  by (cases n) (simp_all add: GetLocation_def SetLocation_def)

end
