(* ===== verification/Registry.thy ===== *)
theory Registry
  imports Types
begin

text \<open>
  Model of include/function_registry.h and src/function_registry.cc: function signatures with
  their equality, hash and symbol name, the hash map from signatures to function structures, every
  Register operation, the lookup, the attribute pass and the symbol table handed to the JIT. A C
  function is its address, a code generating callback is its name (absent for an empty one).
\<close>

section \<open>Signatures\<close>

record signature =
  func_name :: string
  param_types :: "value_type list"
  ret_type :: value_type

definition FunctionSignature :: "string \<Rightarrow> value_type list \<Rightarrow> value_type \<Rightarrow> signature" where
  "FunctionSignature name params ret = \<lparr>func_name = name, param_types = params, ret_type = ret\<rparr>"

text \<open>operator==: sizes and names first, then the loop over the parameters; the return type is
  not compared.\<close>

definition sig_eq :: "signature \<Rightarrow> signature \<Rightarrow> bool" where
  "sig_eq a b =
     (if length (param_types a) \<noteq> length (param_types b) \<or> func_name a \<noteq> func_name b then False
      else list_all (\<lambda>idx. param_types a ! idx = param_types b ! idx) [0..<length (param_types a)])"

definition SetRetType :: "value_type \<Rightarrow> signature \<Rightarrow> signature" where
  "SetRetType t s = s\<lparr>ret_type := t\<rparr>"

text \<open>hash_combine_impl for a 64-bit \<open>size_t\<close>; the two standard hashes are parameters.\<close>

definition hash_combine_impl :: "u64 \<Rightarrow> u64 \<Rightarrow> u64" where
  "hash_combine_impl seed val =
     xor seed (val + 0x9e3779b9 + push_bit 6 seed + drop_bit 2 seed)"

definition Hash :: "(string \<Rightarrow> u64) \<Rightarrow> (u64 \<Rightarrow> u64) \<Rightarrow> signature \<Rightarrow> u64" where
  "Hash hash_str hash_u64 s =
     foldl (\<lambda>result t. hash_combine_impl result (hash_u64 (of_nat (value_type_code t))))
       (hash_combine_impl 17 (hash_str (func_name s))) (param_types s)"

text \<open>The loop of ToString: the separator is printed before every parameter but the first.\<close>

fun params_to_string :: "nat \<Rightarrow> value_type list \<Rightarrow> string" where
  "params_to_string i [] = []"
| "params_to_string i (t # ts) =
     (if i > 0 then '', '' else []) @ TypeToString t @ params_to_string (i + 1) ts"

definition SignatureToString :: "signature \<Rightarrow> string" where
  "SignatureToString s = func_name s @ ''('' @ params_to_string 0 (param_types s) @ '')''"

section \<open>The registry\<close>

datatype function_type = kLLVMIntrinicFunc | kCFunc

datatype attr_setter =
    NoAttrSetter
  | ReadOnlyFunctionAttributeSetter
  | CommutantFunctionAttributeSetter
  | StoreFunctionSetter u32

record function_structure =
  func_type :: function_type
  c_func_ptr :: u64
  codegen_func :: "string option"
  func_attr_setter :: attr_setter
  needs_exec_ctx :: bool

type_synonym registry = "(signature \<times> function_structure) list"

definition find_sig :: "registry \<Rightarrow> signature \<Rightarrow> (signature \<times> function_structure) option" where
  "find_sig reg s = find (\<lambda>(k, _). sig_eq k s) reg"

text \<open>\<open>map[key] = value\<close>: an equal key already present is kept as it is, only its value changes.\<close>

fun put_sig :: "signature \<Rightarrow> function_structure \<Rightarrow> registry \<Rightarrow> registry" where
  "put_sig s f [] = [(s, f)]"
| "put_sig s f ((k, g) # reg) = (if sig_eq k s then (k, f) # reg else (k, g) # put_sig s f reg)"

definition RegisterFunc :: "signature \<Rightarrow> function_structure \<Rightarrow> bool \<Rightarrow> registry \<Rightarrow> status \<times> registry" where
  "RegisterFunc sign st allow_override reg =
     (if func_type st = kLLVMIntrinicFunc \<and> codegen_func st = None then
        (InvalidArgument ''llvm instrinic function must supply codegen function'', reg)
      else if func_type st = kCFunc \<and> c_func_ptr st = 0 then
        (InvalidArgument ''c function must supply the c function address'', reg)
      else if \<not> allow_override \<and> find_sig reg sign \<noteq> None then
        (InvalidArgument (''function '' @ SignatureToString sign
           @ '' is already registered; pass allow_override=true to overwrite''), reg)
      else (OK, put_sig sign st reg))"

definition RegisterLLVMIntrinicFunc :: "signature \<Rightarrow> string option \<Rightarrow> bool \<Rightarrow> registry \<Rightarrow> status \<times> registry" where
  "RegisterLLVMIntrinicFunc sign codegen allow_override reg =
     (if codegen = None then (InvalidArgument ''codegen function is nullptr'', reg)
      else RegisterFunc sign
        \<lparr>func_type = kLLVMIntrinicFunc, c_func_ptr = 0, codegen_func = codegen,
         func_attr_setter = NoAttrSetter, needs_exec_ctx = False\<rparr> allow_override reg)"

definition c_struct :: "u64 \<Rightarrow> attr_setter \<Rightarrow> bool \<Rightarrow> function_structure" where
  "c_struct ptr setter ctx =
     \<lparr>func_type = kCFunc, c_func_ptr = ptr, codegen_func = None, func_attr_setter = setter,
      needs_exec_ctx = ctx\<rparr>"

definition RegisterReadOnlyCFunc :: "signature \<Rightarrow> u64 \<Rightarrow> bool \<Rightarrow> registry \<Rightarrow> status \<times> registry" where
  "RegisterReadOnlyCFunc sign ptr allow_override reg =
     (if ptr = 0 then (InvalidArgument ''c_func_ptr is nullptr'', reg)
      else RegisterFunc sign (c_struct ptr ReadOnlyFunctionAttributeSetter False) allow_override reg)"

text \<open>The signature with the trailing \<open>kPtr\<close> parameter, under which the symbol is linked.\<close>

definition legacy_sign :: "signature \<Rightarrow> signature" where
  "legacy_sign s = FunctionSignature (func_name s) (param_types s @ [kPtr]) (ret_type s)"

definition RegisterReadOnlyCFuncWithExecCtx :: "signature \<Rightarrow> u64 \<Rightarrow> bool \<Rightarrow> registry \<Rightarrow> status \<times> registry" where
  "RegisterReadOnlyCFuncWithExecCtx sign ptr allow_override reg =
     (if ptr = 0 then (InvalidArgument ''c_func_ptr is nullptr'', reg)
      else (case RegisterFunc sign (c_struct ptr ReadOnlyFunctionAttributeSetter True) allow_override reg of
          (st, reg1) \<Rightarrow>
            if \<not> ok st then (st, reg1)
            else RegisterFunc (legacy_sign sign) (c_struct ptr ReadOnlyFunctionAttributeSetter False)
                   allow_override reg1))"

definition RegisterStoreCFunc :: "signature \<Rightarrow> u64 \<Rightarrow> u32 \<Rightarrow> bool \<Rightarrow> registry \<Rightarrow> status \<times> registry" where
  "RegisterStoreCFunc sign ptr store_args_index allow_override reg =
     (if ptr = 0 then (InvalidArgument ''c_func_ptr is nullptr'', reg)
      else RegisterFunc sign (c_struct ptr (StoreFunctionSetter store_args_index) False) allow_override reg)"

definition RegisterCommutativeCFunc :: "signature \<Rightarrow> u64 \<Rightarrow> bool \<Rightarrow> registry \<Rightarrow> status \<times> registry" where
  "RegisterCommutativeCFunc sign ptr allow_override reg =
     (if ptr = 0 then (InvalidArgument ''c_func_ptr is nullptr'', reg)
      else RegisterFunc sign (c_struct ptr CommutantFunctionAttributeSetter False) allow_override reg)"

definition RegisterCommutativeCFuncWithExecCtx :: "signature \<Rightarrow> u64 \<Rightarrow> bool \<Rightarrow> registry \<Rightarrow> status \<times> registry" where
  "RegisterCommutativeCFuncWithExecCtx sign ptr allow_override reg =
     (if ptr = 0 then (InvalidArgument ''c_func_ptr is nullptr'', reg)
      else (case RegisterFunc sign (c_struct ptr CommutantFunctionAttributeSetter True) allow_override reg of
          (st, reg1) \<Rightarrow>
            if \<not> ok st then (st, reg1)
            else RegisterFunc (legacy_sign sign) (c_struct ptr CommutantFunctionAttributeSetter False)
                   allow_override reg1))"

definition GetFuncBySign :: "registry \<Rightarrow> signature \<Rightarrow> status + (signature \<times> function_structure)" where
  "GetFuncBySign reg s =
     (case find_sig reg s of
        None \<Rightarrow> Inl (RuntimeError (''function '' @ SignatureToString s @ '' not found''))
      | Some (k, f) \<Rightarrow> Inr (SetRetType (ret_type k) s, f))"

text \<open>SetCFuncAttr: the setters applied, in iteration order, to the functions the module declares.\<close>

definition SetCFuncAttr :: "registry \<Rightarrow> (string \<Rightarrow> bool) \<Rightarrow> (string \<times> attr_setter) list" where
  "SetCFuncAttr reg declared =
     map (\<lambda>(s, f). (SignatureToString s, func_attr_setter f))
       (filter (\<lambda>(s, f). \<not> func_type f = kLLVMIntrinicFunc \<and> \<not> needs_exec_ctx f
          \<and> declared (SignatureToString s) \<and> func_attr_setter f \<noteq> NoAttrSetter) reg)"

text \<open>MappingToJIT: the symbols defined in the JIT library; \<open>try_emplace\<close> keeps the first.\<close>

definition map_symbol :: "signature \<times> function_structure \<Rightarrow> (string \<times> u64) list \<Rightarrow> (string \<times> u64) list" where
  "map_symbol e symbols =
     (case e of (s, f) \<Rightarrow>
        if func_type f = kLLVMIntrinicFunc then symbols
        else if needs_exec_ctx f then symbols
        else if map_of symbols (SignatureToString s) \<noteq> None then symbols
        else symbols @ [(SignatureToString s, c_func_ptr f)])"

definition MappingToJIT :: "registry \<Rightarrow> (string \<times> u64) list" where
  "MappingToJIT reg = fold map_symbol reg []"

section \<open>Equality, hash and symbol names\<close>

definition sig_key :: "signature \<Rightarrow> string \<times> value_type list" where
  "sig_key s = (func_name s, param_types s)"

lemma sig_eq_iff: "sig_eq a b \<longleftrightarrow> sig_key a = sig_key b"
  by (auto simp: sig_eq_def sig_key_def list_all_iff intro: nth_equalityI)

lemma sig_key_simps [simp]:
  "sig_key (FunctionSignature n ps t) = (n, ps)" "sig_key (SetRetType t s) = sig_key s"
  "sig_key (legacy_sign s) = (func_name s, param_types s @ [kPtr])"
  by (simp_all add: sig_key_def FunctionSignature_def SetRetType_def legacy_sign_def)

lemma Hash_respects_eq: "sig_eq a b \<Longrightarrow> Hash hs hu a = Hash hs hu b"
  by (simp add: sig_eq_iff sig_key_def Hash_def)

lemma last_separator:
  "c \<notin> set ys \<Longrightarrow> c \<notin> set ys' \<Longrightarrow> xs @ c # ys = xs' @ c # ys' \<longleftrightarrow> xs = xs' \<and> ys = ys'"
  by (auto simp: append_eq_append_conv2 append_eq_Cons_conv Cons_eq_append_conv)

lemma params_to_string_no_paren: "CHR ''('' \<notin> set (params_to_string i ts)"
  by (induction i ts rule: params_to_string.induct) (simp_all add: TypeToString_no_punct)

lemma params_to_string_Suc:
  "params_to_string (Suc i) ts = [] \<and> ts = [] \<or> hd (params_to_string (Suc i) ts) = CHR '',''"
  by (cases ts) auto

lemma takeWhile_head:
  assumes "c \<notin> set xs" "zs = [] \<or> hd zs = c"
  shows "takeWhile (\<lambda>x. x \<noteq> c) (xs @ zs) = xs"
  using assms by (cases zs) (auto simp: takeWhile_append)

lemma params_head:
  "takeWhile (\<lambda>x. x \<noteq> CHR '','') (TypeToString t @ params_to_string (Suc i) ts) = TypeToString t"
  using params_to_string_Suc [of i ts] by (intro takeWhile_head) (auto simp: TypeToString_no_punct)

lemma params_to_string_inject:
  "params_to_string i ts = params_to_string i us \<Longrightarrow> ts = us"
proof (induction ts arbitrary: i us)
  case Nil
  then show ?case by (cases us) (auto split: if_splits)
next
  case (Cons t ts)
  then obtain u us' where us: "us = u # us'" by (cases us) (auto split: if_splits)
  with Cons.prems have eq: "TypeToString t @ params_to_string (Suc i) ts = TypeToString u @ params_to_string (Suc i) us'"
    by (auto split: if_splits)
  then have "TypeToString t = TypeToString u" by (metis params_head)
  with eq us Cons.IH show ?case by auto
qed

lemma SignatureToString_inject:
  "SignatureToString a = SignatureToString b \<longleftrightarrow> sig_key a = sig_key b"
proof
  assume "SignatureToString a = SignatureToString b"
  then have "(func_name a @ CHR ''('' # params_to_string 0 (param_types a)) @ '')'' =
      (func_name b @ CHR ''('' # params_to_string 0 (param_types b)) @ '')''"
    by (simp add: SignatureToString_def)
  then have "func_name a @ CHR ''('' # params_to_string 0 (param_types a) =
      func_name b @ CHR ''('' # params_to_string 0 (param_types b)"
    by (rule append_same_eq [THEN iffD1])
  then have "func_name a = func_name b \<and> params_to_string 0 (param_types a) = params_to_string 0 (param_types b)"
    by (simp add: last_separator params_to_string_no_paren)
  then show "sig_key a = sig_key b" by (auto simp: sig_key_def dest: params_to_string_inject)
qed (simp add: SignatureToString_def sig_key_def)

section \<open>Lookup after registration\<close>

definition reg_keys :: "registry \<Rightarrow> (string \<times> value_type list) list" where
  "reg_keys reg = map (sig_key \<circ> fst) reg"

definition struct_ok :: "function_structure \<Rightarrow> bool" where
  "struct_ok f \<longleftrightarrow> (if func_type f = kLLVMIntrinicFunc then codegen_func f \<noteq> None else c_func_ptr f \<noteq> 0)"

definition reg_inv :: "registry \<Rightarrow> bool" where
  "reg_inv reg \<longleftrightarrow> distinct (reg_keys reg) \<and> (\<forall>(s, f)\<in>set reg. struct_ok f)"

lemma reg_inv_empty [simp]: "reg_inv []"
  by (simp add: reg_inv_def reg_keys_def)

lemma find_sig_None_iff: "find_sig reg s = None \<longleftrightarrow> sig_key s \<notin> set (reg_keys reg)"
  by (force simp: find_sig_def find_None_iff sig_eq_iff reg_keys_def)

lemma find_sig_Some_in: "find_sig reg s = Some (k, f) \<Longrightarrow> (k, f) \<in> set reg \<and> sig_key k = sig_key s"
  by (auto simp: find_sig_def find_Some_iff sig_eq_iff) (metis nth_mem)

lemma find_sig_unique:
  "distinct (reg_keys reg) \<Longrightarrow> (k, f) \<in> set reg \<Longrightarrow> sig_key k = sig_key s \<Longrightarrow> find_sig reg s = Some (k, f)"
  by (induction reg) (auto simp: find_sig_def reg_keys_def sig_eq_iff image_iff)

lemma find_sig_put:
  "find_sig (put_sig s f reg) q =
     (if sig_key q = sig_key s then Some (case find_sig reg s of Some (k, _) \<Rightarrow> (k, f) | None \<Rightarrow> (s, f))
      else find_sig reg q)"
  by (induction s f reg rule: put_sig.induct) (auto simp: find_sig_def sig_eq_iff)

lemma reg_keys_put:
  "reg_keys (put_sig s f reg) = (if sig_key s \<in> set (reg_keys reg) then reg_keys reg else reg_keys reg @ [sig_key s])"
  by (induction s f reg rule: put_sig.induct) (auto simp: reg_keys_def sig_eq_iff)

lemma set_put: "set (put_sig s f reg) \<subseteq> {(k, g). (k, g) \<in> set reg \<or> g = f}"
  by (induction s f reg rule: put_sig.induct) auto

lemma reg_inv_put: "reg_inv reg \<Longrightarrow> struct_ok f \<Longrightarrow> reg_inv (put_sig s f reg)"
  using set_put [of s f reg] by (fastforce simp: reg_inv_def reg_keys_put)

lemma ok_RegisterFunc:
  "ok (fst (RegisterFunc s f ov reg)) \<longleftrightarrow> struct_ok f \<and> (ov \<or> sig_key s \<notin> set (reg_keys reg))"
  by (cases "func_type f") (auto simp: RegisterFunc_def struct_ok_def find_sig_None_iff)

lemma RegisterFunc_result:
  "snd (RegisterFunc s f ov reg) = (if ok (fst (RegisterFunc s f ov reg)) then put_sig s f reg else reg)"
  by (simp add: RegisterFunc_def)

lemma reg_inv_RegisterFunc: "reg_inv reg \<Longrightarrow> reg_inv (snd (RegisterFunc s f ov reg))"
  by (auto simp: RegisterFunc_result ok_RegisterFunc reg_inv_put)

lemma RegisterFunc_cases:
  obtains st where "RegisterFunc s f ov reg = (st, reg)" "\<not> ok st"
  | "RegisterFunc s f ov reg = (OK, put_sig s f reg)" "struct_ok f"
  using ok_RegisterFunc [of s f ov reg] by (auto simp: RegisterFunc_def struct_ok_def split: if_splits)

lemma reg_inv_operations:
  assumes "reg_inv reg"
  shows "reg_inv (snd (RegisterLLVMIntrinicFunc s cg ov reg))"
    and "reg_inv (snd (RegisterReadOnlyCFunc s p ov reg))"
    and "reg_inv (snd (RegisterStoreCFunc s p i ov reg))"
    and "reg_inv (snd (RegisterCommutativeCFunc s p ov reg))"
    and "reg_inv (snd (RegisterReadOnlyCFuncWithExecCtx s p ov reg))"
    and "reg_inv (snd (RegisterCommutativeCFuncWithExecCtx s p ov reg))"
  using assms reg_inv_RegisterFunc
  by (auto simp: RegisterLLVMIntrinicFunc_def RegisterReadOnlyCFunc_def RegisterStoreCFunc_def
      RegisterCommutativeCFunc_def RegisterReadOnlyCFuncWithExecCtx_def
      RegisterCommutativeCFuncWithExecCtx_def split: prod.splits) (metis snd_conv)+

lemma GetFuncBySign_found:
  "GetFuncBySign reg s = Inr (s', f) \<longleftrightarrow>
     (\<exists>k. find_sig reg s = Some (k, f) \<and> s' = SetRetType (ret_type k) s)"
  by (auto simp: GetFuncBySign_def split: option.splits)

lemma GetFuncBySign_sig_key: "sig_key a = sig_key b \<Longrightarrow> GetFuncBySign reg a = Inr (a', f) \<Longrightarrow>
    \<exists>b'. GetFuncBySign reg b = Inr (b', f) \<and> ret_type b' = ret_type a'"
  by (auto simp: GetFuncBySign_found find_sig_def sig_eq_iff SetRetType_def)

section \<open>A table of functions, as the visitors and the initialisers use it\<close>

text \<open>The interface: registration of a fresh signature succeeds and makes exactly that signature
  resolvable; an occupied one is refused.\<close>

locale function_table =
  fixes valid :: "'r \<Rightarrow> bool"
    and register :: "signature \<Rightarrow> function_structure \<Rightarrow> 'r \<Rightarrow> status \<times> 'r"
    and resolve :: "'r \<Rightarrow> (string \<times> value_type list) \<Rightarrow> function_structure option"
    and good :: "function_structure \<Rightarrow> bool"
  assumes register_fresh: "valid r \<Longrightarrow> good f \<Longrightarrow> resolve r (sig_key s) = None \<Longrightarrow>
      \<exists>r'. register s f r = (OK, r') \<and> valid r' \<and> resolve r' = (resolve r)(sig_key s \<mapsto> f)"
    and register_taken: "valid r \<Longrightarrow> resolve r (sig_key s) \<noteq> None \<Longrightarrow> \<not> ok (fst (register s f r))"
begin

text \<open>A sequence of registrations with the early return of JF_RETURN_NOT_OK.\<close>

fun register_all :: "(signature \<times> function_structure) list \<Rightarrow> 'r \<Rightarrow> status \<times> 'r" where
  "register_all [] r = (OK, r)"
| "register_all ((s, f) # es) r =
     (case register s f r of (st, r') \<Rightarrow> if ok st then register_all es r' else (st, r'))"

lemma register_all_succeeds:
  assumes "valid r" "\<forall>(s, f)\<in>set es. good f" "distinct (map (sig_key \<circ> fst) es)"
    and "\<forall>(s, f)\<in>set es. resolve r (sig_key s) = None"
  shows "\<exists>r'. register_all es r = (OK, r') \<and> valid r'
      \<and> resolve r' = resolve r ++ map_of (map (\<lambda>(s, f). (sig_key s, f)) es)"
  using assms
proof (induction es arbitrary: r)
  case Nil
  then show ?case by simp
next
  case (Cons e es)
  obtain s f where e: "e = (s, f)" by force
  from Cons.prems e register_fresh [of r f s] obtain r1 where r1: "register s f r = (OK, r1)"
    "valid r1" "resolve r1 = (resolve r)(sig_key s \<mapsto> f)" by auto
  have none: "\<forall>(s', f')\<in>set es. resolve r1 (sig_key s') = None"
    using Cons.prems e r1(3) by (fastforce simp: image_iff)
  have "\<exists>r'. register_all es r1 = (OK, r') \<and> valid r'
      \<and> resolve r' = resolve r1 ++ map_of (map (\<lambda>(s, f). (sig_key s, f)) es)"
    using Cons.prems by (intro Cons.IH [OF r1(2) _ _ none]) auto
  moreover have "map_of (map (\<lambda>(s, f). (sig_key s, f)) es) (sig_key s) = None"
    using Cons.prems e by (auto simp: map_of_eq_None_iff image_iff split: prod.splits)
  ultimately show ?case
    using e r1 by (auto simp: map_add_upd_left domIff) (simp add: map_add_def fun_eq_iff)
qed

lemma register_all_duplicate:
  assumes "valid r" "good f" "resolve r (sig_key s) = None"
  shows "\<not> ok (fst (register_all [(s, f), (s, g)] r))"
proof -
  obtain r' where "register s f r = (OK, r')" "valid r'" "resolve r' (sig_key s) \<noteq> None"
    using register_fresh [OF assms] by auto
  then show ?thesis using register_taken [of r' s g] by (auto split: prod.splits)
qed

end

definition resolve_key :: "registry \<Rightarrow> (string \<times> value_type list) \<Rightarrow> function_structure option" where
  "resolve_key reg k = map_option snd (find_sig reg (FunctionSignature (fst k) (snd k) kUnknown))"

lemma resolve_key_sig: "resolve_key reg (sig_key s) = map_option snd (find_sig reg s)"
  by (simp add: resolve_key_def find_sig_def sig_eq_iff)

lemma resolve_key_put: "resolve_key (put_sig s f reg) = (resolve_key reg)(sig_key s \<mapsto> f)"
  by (auto simp: resolve_key_def fun_eq_iff find_sig_put split: option.splits)

interpretation registry_table: function_table reg_inv "\<lambda>s f r. RegisterFunc s f False r" resolve_key struct_ok
proof
  fix r f s
  assume *: "reg_inv r" "struct_ok f" "resolve_key r (sig_key s) = None"
  then have "find_sig r s = None" by (simp add: resolve_key_sig)
  with * have "RegisterFunc s f False r = (OK, put_sig s f r)"
    by (auto simp: RegisterFunc_def struct_ok_def)
  with * show "\<exists>r'. RegisterFunc s f False r = (OK, r') \<and> reg_inv r' \<and> resolve_key r' = (resolve_key r)(sig_key s \<mapsto> f)"
    by (simp add: reg_inv_put resolve_key_put)
next
  fix r s f
  assume "resolve_key r (sig_key s) \<noteq> None"
  then show "\<not> ok (fst (RegisterFunc s f False r))"
    by (simp add: ok_RegisterFunc resolve_key_sig find_sig_None_iff)
qed

section \<open>Symbols\<close>

lemma map_of_MappingToJIT_aux:
  assumes "distinct (reg_keys reg)" "\<forall>(s, f)\<in>set reg. map_of acc (SignatureToString s) = None"
  shows "map_of (fold map_symbol reg acc) symb = Some p
     \<longleftrightarrow> map_of acc symb = Some p \<or>
       (\<exists>s f. (s, f) \<in> set reg \<and> func_type f = kCFunc \<and> \<not> needs_exec_ctx f
          \<and> symb = SignatureToString s \<and> p = c_func_ptr f)"
  using assms
proof (induction reg arbitrary: acc)
  case Nil
  then show ?case by simp
next
  case (Cons e reg)
  obtain s f where e: "e = (s, f)" by force
  have names: "SignatureToString s' \<noteq> SignatureToString s" if "(s', f') \<in> set reg" for s' f'
    using Cons.prems(1) that e by (force simp: reg_keys_def SignatureToString_inject)
  show ?case
  proof (cases "func_type f = kLLVMIntrinicFunc \<or> needs_exec_ctx f")
    case True
    with Cons e show ?thesis by (auto simp: reg_keys_def map_symbol_def)
  next
    case False
    then have cf: "func_type f = kCFunc" by (cases "func_type f") auto
    let ?acc = "acc @ [(SignatureToString s, c_func_ptr f)]"
    have none: "\<forall>(s', f')\<in>set reg. map_of ?acc (SignatureToString s') = None"
      using Cons.prems(2) e names by (auto simp: map_add_def split: option.splits)
    have fresh: "map_of acc (SignatureToString s) = None" using Cons.prems(2) e by auto
    have split: "map_of ?acc symb = Some p \<longleftrightarrow> map_of acc symb = Some p \<or> symb = SignatureToString s \<and> p = c_func_ptr f"
      using fresh by (auto simp: map_add_def split: option.splits)
    have "distinct (reg_keys reg)" using Cons.prems(1) by (simp add: reg_keys_def)
    from Cons.IH [OF this none] False cf e fresh split show ?thesis by (auto simp: map_symbol_def)
  qed
qed

lemma MappingToJIT_spec:
  assumes "reg_inv reg"
  shows "map_of (MappingToJIT reg) symb = Some p \<longleftrightarrow>
       (\<exists>s f. (s, f) \<in> set reg \<and> func_type f = kCFunc \<and> \<not> needs_exec_ctx f
          \<and> symb = SignatureToString s \<and> p = c_func_ptr f)"
  using assms map_of_MappingToJIT_aux [of reg "[]"] by (auto simp: MappingToJIT_def reg_inv_def)

text \<open>Every function whose call is completed with the context is linked under its legacy symbol.\<close>

definition ctx_closed :: "registry \<Rightarrow> bool" where
  "ctx_closed reg \<longleftrightarrow> (\<forall>(s, f)\<in>set reg. func_type f = kCFunc \<and> needs_exec_ctx f \<longrightarrow>
     (\<exists>g. find_sig reg (legacy_sign s) = Some g \<and> func_type (snd g) = kCFunc \<and> \<not> needs_exec_ctx (snd g)))"

end
