(* ===== verification/ScopeStack.thy ===== *)
theory ScopeStack
  imports Prelude
begin

text \<open>
  Model of src/scope_stack.h: the class template ScopeStack, a vector of hash maps from names to
  values. The head of the list is the innermost scope (\<open>stack_.back()\<close>). The validator keeps types
  in such a stack and the code generator keeps values in another; the locale \<open>scoped_store\<close> states
  what both rely on, and \<open>rel_stack\<close> relates two stacks of different value types.
\<close>

section \<open>The operations\<close>

type_synonym 'v scope = "(string \<times> 'v) list"
type_synonym 'v scope_stack = "'v scope list"

definition ScopeStackInit :: "'v scope_stack" where
  "ScopeStackInit = [[]]"

definition PushScope :: "'v scope_stack \<Rightarrow> 'v scope_stack" where
  "PushScope stack = [] # stack"

definition PopScope :: "'v scope_stack \<Rightarrow> 'v scope_stack" where
  "PopScope stack = tl stack"

text \<open>\<open>stack_.back()\<close> of an empty vector is undefined; \<open>stack_ok\<close> below excludes it.\<close>

definition SetVar :: "string \<Rightarrow> 'v \<Rightarrow> 'v scope_stack \<Rightarrow> 'v scope_stack" where
  "SetVar name val stack =
     (case stack of [] \<Rightarrow> [] | inner # rest \<Rightarrow> AList.update name val inner # rest)"

fun Lookup :: "'v scope_stack \<Rightarrow> string \<Rightarrow> 'v option" where
  "Lookup [] name = None"
| "Lookup (inner # rest) name =
     (case map_of inner name of Some v \<Rightarrow> Some v | None \<Rightarrow> Lookup rest name)"

definition declared_in :: "'v scope_stack \<Rightarrow> string \<Rightarrow> bool" where
  "declared_in stack name \<longleftrightarrow> list_ex (\<lambda>sc. map_of sc name \<noteq> None) stack"

definition GetShadowed :: "'v scope_stack \<Rightarrow> 'v scope" where
  "GetShadowed stack =
     (case stack of [] \<Rightarrow> []
      | inner # rest \<Rightarrow> filter (\<lambda>(name, val). declared_in rest name) inner)"

definition stack_ok :: "'v scope_stack \<Rightarrow> bool" where
  "stack_ok stack \<longleftrightarrow> stack \<noteq> [] \<and> (\<forall>sc\<in>set stack. distinct (map fst sc))"

lemma stack_ok_init [simp]: "stack_ok ScopeStackInit"
  by (simp add: stack_ok_def ScopeStackInit_def)

lemma stack_ok_push [simp]: "stack_ok s \<Longrightarrow> stack_ok (PushScope s)"
  by (simp add: stack_ok_def PushScope_def)

lemma stack_ok_set [simp]: "stack_ok s \<Longrightarrow> stack_ok (SetVar n v s)"
  by (cases s) (auto simp: stack_ok_def SetVar_def distinct_update)

lemma pop_push [simp]: "PopScope (PushScope s) = s"
  by (simp add: PopScope_def PushScope_def)

lemma pop_set [simp]: "PopScope (SetVar n v s) = PopScope s"
  by (cases s) (simp_all add: PopScope_def SetVar_def)

lemma Lookup_push [simp]: "Lookup (PushScope s) n = Lookup s n"
  by (simp add: PushScope_def)

lemma Lookup_init [simp]: "Lookup ScopeStackInit n = None"
  by (simp add: ScopeStackInit_def)

lemma Lookup_set: "s \<noteq> [] \<Longrightarrow> Lookup (SetVar n v s) m = (if m = n then Some v else Lookup s m)"
  by (cases s) (auto simp: SetVar_def map_of_update)

lemma declared_iff_Lookup: "declared_in s n \<longleftrightarrow> Lookup s n \<noteq> None"
  by (induction s) (auto simp: declared_in_def split: option.splits)

lemma length_push [simp]: "length (PushScope s) = Suc (length s)"
  by (simp add: PushScope_def)

lemma length_set [simp]: "length (SetVar n v s) = length s"
  by (cases s) (simp_all add: SetVar_def)

lemma length_pop [simp]: "length (PopScope s) = length s - 1"
  by (simp add: PopScope_def)

lemma set_eq_Nil [simp]: "SetVar n v s = [] \<longleftrightarrow> s = []"
  by (cases s) (simp_all add: SetVar_def)

lemma push_not_Nil [simp]: "PushScope s \<noteq> []"
  by (simp add: PushScope_def)

lemma map_of_GetShadowed:
  "s \<noteq> [] \<Longrightarrow> map_of (GetShadowed s) n =
     (if declared_in (PopScope s) n then map_of (hd s) n else None)"
proof (cases s)
  case (Cons inner rest)
  have "map_of (filter (\<lambda>(name, val). declared_in rest name) inner) n =
      (if declared_in rest n then map_of inner n else None)"
    by (induction inner) auto
  with Cons show ?thesis by (simp add: GetShadowed_def PopScope_def)
qed simp

section \<open>The interface the visitors rely on\<close>

locale scoped_store =
  fixes empty :: "'s"
    and push :: "'s \<Rightarrow> 's"
    and pop :: "'s \<Rightarrow> 's"
    and assign :: "string \<Rightarrow> 'v \<Rightarrow> 's \<Rightarrow> 's"
    and lookup :: "'s \<Rightarrow> string \<Rightarrow> 'v option"
    and valid :: "'s \<Rightarrow> bool"
  assumes valid_empty: "valid empty"
    and valid_push: "valid s \<Longrightarrow> valid (push s)"
    and valid_assign: "valid s \<Longrightarrow> valid (assign n v s)"
    and lookup_empty: "lookup empty n = None"
    and lookup_push: "valid s \<Longrightarrow> lookup (push s) n = lookup s n"
    and lookup_assign: "valid s \<Longrightarrow> lookup (assign n v s) m = (if m = n then Some v else lookup s m)"
    and pop_push_id: "valid s \<Longrightarrow> pop (push s) = s"
    and pop_assign_id: "valid s \<Longrightarrow> pop (assign n v s) = pop s"
begin

text \<open>Assignments of a block, in order.\<close>

definition assign_all :: "(string \<times> 'v) list \<Rightarrow> 's \<Rightarrow> 's" where
  "assign_all kvs s = fold (\<lambda>(n, v). assign n v) kvs s"

lemma valid_assign_all: "valid s \<Longrightarrow> valid (assign_all kvs s)"
  by (induction kvs arbitrary: s) (auto simp: assign_all_def valid_assign)

lemma pop_assign_all: "valid s \<Longrightarrow> pop (assign_all kvs s) = pop s"
  by (induction kvs arbitrary: s) (auto simp: assign_all_def valid_assign pop_assign_id)

text \<open>A block that only assigns in its own scope leaves the enclosing scopes untouched.\<close>

lemma block_isolated: "valid s \<Longrightarrow> pop (assign_all kvs (push s)) = s"
  by (simp add: pop_assign_all pop_push_id valid_push)

lemma lookup_assign_all:
  "valid s \<Longrightarrow> lookup (assign_all kvs s) n =
     (case map_of (rev kvs) n of Some v \<Rightarrow> Some v | None \<Rightarrow> lookup s n)"
proof (induction kvs arbitrary: s)
  case Nil
  then show ?case by (simp add: assign_all_def)
next
  case (Cons kv kvs)
  obtain k v where kv: "kv = (k, v)" by force
  have "lookup (assign_all kvs (assign k v s)) n =
      (case map_of (rev kvs) n of Some v \<Rightarrow> Some v | None \<Rightarrow> lookup (assign k v s) n)"
    using Cons.IH Cons.prems valid_assign by blast
  with Cons.prems kv show ?case
    by (auto simp: assign_all_def lookup_assign map_add_def split: option.splits)
qed

lemma lookup_block_visible:
  "valid s \<Longrightarrow> n \<notin> fst ` set kvs \<Longrightarrow> lookup (assign_all kvs (push s)) n = lookup s n"
  by (simp add: lookup_assign_all valid_push lookup_push map_of_eq_None_iff [THEN iffD2])

end

interpretation scopes: scoped_store ScopeStackInit PushScope PopScope SetVar Lookup stack_ok
  by unfold_locales (auto simp: Lookup_set stack_ok_def [of s for s] ScopeStackInit_def
      PushScope_def SetVar_def distinct_update PopScope_def map_of_update split: list.splits)

section \<open>Two stacks side by side\<close>

definition rel_scope :: "('a \<Rightarrow> 'b \<Rightarrow> bool) \<Rightarrow> 'a scope \<Rightarrow> 'b scope \<Rightarrow> bool" where
  "rel_scope R a b \<longleftrightarrow> (\<forall>n. rel_option R (map_of a n) (map_of b n))"

definition rel_stack :: "('a \<Rightarrow> 'b \<Rightarrow> bool) \<Rightarrow> 'a scope_stack \<Rightarrow> 'b scope_stack \<Rightarrow> bool" where
  "rel_stack R s t \<longleftrightarrow> s \<noteq> [] \<and> list_all2 (rel_scope R) s t"

lemma rel_stack_init [simp]: "rel_stack R ScopeStackInit ScopeStackInit"
  by (simp add: rel_stack_def rel_scope_def ScopeStackInit_def)

lemma rel_stack_push [simp]: "rel_stack R s t \<Longrightarrow> rel_stack R (PushScope s) (PushScope t)"
  by (simp add: rel_stack_def rel_scope_def PushScope_def)

lemma rel_scope_update:
  "rel_scope R a b \<Longrightarrow> R x y \<Longrightarrow> rel_scope R (AList.update n x a) (AList.update n y b)"
  by (auto simp: rel_scope_def map_of_update)

lemma rel_stack_set: "rel_stack R s t \<Longrightarrow> R x y \<Longrightarrow> rel_stack R (SetVar n x s) (SetVar n y t)"
  by (cases s; cases t) (auto simp: rel_stack_def SetVar_def rel_scope_update)

lemma rel_stack_not_Nil: "rel_stack R s t \<Longrightarrow> s \<noteq> [] \<and> t \<noteq> []"
  by (auto simp: rel_stack_def)

lemma rel_stack_Lookup: "rel_stack R s t \<Longrightarrow> rel_option R (Lookup s n) (Lookup t n)"
proof -
  have "list_all2 (rel_scope R) s t \<Longrightarrow> rel_option R (Lookup s n) (Lookup t n)"
  proof (induction rule: list_all2_induct)
    case (Cons x xs y ys)
    from Cons(1) have "rel_option R (map_of x n) (map_of y n)" by (simp add: rel_scope_def)
    with Cons(3) show ?case by (cases "map_of x n"; cases "map_of y n") auto
  qed simp
  then show "rel_stack R s t \<Longrightarrow> rel_option R (Lookup s n) (Lookup t n)" by (simp add: rel_stack_def)
qed

lemma rel_stack_declared: "rel_stack R s t \<Longrightarrow> declared_in s n \<longleftrightarrow> declared_in t n"
  using rel_stack_Lookup [of R s t n] by (cases "Lookup s n"; cases "Lookup t n") (auto simp: declared_iff_Lookup)

lemma rel_stack_pop: "rel_stack R s t \<Longrightarrow> 1 < length s \<Longrightarrow> rel_stack R (PopScope s) (PopScope t)"
  by (cases s; cases t) (auto simp: rel_stack_def PopScope_def)

lemma rel_stack_shadowed:
  assumes "rel_stack R s t" "1 < length s"
  shows "rel_scope R (GetShadowed s) (GetShadowed t)"
proof -
  have "rel_scope R (hd s) (hd t)"
    using assms by (cases s; cases t) (auto simp: rel_stack_def)
  with assms rel_stack_not_Nil [OF assms(1)] rel_stack_declared [OF rel_stack_pop [OF assms]]
  show ?thesis by (auto simp: rel_scope_def map_of_GetShadowed)
qed

end
