(* ===== verification/Validator.thy ===== *)
theory Validator
  imports ExecNode Registry ScopeStack
begin

text \<open>
  Model of src/validator.h and src/validator.cc: the visitor that computes the return type of
  every node, checks operand types and keeps the types of the variables in a scope stack. A visit
  returns the error status or the annotated node with the scope stack after it. The loops over
  argument vectors are the functions on lists beside \<open>visit\<close>.
\<close>

section \<open>Errors and variables\<close>

definition MakeParseError :: "exec_node \<Rightarrow> string \<Rightarrow> status" where
  "MakeParseError node message = ParseError (Render (MakeDiagnostic kError message (GetLocation node)))"

definition TypeMismatchMessage :: "string \<Rightarrow> value_type \<Rightarrow> value_type \<Rightarrow> string" where
  "TypeMismatchMessage nm old_type new_type =
     ''cannot assign '' @ TypeToString new_type @ '' to variable '' @ [CHR 0x27] @ nm @ [CHR 0x27]
     @ '' of type '' @ TypeToString old_type"

definition quoted :: "string \<Rightarrow> string" where
  "quoted s = [CHR 0x27] @ s @ [CHR 0x27]"

record var_entry =
  ve_type :: value_type
  ve_const :: bool

definition VarEntry :: "value_type \<Rightarrow> bool \<Rightarrow> var_entry" where
  "VarEntry t c = \<lparr>ve_type = t, ve_const = c\<rparr>"

datatype set_var_result = kSetOk | kConstReassign | kRedeclare | kTypeMismatch

type_synonym type_stack = "var_entry scope_stack"

definition TrySetVar :: "string \<Rightarrow> value_type \<Rightarrow> bool \<Rightarrow> type_stack \<Rightarrow> set_var_result \<times> type_stack" where
  "TrySetVar nm t const stack =
     (case Lookup stack nm of
        Some entry \<Rightarrow>
          if ve_const entry then (kConstReassign, stack)
          else if const then (kRedeclare, stack)
          else if ve_type entry \<noteq> t then (kTypeMismatch, stack)
          else (kSetOk, SetVar nm (VarEntry t const) stack)
      | None \<Rightarrow> (kSetOk, SetVar nm (VarEntry t const) stack))"

section \<open>Node-local checks\<close>

fun ConstantValueVisitor :: "const_value \<Rightarrow> value_type" where
  "ConstantValueVisitor (CI8 _) = kI8"
| "ConstantValueVisitor (CI16 _) = kI16"
| "ConstantValueVisitor (CI32 _) = kI32"
| "ConstantValueVisitor (CI64 _) = kI64"
| "ConstantValueVisitor (CU8 _) = kU8"
| "ConstantValueVisitor (CU16 _) = kU16"
| "ConstantValueVisitor (CU32 _) = kU32"
| "ConstantValueVisitor (CU64 _) = kU64"
| "ConstantValueVisitor (CF32 _) = kF32"
| "ConstantValueVisitor (CF64 _) = kF64"
| "ConstantValueVisitor (CString _) = kString"

fun ConstantListValueVisitor :: "const_list \<Rightarrow> value_type" where
  "ConstantListValueVisitor (LI8 _) = kI8List"
| "ConstantListValueVisitor (LI16 _) = kI16List"
| "ConstantListValueVisitor (LI32 _) = kI32List"
| "ConstantListValueVisitor (LI64 _) = kI64List"
| "ConstantListValueVisitor (LU8 _) = kU8List"
| "ConstantListValueVisitor (LU16 _) = kU16List"
| "ConstantListValueVisitor (LU32 _) = kU32List"
| "ConstantListValueVisitor (LU64 _) = kU64List"
| "ConstantListValueVisitor (LF32 _) = kF32List"
| "ConstantListValueVisitor (LF64 _) = kF64List"
| "ConstantListValueVisitor (LString _) = kStringList"

definition unary_minus_type :: "value_type \<Rightarrow> status + value_type" where
  "unary_minus_type t = (case t of
     kI8 \<Rightarrow> Inr kI32 | kU8 \<Rightarrow> Inr kI32 | kI16 \<Rightarrow> Inr kI32 | kU16 \<Rightarrow> Inr kI32
   | kI32 \<Rightarrow> Inr t | kU32 \<Rightarrow> Inr t | kI64 \<Rightarrow> Inr t | kU64 \<Rightarrow> Inr t | kF32 \<Rightarrow> Inr t | kF64 \<Rightarrow> Inr t
   | _ \<Rightarrow> Inl (NotImplemented (''[internal] unary minus not implemented for type '' @ TypeToString t
             @ '' (should have been caught by the numeric-type check above)'')))"

text \<open>The part of Visit(UnaryOPNode) after its operand has been visited.\<close>

definition unary_type :: "exec_node \<Rightarrow> unary_op \<Rightarrow> value_type \<Rightarrow> status + value_type" where
  "unary_type node op t =
     (if t = kVoid then Inl (MakeParseError node ''unary operator does not support void operand'')
      else if \<not> IsNumericType t
      then Inl (MakeParseError node (''unary operator requires a numeric operand, got '' @ TypeToString t))
      else (case op of
          kPlus \<Rightarrow> Inr t
        | kMinus \<Rightarrow> unary_minus_type t
        | kNot \<Rightarrow> Inr kU8
        | kBitwiseNot \<Rightarrow>
            if \<not> IsIntegerType t
            then Inl (MakeParseError node (''bitwise-not requires an integer operand, got '' @ TypeToString t))
            else Inr t))"

fun DivZeroVisit :: "const_value \<Rightarrow> bool" where
  "DivZeroVisit (CI8 v) = (0 = v)"
| "DivZeroVisit (CI16 v) = (0 = v)"
| "DivZeroVisit (CI32 v) = (0 = v)"
| "DivZeroVisit (CI64 v) = (0 = v)"
| "DivZeroVisit (CU8 v) = (0 = v)"
| "DivZeroVisit (CU16 v) = (0 = v)"
| "DivZeroVisit (CU32 v) = (0 = v)"
| "DivZeroVisit (CU64 v) = (0 = v)"
| "DivZeroVisit (CF32 _) = False"
| "DivZeroVisit (CF64 _) = False"
| "DivZeroVisit (CString _) = False"

definition is_zero_constant :: "exec_node \<Rightarrow> bool" where
  "is_zero_constant n = (case n of ConstantValueNode _ v \<Rightarrow> DivZeroVisit v | _ \<Rightarrow> False)"

definition is_bitwise_op :: "binary_op \<Rightarrow> bool" where [jf_enum]:
  "is_bitwise_op op \<longleftrightarrow> op = kBitwiseAnd \<or> op = kBitwiseOr \<or> op = kBitwiseXor
     \<or> op = kBitwiseShiftLeft \<or> op = kBitwiseShiftRight"

text \<open>The part of Visit(BinaryOPNode) after its operands have been visited.\<close>

definition binary_type ::
  "exec_node \<Rightarrow> binary_op \<Rightarrow> exec_node \<Rightarrow> value_type \<Rightarrow> value_type \<Rightarrow> status + value_type" where
  "binary_type node op right lhs rhs =
     (let got = TypeToString lhs @ '' and '' @ TypeToString rhs;
          for_op = '' for '' @ quoted (BinaryOPTypeToString op);
          both_numeric = (IsNumericType lhs \<and> IsNumericType rhs);
          both_string = (lhs = kString \<and> rhs = kString) in
      if lhs = kVoid \<or> rhs = kVoid
      then Inl (MakeParseError node ''binary operator does not support void operand'')
      else if IsLogicalBinaryOPType op then
        (if \<not> both_numeric
         then Inl (MakeParseError node (''logical operator requires numeric operands, got '' @ got @ for_op))
         else Inr kU8)
      else if IsRelationalBinaryOPType op then
        (if \<not> both_numeric \<and> \<not> both_string
         then Inl (MakeParseError node
           (''relational operator requires both operands to be numeric or both to be string, got ''
            @ got @ for_op))
         else Inr kU8)
      else if is_bitwise_op op then
        (if \<not> IsIntegerType lhs \<or> \<not> IsIntegerType rhs
         then Inl (MakeParseError node (''bitwise operator requires integer operands, got '' @ got @ for_op))
         else if op = kBitwiseShiftLeft \<or> op = kBitwiseShiftRight then Inr lhs
         else Inr (GetPromotedType lhs rhs))
      else if op = kAdd then
        (if both_numeric then Inr (GetPromotedType lhs rhs)
         else if both_string then Inr kString
         else if IsListType lhs \<and> lhs = rhs then Inr lhs
         else Inl (MakeParseError node
           (''operator '' @ quoted ''+'' @ '' requires both operands to be numeric, both string, or two lists of the ''
            @ ''same type, got '' @ got)))
      else if \<not> both_numeric
      then Inl (MakeParseError node (''arithmetic operator requires numeric operands, got '' @ got @ for_op))
      else if (op = kDiv \<or> op = kMod) \<and> is_zero_constant right
      then Inl (MakeParseError node ''division or modulo by constant zero'')
      else Inr (GetPromotedType lhs rhs))"

text \<open>Visit(FunctionNode) after its arguments.\<close>

definition function_type_of :: "registry \<Rightarrow> exec_node \<Rightarrow> string \<Rightarrow> value_type list \<Rightarrow> status + value_type" where
  "function_type_of reg node fn arg_types =
     (case GetFuncBySign reg (FunctionSignature fn arg_types kUnknown) of
        Inl st \<Rightarrow> Inl (MakeParseError node (status_ToString st))
      | Inr (sign, _) \<Rightarrow> Inr (ret_type sign))"

text \<open>Visit(IfNode) after its three arguments.\<close>

definition if_type :: "exec_node \<Rightarrow> exec_node list \<Rightarrow> status + value_type" where
  "if_type node args =
     (let t0 = GetReturnType (args ! 0); t1 = GetReturnType (args ! 1); t2 = GetReturnType (args ! 2) in
      if \<not> IsNumericType t0
      then Inl (MakeParseError (args ! 0) (''if condition must be a numeric type, got '' @ TypeToString t0))
      else if IsNumericType t1 \<and> IsNumericType t2 then Inr (GetPromotedType t1 t2)
      else if t1 = t2 then Inr t1
      else Inl (MakeParseError node (''if branches have incompatible types: '' @ TypeToString t1
                 @ '' vs '' @ TypeToString t2)))"

text \<open>The second loop of Visit(SwitchNode), at index \<open>i\<close> of \<open>size\<close> arguments.\<close>

fun switch_loop ::
  "nat \<Rightarrow> nat \<Rightarrow> exec_node list \<Rightarrow> value_type \<Rightarrow> value_type \<Rightarrow> status + (value_type \<times> value_type)" where
  "switch_loop n_args i [] numeric complex = Inr (numeric, complex)"
| "switch_loop n_args i (arg # args) numeric complex =
     (let t = GetReturnType arg in
      if i + 1 \<noteq> n_args \<and> i mod 2 = 0 \<and> \<not> IsNumericType t
      then Inl (MakeParseError arg (''switch condition must be a numeric type, got '' @ TypeToString t))
      else if i mod 2 \<noteq> 0 \<or> i + 1 = n_args then
        (if IsNumericType t
         then switch_loop n_args (i + 1) args (GetPromotedType numeric t) complex
         else if complex \<noteq> kUnknown \<and> complex \<noteq> t
         then Inl (MakeParseError arg (''switch branch has incompatible type: got '' @ TypeToString t
                    @ '', previously seen '' @ TypeToString complex))
         else switch_loop n_args (i + 1) args numeric t)
      else switch_loop n_args (i + 1) args numeric complex)"

definition switch_type :: "exec_node \<Rightarrow> exec_node list \<Rightarrow> status + value_type" where
  "switch_type node args =
     bind_result (switch_loop (length args) 0 args kUnknown kUnknown) (\<lambda>(numeric, complex).
       if complex \<noteq> kUnknown \<and> numeric \<noteq> kUnknown
       then Inl (MakeParseError node
         (''switch branches have incompatible types: mix of numeric ('' @ TypeToString numeric
          @ '') and non-numeric ('' @ TypeToString complex @ '')''))
       else Inr (if numeric = kUnknown then complex else numeric))"

text \<open>The reaction of Visit(NoOPNode) to the result of TrySetVar.\<close>

definition assign_var :: "var_info \<Rightarrow> exec_node \<Rightarrow> type_stack \<Rightarrow> status + type_stack" where
  "assign_var vi arg stack =
     (if name vi = [] then Inr stack
      else (case TrySetVar (name vi) (GetReturnType arg) (is_const vi) stack of
          (kSetOk, stack') \<Rightarrow> Inr stack'
        | (kConstReassign, _) \<Rightarrow>
            Inl (MakeParseError arg (''cannot reassign const variable '' @ quoted (name vi)))
        | (kRedeclare, _) \<Rightarrow>
            Inl (MakeParseError arg (''cannot redeclare variable '' @ quoted (name vi) @ '' with let''))
        | (kTypeMismatch, _) \<Rightarrow>
            Inl (MakeParseError arg (TypeMismatchMessage (name vi)
                   (case Lookup stack (name vi) of Some e \<Rightarrow> ve_type e | None \<Rightarrow> kUnknown)
                   (GetReturnType arg)))))"

text \<open>Joins of an if block: \<open>all_shadowed[name] = new_entry.type\<close> for each shadowed variable of a
  branch, and the final loop that sets them in the current scope.\<close>

definition merge_shadowed :: "var_entry scope \<Rightarrow> value_type scope \<Rightarrow> value_type scope" where
  "merge_shadowed shadowed all_shadowed =
     fold (\<lambda>(nm, entry) acc. AList.update nm (ve_type entry) acc) shadowed all_shadowed"

definition set_shadowed :: "value_type scope \<Rightarrow> type_stack \<Rightarrow> type_stack" where
  "set_shadowed all_shadowed stack =
     fold (\<lambda>(nm, t) st. SetVar nm (VarEntry t False) st) all_shadowed stack"

section \<open>The visitor\<close>

function visit :: "registry \<Rightarrow> exec_node \<Rightarrow> type_stack \<Rightarrow> status + (exec_node \<times> type_stack)"
  and visit_args ::
    "registry \<Rightarrow> (exec_node \<Rightarrow> status) \<Rightarrow> exec_node list \<Rightarrow> type_stack \<Rightarrow> status + (exec_node list \<times> type_stack)"
  and visit_named ::
    "registry \<Rightarrow> bool \<Rightarrow> (var_info \<times> exec_node) list \<Rightarrow> type_stack
       \<Rightarrow> status + ((var_info \<times> exec_node) list \<times> type_stack)"
  and visit_branches ::
    "registry \<Rightarrow> exec_node list \<Rightarrow> type_stack \<Rightarrow> value_type scope
       \<Rightarrow> status + (exec_node list \<times> type_stack \<times> value_type scope)" where
  "visit reg (EntryArgumentNode i) st = Inr (SetReturnType kPtr (EntryArgumentNode i), st)"
| "visit reg (ExecContextNode i) st = Inr (SetReturnType kPtr (ExecContextNode i), st)"
| "visit reg (OutputNode i) st = Inr (SetReturnType kPtr (OutputNode i), st)"
| "visit reg (ConstantValueNode i v) st =
     Inr (SetReturnType (ConstantValueVisitor v) (ConstantValueNode i v), st)"
| "visit reg (ConstantListValueNode i v) st =
     Inr (SetReturnType (ConstantListValueVisitor v) (ConstantListValueNode i v), st)"
| "visit reg (UnaryOPNode i op child) st =
     bind_result (visit reg child st) (\<lambda>(child', st').
     bind_result (unary_type (UnaryOPNode i op child') op (GetReturnType child')) (\<lambda>t.
     Inr (SetReturnType t (UnaryOPNode i op child'), st')))"
| "visit reg (BinaryOPNode i op left right) st =
     bind_result (visit reg left st) (\<lambda>(left', st').
     bind_result (visit reg right st') (\<lambda>(right', st'').
     bind_result (binary_type (BinaryOPNode i op left' right') op right'
                    (GetReturnType left') (GetReturnType right')) (\<lambda>t.
     Inr (SetReturnType t (BinaryOPNode i op left' right'), st''))))"
| "visit reg (FunctionNode i fn args) st =
     bind_result (visit_args reg (\<lambda>_. MakeParseError (FunctionNode i fn args)
         (''function '' @ quoted fn @ '' argument cannot be void'')) args st) (\<lambda>(args', st').
     bind_result (function_type_of reg (FunctionNode i fn args') fn (map GetReturnType args')) (\<lambda>t.
     Inr (SetReturnType t (FunctionNode i fn args'), st')))"
| "visit reg (NoOPNode i args isolated) st =
     bind_result (visit_named reg isolated args st) (\<lambda>(args', st').
     Inr (SetReturnType kVoid (NoOPNode i args' isolated), st'))"
| "visit reg (IfNode i args) st =
     (if length args \<noteq> 3
      then Inl (MakeParseError (IfNode i args)
        (''if expects exactly 3 arguments (condition, then, else), got '' @ nat_to_string (length args)))
      else bind_result (visit_args reg (\<lambda>arg. MakeParseError arg ''if argument cannot be void'') args st)
        (\<lambda>(args', st').
        bind_result (if_type (IfNode i args') args') (\<lambda>t.
        Inr (SetReturnType t (IfNode i args'), st'))))"
| "visit reg (SwitchNode i args) st =
     (if length args mod 2 = 0
      then Inl (MakeParseError (SwitchNode i args)
        (''switch expects an odd number of arguments (cond, then, [cond, then, ...], default), got ''
         @ nat_to_string (length args)))
      else bind_result (visit_args reg (\<lambda>arg. MakeParseError arg ''switch argument cannot be void'') args st)
        (\<lambda>(args', st').
        bind_result (switch_type (SwitchNode i args') args') (\<lambda>t.
        Inr (SetReturnType t (SwitchNode i args'), st'))))"
| "visit reg (IfBlockNode i args) st =
     (if length args < 2
      then Inl (MakeParseError (IfBlockNode i args) ''if block must have at least a condition and a body'')
      else bind_result (visit_branches reg args st []) (\<lambda>(args', st', all_shadowed).
        Inr (SetReturnType kVoid (IfBlockNode i args'), set_shadowed all_shadowed st')))"
| "visit reg (RefNode i nm) st =
     (case Lookup st nm of
        None \<Rightarrow> Inl (MakeParseError (RefNode i nm) (''variable '' @ quoted nm @ '' is not defined''))
      | Some entry \<Rightarrow> Inr (SetReturnType (ve_type entry) (RefNode i nm), st))"
| "visit_args reg on_void [] st = Inr ([], st)"
| "visit_args reg on_void (arg # args) st =
     bind_result (visit reg arg st) (\<lambda>(arg', st').
     if GetReturnType arg' = kVoid then Inl (on_void arg')
     else bind_result (visit_args reg on_void args st') (\<lambda>(args', st''). Inr (arg' # args', st'')))"
| "visit_named reg isolated [] st = Inr ([], st)"
| "visit_named reg isolated ((vi, arg) # rest) st =
     bind_result (visit reg arg (if isolated then PushScope st else st)) (\<lambda>(arg', st1).
     bind_result (assign_var vi arg' st1) (\<lambda>st2.
     bind_result (visit_named reg isolated rest (if isolated then PopScope st2 else st2)) (\<lambda>(rest', st3).
     Inr ((vi, arg') # rest', st3))))"
| "visit_branches reg [] st all_shadowed = Inr ([], st, all_shadowed)"
| "visit_branches reg [else_body] st all_shadowed =
     bind_result (visit reg else_body (PushScope st)) (\<lambda>(body', st1).
     if GetReturnType body' \<noteq> kVoid
     then Inl (MakeParseError body' (''if block else body must be void, got '' @ TypeToString (GetReturnType body')))
     else Inr ([body'], PopScope st1, merge_shadowed (GetShadowed st1) all_shadowed))"
| "visit_branches reg (cond # body # rest) st all_shadowed =
     bind_result (visit reg cond st) (\<lambda>(cond', st1).
     if \<not> IsNumericType (GetReturnType cond')
     then Inl (MakeParseError cond' (''if block condition must be a numeric type, got '' @ TypeToString (GetReturnType cond')))
     else bind_result (visit reg body (PushScope st1)) (\<lambda>(body', st2).
       if GetReturnType body' \<noteq> kVoid
       then Inl (MakeParseError body' (''if block body must be void, got '' @ TypeToString (GetReturnType body')))
       else bind_result (visit_branches reg rest (PopScope st2) (merge_shadowed (GetShadowed st2) all_shadowed))
         (\<lambda>(rest', st3, sh). Inr (cond' # body' # rest', st3, sh))))"
  by pat_completeness auto
termination
  by (relation "measure (\<lambda>x. case x of
        Inl (Inl (reg, n, st)) \<Rightarrow> size n
      | Inl (Inr (reg, on_void, ns, st)) \<Rightarrow> size_list size ns
      | Inr (Inl (reg, isolated, vs, st)) \<Rightarrow> size_list (size_prod (\<lambda>x. 0) size) vs
      | Inr (Inr (reg, ns, st, sh)) \<Rightarrow> size_list size ns)") auto

definition Validate :: "registry \<Rightarrow> exec_node \<Rightarrow> type_stack \<Rightarrow> status + (exec_node \<times> type_stack)" where
  "Validate reg node st = visit reg node st"

section \<open>The scope stack under validation\<close>

text \<open>A variable of an inner scope that an outer scope declares too is a recorded assignment: the
  same type, and not constant.\<close>

fun shadow_inv :: "type_stack \<Rightarrow> bool" where
  "shadow_inv [] = True"
| "shadow_inv (sc # rest) =
     ((\<forall>n v w. map_of sc n = Some v \<longrightarrow> Lookup rest n = Some w \<longrightarrow> v = w \<and> \<not> ve_const w)
      \<and> shadow_inv rest)"

definition tinv :: "type_stack \<Rightarrow> bool" where
  "tinv st \<longleftrightarrow> stack_ok st \<and> shadow_inv st"

definition extends :: "type_stack \<Rightarrow> type_stack \<Rightarrow> bool" where
  "extends st st' \<longleftrightarrow> (\<forall>x e. Lookup st x = Some e \<longrightarrow> Lookup st' x = Some e)"

definition frame :: "type_stack \<Rightarrow> type_stack \<Rightarrow> bool" where
  "frame st st' \<longleftrightarrow> tinv st' \<and> PopScope st' = PopScope st \<and> extends st st'"

lemma tinv_init [simp]: "tinv ScopeStackInit"
  by (simp add: tinv_def) (simp add: ScopeStackInit_def)

lemma tinv_push [simp]: "tinv st \<Longrightarrow> tinv (PushScope st)"
  by (simp add: tinv_def) (simp add: PushScope_def)

lemma extends_refl [simp]: "extends st st"
  by (simp add: extends_def)

lemma extends_trans: "extends a b \<Longrightarrow> extends b c \<Longrightarrow> extends a c"
  by (simp add: extends_def)

lemma frame_refl: "tinv st \<Longrightarrow> frame st st"
  by (simp add: frame_def)

lemma frame_trans: "frame a b \<Longrightarrow> frame b c \<Longrightarrow> frame a c"
  by (auto simp: frame_def intro: extends_trans)

lemma tinv_not_Nil: "tinv st \<Longrightarrow> st \<noteq> []"
  by (auto simp: tinv_def stack_ok_def)

lemma shadow_inv_set:
  "shadow_inv st \<Longrightarrow> Lookup st n = None \<or> Lookup st n = Some e \<and> \<not> ve_const e \<Longrightarrow> shadow_inv (SetVar n e st)"
  by (cases st) (auto simp: SetVar_def map_of_update split: option.splits if_splits)

lemma frame_set:
  assumes "tinv st" "Lookup st n = None \<or> Lookup st n = Some e \<and> \<not> ve_const e"
  shows "frame st (SetVar n e st)"
  using assms tinv_not_Nil [OF assms(1)]
  by (auto simp: frame_def tinv_def extends_def Lookup_set shadow_inv_set)

lemma Lookup_set_same:
  "st \<noteq> [] \<Longrightarrow> Lookup st n = Some e \<Longrightarrow> Lookup (SetVar n e st) = Lookup st"
  by (auto simp: Lookup_set fun_eq_iff)

lemma VarEntry_eq: "e = VarEntry t c \<longleftrightarrow> ve_type e = t \<and> ve_const e = c"
  by (cases e) (auto simp: VarEntry_def)

lemma ve_simps [simp]: "ve_type (VarEntry t c) = t" "ve_const (VarEntry t c) = c"
  by (simp_all add: VarEntry_def)

lemma TrySetVar_ok:
  "TrySetVar n t c st = (kSetOk, st') \<longleftrightarrow>
     st' = SetVar n (VarEntry t c) st \<and>
     (Lookup st n = None \<or> Lookup st n = Some (VarEntry t c) \<and> \<not> c)"
  by (auto simp: TrySetVar_def VarEntry_eq split: option.splits if_splits)

lemma assign_var_ok:
  "assign_var vi arg st = Inr st' \<longleftrightarrow>
     (if name vi = [] then st' = st
      else TrySetVar (name vi) (GetReturnType arg) (is_const vi) st = (kSetOk, st'))"
  by (auto simp: assign_var_def split: prod.splits set_var_result.splits)

lemma assign_var_frame: "tinv st \<Longrightarrow> assign_var vi arg st = Inr st' \<Longrightarrow> frame st st'"
  by (auto simp: assign_var_ok TrySetVar_ok frame_refl intro!: frame_set split: if_splits)

lemma frame_pop_push: "frame (PushScope st) st' \<Longrightarrow> PopScope st' = st"
  by (simp add: frame_def)

text \<open>What a branch of an if block has assigned is what it found.\<close>

definition agrees :: "value_type scope \<Rightarrow> type_stack \<Rightarrow> bool" where
  "agrees sh st \<longleftrightarrow> (\<forall>(n, t)\<in>set sh. Lookup st n = Some (VarEntry t False))"

lemma agrees_Nil [simp]: "agrees [] st"
  by (simp add: agrees_def)

lemma shadowed_entry:
  assumes "tinv st" "frame (PushScope st) st'" "(n, e) \<in> set (GetShadowed st')"
  shows "Lookup st n = Some (VarEntry (ve_type e) False)"
proof -
  obtain sc where st': "st' = sc # st"
    using assms(2) by (cases st') (auto simp: frame_def tinv_def stack_ok_def PopScope_def PushScope_def)
  have mem: "(n, e) \<in> set sc" "declared_in st n"
    using assms(3) st' by (auto simp: GetShadowed_def)
  have "distinct (map fst sc)" using assms(2) st' by (simp add: frame_def tinv_def stack_ok_def)
  with mem have "map_of sc n = Some e" by simp
  moreover obtain w where "Lookup st n = Some w" using mem by (auto simp: declared_iff_Lookup)
  moreover have "shadow_inv (sc # st)" using assms(2) st' by (simp add: frame_def tinv_def)
  ultimately show ?thesis by (auto simp: VarEntry_eq)
qed

lemma in_set_update: "p \<in> set (AList.update n v xs) \<Longrightarrow> p = (n, v) \<or> p \<in> set xs"
  by (induction xs) (auto split: if_splits)

lemma merge_agrees:
  assumes "agrees sh st" "\<forall>(n, e)\<in>set es. Lookup st n = Some (VarEntry (ve_type e) False)"
  shows "agrees (merge_shadowed es sh) st"
  using assms
proof (induction es arbitrary: sh)
  case Nil
  then show ?case by (simp add: merge_shadowed_def)
next
  case (Cons p es)
  obtain n e where p: "p = (n, e)" by force
  have "agrees (AList.update n (ve_type e) sh) st"
    using Cons.prems p by (auto simp: agrees_def dest!: in_set_update)
  with Cons p show ?case by (auto simp: merge_shadowed_def)
qed

lemma set_shadowed_frame:
  assumes "agrees sh st" "tinv st"
  shows "frame st (set_shadowed sh st) \<and> Lookup (set_shadowed sh st) = Lookup st"
  using assms
proof (induction sh arbitrary: st)
  case Nil
  then show ?case by (simp add: set_shadowed_def frame_refl)
next
  case (Cons p sh)
  obtain n t where p: "p = (n, t)" by force
  let ?st = "SetVar n (VarEntry t False) st"
  have e: "Lookup st n = Some (VarEntry t False)" using Cons.prems p by (simp add: agrees_def)
  have f: "frame st ?st" using Cons.prems(2) e by (intro frame_set) auto
  have l: "Lookup ?st = Lookup st" using e tinv_not_Nil [OF Cons.prems(2)] by (rule Lookup_set_same [rotated])
  have "agrees sh ?st" using Cons.prems(1) p l by (simp add: agrees_def)
  with Cons.IH [of ?st] f l p show ?case
    by (auto simp: set_shadowed_def frame_def intro: extends_trans)
qed

lemma unary_type_operand: "unary_type n op t = Inr r \<Longrightarrow> IsNumericType t"
  by (auto simp: unary_type_def split: if_splits)

lemma binary_type_operands: "binary_type n op right t u = Inr r \<Longrightarrow> t \<noteq> kVoid \<and> u \<noteq> kVoid"
  by (auto simp: binary_type_def split: if_splits)

text \<open>The effect of a visit on the scopes: what was declared keeps its entry, enclosing scopes are
  untouched, and only nodes of type void (statements) change anything.\<close>

lemma visit_frame_aux:
  "visit reg n st = Inr (n', st') \<Longrightarrow> tinv st \<Longrightarrow>
     frame st st' \<and> (GetReturnType n' \<noteq> kVoid \<longrightarrow> st' = st) \<and> erase n' = erase n"
  "visit_args reg ov ns st = Inr (ns', st') \<Longrightarrow> tinv st \<Longrightarrow>
     st' = st \<and> erase_args ns' = erase_args ns \<and> length ns' = length ns
       \<and> (\<forall>n\<in>set ns'. GetReturnType n \<noteq> kVoid)"
  "visit_named reg isolated vs st = Inr (vs', st') \<Longrightarrow> tinv st \<Longrightarrow>
     frame st st' \<and> (isolated \<longrightarrow> st' = st) \<and> erase_named vs' = erase_named vs"
  "visit_branches reg ns st sh = Inr (ns', st', sh') \<Longrightarrow> tinv st \<Longrightarrow> agrees sh st \<Longrightarrow>
     st' = st \<and> erase_args ns' = erase_args ns \<and> length ns' = length ns \<and> agrees sh' st"
proof (induction reg n st and reg ov ns st and reg isolated vs st and reg ns st sh
    arbitrary: n' st' and ns' st' and vs' st' and ns' st' sh'
    rule: visit_visit_args_visit_named_visit_branches.induct)
  case (6 reg i op child st)
  from "6.prems"(1) obtain child' t where v: "visit reg child st = Inr (child', st')"
    and t: "unary_type (UnaryOPNode i op child') op (GetReturnType child') = Inr t"
    and n': "n' = SetReturnType t (UnaryOPNode i op child')" by auto
  from t have "GetReturnType child' \<noteq> kVoid" by (auto dest: unary_type_operand)
  with "6.IH" [OF v "6.prems"(2)] n' show ?case by auto
next
  case (7 reg i op left right st)
  from "7.prems"(1) obtain left' st1 right' t where l: "visit reg left st = Inr (left', st1)"
    and r: "visit reg right st1 = Inr (right', st')"
    and t: "binary_type (BinaryOPNode i op left' right') op right' (GetReturnType left') (GetReturnType right') = Inr t"
    and n': "n' = SetReturnType t (BinaryOPNode i op left' right')" by auto
  note nv = binary_type_operands [OF t]
  from "7.IH"(1) [OF l "7.prems"(2)] nv have "st1 = st" "erase left' = erase left" by auto
  moreover have "st' = st1" "erase right' = erase right"
    using "7.IH"(2) [OF l _ r] "7.prems"(2) nv \<open>st1 = st\<close> by auto
  ultimately show ?case using n' "7.prems"(2) by (simp add: frame_refl)
next
  case (8 reg i fn args st)
  from "8.prems"(1) obtain args' t where
    v: "visit_args reg (\<lambda>_. MakeParseError (FunctionNode i fn args)
          (''function '' @ quoted fn @ '' argument cannot be void'')) args st = Inr (args', st')"
    and n': "n' = SetReturnType t (FunctionNode i fn args')" by auto
  from "8.IH" [OF v "8.prems"(2)] n' "8.prems"(2) show ?case by (simp add: frame_refl)
next
  case (9 reg i args isolated st)
  from "9.prems"(1) obtain args' where v: "visit_named reg isolated args st = Inr (args', st')"
    and n': "n' = SetReturnType kVoid (NoOPNode i args' isolated)" by auto
  from "9.IH" [OF v "9.prems"(2)] n' show ?case by simp
next
  case (10 reg i args st)
  from "10.prems"(1) obtain args' t where len: "\<not> length args \<noteq> 3" and
    v: "visit_args reg (\<lambda>arg. MakeParseError arg ''if argument cannot be void'') args st = Inr (args', st')"
    and n': "n' = SetReturnType t (IfNode i args')" by (auto split: if_splits)
  from "10.IH" [OF len v "10.prems"(2)] n' "10.prems"(2) show ?case by (simp add: frame_refl)
next
  case (11 reg i args st)
  from "11.prems"(1) obtain args' t where len: "\<not> length args mod 2 = 0" and
    v: "visit_args reg (\<lambda>arg. MakeParseError arg ''switch argument cannot be void'') args st = Inr (args', st')"
    and n': "n' = SetReturnType t (SwitchNode i args')" by (auto split: if_splits)
  from "11.IH" [OF len v "11.prems"(2)] n' "11.prems"(2) show ?case by (simp add: frame_refl)
next
  case (12 reg i args st)
  from "12.prems"(1) obtain args' st1 sh where len: "\<not> length args < 2" and
    v: "visit_branches reg args st [] = Inr (args', st1, sh)"
    and n': "n' = SetReturnType kVoid (IfBlockNode i args')" "st' = set_shadowed sh st1"
    by (auto split: if_splits)
  from "12.IH" [OF len v "12.prems"(2)] have "st1 = st" "erase_args args' = erase_args args" "agrees sh st"
    by simp_all
  with n' set_shadowed_frame [OF \<open>agrees sh st\<close> "12.prems"(2)] show ?case by simp
next
  case (13 reg i nm st)
  then show ?case by (auto simp: frame_refl split: option.splits)
next
  case (15 reg on_void arg args st)
  from "15.prems"(1) obtain arg' st1 args' where v: "visit reg arg st = Inr (arg', st1)"
    and nv: "GetReturnType arg' \<noteq> kVoid"
    and vs: "visit_args reg on_void args st1 = Inr (args', st')" and ns': "ns' = arg' # args'"
    by (auto split: if_splits)
  from "15.IH"(1) [OF v "15.prems"(2)] nv have *: "st1 = st" "erase arg' = erase arg" by auto
  have "st' = st1 \<and> erase_args args' = erase_args args \<and> length args' = length args
      \<and> (\<forall>n\<in>set args'. GetReturnType n \<noteq> kVoid)"
    by (rule "15.IH"(2) [OF v refl nv vs]) (use * "15.prems"(2) in simp)
  with * ns' nv show ?case by simp
next
  case (17 reg isolated vi arg rest st)
  let ?st0 = "if isolated then PushScope st else st"
  from "17.prems"(1) obtain arg' st1 st2 rest' where
    v: "visit reg arg ?st0 = Inr (arg', st1)" and a: "assign_var vi arg' st1 = Inr st2"
    and r: "visit_named reg isolated rest (if isolated then PopScope st2 else st2) = Inr (rest', st')"
    and vs': "vs' = (vi, arg') # rest'" by auto
  have t0: "tinv ?st0" using "17.prems"(2) by simp
  from "17.IH"(1) [OF v t0] have f1: "frame ?st0 st1" "erase arg' = erase arg" by auto
  have "frame st1 st2" using assign_var_frame [OF _ a] f1 by (simp add: frame_def)
  with f1 have f2: "frame ?st0 st2" by (blast intro: frame_trans)
  let ?st3 = "if isolated then PopScope st2 else st2"
  have f3: "frame st ?st3" using f2 "17.prems"(2) frame_pop_push [of st st2] by (auto simp: frame_refl)
  then have t3: "tinv ?st3" by (simp add: frame_def)
  from "17.IH"(2) [OF v refl a r t3] have f4: "frame ?st3 st'" "isolated \<longrightarrow> st' = ?st3"
    "erase_named rest' = erase_named rest" by auto
  have "frame st st'" by (rule frame_trans [OF f3 f4(1)])
  moreover have "isolated \<longrightarrow> st' = st"
    using f4(2) f2 frame_pop_push [of st st2] by auto
  ultimately show ?case using vs' f1(2) f4(3) by simp
next
  case (19 reg else_body st all_shadowed)
  from "19.prems"(1) obtain body' st1 where v: "visit reg else_body (PushScope st) = Inr (body', st1)"
    and res: "ns' = [body']" "st' = PopScope st1" "sh' = merge_shadowed (GetShadowed st1) all_shadowed"
    by (auto split: if_splits)
  from "19.IH" [OF v] "19.prems"(2) have f: "frame (PushScope st) st1" "erase body' = erase else_body" by auto
  have "agrees sh' st"
    unfolding res by (rule merge_agrees [OF "19.prems"(3)]) (use shadowed_entry [OF "19.prems"(2) f(1)] in auto)
  with res f frame_pop_push [OF f(1)] show ?case by simp
next
  case (20 reg cond body rest st all_shadowed)
  from "20.prems"(1) obtain cond' st1 body' st2 rest' where
    c: "visit reg cond st = Inr (cond', st1)" and num: "\<not> \<not> IsNumericType (GetReturnType cond')"
    and b: "visit reg body (PushScope st1) = Inr (body', st2)" and void: "\<not> GetReturnType body' \<noteq> kVoid"
    and r: "visit_branches reg rest (PopScope st2) (merge_shadowed (GetShadowed st2) all_shadowed)
              = Inr (rest', st', sh')"
    and ns': "ns' = cond' # body' # rest'"
    by (auto split: if_splits)
  have "GetReturnType cond' \<noteq> kVoid" using num by auto
  with "20.IH"(1) [OF c "20.prems"(2)] have st1: "st1 = st" "erase cond' = erase cond" by auto
  have f: "frame (PushScope st) st2" "erase body' = erase body"
    using "20.IH"(2) [OF c refl num b] st1 "20.prems"(2) by auto
  have pop: "PopScope st2 = st" by (rule frame_pop_push [OF f(1)])
  have ag: "agrees (merge_shadowed (GetShadowed st2) all_shadowed) st"
    by (rule merge_agrees [OF "20.prems"(3)]) (use shadowed_entry [OF "20.prems"(2) f(1)] in auto)
  have "st' = st \<and> erase_args rest' = erase_args rest \<and> length rest' = length rest \<and> agrees sh' st"
    using "20.IH"(3) [OF c refl num b refl void r] pop ag "20.prems"(2) by simp
  with st1 f ns' show ?case by simp
qed (auto simp: frame_refl)


lemmas visit_frame = visit_frame_aux(1) [THEN conjunct1]
lemmas visit_pure = visit_frame_aux(1) [THEN conjunct2, THEN conjunct1, rule_format]
lemmas visit_erase = visit_frame_aux(1) [THEN conjunct2, THEN conjunct2]
lemmas visit_args_pure = visit_frame_aux(2)
lemmas visit_named_frame = visit_frame_aux(3)
lemmas visit_branches_pure = visit_frame_aux(4)

section \<open>Validation depends on the structure only\<close>

lemma GetLocation_simps [simp]:
  "GetLocation (UnaryOPNode i op c) = loc i" "GetLocation (BinaryOPNode i bop l r) = loc i"
  "GetLocation (FunctionNode i fn as) = loc i" "GetLocation (NoOPNode i vs isol) = loc i"
  "GetLocation (IfNode i as) = loc i" "GetLocation (SwitchNode i as) = loc i"
  "GetLocation (IfBlockNode i as) = loc i" "GetLocation (RefNode i nm) = loc i"
  by (simp_all add: GetLocation_def)

lemma MakeParseError_loc: "GetLocation n = GetLocation m \<Longrightarrow> MakeParseError n = MakeParseError m"
  by (simp add: MakeParseError_def fun_eq_iff)

lemma node_checks_loc:
  assumes "GetLocation n = GetLocation m"
  shows "unary_type n op t = unary_type m op t" "binary_type n bop right t u = binary_type m bop right t u"
    "function_type_of reg n fn ts = function_type_of reg m fn ts" "if_type n args = if_type m args"
    "switch_type n args = switch_type m args"
  by (simp_all only: unary_type_def binary_type_def function_type_of_def if_type_def switch_type_def
      MakeParseError_loc [OF assms])

lemma length_erase_args [simp]: "length (erase_args ns) = length ns"
  by (induction ns) simp_all

lemma visit_erase_aux:
  "visit reg (erase n) st = visit reg n st"
  "visit_args reg ov (erase_args ns) st = visit_args reg ov ns st"
  "visit_named reg isolated (erase_named vs) st = visit_named reg isolated vs st"
  "visit_branches reg (erase_args bs) st sh = visit_branches reg bs st sh"
proof (induction reg n st and reg ov ns st and reg isolated vs st and reg bs st sh
    rule: visit_visit_args_visit_named_visit_branches.induct)
  case (6 reg i op child st)
  then show ?case
    by (auto simp: SetReturnType_def intro!: bind_result_cong node_checks_loc)
next
  case (7 reg i op left right st)
  then show ?case
    by (auto simp: SetReturnType_def intro!: bind_result_cong node_checks_loc)
next
  case (8 reg i fn args st)
  have "MakeParseError (FunctionNode (i\<lparr>return_type := kUnknown\<rparr>) fn (erase_args args)) =
      MakeParseError (FunctionNode i fn args)" by (rule MakeParseError_loc) simp
  with 8 show ?case
    by (auto simp: SetReturnType_def intro!: bind_result_cong node_checks_loc)
next
  case (9 reg i args isolated st)
  then show ?case by (auto simp: SetReturnType_def intro!: bind_result_cong)
next
  case (10 reg i args st)
  have "MakeParseError (IfNode (i\<lparr>return_type := kUnknown\<rparr>) (erase_args args)) =
      MakeParseError (IfNode i args)" by (rule MakeParseError_loc) simp
  with 10 show ?case
    by (auto simp: SetReturnType_def intro!: bind_result_cong node_checks_loc)
next
  case (11 reg i args st)
  have "MakeParseError (SwitchNode (i\<lparr>return_type := kUnknown\<rparr>) (erase_args args)) =
      MakeParseError (SwitchNode i args)" by (rule MakeParseError_loc) simp
  with 11 show ?case
    by (auto simp: SetReturnType_def intro!: bind_result_cong node_checks_loc)
next
  case (12 reg i args st)
  have "MakeParseError (IfBlockNode (i\<lparr>return_type := kUnknown\<rparr>) (erase_args args)) =
      MakeParseError (IfBlockNode i args)" by (rule MakeParseError_loc) simp
  with 12 show ?case
    by (auto simp: SetReturnType_def intro!: bind_result_cong)
next
  case (13 reg i nm st)
  have "MakeParseError (RefNode (i\<lparr>return_type := kUnknown\<rparr>) nm) = MakeParseError (RefNode i nm)"
    by (rule MakeParseError_loc) simp
  then show ?case by (simp add: SetReturnType_def split: option.splits)
qed (auto simp: SetReturnType_def intro!: bind_result_cong)

corollary visit_same_structure: "erase n = erase m \<Longrightarrow> visit reg n st = visit reg m st"
  by (metis visit_erase_aux(1))

end
