(* ===== verification/Ieee.thy ===== *)
theory Ieee
  imports Prelude
begin

text \<open>
  The part of IEEE 754 binary32 and binary64 that the program's own decisions depend on, exactly
  and executably on bit patterns: NaN, the order of the remaining values (both zeros equal) and the
  lexicographic order of vectors built on it. Rounded arithmetic is left to parameters of the
  definitions that need it.
\<close>

definition fp_is_nan :: "nat \<Rightarrow> nat \<Rightarrow> nat \<Rightarrow> bool" where
  "fp_is_nan mant_bits exp_bits bits \<longleftrightarrow>
     (bits div 2 ^ mant_bits) mod 2 ^ exp_bits = 2 ^ exp_bits - 1 \<and> bits mod 2 ^ mant_bits \<noteq> 0"

text \<open>Sign and magnitude read as an integer: monotone in the value on all patterns but NaN.\<close>

definition fp_key :: "nat \<Rightarrow> nat \<Rightarrow> nat \<Rightarrow> int" where
  "fp_key mant_bits exp_bits bits =
     (let mag = int (bits mod 2 ^ (mant_bits + exp_bits))
      in if bits div 2 ^ (mant_bits + exp_bits) = 0 then mag else - mag)"

definition is_nan32 :: "32 word \<Rightarrow> bool" where "is_nan32 w = fp_is_nan 23 8 (unat w)"
definition is_nan64 :: "64 word \<Rightarrow> bool" where "is_nan64 w = fp_is_nan 52 11 (unat w)"
definition key32 :: "32 word \<Rightarrow> int" where "key32 w = fp_key 23 8 (unat w)"
definition key64 :: "64 word \<Rightarrow> int" where "key64 w = fp_key 52 11 (unat w)"

definition f32_less :: "32 word \<Rightarrow> 32 word \<Rightarrow> bool" where
  "f32_less a b \<longleftrightarrow> \<not> is_nan32 a \<and> \<not> is_nan32 b \<and> key32 a < key32 b"

definition f32_eq :: "32 word \<Rightarrow> 32 word \<Rightarrow> bool" where
  "f32_eq a b \<longleftrightarrow> \<not> is_nan32 a \<and> \<not> is_nan32 b \<and> key32 a = key32 b"

definition f64_less :: "64 word \<Rightarrow> 64 word \<Rightarrow> bool" where
  "f64_less a b \<longleftrightarrow> \<not> is_nan64 a \<and> \<not> is_nan64 b \<and> key64 a < key64 b"

definition f64_eq :: "64 word \<Rightarrow> 64 word \<Rightarrow> bool" where
  "f64_eq a b \<longleftrightarrow> \<not> is_nan64 a \<and> \<not> is_nan64 b \<and> key64 a = key64 b"

lemma f32_less_irrefl [simp]: "\<not> f32_less a a"
  by (simp add: f32_less_def)

lemma f64_less_irrefl [simp]: "\<not> f64_less a a"
  by (simp add: f64_less_def)

lemma f32_less_trans: "f32_less a b \<Longrightarrow> f32_less b c \<Longrightarrow> f32_less a c"
  by (simp add: f32_less_def)

lemma f64_less_trans: "f64_less a b \<Longrightarrow> f64_less b c \<Longrightarrow> f64_less a c"
  by (simp add: f64_less_def)

lemma f32_trichotomy: "\<not> is_nan32 a \<Longrightarrow> \<not> is_nan32 b \<Longrightarrow> f32_less a b \<or> f32_eq a b \<or> f32_less b a"
  by (auto simp: f32_less_def f32_eq_def)

lemma f64_trichotomy: "\<not> is_nan64 a \<Longrightarrow> \<not> is_nan64 b \<Longrightarrow> f64_less a b \<or> f64_eq a b \<or> f64_less b a"
  by (auto simp: f64_less_def f64_eq_def)

section \<open>Lexicographic comparison\<close>

text \<open>std::lexicographical_compare: operator< of vectors and strings.\<close>

fun lex_less :: "('a \<Rightarrow> 'a \<Rightarrow> bool) \<Rightarrow> 'a list \<Rightarrow> 'a list \<Rightarrow> bool" where
  "lex_less lt [] [] = False"
| "lex_less lt [] (y # ys) = True"
| "lex_less lt (x # xs) [] = False"
| "lex_less lt (x # xs) (y # ys) = (lt x y \<or> \<not> lt y x \<and> lex_less lt xs ys)"

definition char_less :: "char \<Rightarrow> char \<Rightarrow> bool" where
  "char_less c d \<longleftrightarrow> (of_char c :: nat) < of_char d"

definition string_less :: "string \<Rightarrow> string \<Rightarrow> bool" where
  "string_less = lex_less char_less"

lemma lex_less_irrefl: "(\<And>x. \<not> lt x x) \<Longrightarrow> \<not> lex_less lt xs xs"
  by (induction xs) auto

lemma lex_equiv_eq:
  assumes total: "\<And>x y. \<not> lt x y \<Longrightarrow> \<not> lt y x \<Longrightarrow> x = y"
  shows "\<not> lex_less lt xs ys \<Longrightarrow> \<not> lex_less lt ys xs \<Longrightarrow> xs = ys"
  by (induction xs ys rule: list_induct2') (auto dest: total)

lemma string_less_irrefl [simp]: "\<not> string_less s s"
  unfolding string_less_def by (rule lex_less_irrefl) (simp add: char_less_def)

lemma string_equiv_eq: "\<not> string_less s t \<Longrightarrow> \<not> string_less t s \<Longrightarrow> s = t"
proof -
  have eq: "c = d" if "\<not> char_less c d" "\<not> char_less d c" for c d
    using that by (auto simp: char_less_def)
  show "\<not> string_less s t \<Longrightarrow> \<not> string_less t s \<Longrightarrow> s = t"
    unfolding string_less_def by (rule lex_equiv_eq) (rule eq)
qed

end
