(* ===== verification/IR.thy ===== *)
theory IR
  imports Types ScopeStack Ieee
begin

text \<open>
  The module under construction, as the code generator sees it: LLVM types, the operands a builder
  call returns, the instructions it appends, basic blocks, private globals and the two constant
  caches of IRCodeGenContext (include/function_registry.h), with the emission helpers of
  src/codegen/const_global_emit.cc. Each builder call appends one instruction; the builder's own
  constant folding is not modelled. Instructions are data here, their execution is not defined.
\<close>

section \<open>Types and operands\<close>

text \<open>A structure type of LLVMStructType is named by the value type it represents.\<close>

datatype ll_type = LVoid | LInt nat | LFloat | LDouble | LPtr | LStruct value_type

datatype operand =
    Arg nat
  | Reg nat ll_type
  | ConstInt nat nat
  | ConstF32 "32 word"
  | ConstF64 "64 word"
  | ConstNull
  | GlobalPtr nat
  | ConstStruct value_type operand "32 word"

fun getType :: "operand \<Rightarrow> ll_type" where
  "getType (Arg _) = LPtr"
| "getType (Reg _ t) = t"
| "getType (ConstInt w _) = LInt w"
| "getType (ConstF32 _) = LFloat"
| "getType (ConstF64 _) = LDouble"
| "getType ConstNull = LPtr"
| "getType (GlobalPtr _) = LPtr"
| "getType (ConstStruct t _ _) = LStruct t"

datatype icmp_pred =
    ICMP_EQ | ICMP_NE | ICMP_SGT | ICMP_SGE | ICMP_SLT | ICMP_SLE | ICMP_UGT | ICMP_UGE | ICMP_ULT | ICMP_ULE

datatype fcmp_pred = FCMP_OEQ | FCMP_OGT | FCMP_OGE | FCMP_OLT | FCMP_OLE | FCMP_ONE | FCMP_UNE

datatype bin_op =
    BAdd | BFAdd | BSub | BFSub | BMul | BFMul | BSDiv | BUDiv | BFDiv | BSRem | BURem | BFRem
  | BAnd | BOr | BXor | BShl | BAShr | BLShr

datatype instr =
    ICmp nat icmp_pred operand operand
  | FCmp nat fcmp_pred operand operand
  | Bin nat bin_op operand operand
  | Neg nat operand
  | FNeg nat operand
  | NotI nat operand
  | ZExt nat operand ll_type
  | IntCast nat operand ll_type bool
  | SIToFP nat operand ll_type
  | UIToFP nat operand ll_type
  | FPToSI nat operand ll_type
  | FPToUI nat operand ll_type
  | FPExt nat operand ll_type
  | FPTrunc nat operand ll_type
  | Call nat string ll_type "operand list"
  | IntrinsicCall nat string "ll_type list" "operand list"
  | Select nat operand operand operand
  | ExtractValue nat operand nat
  | Alloca nat ll_type
  | Store operand operand
  | GEP nat ll_type operand "operand list"
  | Load nat ll_type operand
  | Phi nat ll_type "(operand \<times> nat) list"
  | Br nat
  | CondBr operand nat nat
  | Ret operand
  | RetVoid

definition is_terminator :: "instr \<Rightarrow> bool" where
  "is_terminator i = (case i of Br _ \<Rightarrow> True | CondBr _ _ _ \<Rightarrow> True | Ret _ \<Rightarrow> True | RetVoid \<Rightarrow> True | _ \<Rightarrow> False)"

fun successors :: "instr \<Rightarrow> nat list" where
  "successors (Br b) = [b]"
| "successors (CondBr _ b1 b2) = [b1, b2]"
| "successors _ = []"

record basic_block =
  bb_name :: string
  bb_code :: "instr list"

datatype global_init =
    GBytes string
  | GInts nat "nat list"
  | GF32 "32 word list"
  | GF64 "64 word list"
  | GStrings "(operand \<times> 32 word) list"

record global_var =
  g_name :: string
  g_init :: global_init
  g_align :: nat

section \<open>Builder state\<close>

text \<open>Basic blocks are numbered in the order of their creation; \<open>insert_point\<close> is the block the
  builder appends to; \<open>vars\<close> is the scope stack of the CodeGen object, where an absent operand is
  the null pointer that void expressions leave in \<open>value_\<close>.\<close>

record cg_state =
  blocks :: "basic_block list"
  insert_point :: nat
  next_reg :: nat
  globals :: "global_var list"
  callees :: "(string \<times> ll_type) list"
  const_list_cache :: "(const_list \<times> operand) list"
  const_string_cache :: "(string \<times> operand) list"
  vars :: "operand option scope_stack"

definition CreateBlock :: "string \<Rightarrow> cg_state \<Rightarrow> nat \<times> cg_state" where
  "CreateBlock nm s =
     (length (blocks s), s\<lparr>blocks := blocks s @ [\<lparr>bb_name = nm, bb_code = []\<rparr>]\<rparr>)"

definition SetInsertPoint :: "nat \<Rightarrow> cg_state \<Rightarrow> cg_state" where
  "SetInsertPoint b s = s\<lparr>insert_point := b\<rparr>"

definition append_instr :: "instr \<Rightarrow> cg_state \<Rightarrow> cg_state" where
  "append_instr i s =
     s\<lparr>blocks := (blocks s)[insert_point s := (blocks s ! insert_point s)
          \<lparr>bb_code := bb_code (blocks s ! insert_point s) @ [i]\<rparr>]\<rparr>"

text \<open>A builder call with a result: the instruction is numbered with the next register.\<close>

definition emit :: "(nat \<Rightarrow> instr) \<Rightarrow> ll_type \<Rightarrow> cg_state \<Rightarrow> operand \<times> cg_state" where
  "emit mk t s =
     (Reg (next_reg s) t, (append_instr (mk (next_reg s)) s)\<lparr>next_reg := next_reg s + 1\<rparr>)"

definition getOrInsertFunction :: "string \<Rightarrow> ll_type \<Rightarrow> cg_state \<Rightarrow> cg_state" where
  "getOrInsertFunction nm t s =
     (if map_of (callees s) nm \<noteq> None then s else s\<lparr>callees := callees s @ [(nm, t)]\<rparr>)"

definition update_vars :: "(operand option scope_stack \<Rightarrow> operand option scope_stack) \<Rightarrow> cg_state \<Rightarrow> cg_state" where
  "update_vars f s = s\<lparr>vars := f (vars s)\<rparr>"

section \<open>Constants\<close>

text \<open>CreatePrivateGlobal: the address of the first element of a new private constant.\<close>

definition CreatePrivateGlobal :: "string \<Rightarrow> global_init \<Rightarrow> nat \<Rightarrow> cg_state \<Rightarrow> operand \<times> cg_state" where
  "CreatePrivateGlobal nm ini alignment s =
     (GlobalPtr (length (globals s)),
      s\<lparr>globals := globals s @ [\<lparr>g_name = nm, g_init = ini, g_align = alignment\<rparr>]\<rparr>)"

definition EmitStringPayloadGlobal :: "string \<Rightarrow> cg_state \<Rightarrow> operand \<times> cg_state" where
  "EmitStringPayloadGlobal str s =
     (if str = [] then (ConstNull, s)
      else (case map_of (const_string_cache s) str of
          Some p \<Rightarrow> (p, s)
        | None \<Rightarrow>
            (case CreatePrivateGlobal ''jf.str'' (GBytes str) 1 s of
               (p, s') \<Rightarrow> (p, s'\<lparr>const_string_cache := const_string_cache s' @ [(str, p)]\<rparr>))))"

definition EmitTypedArrayGlobal :: "global_init \<Rightarrow> nat \<Rightarrow> nat \<Rightarrow> cg_state \<Rightarrow> operand \<times> cg_state" where
  "EmitTypedArrayGlobal ini n alignment s =
     (if n = 0 then (ConstNull, s)
      else CreatePrivateGlobal ''jf.arr'' ini (if alignment = 0 then 1 else alignment) s)"

definition BuildPtrLenStructConstant :: "value_type \<Rightarrow> operand \<Rightarrow> nat \<Rightarrow> operand" where
  "BuildPtrLenStructConstant t data_ptr len = ConstStruct t data_ptr (of_nat len)"

fun MakeValue :: "const_value \<Rightarrow> cg_state \<Rightarrow> operand \<times> cg_state" where
  "MakeValue (CU8 v) s = (ConstInt 8 (unat v), s)"
| "MakeValue (CU16 v) s = (ConstInt 16 (unat v), s)"
| "MakeValue (CU32 v) s = (ConstInt 32 (unat v), s)"
| "MakeValue (CU64 v) s = (ConstInt 64 (unat v), s)"
| "MakeValue (CI8 v) s = (ConstInt 8 (unat v), s)"
| "MakeValue (CI16 v) s = (ConstInt 16 (unat v), s)"
| "MakeValue (CI32 v) s = (ConstInt 32 (unat v), s)"
| "MakeValue (CI64 v) s = (ConstInt 64 (unat v), s)"
| "MakeValue (CF32 v) s = (ConstF32 v, s)"
| "MakeValue (CF64 v) s = (ConstF64 v, s)"
| "MakeValue (CString v) s =
     (case EmitStringPayloadGlobal v s of
        (p, s') \<Rightarrow> (BuildPtrLenStructConstant kString p (length v), s'))"

text \<open>The loop over a list of strings: one payload and one (pointer, length) element each.\<close>

fun string_elems :: "string list \<Rightarrow> cg_state \<Rightarrow> (operand \<times> 32 word) list \<times> cg_state" where
  "string_elems [] s = ([], s)"
| "string_elems (v # vs) s =
     (case EmitStringPayloadGlobal v s of
        (p, s') \<Rightarrow> (case string_elems vs s' of
           (es, s'') \<Rightarrow> ((p, of_nat (length v)) # es, s'')))"

definition CreateNumberList :: "value_type \<Rightarrow> global_init \<Rightarrow> nat \<Rightarrow> nat \<Rightarrow> cg_state \<Rightarrow> operand \<times> cg_state" where
  "CreateNumberList t ini n alignment s =
     (case EmitTypedArrayGlobal ini n alignment s of
        (p, s') \<Rightarrow> (BuildPtrLenStructConstant t p n, s'))"

fun MakeList :: "const_list \<Rightarrow> cg_state \<Rightarrow> operand \<times> cg_state" where
  "MakeList (LString vs) s =
     (if vs = [] then (BuildPtrLenStructConstant kStringList ConstNull 0, s)
      else (case string_elems vs s of
          (es, s') \<Rightarrow> (case CreatePrivateGlobal ''jf.strlist'' (GStrings es) 8 s' of
             (p, s'') \<Rightarrow> (BuildPtrLenStructConstant kStringList p (length vs), s''))))"
| "MakeList (LU8 vs) s = CreateNumberList kU8List (GInts 8 (map unat vs)) (length vs) 1 s"
| "MakeList (LU16 vs) s = CreateNumberList kU16List (GInts 16 (map unat vs)) (length vs) 2 s"
| "MakeList (LU32 vs) s = CreateNumberList kU32List (GInts 32 (map unat vs)) (length vs) 4 s"
| "MakeList (LU64 vs) s = CreateNumberList kU64List (GInts 64 (map unat vs)) (length vs) 8 s"
| "MakeList (LI8 vs) s = CreateNumberList kI8List (GInts 8 (map unat vs)) (length vs) 1 s"
| "MakeList (LI16 vs) s = CreateNumberList kI16List (GInts 16 (map unat vs)) (length vs) 2 s"
| "MakeList (LI32 vs) s = CreateNumberList kI32List (GInts 32 (map unat vs)) (length vs) 4 s"
| "MakeList (LI64 vs) s = CreateNumberList kI64List (GInts 64 (map unat vs)) (length vs) 8 s"
| "MakeList (LF32 vs) s = CreateNumberList kF32List (GF32 vs) (length vs) 4 s"
| "MakeList (LF64 vs) s = CreateNumberList kF64List (GF64 vs) (length vs) 8 s"

text \<open>operator< of the variant: the index of the alternative first, then the vectors.\<close>

fun list_index :: "const_list \<Rightarrow> nat" where
  "list_index (LI8 _) = 0" | "list_index (LI16 _) = 1" | "list_index (LI32 _) = 2" | "list_index (LI64 _) = 3"
| "list_index (LU8 _) = 4" | "list_index (LU16 _) = 5" | "list_index (LU32 _) = 6" | "list_index (LU64 _) = 7"
| "list_index (LF32 _) = 8" | "list_index (LF64 _) = 9" | "list_index (LString _) = 10"

definition const_list_less :: "const_list \<Rightarrow> const_list \<Rightarrow> bool" where
  "const_list_less a b =
     (let by_index = (list_index a < list_index b) in
      case a of
        LI8 x \<Rightarrow> (case b of LI8 y \<Rightarrow> lex_less (\<lambda>c d. sint c < sint d) x y | _ \<Rightarrow> by_index)
      | LI16 x \<Rightarrow> (case b of LI16 y \<Rightarrow> lex_less (\<lambda>c d. sint c < sint d) x y | _ \<Rightarrow> by_index)
      | LI32 x \<Rightarrow> (case b of LI32 y \<Rightarrow> lex_less (\<lambda>c d. sint c < sint d) x y | _ \<Rightarrow> by_index)
      | LI64 x \<Rightarrow> (case b of LI64 y \<Rightarrow> lex_less (\<lambda>c d. sint c < sint d) x y | _ \<Rightarrow> by_index)
      | LU8 x \<Rightarrow> (case b of LU8 y \<Rightarrow> lex_less (\<lambda>c d. uint c < uint d) x y | _ \<Rightarrow> by_index)
      | LU16 x \<Rightarrow> (case b of LU16 y \<Rightarrow> lex_less (\<lambda>c d. uint c < uint d) x y | _ \<Rightarrow> by_index)
      | LU32 x \<Rightarrow> (case b of LU32 y \<Rightarrow> lex_less (\<lambda>c d. uint c < uint d) x y | _ \<Rightarrow> by_index)
      | LU64 x \<Rightarrow> (case b of LU64 y \<Rightarrow> lex_less (\<lambda>c d. uint c < uint d) x y | _ \<Rightarrow> by_index)
      | LF32 x \<Rightarrow> (case b of LF32 y \<Rightarrow> lex_less f32_less x y | _ \<Rightarrow> by_index)
      | LF64 x \<Rightarrow> (case b of LF64 y \<Rightarrow> lex_less f64_less x y | _ \<Rightarrow> by_index)
      | LString x \<Rightarrow> (case b of LString y \<Rightarrow> lex_less string_less x y | _ \<Rightarrow> by_index))"

text \<open>std::map::find: the entry whose key is equivalent under operator<.\<close>

definition const_list_equiv :: "const_list \<Rightarrow> const_list \<Rightarrow> bool" where
  "const_list_equiv a b \<longleftrightarrow> \<not> const_list_less a b \<and> \<not> const_list_less b a"

definition find_const_list :: "const_list \<Rightarrow> cg_state \<Rightarrow> operand option" where
  "find_const_list l s = map_option snd (find (\<lambda>(k, _). const_list_equiv k l) (const_list_cache s))"

end
