(* ===== verification/CodeGen.thy ===== *)
theory CodeGen
  imports Validator IR
begin

text \<open>
  Model of src/codegen/: the visitor that emits the instructions of an entry function. A visit
  returns the operand left in \<open>value_\<close> (absent for the null pointer) and the state of the module
  under construction, or an error: a status, or the dereference of a null operand, which the
  source does not check. Loops that run from the last argument to the first are recursions that
  emit for the rest of the arguments before the current ones.
\<close>

section \<open>Environment and errors\<close>

datatype cg_error = CgStatus status | CgNullDeref

text \<open>What the generator reads but does not change: the registry, the code generating callbacks of
  registered intrinsic functions, and the iteration order of a hash set of names.\<close>

record cg_env =
  function_registry :: registry
  codegen_callback :: "string \<Rightarrow> signature \<Rightarrow> operand list \<Rightarrow> cg_state \<Rightarrow> operand option \<times> cg_state"
  set_order :: "string list \<Rightarrow> string list"

definition internal_error :: "string \<Rightarrow> cg_error" where
  "internal_error msg = CgStatus (RuntimeError (''[internal] '' @ msg))"

definition deref :: "operand option \<Rightarrow> cg_error + operand" where
  "deref v = (case v of None \<Rightarrow> Inl CgNullDeref | Some x \<Rightarrow> Inr x)"

section \<open>Types\<close>

definition ValueTypeToLLVMType :: "value_type \<Rightarrow> cg_error + ll_type" where
  "ValueTypeToLLVMType t = (case t of
     kVoid \<Rightarrow> Inr LVoid
   | kU8 \<Rightarrow> Inr (LInt 8) | kI8 \<Rightarrow> Inr (LInt 8)
   | kU16 \<Rightarrow> Inr (LInt 16) | kI16 \<Rightarrow> Inr (LInt 16)
   | kU32 \<Rightarrow> Inr (LInt 32) | kI32 \<Rightarrow> Inr (LInt 32)
   | kU64 \<Rightarrow> Inr (LInt 64) | kI64 \<Rightarrow> Inr (LInt 64)
   | kF32 \<Rightarrow> Inr LFloat | kF64 \<Rightarrow> Inr LDouble
   | kString \<Rightarrow> Inr (LStruct kString)
   | kU8List \<Rightarrow> Inr (LStruct kU8List) | kI8List \<Rightarrow> Inr (LStruct kI8List)
   | kU16List \<Rightarrow> Inr (LStruct kU16List) | kI16List \<Rightarrow> Inr (LStruct kI16List)
   | kU32List \<Rightarrow> Inr (LStruct kU32List) | kI32List \<Rightarrow> Inr (LStruct kI32List)
   | kU64List \<Rightarrow> Inr (LStruct kU64List) | kI64List \<Rightarrow> Inr (LStruct kI64List)
   | kF32List \<Rightarrow> Inr (LStruct kF32List) | kF64List \<Rightarrow> Inr (LStruct kF64List)
   | kStringList \<Rightarrow> Inr (LStruct kStringList)
   | kPtr \<Rightarrow> Inr LPtr
   | kUnknown \<Rightarrow> Inl (internal_error (''ValueType '' @ TypeToString t @ '' cannot convert to llvm type (compiler bug)'')))"

definition int_ty :: "value_type \<Rightarrow> ll_type" where
  "int_ty t = LInt (nat (GetBitWidthFromType t))"

definition fp_ty :: "value_type \<Rightarrow> ll_type" where
  "fp_ty t = (if t = kF32 then LFloat else LDouble)"

text \<open>NumericTypeConvert: nothing to do for equal types; else one cast instruction. The extension
  of an integer cast is chosen by the signedness of the target type.\<close>

definition NumericTypeConvert ::
  "value_type \<Rightarrow> value_type \<Rightarrow> operand option \<Rightarrow> cg_state \<Rightarrow> cg_error + (operand option \<times> cg_state)" where
  "NumericTypeConvert from_t to_t v s =
     (if from_t = to_t then Inr (v, s)
      else
        (let cast = (\<lambda>mk t. bind_result (deref v) (\<lambda>x.
               case emit (\<lambda>r. mk r x t) t s of (y, s') \<Rightarrow> Inr (Some y, s')));
             unsupported = Inl (internal_error (''unsupported numeric conversion: from '' @ TypeToString from_t
                             @ '' to '' @ TypeToString to_t @ '' (compiler bug)'')) in
         if IsIntegerType from_t then
           (if IsIntegerType to_t then cast (\<lambda>r x t. IntCast r x t (IsSignedType to_t)) (int_ty to_t)
            else if IsFloatType to_t then
              (if IsSignedType from_t then cast SIToFP (fp_ty to_t) else cast UIToFP (fp_ty to_t))
            else unsupported)
         else if IsFloatType from_t then
           (if IsIntegerType to_t then
              (if IsSignedType to_t then cast FPToSI (int_ty to_t) else cast FPToUI (int_ty to_t))
            else if IsFloatType to_t then
              (if GetBitWidthFromType from_t < GetBitWidthFromType to_t then cast FPExt LDouble
               else if GetBitWidthFromType from_t > GetBitWidthFromType to_t then cast FPTrunc LFloat
               else Inr (v, s))
            else unsupported)
         else unsupported))"

section \<open>Conditions and operators\<close>

text \<open>The conversion of a condition to one bit, with the error message of its construct.\<close>

definition to_bool :: "string \<Rightarrow> operand option \<Rightarrow> cg_state \<Rightarrow> cg_error + (operand \<times> cg_state)" where
  "to_bool msg v s = bind_result (deref v) (\<lambda>x.
     case getType x of
       LInt w \<Rightarrow> Inr (emit (\<lambda>r. ICmp r ICMP_NE x (ConstInt w 0)) (LInt 1) s)
     | LFloat \<Rightarrow> Inr (emit (\<lambda>r. FCmp r FCMP_ONE x (ConstF32 0)) (LInt 1) s)
     | LDouble \<Rightarrow> Inr (emit (\<lambda>r. FCmp r FCMP_ONE x (ConstF64 0)) (LInt 1) s)
     | _ \<Rightarrow> Inl (internal_error msg))"

definition zext8 :: "operand \<times> cg_state \<Rightarrow> operand option \<times> cg_state" where
  "zext8 xs = (case xs of (x, s) \<Rightarrow> (case emit (\<lambda>r. ZExt r x (LInt 8)) (LInt 8) s of (y, s') \<Rightarrow> (Some y, s')))"

definition unary_cg ::
  "unary_op \<Rightarrow> value_type \<Rightarrow> value_type \<Rightarrow> operand option \<Rightarrow> cg_state \<Rightarrow> cg_error + (operand option \<times> cg_state)" where
  "unary_cg op child_t ret_t v s = (case op of
     kPlus \<Rightarrow> Inr (v, s)
   | kMinus \<Rightarrow>
       bind_result (NumericTypeConvert child_t ret_t v s) (\<lambda>(v1, s1).
       bind_result (deref v1) (\<lambda>x.
         case emit (\<lambda>r. if IsIntegerType ret_t then Neg r x else FNeg r x) (getType x) s1 of
           (y, s2) \<Rightarrow> Inr (Some y, s2)))
   | kNot \<Rightarrow>
       bind_result (deref v) (\<lambda>x.
         case getType x of
           LInt w \<Rightarrow> Inr (zext8 (emit (\<lambda>r. ICmp r ICMP_EQ x (ConstInt w 0)) (LInt 1) s))
         | LFloat \<Rightarrow> Inr (zext8 (emit (\<lambda>r. FCmp r FCMP_OEQ x (ConstF32 0)) (LInt 1) s))
         | _ \<Rightarrow> Inr (zext8 (emit (\<lambda>r. FCmp r FCMP_OEQ x (ConstF64 0)) (LInt 1) s)))
   | kBitwiseNot \<Rightarrow>
       bind_result (deref v) (\<lambda>x.
         case emit (\<lambda>r. NotI r x) (getType x) s of (y, s1) \<Rightarrow> Inr (Some y, s1)))"

definition unknown_binary :: "binary_op \<Rightarrow> value_type \<Rightarrow> value_type \<Rightarrow> cg_error" where
  "unknown_binary op lt rt = internal_error (''unknown binary operator: '' @ TypeToString lt @ '' ''
      @ BinaryOPTypeToString op @ '' '' @ TypeToString rt @ '' (compiler bug)'')"

text \<open>The comparison of a relational operator on operands of type \<open>t\<close>.\<close>

definition rel_instr :: "binary_op \<Rightarrow> value_type \<Rightarrow> operand \<Rightarrow> operand \<Rightarrow> (nat \<Rightarrow> instr) option" where
  "rel_instr op t l r =
     (let cmp = (\<lambda>si ui fp. Some (\<lambda>n. if IsIntegerType t
            then (if IsSignedType t then ICmp n si l r else ICmp n ui l r) else FCmp n fp l r)) in
      case op of
        kLarge \<Rightarrow> cmp ICMP_SGT ICMP_UGT FCMP_OGT
      | kLargeEqual \<Rightarrow> cmp ICMP_SGE ICMP_UGE FCMP_OGE
      | kEqual \<Rightarrow> cmp ICMP_EQ ICMP_EQ FCMP_OEQ
      | kLess \<Rightarrow> cmp ICMP_SLT ICMP_ULT FCMP_OLT
      | kLessEqual \<Rightarrow> cmp ICMP_SLE ICMP_ULE FCMP_OLE
      | kNotEqual \<Rightarrow> cmp ICMP_NE ICMP_NE FCMP_UNE
      | _ \<Rightarrow> None)"

definition calc_op :: "binary_op \<Rightarrow> value_type \<Rightarrow> bin_op option" where
  "calc_op op t = (case op of
     kAdd \<Rightarrow> Some (if IsIntegerType t then BAdd else BFAdd)
   | kSub \<Rightarrow> Some (if IsIntegerType t then BSub else BFSub)
   | kMul \<Rightarrow> Some (if IsIntegerType t then BMul else BFMul)
   | kDiv \<Rightarrow> Some (if IsIntegerType t then (if IsSignedType t then BSDiv else BUDiv) else BFDiv)
   | kMod \<Rightarrow> Some (if IsIntegerType t then (if IsSignedType t then BSRem else BURem) else BFRem)
   | kBitwiseAnd \<Rightarrow> Some BAnd
   | kBitwiseOr \<Rightarrow> Some BOr
   | kBitwiseXor \<Rightarrow> Some BXor
   | kBitwiseShiftLeft \<Rightarrow> Some BShl
   | kBitwiseShiftRight \<Rightarrow> Some (if IsSignedType t then BAShr else BLShr)
   | _ \<Rightarrow> None)"

definition SolveBinaryOpNumericType ::
  "binary_op \<Rightarrow> value_type \<Rightarrow> value_type \<Rightarrow> value_type \<Rightarrow> operand option \<Rightarrow> operand option \<Rightarrow> cg_state
     \<Rightarrow> cg_error + (operand option \<times> cg_state)" where
  "SolveBinaryOpNumericType op lt rt ret_t lv rv s =
     (if IsRelationalBinaryOPType op then
        (let tmp_type = GetPromotedType lt rt in
         bind_result (NumericTypeConvert lt tmp_type lv s) (\<lambda>(lv1, s1).
         bind_result (NumericTypeConvert rt tmp_type rv s1) (\<lambda>(rv1, s2).
         bind_result (deref lv1) (\<lambda>l.
         bind_result (deref rv1) (\<lambda>r.
           case rel_instr op tmp_type l r of
             None \<Rightarrow> Inl (unknown_binary op lt rt)
           | Some mk \<Rightarrow> Inr (zext8 (emit mk (LInt 1) s2)))))))
      else
        bind_result (NumericTypeConvert lt ret_t lv s) (\<lambda>(lv1, s1).
        bind_result (NumericTypeConvert rt ret_t rv s1) (\<lambda>(rv1, s2).
        bind_result (deref lv1) (\<lambda>l.
        bind_result (deref rv1) (\<lambda>r.
          case calc_op op ret_t of
            None \<Rightarrow> Inl (unknown_binary op lt rt)
          | Some bop \<Rightarrow>
              (case emit (\<lambda>n. Bin n bop l r) (getType l) s2 of (y, s3) \<Rightarrow> Inr (Some y, s3)))))))"

definition lookup_function :: "cg_env \<Rightarrow> signature \<Rightarrow> cg_error + (signature \<times> function_structure)" where
  "lookup_function env sign = (case GetFuncBySign (function_registry env) sign of
     Inl st \<Rightarrow> Inl (CgStatus st) | Inr r \<Rightarrow> Inr r)"

definition ListOrStringConcat ::
  "cg_env \<Rightarrow> value_type \<Rightarrow> value_type \<Rightarrow> value_type \<Rightarrow> operand option \<Rightarrow> operand option \<Rightarrow> cg_state
     \<Rightarrow> cg_error + (operand option \<times> cg_state)" where
  "ListOrStringConcat env t lt rt lv rv s =
     bind_result (lookup_function env
        (FunctionSignature (if t = kString then ''StringConcat'' else ''ListConcat'') [lt, rt, kPtr] kUnknown))
     (\<lambda>(sign, _).
     bind_result (ValueTypeToLLVMType (ret_type sign)) (\<lambda>llvm_ret_type.
     bind_result (deref lv) (\<lambda>l.
     bind_result (deref rv) (\<lambda>r.
       case emit (\<lambda>n. Call n (SignatureToString sign) llvm_ret_type [l, r, Arg 1]) llvm_ret_type
              (getOrInsertFunction (SignatureToString sign) llvm_ret_type s) of
         (y, s1) \<Rightarrow> Inr (Some y, s1)))))"

definition string_cmp_pred :: "binary_op \<Rightarrow> icmp_pred option" where
  "string_cmp_pred op = (case op of
     kLarge \<Rightarrow> Some ICMP_SGT | kLargeEqual \<Rightarrow> Some ICMP_SGE | kEqual \<Rightarrow> Some ICMP_EQ
   | kLess \<Rightarrow> Some ICMP_SLT | kLessEqual \<Rightarrow> Some ICMP_SLE | kNotEqual \<Rightarrow> Some ICMP_NE | _ \<Rightarrow> None)"

definition SolveBinaryOpComplexType ::
  "cg_env \<Rightarrow> binary_op \<Rightarrow> value_type \<Rightarrow> value_type \<Rightarrow> value_type \<Rightarrow> operand option \<Rightarrow> operand option \<Rightarrow> cg_state
     \<Rightarrow> cg_error + (operand option \<times> cg_state)" where
  "SolveBinaryOpComplexType env op lt rt ret_t lv rv s =
     (if op = kAdd then ListOrStringConcat env ret_t lt rt lv rv s
      else if lt \<noteq> kString \<or> rt \<noteq> kString
      then Inl (internal_error (''unknown operand type in StringCmp: '' @ TypeToString ret_t @ '' (compiler bug)''))
      else
        bind_result (lookup_function env (FunctionSignature ''StringCmp'' [kString, kString] kUnknown))
        (\<lambda>(sign, _).
           let symbol = SignatureToString sign; s1 = getOrInsertFunction symbol (LInt 32) s in
           case string_cmp_pred op of
             None \<Rightarrow> Inl (unknown_binary op lt rt)
           | Some p \<Rightarrow>
               bind_result (deref lv) (\<lambda>l.
               bind_result (deref rv) (\<lambda>r.
                 case emit (\<lambda>n. Call n symbol (LInt 32) [l, r]) (LInt 32) s1 of
                   (c, s2) \<Rightarrow> Inr (zext8 (emit (\<lambda>n. ICmp n p c (ConstInt 32 0)) (LInt 1) s2))))))"

section \<open>Function calls\<close>

definition function_cg ::
  "cg_env \<Rightarrow> string \<Rightarrow> value_type list \<Rightarrow> value_type \<Rightarrow> operand list \<Rightarrow> cg_state
     \<Rightarrow> cg_error + (operand option \<times> cg_state)" where
  "function_cg env fn arg_types ret_t ops s =
     bind_result (lookup_function env (FunctionSignature fn arg_types kUnknown)) (\<lambda>(sign, func_struct).
       case func_type func_struct of
         kLLVMIntrinicFunc \<Rightarrow>
           Inr (codegen_callback env (case codegen_func func_struct of Some h \<Rightarrow> h | None \<Rightarrow> []) sign ops s)
       | kCFunc \<Rightarrow>
           (let symbol = (if needs_exec_ctx func_struct then SignatureToString (legacy_sign sign)
                          else SignatureToString sign);
                actuals = (if needs_exec_ctx func_struct then ops @ [Arg 1] else ops) in
            bind_result (ValueTypeToLLVMType ret_t) (\<lambda>llvm_ret_type.
            case emit (\<lambda>n. Call n symbol llvm_ret_type actuals) llvm_ret_type
                   (getOrInsertFunction symbol llvm_ret_type s) of
              (y, s1) \<Rightarrow> Inr (if ret_t = kVoid then None else Some y, s1))))"

section \<open>Joins of if blocks\<close>

type_synonym branch_info = "nat \<times> operand option scope"

definition modified_names :: "branch_info list \<Rightarrow> string list" where
  "modified_names infos = remdups (concat (map (\<lambda>(_, m). map fst m) infos))"

definition phi_incoming ::
  "string \<Rightarrow> operand option \<Rightarrow> branch_info list \<Rightarrow> bool \<Rightarrow> nat \<Rightarrow> (operand option \<times> nat) list" where
  "phi_incoming nm orig infos has_else last_cond =
     map (\<lambda>(b, m). (case map_of m nm of Some v \<Rightarrow> (v, b) | None \<Rightarrow> (orig, b))) infos
     @ (if has_else then [] else [(orig, last_cond)])"

fun deref_incoming :: "(operand option \<times> nat) list \<Rightarrow> cg_error + (operand \<times> nat) list" where
  "deref_incoming [] = Inr []"
| "deref_incoming ((v, b) # vs) =
     bind_result (deref v) (\<lambda>x. bind_result (deref_incoming vs) (\<lambda>xs. Inr ((x, b) # xs)))"

text \<open>The loop over \<open>all_modified_vars\<close>: one PHI node per modified outer variable.\<close>

fun emit_phis :: "branch_info list \<Rightarrow> bool \<Rightarrow> nat \<Rightarrow> string list \<Rightarrow> cg_state \<Rightarrow> cg_error + cg_state" where
  "emit_phis infos has_else last_cond [] s = Inr s"
| "emit_phis infos has_else last_cond (nm # nms) s =
     (case Lookup (vars s) nm of
        None \<Rightarrow> Inl CgNullDeref
      | Some orig \<Rightarrow>
          bind_result (deref orig) (\<lambda>x.
          bind_result (deref_incoming (phi_incoming nm orig infos has_else last_cond)) (\<lambda>inc.
            case emit (\<lambda>n. Phi n (getType x) inc) (getType x) s of
              (y, s1) \<Rightarrow> emit_phis infos has_else last_cond nms (update_vars (SetVar nm (Some y)) s1))))"

section \<open>The visitor\<close>

text \<open>One arm of a conditional: a new block, its value converted to the type of the node, and the
  branch to the merge block; the result names the block the arm ends in.\<close>

definition finish_arm ::
  "nat \<Rightarrow> value_type \<Rightarrow> value_type \<Rightarrow> operand option \<times> cg_state \<Rightarrow> cg_error + (operand \<times> nat \<times> cg_state)" where
  "finish_arm merge arm_t ret_t vs = (case vs of (v, s) \<Rightarrow>
     bind_result (NumericTypeConvert arm_t ret_t v s) (\<lambda>(v1, s1).
     bind_result (deref v1) (\<lambda>x. Inr (x, insert_point s1, append_instr (Br merge) s1))))"

function cg :: "cg_env \<Rightarrow> exec_node \<Rightarrow> cg_state \<Rightarrow> cg_error + (operand option \<times> cg_state)"
  and cg_args :: "cg_env \<Rightarrow> exec_node list \<Rightarrow> cg_state \<Rightarrow> cg_error + (operand list \<times> cg_state)"
  and cg_named :: "cg_env \<Rightarrow> bool \<Rightarrow> (var_info \<times> exec_node) list \<Rightarrow> cg_state \<Rightarrow> cg_error + cg_state"
  and cg_switch :: "cg_env \<Rightarrow> value_type \<Rightarrow> nat \<Rightarrow> exec_node list \<Rightarrow> cg_state
       \<Rightarrow> cg_error + (nat \<times> (operand \<times> nat) list \<times> cg_state)"
  and cg_branches :: "cg_env \<Rightarrow> nat \<Rightarrow> exec_node list \<Rightarrow> cg_state
       \<Rightarrow> cg_error + (nat \<times> branch_info list \<times> nat option \<times> cg_state)" where
  "cg env (EntryArgumentNode _) s = Inr (Some (Arg 0), s)"
| "cg env (ExecContextNode _) s = Inr (Some (Arg 1), s)"
| "cg env (OutputNode _) s = Inr (Some (Arg 2), s)"
| "cg env (ConstantValueNode _ v) s = (case MakeValue v s of (x, s1) \<Rightarrow> Inr (Some x, s1))"
| "cg env (ConstantListValueNode _ l) s =
     (case find_const_list l s of
        Some x \<Rightarrow> Inr (Some x, s)
      | None \<Rightarrow> (case MakeList l s of
          (x, s1) \<Rightarrow> Inr (Some x, s1\<lparr>const_list_cache := const_list_cache s1 @ [(l, x)]\<rparr>)))"
| "cg env (UnaryOPNode i op child) s =
     bind_result (cg env child s) (\<lambda>(v, s1). unary_cg op (GetReturnType child) (return_type i) v s1)"
| "cg env (BinaryOPNode i op left right) s =
     (if IsLogicalBinaryOPType op then
        (case CreateBlock ''sc.rhs'' s of (rhs_block, s1) \<Rightarrow>
         case CreateBlock ''sc.merge'' s1 of (merge_block, s2) \<Rightarrow>
           bind_result (cg env left s2) (\<lambda>(lv, s3).
           bind_result (to_bool ''unsupported type for logical operator lhs (should be caught by validator)'' lv s3)
             (\<lambda>(lb, s4).
           let lhs_end = insert_point s4;
               s5 = append_instr (if op = kAnd then CondBr lb rhs_block merge_block
                                  else CondBr lb merge_block rhs_block) s4 in
           bind_result (cg env right (SetInsertPoint rhs_block s5)) (\<lambda>(rv, s6).
           bind_result (to_bool ''unsupported type for logical operator rhs (should be caught by validator)'' rv s6)
             (\<lambda>(rb, s7).
           let rhs_end = insert_point s7;
               s8 = SetInsertPoint merge_block (append_instr (Br merge_block) s7);
               short = ConstInt 1 (if op = kAnd then 0 else 1) in
           Inr (zext8 (emit (\<lambda>n. Phi n (LInt 1) [(short, lhs_end), (rb, rhs_end)]) (LInt 1) s8)))))))
      else
        bind_result (cg env left s) (\<lambda>(lv, s1).
        bind_result (cg env right s1) (\<lambda>(rv, s2).
          if IsNumericType (GetReturnType left) \<and> IsNumericType (GetReturnType right)
          then SolveBinaryOpNumericType op (GetReturnType left) (GetReturnType right) (return_type i) lv rv s2
          else SolveBinaryOpComplexType env op (GetReturnType left) (GetReturnType right) (return_type i) lv rv s2)))"
| "cg env (FunctionNode i fn args) s =
     bind_result (cg_args env args s) (\<lambda>(ops, s1).
       function_cg env fn (map GetReturnType args) (return_type i) ops s1)"
| "cg env (NoOPNode i args isolated) s =
     bind_result (cg_named env isolated args s) (\<lambda>s1. Inr (None, s1))"
| "cg env (IfNode i args) s =
     bind_result (ValueTypeToLLVMType (return_type i)) (\<lambda>ret_ty.
     (case args of
        [c, t, e] \<Rightarrow>
          bind_result (cg env c s) (\<lambda>(cv, s1).
          bind_result (to_bool ''unsupported type for if condition (should be caught by validator)'' cv s1)
            (\<lambda>(cb, s2).
          case CreateBlock ''then'' s2 of (then_block, s3) \<Rightarrow>
          case CreateBlock ''else'' s3 of (else_block, s4) \<Rightarrow>
          case CreateBlock ''merge'' s4 of (merge_block, s5) \<Rightarrow>
          bind_result (cg env t (SetInsertPoint then_block (append_instr (CondBr cb then_block else_block) s5)))
            (\<lambda>tv.
          bind_result (finish_arm merge_block (GetReturnType t) (return_type i) tv) (\<lambda>(tx, then_end, s6).
          bind_result (cg env e (SetInsertPoint else_block s6)) (\<lambda>ev.
          bind_result (finish_arm merge_block (GetReturnType e) (return_type i) ev) (\<lambda>(ex, else_end, s7).
          case emit (\<lambda>n. Phi n ret_ty [(tx, then_end), (ex, else_end)]) ret_ty (SetInsertPoint merge_block s7) of
            (y, s8) \<Rightarrow> Inr (Some y, s8)))))))
      | _ \<Rightarrow> Inl CgNullDeref))"
| "cg env (SwitchNode i args) s =
     bind_result (ValueTypeToLLVMType (return_type i)) (\<lambda>ret_ty.
     let original_block = insert_point s in
     (case CreateBlock ''switch.merge'' s of (merge_block, s1) \<Rightarrow>
      bind_result (cg_switch env (return_type i) merge_block args s1) (\<lambda>(first_block, incoming, s2).
      case emit (\<lambda>n. Phi n ret_ty incoming) ret_ty
             (SetInsertPoint merge_block (append_instr (Br first_block) (SetInsertPoint original_block s2))) of
        (y, s3) \<Rightarrow> Inr (Some y, s3))))"
| "cg env (IfBlockNode i args) s =
     (let original_block = insert_point s in
      case CreateBlock ''ifblock.merge'' s of (merge_block, s1) \<Rightarrow>
      bind_result (cg_branches env merge_block args s1) (\<lambda>(first_block, infos, last_cond, s2).
      let s3 = SetInsertPoint merge_block (append_instr (Br first_block) (SetInsertPoint original_block s2)) in
      bind_result (emit_phis infos (odd (length args)) (case last_cond of Some b \<Rightarrow> b | None \<Rightarrow> 0)
                     (set_order env (modified_names infos)) s3) (\<lambda>s4.
      Inr (None, s4))))"
| "cg env (RefNode i nm) s =
     (case Lookup (vars s) nm of
        None \<Rightarrow> Inl (internal_error (''variable not found in codegen scope: '' @ nm
                  @ '' (should be caught by validator)''))
      | Some v \<Rightarrow> Inr (v, s))"
| "cg_args env [] s = Inr ([], s)"
| "cg_args env (arg # args) s =
     bind_result (cg env arg s) (\<lambda>(v, s1).
     bind_result (deref v) (\<lambda>x.
     bind_result (cg_args env args s1) (\<lambda>(xs, s2). Inr (x # xs, s2))))"
| "cg_named env isolated [] s = Inr s"
| "cg_named env isolated ((vi, arg) # rest) s =
     bind_result (cg env arg (if isolated then update_vars PushScope s else s)) (\<lambda>(v, s1).
     let s2 = (if name vi \<noteq> [] then update_vars (SetVar (name vi) v) s1 else s1) in
     cg_named env isolated rest (if isolated then update_vars PopScope s2 else s2))"
| "cg_switch env ret_t merge_block [] s = Inl CgNullDeref"
| "cg_switch env ret_t merge_block [d] s =
     (case CreateBlock ''switch.default'' s of (default_block, s1) \<Rightarrow>
      bind_result (cg env d (SetInsertPoint default_block s1)) (\<lambda>dv.
      bind_result (finish_arm merge_block (GetReturnType d) ret_t dv) (\<lambda>(dx, default_end, s2).
      Inr (default_block, [(dx, default_end)], s2))))"
| "cg_switch env ret_t merge_block (c # t # rest) s =
     bind_result (cg_switch env ret_t merge_block rest s) (\<lambda>(prev_false, incoming, s1).
     case CreateBlock ''switch.cond'' s1 of (cond_block, s2) \<Rightarrow>
     bind_result (cg env c (SetInsertPoint cond_block s2)) (\<lambda>(cv, s3).
     bind_result (to_bool ''unsupported type for switch condition (should be caught by validator)'' cv s3)
       (\<lambda>(cb, s4).
     case CreateBlock ''switch.then'' s4 of (then_block, s5) \<Rightarrow>
     bind_result (cg env t (SetInsertPoint then_block (append_instr (CondBr cb then_block prev_false) s5)))
       (\<lambda>tv.
     bind_result (finish_arm merge_block (GetReturnType t) ret_t tv) (\<lambda>(tx, then_end, s6).
     Inr (cond_block, incoming @ [(tx, then_end)], s6))))))"
| "cg_branches env merge_block [] s = Inr (merge_block, [], None, s)"
| "cg_branches env merge_block [else_body] s =
     (case CreateBlock ''ifblock.else'' s of (else_block, s1) \<Rightarrow>
      bind_result (cg env else_body (update_vars PushScope (SetInsertPoint else_block s1))) (\<lambda>(v, s2).
      Inr (else_block, [(insert_point s2, GetShadowed (vars s2))], None,
           append_instr (Br merge_block) (update_vars PopScope s2))))"
| "cg_branches env merge_block (c # body # rest) s =
     bind_result (cg_branches env merge_block rest s) (\<lambda>(prev_false, infos, last_cond, s1).
     case CreateBlock ''ifblock.cond'' s1 of (cond_block, s2) \<Rightarrow>
     bind_result (cg env c (SetInsertPoint cond_block s2)) (\<lambda>(cv, s3).
     bind_result (to_bool ''unsupported type for if block condition (should be caught by validator)'' cv s3)
       (\<lambda>(cb, s4).
     case CreateBlock ''ifblock.body'' s4 of (body_block, s5) \<Rightarrow>
     bind_result (cg env body (update_vars PushScope
         (SetInsertPoint body_block (append_instr (CondBr cb body_block prev_false) s5)))) (\<lambda>(v, s6).
     Inr (cond_block, infos @ [(insert_point s6, GetShadowed (vars s6))],
          Some (case last_cond of Some b \<Rightarrow> b | None \<Rightarrow> cond_block),
          append_instr (Br merge_block) (update_vars PopScope s6))))))"
  by pat_completeness auto
termination
  by (relation "measure (\<lambda>x. case x of
        Inl (Inl (env, n, s)) \<Rightarrow> size n
      | Inl (Inr (env, ns, s)) \<Rightarrow> size_list size ns
      | Inr (Inl (env, isolated, vs, s)) \<Rightarrow> size_list (size_prod (\<lambda>x. 0) size) vs
      | Inr (Inr (Inl (env, t, m, ns, s))) \<Rightarrow> size_list size ns
      | Inr (Inr (Inr (env, m, ns, s))) \<Rightarrow> size_list size ns)") auto

section \<open>Entry functions\<close>

text \<open>GetEntryFunctionCallee: the LLVM return type of an entry function; pointers and unknown types
  are refused.\<close>

definition entry_ret_type :: "value_type \<Rightarrow> cg_error + ll_type" where
  "entry_ret_type t =
     (if t = kPtr \<or> t = kUnknown
      then Inl (internal_error (''unknown return type for entry function: '' @ TypeToString t @ '' (compiler bug)''))
      else ValueTypeToLLVMType t)"

definition initial_state :: "global_var list \<Rightarrow> (string \<times> ll_type) list \<Rightarrow> cg_state" where
  "initial_state gs cs = \<lparr>blocks = [\<lparr>bb_name = ''entryBB'', bb_code = []\<rparr>], insert_point = 0,
     next_reg = 0, globals = gs, callees = cs, const_list_cache = [], const_string_cache = [],
     vars = ScopeStackInit\<rparr>"

text \<open>BuildEntryFunction of src/jit_core.cc: a new CodeGen per entry function, on the module that
  holds the globals and callees of the functions built before.\<close>

definition BuildEntryFunction ::
  "cg_env \<Rightarrow> global_var list \<Rightarrow> (string \<times> ll_type) list \<Rightarrow> value_type \<Rightarrow> exec_node \<Rightarrow> cg_error + cg_state" where
  "BuildEntryFunction env gs cs ret_t node =
     bind_result (entry_ret_type ret_t) (\<lambda>_.
     bind_result (cg env node (initial_state gs cs)) (\<lambda>(v, s).
       if ret_t = kVoid then Inr (append_instr RetVoid s)
       else bind_result (deref v) (\<lambda>x. Inr (append_instr (Ret x) s))))"

end
