(* ===== verification/CodeGenCorrect.thy ===== *)
theory CodeGenCorrect
  imports CodeGen
begin

text \<open>
  The contract between the validator and the code generator: on a tree that the validator has
  accepted and annotated the generator returns, with an operand of the LLVM type of the node, so
  the errors that the source calls internal cannot occur. The invariant relates the two scope
  stacks, the types of one and the operands of the other.
\<close>

section \<open>What builder calls leave alone\<close>

text \<open>The part of the state that the invariant speaks of: the variables and the list cache.\<close>

definition vc :: "cg_state \<Rightarrow> operand option scope_stack \<times> (const_list \<times> operand) list" where
  "vc s = (vars s, const_list_cache s)"

lemma vc_eq: "vc s' = vc s \<longleftrightarrow> vars s' = vars s \<and> const_list_cache s' = const_list_cache s"
  by (simp add: vc_def)

lemma vc_builder [simp]:
  "vc (append_instr i s) = vc s" "vc (SetInsertPoint b s) = vc s" "vc (snd (CreateBlock nm s)) = vc s"
  "vc (getOrInsertFunction nm t s) = vc s" "vc (s\<lparr>next_reg := n\<rparr>) = vc s" "vc (s\<lparr>globals := g\<rparr>) = vc s"
  "vc (s\<lparr>const_string_cache := c\<rparr>) = vc s"
  by (simp_all add: vc_def append_instr_def SetInsertPoint_def CreateBlock_def getOrInsertFunction_def)

lemma vc_update_vars [simp]: "vc (update_vars f s) = (f (vars s), const_list_cache s)"
  by (simp add: vc_def update_vars_def)

lemma vars_builder [simp]:
  "vars (append_instr i s) = vars s" "vars (SetInsertPoint b s) = vars s" "vars (snd (CreateBlock nm s)) = vars s"
  "vars (getOrInsertFunction nm t s) = vars s" "vars (update_vars f s) = f (vars s)"
  by (simp_all add: append_instr_def SetInsertPoint_def CreateBlock_def getOrInsertFunction_def update_vars_def)

lemma cache_builder [simp]:
  "const_list_cache (append_instr i s) = const_list_cache s" "const_list_cache (SetInsertPoint b s) = const_list_cache s"
  "const_list_cache (snd (CreateBlock nm s)) = const_list_cache s"
  "const_list_cache (getOrInsertFunction nm t s) = const_list_cache s"
  "const_list_cache (update_vars f s) = const_list_cache s"
  by (simp_all add: append_instr_def SetInsertPoint_def CreateBlock_def getOrInsertFunction_def update_vars_def)

lemma vc_emit [simp]: "vc (snd (emit mk t s)) = vc s"
  by (simp add: emit_def)

lemma vars_emit [simp]: "vars (snd (emit mk t s)) = vars s" "const_list_cache (snd (emit mk t s)) = const_list_cache s"
  by (simp_all add: emit_def)

lemma type_fst_emit [simp]: "getType (fst (emit mk t s)) = t"
  by (simp add: emit_def)

lemma CreateBlock_eq: "CreateBlock nm s = (length (blocks s), snd (CreateBlock nm s))"
  by (simp add: CreateBlock_def)

lemma vc_CreatePrivateGlobal: "CreatePrivateGlobal nm i a s = (x, s') \<Longrightarrow> vc s' = vc s \<and> getType x = LPtr"
  by (auto simp: CreatePrivateGlobal_def)

lemma vc_EmitString:
  "EmitStringPayloadGlobal str s = (x, s') \<Longrightarrow> vc s' = vc s"
  by (auto simp: EmitStringPayloadGlobal_def split: if_splits option.splits prod.splits dest: vc_CreatePrivateGlobal)

lemma vc_string_elems: "string_elems vs s = (es, s') \<Longrightarrow> vc s' = vc s"
  by (induction vs arbitrary: s es s') (auto split: prod.splits dest: vc_EmitString)

lemma MakeValue_ok:
  "MakeValue v s = (x, s') \<Longrightarrow>
     vc s' = vc s \<and> ValueTypeToLLVMType (ConstantValueVisitor v) = Inr (getType x)"
  by (cases v) (auto simp: ValueTypeToLLVMType_def BuildPtrLenStructConstant_def split: prod.splits
      dest: vc_EmitString)

lemma CreateNumberList_ok: "CreateNumberList t i n a s = (x, s') \<Longrightarrow> vc s' = vc s \<and> getType x = LStruct t"
  by (auto simp: CreateNumberList_def EmitTypedArrayGlobal_def BuildPtrLenStructConstant_def
      split: prod.splits if_splits dest: vc_CreatePrivateGlobal)

lemma MakeList_ok:
  "MakeList l s = (x, s') \<Longrightarrow>
     vc s' = vc s \<and> ValueTypeToLLVMType (ConstantListValueVisitor l) = Inr (getType x)"
  by (cases l) (auto simp: ValueTypeToLLVMType_def BuildPtrLenStructConstant_def split: prod.splits if_splits
      dest!: CreateNumberList_ok vc_string_elems vc_CreatePrivateGlobal)

section \<open>Values of the validated types\<close>

definition has_type :: "value_type \<Rightarrow> operand \<Rightarrow> bool" where
  "has_type t x \<longleftrightarrow> ValueTypeToLLVMType t = Inr (getType x)"

definition val_ok :: "value_type \<Rightarrow> operand option \<Rightarrow> bool" where
  "val_ok t v \<longleftrightarrow> t = kVoid \<or> (\<exists>x. v = Some x \<and> has_type t x)"

definition var_ok :: "var_entry \<Rightarrow> operand option \<Rightarrow> bool" where
  "var_ok e v \<longleftrightarrow> ve_type e \<noteq> kVoid \<and> val_ok (ve_type e) v"

definition scopes_ok :: "type_stack \<Rightarrow> cg_state \<Rightarrow> bool" where
  "scopes_ok ts s \<longleftrightarrow> rel_stack var_ok ts (vars s)
     \<and> (\<forall>(l, x)\<in>set (const_list_cache s). has_type (ConstantListValueVisitor l) x)"

lemma val_okE:
  assumes "val_ok t v" "t \<noteq> kVoid"
  obtains x where "v = Some x" "has_type t x"
  using assms by (auto simp: val_ok_def)

lemma scopes_ok_vc: "vc s' = vc s \<Longrightarrow> scopes_ok ts s' \<longleftrightarrow> scopes_ok ts s"
  by (simp add: scopes_ok_def vc_eq)

lemma deref_Some [simp]: "deref (Some x) = Inr x"
  by (simp add: deref_def)

lemma int_llvm: "IsIntegerType t \<Longrightarrow> ValueTypeToLLVMType t = Inr (int_ty t)"
  by (cases t) (simp_all add: jf_enum ValueTypeToLLVMType_def int_ty_def GetBitWidthFromType_def)

lemma float_llvm: "IsFloatType t \<Longrightarrow> ValueTypeToLLVMType t = Inr (fp_ty t)"
  by (cases t) (simp_all add: jf_enum ValueTypeToLLVMType_def fp_ty_def)

lemma u8_llvm [simp]: "has_type kU8 (Reg r (LInt 8))"
  by (simp add: has_type_def ValueTypeToLLVMType_def)

lemma float_ext:
  assumes "IsFloatType f" "IsFloatType t" "f \<noteq> t"
  shows "GetBitWidthFromType f < GetBitWidthFromType t \<and> fp_ty t = LDouble \<or>
         GetBitWidthFromType f > GetBitWidthFromType t \<and> fp_ty t = LFloat"
  using assms by (cases f; cases t) (simp_all add: jf_enum GetBitWidthFromType_def fp_ty_def)

lemma convert_ok:
  assumes "val_ok f v" "f \<noteq> kVoid" "f = t \<or> IsNumericType f \<and> IsNumericType t"
  shows "\<exists>x s'. NumericTypeConvert f t v s = Inr (Some x, s') \<and> has_type t x \<and> vc s' = vc s"
proof (cases "f = t")
  case True
  with assms show ?thesis by (auto simp: NumericTypeConvert_def elim: val_okE)
next
  case False
  from assms obtain y where v: "v = Some y" by (auto elim: val_okE)
  from False assms(3) consider "IsIntegerType f" "IsIntegerType t" | "IsIntegerType f" "IsFloatType t"
    | "IsFloatType f" "IsIntegerType t" | "IsFloatType f" "IsFloatType t"
    by (auto simp: numeric_iff_integer_or_float)
  then show ?thesis
  proof cases
    case 1
    with False v show ?thesis by (simp add: NumericTypeConvert_def Let_def emit_def has_type_def int_llvm)
  next
    case 2
    with False v integer_not_float [of t] show ?thesis
      by (auto simp: NumericTypeConvert_def Let_def emit_def has_type_def float_llvm)
  next
    case 3
    with False v integer_not_float [of f] show ?thesis
      by (auto simp: NumericTypeConvert_def Let_def emit_def has_type_def int_llvm)
  next
    case 4
    with False v integer_not_float [of f] integer_not_float [of t] float_ext [of f t] show ?thesis
      by (auto simp: NumericTypeConvert_def Let_def emit_def has_type_def float_llvm)
  qed
qed

lemma numeric_getType:
  assumes "IsNumericType t" "has_type t x"
  shows "(\<exists>w. getType x = LInt w) \<or> getType x = LFloat \<or> getType x = LDouble"
  using assms int_llvm [of t] float_llvm [of t]
  by (auto simp: numeric_iff_integer_or_float has_type_def int_ty_def fp_ty_def split: if_splits)

lemma to_bool_ok:
  assumes "val_ok t v" "IsNumericType t"
  shows "\<exists>x s'. to_bool msg v s = Inr (x, s') \<and> vc s' = vc s"
proof -
  from assms obtain x where v: "v = Some x" "has_type t x" by (auto simp: val_ok_def)
  from numeric_getType [OF assms(2) v(2)] v show ?thesis by (auto simp: to_bool_def emit_def)
qed

lemma zext8_eq: "\<exists>r s'. zext8 (x, s) = (Some (Reg r (LInt 8)), s') \<and> vc s' = vc s"
  by (simp add: zext8_def emit_def)

lemma zext8_emit: "\<exists>r s'. zext8 (emit mk t s) = (Some (Reg r (LInt 8)), s') \<and> vc s' = vc s"
  by (simp add: zext8_def emit_def)

lemma minus_type_ok: "unary_minus_type t = Inr r \<Longrightarrow>
    IsNumericType r \<and> (IsIntegerType r \<longleftrightarrow> IsIntegerType t)"
  by (cases t) (auto simp: unary_minus_type_def jf_enum)

lemma unary_cg_ok:
  assumes t: "unary_type n op t = Inr r" and v: "val_ok t v"
  shows "\<exists>v' s'. unary_cg op t r v s = Inr (v', s') \<and> val_ok r v' \<and> vc s' = vc s"
proof -
  have num: "IsNumericType t" "t \<noteq> kVoid" using unary_type_operand [OF t] by auto
  from v num obtain x where x: "v = Some x" "has_type t x" by (auto elim: val_okE)
  show ?thesis
  proof (cases op)
    case kPlus
    with t num v show ?thesis by (simp add: unary_cg_def unary_type_def)
  next
    case kMinus
    with t num have "unary_minus_type t = Inr r" by (simp add: unary_type_def)
    note r = minus_type_ok [OF this]
    with convert_ok [OF v num(2), of r s] num obtain y s1 where
      "NumericTypeConvert t r v s = Inr (Some y, s1)" "has_type r y" "vc s1 = vc s" by auto
    with kMinus show ?thesis by (simp add: unary_cg_def emit_def val_ok_def has_type_def)
  next
    case kNot
    with t num have "r = kU8" by (simp add: unary_type_def)
    with kNot x numeric_getType [OF num(1) x(2)] show ?thesis
      by (auto simp: unary_cg_def zext8_def emit_def val_ok_def)
  next
    case kBitwiseNot
    with t num have "r = t" by (auto simp: unary_type_def split: if_splits)
    with kBitwiseNot x show ?thesis by (simp add: unary_cg_def emit_def val_ok_def has_type_def)
  qed
qed

lemma rel_instr_total: "IsRelationalBinaryOPType op \<Longrightarrow> \<exists>mk. rel_instr op t l r = Some mk"
  by (cases op) (simp_all add: jf_enum rel_instr_def)

lemma calc_op_total: "\<not> IsRelationalBinaryOPType op \<Longrightarrow> \<not> IsLogicalBinaryOPType op \<Longrightarrow> \<exists>b. calc_op op t = Some b"
  by (cases op) (simp_all add: jf_enum calc_op_def)

lemma binary_type_cases:
  assumes "binary_type n op right lt rt = Inr r"
  shows "lt \<noteq> kVoid \<and> rt \<noteq> kVoid \<and>
    (if IsLogicalBinaryOPType op then IsNumericType lt \<and> IsNumericType rt \<and> r = kU8
     else if IsRelationalBinaryOPType op
     then (IsNumericType lt \<and> IsNumericType rt \<or> lt = kString \<and> rt = kString) \<and> r = kU8
     else if is_bitwise_op op
     then IsIntegerType lt \<and> IsIntegerType rt
       \<and> r = (if op = kBitwiseShiftLeft \<or> op = kBitwiseShiftRight then lt else GetPromotedType lt rt)
     else IsNumericType lt \<and> IsNumericType rt \<and> r = GetPromotedType lt rt
       \<or> op = kAdd \<and> lt = rt \<and> r = lt \<and> (lt = kString \<or> IsListType lt))"
  using assms unfolding binary_type_def Let_def by (auto split: if_splits)

lemma binary_numeric_type:
  assumes "binary_type n op right lt rt = Inr r" "IsNumericType lt" "IsNumericType rt" "\<not> IsLogicalBinaryOPType op"
  shows "if IsRelationalBinaryOPType op then r = kU8 else IsNumericType r"
  using binary_type_cases [OF assms(1)] promoted_numeric [OF assms(2,3)] assms(2-4)
  by (auto dest: numeric_not_list split: if_splits)

lemma numeric_cg_ok:
  assumes t: "binary_type n op right lt rt = Inr r" and num: "IsNumericType lt" "IsNumericType rt"
    and nl: "\<not> IsLogicalBinaryOPType op" and v: "val_ok lt lv" "val_ok rt rv"
  shows "\<exists>v' s'. SolveBinaryOpNumericType op lt rt r lv rv s = Inr (v', s') \<and> val_ok r v' \<and> vc s' = vc s"
proof -
  have nv: "lt \<noteq> kVoid" "rt \<noteq> kVoid" using num by auto
  show ?thesis
  proof (cases "IsRelationalBinaryOPType op")
    case True
    with binary_numeric_type [OF t num nl] have r: "r = kU8" by simp
    let ?p = "GetPromotedType lt rt"
    have p: "IsNumericType ?p" using num by (rule promoted_numeric)
    obtain x s1 where x: "NumericTypeConvert lt ?p lv s = Inr (Some x, s1)" "vc s1 = vc s"
      using convert_ok [OF v(1) nv(1), of ?p s] num p by auto
    obtain y s2 where y: "NumericTypeConvert rt ?p rv s1 = Inr (Some y, s2)" "vc s2 = vc s1"
      using convert_ok [OF v(2) nv(2), of ?p s1] num p by auto
    obtain mk where "rel_instr op ?p x y = Some mk" using rel_instr_total [OF True] by blast
    with True x y r show ?thesis
      by (auto simp: SolveBinaryOpNumericType_def Let_def zext8_def emit_def val_ok_def)
  next
    case False
    with binary_numeric_type [OF t num nl] have r: "IsNumericType r" by simp
    obtain x s1 where x: "NumericTypeConvert lt r lv s = Inr (Some x, s1)" "has_type r x" "vc s1 = vc s"
      using convert_ok [OF v(1) nv(1), of r s] num r by auto
    obtain y s2 where y: "NumericTypeConvert rt r rv s1 = Inr (Some y, s2)" "vc s2 = vc s1"
      using convert_ok [OF v(2) nv(2), of r s1] num r by auto
    obtain b where "calc_op op r = Some b" using calc_op_total [OF False nl] by blast
    with False x y show ?thesis
      by (auto simp: SolveBinaryOpNumericType_def emit_def val_ok_def has_type_def)
  qed
qed


section \<open>Assumptions on the environment\<close>

text \<open>A registry with known return types and the three functions that operators call; callbacks that
  return a value of the registered type and leave the variables alone; an iteration order.\<close>

definition builtins_ok :: "registry \<Rightarrow> bool" where
  "builtins_ok reg \<longleftrightarrow>
     map_option (ret_type \<circ> fst) (find_sig reg (FunctionSignature ''StringConcat'' [kString, kString, kPtr] kUnknown))
       = Some kString
     \<and> (\<forall>t. IsListType t \<longrightarrow>
         map_option (ret_type \<circ> fst) (find_sig reg (FunctionSignature ''ListConcat'' [t, t, kPtr] kUnknown)) = Some t)
     \<and> find_sig reg (FunctionSignature ''StringCmp'' [kString, kString] kUnknown) \<noteq> None"

definition callback_ok :: "cg_env \<Rightarrow> bool" where
  "callback_ok env \<longleftrightarrow>
     (\<forall>k f h sign ops s. (k, f) \<in> set (function_registry env) \<longrightarrow> codegen_func f = Some h \<longrightarrow>
        sig_key sign = sig_key k \<longrightarrow> ret_type sign = ret_type k \<longrightarrow> list_all2 has_type (param_types sign) ops \<longrightarrow>
        (case codegen_callback env h sign ops s of (v, s') \<Rightarrow> val_ok (ret_type sign) v \<and> vc s' = vc s))"

definition env_ok :: "cg_env \<Rightarrow> bool" where
  "env_ok env \<longleftrightarrow> reg_inv (function_registry env)
     \<and> (\<forall>(s, f)\<in>set (function_registry env). ret_type s \<noteq> kUnknown)
     \<and> builtins_ok (function_registry env) \<and> callback_ok env
     \<and> (\<forall>ns. set (set_order env ns) = set ns)"

lemma callback_okD:
  "callback_ok env \<Longrightarrow> (k, f) \<in> set (function_registry env) \<Longrightarrow> codegen_func f = Some h \<Longrightarrow>
     sig_key sign = sig_key k \<Longrightarrow> ret_type sign = ret_type k \<Longrightarrow> list_all2 has_type (param_types sign) ops \<Longrightarrow>
     (case codegen_callback env h sign ops s of (v, s') \<Rightarrow> val_ok (ret_type sign) v \<and> vc s' = vc s)"
  by (simp add: callback_ok_def)

lemma known_llvm: "t \<noteq> kUnknown \<Longrightarrow> \<exists>l. ValueTypeToLLVMType t = Inr l"
  by (cases t) (simp_all add: ValueTypeToLLVMType_def)

lemma concat_cg_ok:
  assumes env: "env_ok env" and t: "t = kString \<or> IsListType t"
    and v: "val_ok t lv" "val_ok t rv"
  shows "\<exists>v' s'. ListOrStringConcat env t t t lv rv s = Inr (v', s') \<and> val_ok t v' \<and> vc s' = vc s"
proof -
  have nv: "t \<noteq> kVoid" using t by auto
  obtain x y where xy: "lv = Some x" "rv = Some y" using v nv by (auto elim!: val_okE)
  let ?s = "FunctionSignature (if t = kString then ''StringConcat'' else ''ListConcat'') [t, t, kPtr] kUnknown"
  have "map_option (ret_type \<circ> fst) (find_sig (function_registry env) ?s) = Some t"
    using env t by (auto simp: env_ok_def builtins_ok_def)
  then obtain k f where k: "find_sig (function_registry env) ?s = Some (k, f)" "ret_type k = t" by auto
  have l: "lookup_function env ?s = Inr (SetRetType t ?s, f)"
    using k by (simp add: lookup_function_def GetFuncBySign_def)
  have r: "ret_type (SetRetType t ?s) = t" by (simp add: SetRetType_def)
  obtain ll where ll: "ValueTypeToLLVMType t = Inr ll" using known_llvm [of t] t by (cases "t = kUnknown") auto
  show ?thesis
    unfolding ListOrStringConcat_def l using r ll xy
    by (simp add: emit_def val_ok_def has_type_def)
qed

lemma string_cmp_total: "IsRelationalBinaryOPType op \<Longrightarrow> \<exists>p. string_cmp_pred op = Some p"
  by (cases op) (simp_all add: jf_enum string_cmp_pred_def)

lemma complex_cg_ok:
  assumes env: "env_ok env" and t: "binary_type n op right lt rt = Inr r"
    and nn: "\<not> (IsNumericType lt \<and> IsNumericType rt)" and v: "val_ok lt lv" "val_ok rt rv"
  shows "\<exists>v' s'. SolveBinaryOpComplexType env op lt rt r lv rv s = Inr (v', s') \<and> val_ok r v' \<and> vc s' = vc s"
proof -
  note c = binary_type_cases [OF t]
  have cases: "op = kAdd \<and> lt = rt \<and> r = lt \<and> (lt = kString \<or> IsListType lt)
      \<or> IsRelationalBinaryOPType op \<and> lt = kString \<and> rt = kString \<and> r = kU8"
    using c nn by (auto dest: integer_is_numeric split: if_splits)
  show ?thesis
  proof (cases "op = kAdd")
    case True
    with cases have "lt = rt" "r = lt" "lt = kString \<or> IsListType lt" by (auto simp: jf_enum)
    with concat_cg_ok [OF env, of lt lv rv s] v True show ?thesis
      by (simp add: SolveBinaryOpComplexType_def)
  next
    case False
    with cases have o: "IsRelationalBinaryOPType op" "lt = kString" "rt = kString" "r = kU8" by auto
    obtain x y where xy: "lv = Some x" "rv = Some y" using v o by (auto elim!: val_okE)
    obtain p where p: "string_cmp_pred op = Some p" using string_cmp_total [OF o(1)] by blast
    obtain k f where "find_sig (function_registry env) (FunctionSignature ''StringCmp'' [kString, kString] kUnknown) = Some (k, f)"
      using env by (auto simp: env_ok_def builtins_ok_def)
    then have l: "lookup_function env (FunctionSignature ''StringCmp'' [kString, kString] kUnknown)
        = Inr (SetRetType (ret_type k) (FunctionSignature ''StringCmp'' [kString, kString] kUnknown), f)"
      by (simp add: lookup_function_def GetFuncBySign_def)
    from False o l xy p show ?thesis
      by (simp add: SolveBinaryOpComplexType_def Let_def emit_def zext8_def val_ok_def)
  qed
qed

lemma function_cg_ok:
  assumes env: "env_ok env" and t: "function_type_of (function_registry env) n fn ts = Inr r"
    and ops: "list_all2 has_type ts ops"
  shows "\<exists>v' s'. function_cg env fn ts r ops s = Inr (v', s') \<and> val_ok r v' \<and> vc s' = vc s"
proof -
  let ?s = "FunctionSignature fn ts kUnknown"
  from t obtain sign f where g: "GetFuncBySign (function_registry env) ?s = Inr (sign, f)" "r = ret_type sign"
    by (auto simp: function_type_of_def split: sum.splits)
  then obtain k where k: "find_sig (function_registry env) ?s = Some (k, f)" "sign = SetRetType (ret_type k) ?s"
    by (auto simp: GetFuncBySign_found)
  have kin: "(k, f) \<in> set (function_registry env)" "sig_key k = sig_key ?s"
    using find_sig_Some_in [OF k(1)] by auto
  have rk: "r = ret_type k" using g k by (simp add: SetRetType_def)
  have l: "lookup_function env ?s = Inr (sign, f)" using g by (simp add: lookup_function_def)
  have "r \<noteq> kUnknown" using env kin rk by (auto simp: env_ok_def)
  then obtain ll where ll: "ValueTypeToLLVMType r = Inr ll" using known_llvm by blast
  show ?thesis
  proof (cases "func_type f")
    case kLLVMIntrinicFunc
    have "struct_ok f" using env kin(1) by (force simp: env_ok_def reg_inv_def)
    with kLLVMIntrinicFunc obtain h where h: "codegen_func f = Some h" by (auto simp: struct_ok_def)
    have "sig_key sign = sig_key k" "ret_type sign = ret_type k" "param_types sign = ts"
      using k kin by (simp_all add: SetRetType_def FunctionSignature_def sig_key_def)
    then have "case codegen_callback env h sign ops s of (v, s') \<Rightarrow> val_ok (ret_type sign) v \<and> vc s' = vc s"
      using callback_okD [of env k f h sign ops s] env kin(1) h ops by (simp add: env_ok_def)
    with kLLVMIntrinicFunc h l g(2) show ?thesis by (simp add: function_cg_def split: prod.splits)
  next
    case kCFunc
    with l ll show ?thesis by (simp add: function_cg_def Let_def emit_def val_ok_def has_type_def)
  qed
qed


section \<open>Joins\<close>

lemma deref_incoming_ok: "\<forall>(v, b)\<in>set inc. v \<noteq> None \<Longrightarrow> \<exists>xs. deref_incoming inc = Inr xs"
  by (induction inc rule: deref_incoming.induct) auto

definition branch_values_ok :: "type_stack \<Rightarrow> branch_info list \<Rightarrow> bool" where
  "branch_values_ok ts infos \<longleftrightarrow> (\<forall>(b, m)\<in>set infos. \<forall>nm v. map_of m nm = Some v \<longrightarrow> v \<noteq> None
      \<and> (\<exists>t. Lookup ts nm = Some (VarEntry t False)))"

lemma phi_incoming_ok:
  assumes "branch_values_ok ts infos"
  shows "\<exists>inc. deref_incoming (phi_incoming nm (Some x) infos e l) = Inr inc"
proof (intro deref_incoming_ok ballI)
  fix p assume p: "p \<in> set (phi_incoming nm (Some x) infos e l)"
  show "case p of (v, b) \<Rightarrow> v \<noteq> None"
  proof (cases "fst p = Some x")
    case False
    with p obtain b m where bm: "(b, m) \<in> set infos" "map_of m nm = Some (fst p)"
      by (auto simp: phi_incoming_def split: option.splits if_splits)
    with assms have "fst p \<noteq> None" unfolding branch_values_ok_def by blast
    then show ?thesis by (simp add: split_beta)
  qed (auto simp: split_beta)
qed

definition typed_in :: "type_stack \<Rightarrow> string \<Rightarrow> operand option option \<Rightarrow> bool" where
  "typed_in ts nm w \<longleftrightarrow> (\<exists>t x. Lookup ts nm = Some (VarEntry t False) \<and> t \<noteq> kVoid \<and> w = Some (Some x) \<and> has_type t x)"

lemma hd_SetVar: "s \<noteq> [] \<Longrightarrow> map_of (hd (SetVar n v s)) = (map_of (hd s))(n \<mapsto> v)"
  by (cases s) (simp_all add: SetVar_def map_of_update)

lemma emit_phis_ok:
  assumes "branch_values_ok ts infos" "vars s \<noteq> []" "\<forall>nm\<in>set nms. typed_in ts nm (Lookup (vars s) nm)"
  shows "\<exists>s'. emit_phis infos e l nms s = Inr s' \<and> vars s' \<noteq> [] \<and> PopScope (vars s') = PopScope (vars s)
     \<and> const_list_cache s' = const_list_cache s \<and> (\<forall>n. if n \<in> set nms then typed_in ts n (map_of (hd (vars s')) n)
            else map_of (hd (vars s')) n = map_of (hd (vars s)) n)"
  using assms
proof (induction nms arbitrary: s)
  case Nil
  then show ?case by simp
next
  case (Cons nm nms)
  from Cons.prems(3) obtain t x where t: "Lookup ts nm = Some (VarEntry t False)" "t \<noteq> kVoid"
    "Lookup (vars s) nm = Some (Some x)" "has_type t x" by (auto simp: typed_in_def)
  obtain inc where inc: "deref_incoming (phi_incoming nm (Some x) infos e l) = Inr inc"
    using phi_incoming_ok [OF Cons.prems(1)] by blast
  define y where "y = Reg (next_reg s) (getType x)"
  define s1 where "s1 = update_vars (SetVar nm (Some y)) (snd (emit (\<lambda>n. Phi n (getType x) inc) (getType x) s))"
  have v1: "vars s1 = SetVar nm (Some y) (vars s)" by (simp add: s1_def)
  have step: "emit_phis infos e l (nm # nms) s = emit_phis infos e l nms s1"
    using t inc by (simp add: emit_def s1_def y_def)
  have c1: "const_list_cache s1 = const_list_cache s" by (simp add: s1_def)
  have y: "has_type t y" using t(4) by (simp add: has_type_def y_def)
  have "\<forall>n\<in>set nms. typed_in ts n (Lookup (vars s1) n)"
    using Cons.prems(2,3) t y by (auto simp: v1 Lookup_set typed_in_def)
  with Cons.IH [of s1] Cons.prems(1,2) v1 obtain s' where s': "emit_phis infos e l nms s1 = Inr s'"
    "vars s' \<noteq> []" "PopScope (vars s') = PopScope (vars s1)" "const_list_cache s' = const_list_cache s1"
    "\<forall>n. if n \<in> set nms then typed_in ts n (map_of (hd (vars s')) n)
            else map_of (hd (vars s')) n = map_of (hd (vars s1)) n" by auto
  have "typed_in ts nm (map_of (hd (vars s1)) nm)"
    using Cons.prems(2) t y by (auto simp: v1 hd_SetVar typed_in_def)
  moreover have "n \<noteq> nm \<Longrightarrow> map_of (hd (vars s1)) n = map_of (hd (vars s)) n" for n
    using Cons.prems(2) by (simp add: v1 hd_SetVar)
  ultimately show ?case using s' v1 c1 unfolding step by (auto split: if_splits)
qed

lemma set_shadowed_hd:
  assumes "agrees sh ts" "ts \<noteq> []"
  shows "set_shadowed sh ts \<noteq> [] \<and> PopScope (set_shadowed sh ts) = PopScope ts \<and>
     map_of (hd (set_shadowed sh ts)) n = (if n \<in> fst ` set sh then Lookup ts n else map_of (hd ts) n)"
  using assms
proof (induction sh arbitrary: ts)
  case Nil
  then show ?case by (simp add: set_shadowed_def)
next
  case (Cons p sh)
  obtain k t where p: "p = (k, t)" by force
  let ?ts = "SetVar k (VarEntry t False) ts"
  have e: "Lookup ts k = Some (VarEntry t False)" using Cons.prems p by (simp add: agrees_def)
  have l: "Lookup ?ts = Lookup ts" using e Cons.prems(2) by (rule Lookup_set_same [rotated])
  have "agrees sh ?ts" using Cons.prems(1) p l by (simp add: agrees_def)
  from Cons.IH [OF this] Cons.prems(2) l p e show ?case
    by (auto simp: set_shadowed_def hd_SetVar)
qed

lemma rel_stack_hd_pop:
  "rel_stack R s t \<longleftrightarrow> s \<noteq> [] \<and> t \<noteq> [] \<and> rel_scope R (hd s) (hd t) \<and> list_all2 (rel_scope R) (PopScope s) (PopScope t)"
  by (cases s; cases t) (auto simp: rel_stack_def PopScope_def)

lemma merge_shadowed_names: "fst ` set (merge_shadowed es sh) = fst ` set sh \<union> fst ` set es"
  by (induction es arbitrary: sh) (force simp: merge_shadowed_def keys_update split: prod.splits)+

text \<open>After a join the types of the validator and the operands of the generator agree again.\<close>

lemma join_ok:
  assumes ts: "tinv ts" "scopes_ok ts s" "agrees sh ts" and b: "branch_values_ok ts infos"
    and names: "fst ` set sh = set nms"
  shows "\<exists>s'. emit_phis infos e l nms s = Inr s' \<and> scopes_ok (set_shadowed sh ts) s'"
proof -
  have nn: "ts \<noteq> []" "vars s \<noteq> []" using ts(1,2) by (auto simp: tinv_not_Nil scopes_ok_def dest: rel_stack_not_Nil)
  have typed: "\<forall>nm\<in>set nms. typed_in ts nm (Lookup (vars s) nm)"
  proof
    fix nm assume "nm \<in> set nms"
    then obtain t where "(nm, t) \<in> set sh" using names by (metis (no_types, lifting) imageE prod.collapse)
    then have "Lookup ts nm = Some (VarEntry t False)" using ts(3) by (auto simp: agrees_def)
    with rel_stack_Lookup [of var_ok ts "vars s" nm] ts(2) show "typed_in ts nm (Lookup (vars s) nm)"
      by (cases "Lookup (vars s) nm") (auto simp: scopes_ok_def var_ok_def val_ok_def typed_in_def)
  qed
  obtain s' where s': "emit_phis infos e l nms s = Inr s'" "vars s' \<noteq> []" "PopScope (vars s') = PopScope (vars s)" "const_list_cache s' = const_list_cache s"
    "\<And>n. if n \<in> set nms then typed_in ts n (map_of (hd (vars s')) n)
            else map_of (hd (vars s')) n = map_of (hd (vars s)) n"
    using emit_phis_ok [OF b nn(2) typed] by blast
  have "rel_option var_ok (map_of (hd (set_shadowed sh ts)) n) (map_of (hd (vars s')) n)" for n
    using s'(5) [of n] set_shadowed_hd [OF ts(3) nn(1), of n] names ts(2)
    by (auto simp: scopes_ok_def rel_stack_hd_pop rel_scope_def typed_in_def var_ok_def val_ok_def split: if_splits)
  with s' set_shadowed_hd [OF ts(3) nn(1)] ts(2) have "scopes_ok (set_shadowed sh ts) s'"
    by (auto simp: scopes_ok_def rel_stack_hd_pop rel_scope_def)
  with s' show ?thesis by blast
qed

lemma case_CreateBlock:
  "(case CreateBlock nm s of (b, s1) \<Rightarrow> F b s1) = F (length (blocks s)) (snd (CreateBlock nm s))"
  by (simp add: CreateBlock_def)

lemma case_emit: "(case emit mk t s of (y, s') \<Rightarrow> F y s') = F (fst (emit mk t s)) (snd (emit mk t s))"
  by (simp add: emit_def)

lemma scopes_ok_vcI: "scopes_ok ts s \<Longrightarrow> vc s' = vc s \<Longrightarrow> scopes_ok ts s'"
  using scopes_ok_vc [of s' s ts] by simp

section \<open>Arms, arguments and switches\<close>

definition convertible :: "value_type \<Rightarrow> value_type \<Rightarrow> bool" where
  "convertible f t \<longleftrightarrow> f = t \<or> IsNumericType f \<and> IsNumericType t"

lemma finish_arm_ok:
  assumes "val_ok f v" "f \<noteq> kVoid" "convertible f t"
  shows "\<exists>x s'. finish_arm m f t (v, s) = Inr (x, insert_point s', append_instr (Br m) s') \<and> vc s' = vc s"
  using convert_ok [OF assms(1,2), of t s] assms(3) by (auto simp: finish_arm_def convertible_def)

text \<open>A node that the generator accepts in every state that fits the types of the variables.\<close>

definition node_ok :: "cg_env \<Rightarrow> type_stack \<Rightarrow> type_stack \<Rightarrow> exec_node \<Rightarrow> bool" where
  "node_ok env ts ts' n \<longleftrightarrow> (\<forall>s. scopes_ok ts s \<longrightarrow>
     (\<exists>v s'. cg env n s = Inr (v, s') \<and> val_ok (GetReturnType n) v \<and> scopes_ok ts' s'))"

lemma node_okE:
  assumes "node_ok env ts ts' n" "scopes_ok ts s"
  obtains v s' where "cg env n s = Inr (v, s')" "val_ok (GetReturnType n) v" "scopes_ok ts' s'"
  using assms by (auto simp: node_ok_def)

lemma node_okE_vc:
  assumes "node_ok env ts ts' n" "scopes_ok ts s" "vc s1 = vc s"
  obtains v s' where "cg env n s1 = Inr (v, s')" "val_ok (GetReturnType n) v" "scopes_ok ts' s'"
  using node_okE [OF assms(1), of s1] assms(2) scopes_ok_vc [OF assms(3)] by auto

lemma val_ok_known: "val_ok t v \<Longrightarrow> t \<noteq> kUnknown"
  by (auto simp: val_ok_def has_type_def ValueTypeToLLVMType_def)

lemma node_ok_known: "node_ok env ts ts' n \<Longrightarrow> scopes_ok ts s \<Longrightarrow> GetReturnType n \<noteq> kUnknown"
  by (erule node_okE, assumption) (rule val_ok_known)

lemma cg_args_ok:
  assumes "\<forall>n\<in>set ns. node_ok env ts ts n \<and> GetReturnType n \<noteq> kVoid" "scopes_ok ts s"
  shows "\<exists>xs s'. cg_args env ns s = Inr (xs, s') \<and> list_all2 has_type (map GetReturnType ns) xs \<and> scopes_ok ts s'"
  using assms
proof (induction ns arbitrary: s)
  case (Cons n ns)
  from Cons.prems obtain v s1 where v: "cg env n s = Inr (v, s1)" "val_ok (GetReturnType n) v" "scopes_ok ts s1"
    by (auto elim: node_okE)
  then obtain x where "v = Some x" "has_type (GetReturnType n) x" using Cons.prems(1) by (auto elim: val_okE)
  with v Cons.IH [of s1] Cons.prems(1) show ?case by auto
qed simp

fun switch_ok :: "value_type \<Rightarrow> exec_node list \<Rightarrow> bool" where
  "switch_ok t [] = False"
| "switch_ok t [d] = convertible (GetReturnType d) t"
| "switch_ok t (c # a # rest) = (IsNumericType (GetReturnType c) \<and> convertible (GetReturnType a) t \<and> switch_ok t rest)"

lemma cg_switch_ok:
  assumes "switch_ok t ns" "\<forall>n\<in>set ns. node_ok env ts ts n \<and> GetReturnType n \<noteq> kVoid" "scopes_ok ts s"
  shows "\<exists>b inc s'. cg_switch env t m ns s = Inr (b, inc, s') \<and> scopes_ok ts s'"
  using assms
proof (induction t ns arbitrary: s rule: switch_ok.induct)
  case (2 t d)
  let ?s1 = "snd (CreateBlock ''switch.default'' s)" and ?b = "length (blocks s)"
  obtain v s2 where v: "cg env d (SetInsertPoint ?b ?s1) = Inr (v, s2)" "val_ok (GetReturnType d) v" "scopes_ok ts s2"
    by (rule node_okE_vc [of env ts ts d s "SetInsertPoint ?b ?s1"]) (use "2.prems" in auto)
  have d: "GetReturnType d \<noteq> kVoid" "convertible (GetReturnType d) t" using "2.prems"(1,2) by auto
  obtain x s3 where x: "finish_arm m (GetReturnType d) t (v, s2) = Inr (x, insert_point s3, append_instr (Br m) s3)"
      "vc s3 = vc s2"
    using finish_arm_ok [OF v(2) d] by blast
  with v scopes_ok_vc [of "append_instr (Br m) s3" s2 ts] show ?case by (simp add: case_CreateBlock)
next
  case (3 t c a rest)
  have "\<exists>b inc s'. cg_switch env t m rest s = Inr (b, inc, s') \<and> scopes_ok ts s'"
    by (rule "3.IH") (use "3.prems" in auto)
  then obtain b inc s1 where r: "cg_switch env t m rest s = Inr (b, inc, s1)" "scopes_ok ts s1" by blast
  let ?s2 = "snd (CreateBlock ''switch.cond'' s1)" and ?cb = "length (blocks s1)"
  obtain cv s3 where c: "cg env c (SetInsertPoint ?cb ?s2) = Inr (cv, s3)" "val_ok (GetReturnType c) cv" "scopes_ok ts s3"
    by (rule node_okE_vc [of env ts ts c s1 "SetInsertPoint ?cb ?s2"]) (use "3.prems" r in auto)
  have num: "IsNumericType (GetReturnType c)" using "3.prems"(1) by simp
  obtain cx s4 where cx: "to_bool ''unsupported type for switch condition (should be caught by validator)'' cv s3 = Inr (cx, s4)"
      "vc s4 = vc s3"
    using to_bool_ok [OF c(2) num] by blast
  let ?s5 = "snd (CreateBlock ''switch.then'' s4)" and ?tb = "length (blocks s4)"
  obtain v s6 where v: "cg env a (SetInsertPoint ?tb (append_instr (CondBr cx ?tb b) ?s5)) = Inr (v, s6)"
      "val_ok (GetReturnType a) v" "scopes_ok ts s6"
    by (rule node_okE_vc [of env ts ts a s3 "SetInsertPoint ?tb (append_instr (CondBr cx ?tb b) ?s5)"])
      (use "3.prems" cx(2) c(3) in auto)
  have a: "GetReturnType a \<noteq> kVoid" "convertible (GetReturnType a) t" using "3.prems"(1,2) by auto
  obtain x s7 where x: "finish_arm m (GetReturnType a) t (v, s6) = Inr (x, insert_point s7, append_instr (Br m) s7)"
      "vc s7 = vc s6"
    using finish_arm_ok [OF v(2) a] by blast
  from r(1) c(1) cx(1) v(1) x v(3) scopes_ok_vc [of "append_instr (Br m) s7" s6 ts] show ?case
    by (simp add: case_CreateBlock)
qed simp

text \<open>What the loop of the validator has checked.\<close>

lemma switch_loop_ok:
  assumes "switch_loop n i ns num com = Inr (num', com')" "even i" "n = i + length ns" "odd (length ns)"
    "\<forall>x\<in>set ns. GetReturnType x \<noteq> kUnknown" "num = kUnknown \<or> IsNumericType num" "\<not> IsNumericType com"
  shows "(num' = kUnknown \<or> IsNumericType num') \<and> (num \<noteq> kUnknown \<longrightarrow> num' \<noteq> kUnknown)
     \<and> (com \<noteq> kUnknown \<longrightarrow> com' = com)
     \<and> (num' = kUnknown \<longrightarrow> com' \<noteq> kUnknown \<and> switch_ok com' ns) \<and> (com' = kUnknown \<longrightarrow> switch_ok num' ns)"
  using assms
proof (induction ns arbitrary: i num com rule: induct_list012)
  case (2 d)
  then show ?case
    using promoted_numeric [of num "GetReturnType d"]
    by (auto simp: Let_def convertible_def split: if_splits)
next
  case (3 c a rest)
  let ?t = "GetReturnType a"
  have c: "IsNumericType (GetReturnType c)" and r0: "switch_loop n (i + 1) (a # rest) num com = Inr (num', com')"
    using "3.prems"(1-4) by (auto simp: Let_def split: if_splits)
  have len: "i + 1 + 1 \<noteq> n" "odd (i + 1)" using "3.prems"(2-4) by auto
  let ?num = "if IsNumericType ?t then GetPromotedType num ?t else num"
    and ?com = "if IsNumericType ?t then com else ?t"
  have r: "switch_loop n (i + 2) rest ?num ?com = Inr (num', com')"
    and cc: "IsNumericType ?t \<or> com = kUnknown \<or> com = ?t"
    using r0 len by (auto simp: Let_def split: if_splits)
  have num: "?num = kUnknown \<or> IsNumericType ?num" "\<not> IsNumericType ?com"
      "IsNumericType ?t \<Longrightarrow> ?num \<noteq> kUnknown" "num \<noteq> kUnknown \<Longrightarrow> ?num \<noteq> kUnknown" "?t \<noteq> kUnknown"
    using "3.prems"(5-7) promoted_numeric [of num ?t] by auto
  have IH: "(num' = kUnknown \<or> IsNumericType num') \<and> (?num \<noteq> kUnknown \<longrightarrow> num' \<noteq> kUnknown)
     \<and> (?com \<noteq> kUnknown \<longrightarrow> com' = ?com)
     \<and> (num' = kUnknown \<longrightarrow> com' \<noteq> kUnknown \<and> switch_ok com' rest) \<and> (com' = kUnknown \<longrightarrow> switch_ok num' rest)"
    by (rule "3.IH"(1) [OF r]) (use "3.prems"(2-5) num in auto)
  then show ?case using c cc num
    by (cases "IsNumericType ?t") (auto simp: convertible_def)
qed simp

lemma switch_type_ok:
  assumes "switch_type n ns = Inr t" "odd (length ns)" "\<forall>x\<in>set ns. GetReturnType x \<noteq> kUnknown"
  shows "t \<noteq> kUnknown \<and> switch_ok t ns"
proof -
  from assms(1) obtain num com where l: "switch_loop (length ns) 0 ns kUnknown kUnknown = Inr (num, com)"
    and t: "com = kUnknown \<or> num = kUnknown" "t = (if num = kUnknown then com else num)"
    by (auto simp: switch_type_def split: if_splits)
  from switch_loop_ok [OF l _ _ assms(2,3)] t show ?thesis by auto
qed


section \<open>Validated trees are generated\<close>

text \<open>No variable is assigned an expression of type void.\<close>

fun no_void_vars :: "exec_node \<Rightarrow> bool"
  and no_void_args :: "exec_node list \<Rightarrow> bool"
  and no_void_named :: "(var_info \<times> exec_node) list \<Rightarrow> bool" where
  "no_void_vars (UnaryOPNode _ _ c) = no_void_vars c"
| "no_void_vars (BinaryOPNode _ _ l r) = (no_void_vars l \<and> no_void_vars r)"
| "no_void_vars (FunctionNode _ _ args) = no_void_args args"
| "no_void_vars (NoOPNode _ args _) = no_void_named args"
| "no_void_vars (IfNode _ args) = no_void_args args"
| "no_void_vars (SwitchNode _ args) = no_void_args args"
| "no_void_vars (IfBlockNode _ args) = no_void_args args"
| "no_void_vars _ = True"
| "no_void_args [] = True"
| "no_void_args (n # ns) = (no_void_vars n \<and> no_void_args ns)"
| "no_void_named [] = True"
| "no_void_named ((vi, n) # rest) =
     ((name vi = [] \<or> GetReturnType n \<noteq> kVoid) \<and> no_void_vars n \<and> no_void_named rest)"

lemma scopes_ok_push: "scopes_ok ts s \<Longrightarrow> scopes_ok (PushScope ts) (update_vars PushScope s)"
  by (simp add: scopes_ok_def)

lemma scopes_ok_pop: "scopes_ok ts s \<Longrightarrow> 1 < length ts \<Longrightarrow> scopes_ok (PopScope ts) (update_vars PopScope s)"
  by (simp add: scopes_ok_def rel_stack_pop)

lemma scopes_ok_set:
  "scopes_ok ts s \<Longrightarrow> var_ok e v \<Longrightarrow> scopes_ok (SetVar nm e ts) (update_vars (SetVar nm v) s)"
  by (simp add: scopes_ok_def rel_stack_set)

lemma pop_pushed:
  assumes "frame (PushScope ts) ts'" "tinv ts" "scopes_ok ts' s"
  shows "scopes_ok ts (update_vars PopScope s)"
proof -
  have "PopScope ts' = ts" by (rule frame_pop_push [OF assms(1)])
  moreover from this have "1 < length ts'"
    using tinv_not_Nil [OF assms(2)] by (cases ts') (auto simp: PopScope_def)
  ultimately show ?thesis using scopes_ok_pop [OF assms(3)] by simp
qed

text \<open>The assignments recorded for one branch have the types that the validator recorded.\<close>

lemma branch_info_ok:
  assumes "tinv ts" "frame (PushScope ts) ts'" "scopes_ok ts' s"
  shows "branch_values_ok ts [(b, GetShadowed (vars s))]
    \<and> fst ` set (GetShadowed (vars s)) = fst ` set (GetShadowed ts')"
proof -
  have "1 < length ts'"
    using frame_pop_push [OF assms(2)] tinv_not_Nil [OF assms(1)] by (cases ts') (auto simp: PopScope_def)
  with assms(3) have rel: "rel_scope var_ok (GetShadowed ts') (GetShadowed (vars s))"
    by (simp add: scopes_ok_def rel_stack_shadowed)
  have keys: "fst ` set (GetShadowed (vars s)) = fst ` set (GetShadowed ts')"
  proof -
    have "map_of (GetShadowed (vars s)) n = None \<longleftrightarrow> map_of (GetShadowed ts') n = None" for n
      using rel [unfolded rel_scope_def, rule_format, of n]
      by (cases "map_of (GetShadowed (vars s)) n"; cases "map_of (GetShadowed ts') n") auto
    then show ?thesis by (auto simp: map_of_eq_None_iff)
  qed
  have "v \<noteq> None \<and> (\<exists>t. Lookup ts nm = Some (VarEntry t False))"
    if "map_of (GetShadowed (vars s)) nm = Some v" for nm v
  proof -
    from that rel [unfolded rel_scope_def, rule_format, of nm] obtain e where
      "map_of (GetShadowed ts') nm = Some e" "var_ok e v"
      by (cases "map_of (GetShadowed ts') nm") auto
    with shadowed_entry [OF assms(1,2), of nm e] show ?thesis
      by (auto simp: var_ok_def val_ok_def dest: map_of_SomeD)
  qed
  with keys show ?thesis by (simp add: branch_values_ok_def)
qed

lemma branch_values_append:
  "branch_values_ok ts (xs @ ys) \<longleftrightarrow> branch_values_ok ts xs \<and> branch_values_ok ts ys"
  by (simp add: branch_values_ok_def ball_Un)

definition info_names :: "branch_info list \<Rightarrow> string set" where
  "info_names infos = (\<Union>(b, m)\<in>set infos. fst ` set m)"

lemma info_names_simps [simp]:
  "info_names [] = {}" "info_names (xs @ ys) = info_names xs \<union> info_names ys"
  "info_names [(b, m)] = fst ` set m"
  by (auto simp: info_names_def)

lemma modified_names_set: "set (modified_names infos) = info_names infos"
  by (force simp: modified_names_def info_names_def)

text \<open>What holds of a list of branches of an if block.\<close>

definition branches_ok :: "cg_env \<Rightarrow> type_stack \<Rightarrow> string set \<Rightarrow> exec_node list \<Rightarrow> bool" where
  "branches_ok env ts names ns \<longleftrightarrow> (\<forall>m s. scopes_ok ts s \<longrightarrow> (\<exists>b infos lc s'. cg_branches env m ns s = Inr (b, infos, lc, s')
     \<and> scopes_ok ts s' \<and> branch_values_ok ts infos \<and> info_names infos = names))"

lemma branches_ok_else:
  assumes "tinv ts" "frame (PushScope ts) ts1" "node_ok env (PushScope ts) ts1 n"
  shows "branches_ok env ts (fst ` set (GetShadowed ts1)) [n]"
  unfolding branches_ok_def
proof (intro allI impI)
  fix m s assume s: "scopes_ok ts s"
  let ?s1 = "update_vars PushScope (SetInsertPoint (length (blocks s)) (snd (CreateBlock ''ifblock.else'' s)))"
  have "scopes_ok (PushScope ts) ?s1"
    by (rule scopes_ok_push, rule scopes_ok_vcI [OF s]) simp
  then obtain v s2 where v: "cg env n ?s1 = Inr (v, s2)" "scopes_ok ts1 s2"
    using assms(3) by (auto elim: node_okE)
  note pop = pop_pushed [OF assms(2,1) v(2)] and info = branch_info_ok [OF assms(1,2) v(2)]
  have "scopes_ok ts (append_instr (Br m) (update_vars PopScope s2))"
    by (rule scopes_ok_vcI [OF pop]) simp
  with v(1) info show "\<exists>b infos lc s'. cg_branches env m [n] s = Inr (b, infos, lc, s')
     \<and> scopes_ok ts s' \<and> branch_values_ok ts infos \<and> info_names infos = fst ` set (GetShadowed ts1)"
    by (simp add: case_CreateBlock)
qed

lemma branches_ok_Cons:
  assumes "tinv ts" "frame (PushScope ts) ts1" "node_ok env (PushScope ts) ts1 n" "node_ok env ts ts c"
    "IsNumericType (GetReturnType c)" "branches_ok env ts names ns"
  shows "branches_ok env ts (names \<union> fst ` set (GetShadowed ts1)) (c # n # ns)"
  unfolding branches_ok_def
proof (intro allI impI)
  fix m s assume s: "scopes_ok ts s"
  with assms(6) obtain b infos lc s1 where r: "cg_branches env m ns s = Inr (b, infos, lc, s1)"
    "scopes_ok ts s1" "branch_values_ok ts infos" "info_names infos = names"
    unfolding branches_ok_def by blast
  let ?s2 = "SetInsertPoint (length (blocks s1)) (snd (CreateBlock ''ifblock.cond'' s1))"
  obtain cv s3 where c: "cg env c ?s2 = Inr (cv, s3)" "val_ok (GetReturnType c) cv" "scopes_ok ts s3"
    by (rule node_okE_vc [OF assms(4) r(2), of ?s2]) auto
  obtain cx s4 where cx: "to_bool ''unsupported type for if block condition (should be caught by validator)'' cv s3 = Inr (cx, s4)"
      "vc s4 = vc s3"
    using to_bool_ok [OF c(2) assms(5)] by blast
  let ?bb = "length (blocks s4)"
  let ?s5 = "SetInsertPoint ?bb (append_instr (CondBr cx ?bb b) (snd (CreateBlock ''ifblock.body'' s4)))"
  have "scopes_ok (PushScope ts) (update_vars PushScope ?s5)"
    by (rule scopes_ok_push, rule scopes_ok_vcI [OF c(3)]) (simp add: cx(2))
  then obtain v s6 where v: "cg env n (update_vars PushScope ?s5) = Inr (v, s6)" "scopes_ok ts1 s6"
    using assms(3) by (auto elim: node_okE)
  note pop = pop_pushed [OF assms(2,1) v(2)] and info = branch_info_ok [OF assms(1,2) v(2)]
  have "scopes_ok ts (append_instr (Br m) (update_vars PopScope s6))"
    by (rule scopes_ok_vcI [OF pop]) simp
  with r c(1) cx(1) v(1) info show "\<exists>b infos lc s'. cg_branches env m (c # n # ns) s = Inr (b, infos, lc, s')
     \<and> scopes_ok ts s' \<and> branch_values_ok ts infos \<and> info_names infos = names \<union> fst ` set (GetShadowed ts1)"
    by (simp add: case_CreateBlock branch_values_append)
qed


lemma cg_unary_node:
  assumes "node_ok env ts ts n" "unary_type m op (GetReturnType n) = Inr r" "return_type i = r"
  shows "node_ok env ts ts (UnaryOPNode i op n)"
  unfolding node_ok_def
proof (intro allI impI)
  fix s assume "scopes_ok ts s"
  with assms(1) obtain v s1 where v: "cg env n s = Inr (v, s1)" "val_ok (GetReturnType n) v" "scopes_ok ts s1"
    by (auto elim: node_okE)
  from unary_cg_ok [OF assms(2) v(2), of s1] obtain v' s2 where
    "unary_cg op (GetReturnType n) r v s1 = Inr (v', s2)" "val_ok r v'" "vc s2 = vc s1" by blast
  with v assms(3) scopes_ok_vcI [OF v(3)]
  show "\<exists>v s'. cg env (UnaryOPNode i op n) s = Inr (v, s') \<and> val_ok (GetReturnType (UnaryOPNode i op n)) v \<and> scopes_ok ts s'"
    by (simp add: GetReturnType_def)
qed

lemma cg_binary_node:
  assumes env: "env_ok env" and n: "node_ok env ts ts l" "node_ok env ts ts r"
    and t: "binary_type m op x (GetReturnType l) (GetReturnType r) = Inr t" "return_type i = t"
  shows "node_ok env ts ts (BinaryOPNode i op l r)"
  unfolding node_ok_def
proof (intro allI impI)
  fix s assume s: "scopes_ok ts s"
  show "\<exists>v s'. cg env (BinaryOPNode i op l r) s = Inr (v, s') \<and> val_ok (GetReturnType (BinaryOPNode i op l r)) v \<and> scopes_ok ts s'"
  proof (cases "IsLogicalBinaryOPType op")
    case True
    with binary_type_cases [OF t(1)] have num: "IsNumericType (GetReturnType l)" "IsNumericType (GetReturnType r)" "t = kU8"
      by simp_all
    let ?s2 = "snd (CreateBlock ''sc.merge'' (snd (CreateBlock ''sc.rhs'' s)))"
    let ?rhs = "length (blocks s)" and ?merge = "length (blocks (snd (CreateBlock ''sc.rhs'' s)))"
    obtain lv s3 where lv: "cg env l ?s2 = Inr (lv, s3)" "val_ok (GetReturnType l) lv" "scopes_ok ts s3"
      by (rule node_okE_vc [OF n(1) s, of ?s2]) auto
    obtain lb s4 where lb: "to_bool ''unsupported type for logical operator lhs (should be caught by validator)'' lv s3 = Inr (lb, s4)"
      "vc s4 = vc s3" using to_bool_ok [OF lv(2) num(1)] by blast
    let ?s5 = "SetInsertPoint ?rhs (append_instr (if op = kAnd then CondBr lb ?rhs ?merge else CondBr lb ?merge ?rhs) s4)"
    obtain rv s6 where rv: "cg env r ?s5 = Inr (rv, s6)" "val_ok (GetReturnType r) rv" "scopes_ok ts s6"
      by (rule node_okE_vc [OF n(2) lv(3), of ?s5]) (use lb(2) in auto)
    obtain rb s7 where rb: "to_bool ''unsupported type for logical operator rhs (should be caught by validator)'' rv s6 = Inr (rb, s7)"
      "vc s7 = vc s6" using to_bool_ok [OF rv(2) num(2)] by blast
    let ?p = "emit (\<lambda>n. Phi n (LInt 1) [(ConstInt 1 (if op = kAnd then 0 else 1), insert_point s4), (rb, insert_point s7)])
        (LInt 1) (SetInsertPoint ?merge (append_instr (Br ?merge) s7))"
    have "\<exists>q s8. zext8 ?p = (Some (Reg q (LInt 8)), s8) \<and> vc s8 = vc (SetInsertPoint ?merge (append_instr (Br ?merge) s7))"
      by (rule zext8_emit)
    then obtain q s8 where z: "zext8 ?p = (Some (Reg q (LInt 8)), s8)" "vc s8 = vc s7"
      unfolding vc_builder by blast
    from True lv(1) lb(1) rv(1) rb(1) z num(3) t(2) rv(3) rb(2) scopes_ok_vc [of s8 s6 ts] show ?thesis
      by (simp add: case_CreateBlock Let_def GetReturnType_def val_ok_def)
  next
    case False
    obtain lv s1 where lv: "cg env l s = Inr (lv, s1)" "val_ok (GetReturnType l) lv" "scopes_ok ts s1"
      using n(1) s by (auto elim: node_okE)
    obtain rv s2 where rv: "cg env r s1 = Inr (rv, s2)" "val_ok (GetReturnType r) rv" "scopes_ok ts s2"
      using n(2) lv(3) by (auto elim: node_okE)
    let ?num = "IsNumericType (GetReturnType l) \<and> IsNumericType (GetReturnType r)"
    have "\<exists>v' s'. (if ?num then SolveBinaryOpNumericType op (GetReturnType l) (GetReturnType r) t lv rv s2
        else SolveBinaryOpComplexType env op (GetReturnType l) (GetReturnType r) t lv rv s2) = Inr (v', s')
      \<and> val_ok t v' \<and> vc s' = vc s2"
      using numeric_cg_ok [OF t(1) _ _ False lv(2) rv(2), of s2] complex_cg_ok [OF env t(1) _ lv(2) rv(2), of s2]
      by presburger
    then obtain v' s' where "(if ?num then SolveBinaryOpNumericType op (GetReturnType l) (GetReturnType r) t lv rv s2
        else SolveBinaryOpComplexType env op (GetReturnType l) (GetReturnType r) t lv rv s2) = Inr (v', s')"
      "val_ok t v'" "vc s' = vc s2" by blast
    with False lv(1) rv(1) t(2) scopes_ok_vcI [OF rv(3)] show ?thesis
      by (cases ?num) (auto simp: GetReturnType_def [of "BinaryOPNode i op l r"])
  qed
qed

lemma cg_function_node:
  assumes env: "env_ok env" and n: "\<forall>n\<in>set ns. node_ok env ts ts n \<and> GetReturnType n \<noteq> kVoid"
    and t: "function_type_of (function_registry env) m fn (map GetReturnType ns) = Inr t" "return_type i = t"
  shows "node_ok env ts ts (FunctionNode i fn ns)"
  unfolding node_ok_def
proof (intro allI impI)
  fix s assume "scopes_ok ts s"
  from cg_args_ok [OF n this] obtain xs s1 where a: "cg_args env ns s = Inr (xs, s1)"
    "list_all2 has_type (map GetReturnType ns) xs" "scopes_ok ts s1" by blast
  from function_cg_ok [OF env t(1) a(2), of s1] obtain v' s2 where
    "function_cg env fn (map GetReturnType ns) t xs s1 = Inr (v', s2)" "val_ok t v'" "vc s2 = vc s1" by blast
  with a t(2) scopes_ok_vcI [OF a(3)]
  show "\<exists>v s'. cg env (FunctionNode i fn ns) s = Inr (v, s') \<and> val_ok (GetReturnType (FunctionNode i fn ns)) v \<and> scopes_ok ts s'"
    by (simp add: GetReturnType_def [of "FunctionNode i fn ns"])
qed

lemma cg_if_node:
  assumes n: "\<forall>n\<in>{c, a, e}. node_ok env ts ts n \<and> GetReturnType n \<noteq> kVoid"
    and t: "if_type m [c, a, e] = Inr t" "return_type i = t"
  shows "node_ok env ts ts (IfNode i [c, a, e])"
  unfolding node_ok_def
proof (intro allI impI)
  fix s assume s: "scopes_ok ts s"
  have k: "GetReturnType a \<noteq> kUnknown" "GetReturnType e \<noteq> kUnknown" using n s by (auto dest: node_ok_known)
  have num: "IsNumericType (GetReturnType c)" and conv: "convertible (GetReturnType a) t" "convertible (GetReturnType e) t"
    and "t \<noteq> kUnknown"
    using t(1) k promoted_numeric [of "GetReturnType a" "GetReturnType e"]
    by (auto simp: if_type_def Let_def convertible_def split: if_splits)
  then obtain ll where ll: "ValueTypeToLLVMType t = Inr ll" using known_llvm by blast
  obtain cv s1 where c: "cg env c s = Inr (cv, s1)" "val_ok (GetReturnType c) cv" "scopes_ok ts s1"
    using n s by (auto elim: node_okE)
  obtain cb s2 where cb: "to_bool ''unsupported type for if condition (should be caught by validator)'' cv s1 = Inr (cb, s2)"
    "vc s2 = vc s1" using to_bool_ok [OF c(2) num] by blast
  let ?s3 = "snd (CreateBlock ''then'' s2)"
  let ?s4 = "snd (CreateBlock ''else'' ?s3)"
  let ?s5 = "snd (CreateBlock ''merge'' ?s4)"
  let ?m = "length (blocks ?s4)"
  let ?sa = "SetInsertPoint (length (blocks s2)) (append_instr (CondBr cb (length (blocks s2)) (length (blocks ?s3))) ?s5)"
  obtain av sa where a: "cg env a ?sa = Inr (av, sa)" "val_ok (GetReturnType a) av" "scopes_ok ts sa"
    by (rule node_okE_vc [OF _ c(3), of env ts a ?sa]) (use n cb(2) in auto)
  obtain ax sa1 where ax: "finish_arm ?m (GetReturnType a) t (av, sa) = Inr (ax, insert_point sa1, append_instr (Br ?m) sa1)"
    "vc sa1 = vc sa" using finish_arm_ok [OF a(2) _ conv(1)] n by blast
  let ?se = "SetInsertPoint (length (blocks ?s3)) (append_instr (Br ?m) sa1)"
  obtain ev se where e: "cg env e ?se = Inr (ev, se)" "val_ok (GetReturnType e) ev" "scopes_ok ts se"
    by (rule node_okE_vc [OF _ a(3), of env ts e ?se]) (use n ax(2) in auto)
  obtain ex se1 where ex: "finish_arm ?m (GetReturnType e) t (ev, se) = Inr (ex, insert_point se1, append_instr (Br ?m) se1)"
    "vc se1 = vc se" using finish_arm_ok [OF e(2) _ conv(2)] n by blast
  let ?p = "emit (\<lambda>n. Phi n ll [(ax, insert_point sa1), (ex, insert_point se1)]) ll
      (SetInsertPoint ?m (append_instr (Br ?m) se1))"
  have p: "scopes_ok ts (snd ?p)" using e(3) ex(2) scopes_ok_vc [of "snd ?p" se ts] by simp
  have r: "cg env (IfNode i [c, a, e]) s = Inr (Some (fst ?p), snd ?p)"
    using ll c(1) cb(1) a(1) ax(1) e(1) ex(1) t(2) by (simp add: case_CreateBlock case_emit)
  show "\<exists>v s'. cg env (IfNode i [c, a, e]) s = Inr (v, s') \<and> val_ok (GetReturnType (IfNode i [c, a, e])) v \<and> scopes_ok ts s'"
    unfolding r using p ll t(2) by (auto simp: GetReturnType_def val_ok_def has_type_def)
qed

lemma cg_switch_node:
  assumes n: "\<forall>n\<in>set ns. node_ok env ts ts n \<and> GetReturnType n \<noteq> kVoid"
    and t: "switch_type m ns = Inr t" "return_type i = t" "odd (length ns)"
  shows "node_ok env ts ts (SwitchNode i ns)"
  unfolding node_ok_def
proof (intro allI impI)
  fix s assume s: "scopes_ok ts s"
  have "\<forall>x\<in>set ns. GetReturnType x \<noteq> kUnknown" using n s node_ok_known by blast
  with switch_type_ok [OF t(1,3)] have sw: "t \<noteq> kUnknown" "switch_ok t ns" by auto
  then obtain ll where ll: "ValueTypeToLLVMType t = Inr ll" using known_llvm by blast
  let ?s1 = "snd (CreateBlock ''switch.merge'' s)" and ?m = "length (blocks s)"
  have "scopes_ok ts ?s1" using s scopes_ok_vc [of ?s1 s ts] by simp
  from cg_switch_ok [OF sw(2) n this] obtain b inc s2 where
    w: "cg_switch env t ?m ns ?s1 = Inr (b, inc, s2)" "scopes_ok ts s2" by blast
  let ?p = "emit (\<lambda>n. Phi n ll inc) ll (SetInsertPoint ?m (append_instr (Br b) (SetInsertPoint (insert_point s) s2)))"
  have p: "scopes_ok ts (snd ?p)" using w(2) scopes_ok_vc [of "snd ?p" s2 ts] by simp
  have r: "cg env (SwitchNode i ns) s = Inr (Some (fst ?p), snd ?p)"
    using ll w(1) t(2) by (simp add: case_CreateBlock case_emit Let_def)
  show "\<exists>v s'. cg env (SwitchNode i ns) s = Inr (v, s') \<and> val_ok (GetReturnType (SwitchNode i ns)) v \<and> scopes_ok ts s'"
    unfolding r using p ll t(2) by (auto simp: GetReturnType_def val_ok_def has_type_def)
qed

lemma cg_if_block_node:
  assumes env: "env_ok env" and ts: "tinv ts" "agrees sh ts" and b: "branches_ok env ts (fst ` set sh) ns"
    and t: "return_type i = kVoid"
  shows "node_ok env ts (set_shadowed sh ts) (IfBlockNode i ns)"
  unfolding node_ok_def
proof (intro allI impI)
  fix s assume s: "scopes_ok ts s"
  let ?s1 = "snd (CreateBlock ''ifblock.merge'' s)" and ?m = "length (blocks s)"
  have "scopes_ok ts ?s1" using s scopes_ok_vc [of ?s1 s ts] by simp
  with b obtain bl infos lc s2 where w: "cg_branches env ?m ns ?s1 = Inr (bl, infos, lc, s2)" "scopes_ok ts s2"
    "branch_values_ok ts infos" "info_names infos = fst ` set sh" unfolding branches_ok_def by blast
  let ?s3 = "SetInsertPoint ?m (append_instr (Br bl) (SetInsertPoint (insert_point s) s2))"
  let ?nms = "set_order env (modified_names infos)"
  have s3: "scopes_ok ts ?s3" using w(2) scopes_ok_vc [of ?s3 s2 ts] by simp
  have nms: "fst ` set sh = set ?nms" using env w(4) by (simp add: env_ok_def modified_names_set)
  obtain s4 where "emit_phis infos (odd (length ns)) (case lc of Some b \<Rightarrow> b | None \<Rightarrow> 0) ?nms ?s3 = Inr s4"
    "scopes_ok (set_shadowed sh ts) s4"
    using join_ok [OF ts(1) s3 ts(2) w(3) nms] by blast
  with w(1) t show "\<exists>v s'. cg env (IfBlockNode i ns) s = Inr (v, s') \<and> val_ok (GetReturnType (IfBlockNode i ns)) v
      \<and> scopes_ok (set_shadowed sh ts) s'"
    by (simp add: case_CreateBlock Let_def GetReturnType_def val_ok_def)
qed


lemma no_void_args_iff: "no_void_args ns \<longleftrightarrow> (\<forall>n\<in>set ns. no_void_vars n)"
  by (induction ns) auto

lemma no_void_SetReturnType [simp]: "no_void_vars (SetReturnType t n) = no_void_vars n"
  by (cases n) (simp_all add: SetReturnType_def)

lemma leaf_ok:
  "cg env n s = Inr (Some x, s') \<Longrightarrow> ValueTypeToLLVMType (GetReturnType n) = Inr (getType x) \<Longrightarrow> scopes_ok ts s' \<Longrightarrow>
     \<exists>v s'. cg env n s = Inr (v, s') \<and> val_ok (GetReturnType n) v \<and> scopes_ok ts s'"
  by (auto simp: val_ok_def has_type_def)

lemma equiv_same_type: "const_list_equiv a b \<Longrightarrow> ConstantListValueVisitor a = ConstantListValueVisitor b"
  by (cases a; cases b) (simp_all add: const_list_equiv_def const_list_less_def)

lemma find_const_list_ok:
  assumes "find_const_list l s = Some x" "scopes_ok ts s"
  shows "has_type (ConstantListValueVisitor l) x"
proof -
  from assms(1) obtain k where "(k, x) \<in> set (const_list_cache s)" "const_list_equiv k l"
    by (auto simp: find_const_list_def find_Some_iff) (metis nth_mem)
  with assms(2) equiv_same_type [of k l] show ?thesis by (auto simp: scopes_ok_def)
qed

lemma const_node_ok: "return_type i = ConstantValueVisitor v \<Longrightarrow> node_ok env ts ts (ConstantValueNode i v)"
  unfolding node_ok_def
proof (intro allI impI)
  fix s assume a: "return_type i = ConstantValueVisitor v" "scopes_ok ts s"
  obtain x s1 where m: "MakeValue v s = (x, s1)" by force
  from MakeValue_ok [OF m] a show "\<exists>v' s'. cg env (ConstantValueNode i v) s = Inr (v', s')
      \<and> val_ok (GetReturnType (ConstantValueNode i v)) v' \<and> scopes_ok ts s'"
    by (intro leaf_ok [of _ _ _ x s1]) (auto simp: m GetReturnType_def intro: scopes_ok_vcI)
qed

lemma const_list_node_ok: "return_type i = ConstantListValueVisitor v \<Longrightarrow> node_ok env ts ts (ConstantListValueNode i v)"
  unfolding node_ok_def
proof (intro allI impI)
  fix s assume a: "return_type i = ConstantListValueVisitor v" "scopes_ok ts s"
  show "\<exists>v' s'. cg env (ConstantListValueNode i v) s = Inr (v', s')
      \<and> val_ok (GetReturnType (ConstantListValueNode i v)) v' \<and> scopes_ok ts s'"
  proof (cases "find_const_list v s")
    case None
    obtain x s1 where m: "MakeList v s = (x, s1)" by force
    note k = MakeList_ok [OF m]
    have "scopes_ok ts (s1\<lparr>const_list_cache := const_list_cache s1 @ [(v, x)]\<rparr>)"
      using a(2) k by (auto simp: scopes_ok_def vc_eq has_type_def)
    with None k a(1) show ?thesis
      by (intro leaf_ok [of _ _ _ x "s1\<lparr>const_list_cache := const_list_cache s1 @ [(v, x)]\<rparr>"])
        (simp_all add: m GetReturnType_def)
  next
    case (Some x)
    with find_const_list_ok [OF Some a(2)] a show ?thesis
      by (intro leaf_ok [of _ _ _ x s]) (simp_all add: has_type_def GetReturnType_def)
  qed
qed

lemma ref_node_ok:
  assumes "Lookup ts nm = Some e" "return_type i = ve_type e"
  shows "node_ok env ts ts (RefNode i nm)"
  unfolding node_ok_def
proof (intro allI impI)
  fix s assume s: "scopes_ok ts s"
  then obtain v where "Lookup (vars s) nm = Some v" "var_ok e v"
    using rel_stack_Lookup [of var_ok ts "vars s" nm] assms(1)
    by (cases "Lookup (vars s) nm") (auto simp: scopes_ok_def)
  with s assms(2) show "\<exists>v s'. cg env (RefNode i nm) s = Inr (v, s')
      \<and> val_ok (GetReturnType (RefNode i nm)) v \<and> scopes_ok ts s'"
    by (auto simp: GetReturnType_def var_ok_def)
qed

definition named_ok :: "cg_env \<Rightarrow> bool \<Rightarrow> type_stack \<Rightarrow> type_stack \<Rightarrow> (var_info \<times> exec_node) list \<Rightarrow> bool" where
  "named_ok env isolated ts ts' vs \<longleftrightarrow> (\<forall>s. scopes_ok ts s \<longrightarrow>
     (\<exists>s'. cg_named env isolated vs s = Inr s' \<and> scopes_ok ts' s'))"

lemma named_ok_Cons:
  assumes ts: "tinv ts" and n: "node_ok env (if isolated then PushScope ts else ts) ts1 n"
    and f: "frame (if isolated then PushScope ts else ts) ts1"
    and a: "assign_var vi n ts1 = Inr ts2" and nv: "name vi = [] \<or> GetReturnType n \<noteq> kVoid"
    and r: "named_ok env isolated (if isolated then PopScope ts2 else ts2) ts' vs"
  shows "named_ok env isolated ts ts' ((vi, n) # vs)"
  unfolding named_ok_def
proof (intro allI impI)
  fix s assume s: "scopes_ok ts s"
  let ?s0 = "if isolated then update_vars PushScope s else s"
  have "scopes_ok (if isolated then PushScope ts else ts) ?s0" using s by (simp add: scopes_ok_push)
  with n obtain v s1 where v: "cg env n ?s0 = Inr (v, s1)" "val_ok (GetReturnType n) v" "scopes_ok ts1 s1"
    by (auto elim: node_okE)
  let ?s2 = "if name vi \<noteq> [] then update_vars (SetVar (name vi) v) s1 else s1"
  have s2: "scopes_ok ts2 ?s2"
    using v(2,3) a nv by (auto simp: assign_var_ok TrySetVar_ok var_ok_def intro!: scopes_ok_set)
  have t1: "tinv ts1" using f by (simp add: frame_def)
  have f2: "frame (if isolated then PushScope ts else ts) ts2"
    by (rule frame_trans [OF f assign_var_frame [OF t1 a]])
  have s3: "scopes_ok (if isolated then PopScope ts2 else ts2) (if isolated then update_vars PopScope ?s2 else ?s2)"
    using s2 f2 pop_pushed [OF _ ts s2] frame_pop_push [of ts ts2] by (cases isolated) simp_all
  with r v(1) show "\<exists>s'. cg_named env isolated ((vi, n) # vs) s = Inr s' \<and> scopes_ok ts' s'"
    by (simp add: named_ok_def Let_def)
qed

lemma generated_aux:
  "visit reg n ts = Inr (n', ts') \<Longrightarrow> tinv ts \<Longrightarrow> no_void_vars n' \<Longrightarrow> reg = function_registry env \<Longrightarrow> env_ok env \<Longrightarrow>
     node_ok env ts ts' n'"
  "visit_args reg ov ns ts = Inr (ns', ts') \<Longrightarrow> tinv ts \<Longrightarrow> no_void_args ns' \<Longrightarrow> reg = function_registry env \<Longrightarrow> env_ok env \<Longrightarrow>
     \<forall>n\<in>set ns'. node_ok env ts ts n \<and> GetReturnType n \<noteq> kVoid"
  "visit_named reg isolated vs ts = Inr (vs', ts') \<Longrightarrow> tinv ts \<Longrightarrow> no_void_named vs' \<Longrightarrow> reg = function_registry env \<Longrightarrow> env_ok env \<Longrightarrow>
     named_ok env isolated ts ts' vs'"
  "visit_branches reg ns ts sh = Inr (ns', ts', sh') \<Longrightarrow> tinv ts \<Longrightarrow> agrees sh ts \<Longrightarrow> no_void_args ns' \<Longrightarrow>
     reg = function_registry env \<Longrightarrow> env_ok env \<Longrightarrow>
     \<exists>names. branches_ok env ts names ns' \<and> fst ` set sh' = fst ` set sh \<union> names"
proof (induction reg n ts and reg ov ns ts and reg isolated vs ts and reg ns ts sh
    arbitrary: n' ts' and ns' ts' and vs' ts' and ns' ts' sh'
    rule: visit_visit_args_visit_named_visit_branches.induct)
  case (4 reg i v st)
  then show ?case by (auto simp: SetReturnType_def intro!: const_node_ok)
next
  case (5 reg i v st)
  then show ?case by (auto simp: SetReturnType_def intro!: const_list_node_ok)
next
  case (6 reg i op child st)
  from "6.prems"(1) obtain child' t where v: "visit reg child st = Inr (child', ts')"
    and t: "unary_type (UnaryOPNode i op child') op (GetReturnType child') = Inr t"
    and n': "n' = SetReturnType t (UnaryOPNode i op child')" by auto
  have "ts' = st" using unary_type_operand [OF t] visit_pure [OF v "6.prems"(2)]
    by (cases "GetReturnType child' = kVoid") auto
  with "6.IH" [OF v] "6.prems"(2-) n' have "node_ok env st st child'" by simp
  with \<open>ts' = st\<close> t n' show ?case by (simp add: SetReturnType_def cg_unary_node)
next
  case (7 reg i op left right st)
  from "7.prems"(1) obtain left' st1 right' t where l: "visit reg left st = Inr (left', st1)"
    and r: "visit reg right st1 = Inr (right', ts')"
    and t: "binary_type (BinaryOPNode i op left' right') op right' (GetReturnType left') (GetReturnType right') = Inr t"
    and n': "n' = SetReturnType t (BinaryOPNode i op left' right')" by auto
  have st1: "st1 = st" using visit_pure [OF l "7.prems"(2)] binary_type_operands [OF t] by simp
  with r have r': "visit reg right st = Inr (right', ts')" by simp
  have ts': "ts' = st" using visit_pure [OF r' "7.prems"(2)] binary_type_operands [OF t] by simp
  have "node_ok env st st left'" using "7.IH"(1) [OF l] "7.prems"(2-) n' st1 by simp
  moreover have "node_ok env st st right'"
    using "7.IH"(2) [OF l refl r] "7.prems"(2-) n' st1 ts' by simp
  ultimately show ?case using ts' n' cg_binary_node [OF "7.prems"(5) _ _ t] by (simp add: SetReturnType_def)
next
  case (8 reg i fn args st)
  from "8.prems"(1) obtain args' t where
    v: "visit_args reg (\<lambda>_. MakeParseError (FunctionNode i fn args)
          (''function '' @ quoted fn @ '' argument cannot be void'')) args st = Inr (args', ts')"
    and t: "function_type_of reg (FunctionNode i fn args') fn (map GetReturnType args') = Inr t"
    and n': "n' = SetReturnType t (FunctionNode i fn args')" by auto
  have ts': "ts' = st" using visit_args_pure [OF v "8.prems"(2)] by simp
  have "\<forall>n\<in>set args'. node_ok env st st n \<and> GetReturnType n \<noteq> kVoid"
    using "8.IH" [OF v] "8.prems"(2-) n' by simp
  from cg_function_node [OF "8.prems"(5) this, of _ fn t] ts' t n' "8.prems"(4)
  show ?case by (simp add: SetReturnType_def)
next
  case (9 reg i args isolated st)
  from "9.prems"(1) obtain args' where v: "visit_named reg isolated args st = Inr (args', ts')"
    and n': "n' = SetReturnType kVoid (NoOPNode i args' isolated)" by auto
  have "named_ok env isolated st ts' args'" using "9.IH" [OF v] "9.prems"(2-) n' by simp
  with n' show ?case by (fastforce simp: SetReturnType_def node_ok_def named_ok_def val_ok_def GetReturnType_def)
next
  case (10 reg i args st)
  from "10.prems"(1) obtain args' t where len: "\<not> length args \<noteq> 3" and
    v: "visit_args reg (\<lambda>arg. MakeParseError arg ''if argument cannot be void'') args st = Inr (args', ts')"
    and t: "if_type (IfNode i args') args' = Inr t"
    and n': "n' = SetReturnType t (IfNode i args')" by (auto split: if_splits)
  have ts': "ts' = st" and l: "length args' = 3" using visit_args_pure [OF v "10.prems"(2)] len by simp_all
  then obtain c a e where args': "args' = [c, a, e]" by (auto simp: numeral_3_eq_3 length_Suc_conv)
  have "\<forall>n\<in>set args'. node_ok env st st n \<and> GetReturnType n \<noteq> kVoid"
    using "10.IH" [OF len v] "10.prems"(2-) n' by simp
  with t n' args' ts' cg_if_node [of c a e env st] show ?case by (simp add: SetReturnType_def)
next
  case (11 reg i args st)
  from "11.prems"(1) obtain args' t where len: "\<not> length args mod 2 = 0" and
    v: "visit_args reg (\<lambda>arg. MakeParseError arg ''switch argument cannot be void'') args st = Inr (args', ts')"
    and t: "switch_type (SwitchNode i args') args' = Inr t"
    and n': "n' = SetReturnType t (SwitchNode i args')" by (auto split: if_splits)
  have ts': "ts' = st" and l: "odd (length args')"
    using visit_args_pure [OF v "11.prems"(2)] len by (simp_all add: odd_iff_mod_2_eq_one)
  have "\<forall>n\<in>set args'. node_ok env st st n \<and> GetReturnType n \<noteq> kVoid"
    using "11.IH" [OF len v] "11.prems"(2-) n' by simp
  from cg_switch_node [OF this t _ l] n' ts' show ?case by (simp add: SetReturnType_def)
next
  case (12 reg i args st)
  from "12.prems"(1) obtain args' st1 sh where len: "\<not> length args < 2" and
    v: "visit_branches reg args st [] = Inr (args', st1, sh)"
    and n': "n' = SetReturnType kVoid (IfBlockNode i args')" "ts' = set_shadowed sh st1"
    by (auto split: if_splits)
  have p: "st1 = st" "agrees sh st" using visit_branches_pure [OF v "12.prems"(2)] by simp_all
  obtain names where "branches_ok env st names args'" "fst ` set sh = names"
    using "12.IH" [OF len v] "12.prems"(2-) n' by auto
  with cg_if_block_node [OF "12.prems"(5,2) p(2), of args'] n' p(1) show ?case
    by (simp add: SetReturnType_def)
next
  case (13 reg i nm st)
  then show ?case by (auto simp: SetReturnType_def intro!: ref_node_ok split: option.splits)
next
  case (15 reg on_void arg args st)
  from "15.prems"(1) obtain arg' st1 args' where v: "visit reg arg st = Inr (arg', st1)"
    and nv: "GetReturnType arg' \<noteq> kVoid"
    and vs: "visit_args reg on_void args st1 = Inr (args', ts')" and ns': "ns' = arg' # args'"
    by (auto split: if_splits)
  have st1: "st1 = st" using visit_pure [OF v "15.prems"(2)] nv by simp
  have "node_ok env st st arg'" using "15.IH"(1) [OF v] "15.prems"(2-) ns' st1 by simp
  moreover have "\<forall>n\<in>set args'. node_ok env st st n \<and> GetReturnType n \<noteq> kVoid"
    using "15.IH"(2) [OF v refl nv vs] "15.prems"(2-) ns' st1 by simp
  ultimately show ?case using ns' nv by simp
next
  case (17 reg isolated vi arg rest st)
  let ?st0 = "if isolated then PushScope st else st"
  from "17.prems"(1) obtain arg' st1 st2 rest' where
    v: "visit reg arg ?st0 = Inr (arg', st1)" and a: "assign_var vi arg' st1 = Inr st2"
    and r: "visit_named reg isolated rest (if isolated then PopScope st2 else st2) = Inr (rest', ts')"
    and vs': "vs' = (vi, arg') # rest'" by auto
  have t0: "tinv ?st0" using "17.prems"(2) by simp
  have f1: "frame ?st0 st1" by (rule visit_frame [OF v t0])
  then have t1: "tinv st1" by (simp add: frame_def)
  have f2: "frame ?st0 st2" by (rule frame_trans [OF f1 assign_var_frame [OF t1 a]])
  have t3: "tinv (if isolated then PopScope st2 else st2)"
    using f2 "17.prems"(2) frame_pop_push [of st st2] by (auto simp: frame_def)
  have "node_ok env ?st0 st1 arg'" using "17.IH"(1) [OF v t0] "17.prems"(3-) vs' by simp
  moreover have "named_ok env isolated (if isolated then PopScope st2 else st2) ts' rest'"
    using "17.IH"(2) [OF v refl a r t3] "17.prems"(3-) vs' by simp
  ultimately show ?case
    using named_ok_Cons [OF "17.prems"(2) _ f1 a] "17.prems"(3) vs' by simp
next
  case (16 reg isolated st)
  then show ?case by (simp add: named_ok_def)
next
  case (18 reg st sh)
  then show ?case by (auto simp: branches_ok_def branch_values_ok_def)
next
  case (19 reg else_body st all_shadowed)
  from "19.prems"(1) obtain body' st1 where v: "visit reg else_body (PushScope st) = Inr (body', st1)"
    and res: "ns' = [body']" "ts' = PopScope st1" "sh' = merge_shadowed (GetShadowed st1) all_shadowed"
    by (auto split: if_splits)
  have f: "frame (PushScope st) st1" by (rule visit_frame [OF v]) (simp add: "19.prems"(2))
  have "node_ok env (PushScope st) st1 body'" using "19.IH" [OF v] "19.prems"(2-) res by simp
  from branches_ok_else [OF "19.prems"(2) f this] res show ?case
    by (auto simp: merge_shadowed_names)
next
  case (20 reg cond body rest st all_shadowed)
  from "20.prems"(1) obtain cond' st1 body' st2 rest' where
    c: "visit reg cond st = Inr (cond', st1)" and num: "\<not> \<not> IsNumericType (GetReturnType cond')"
    and b: "visit reg body (PushScope st1) = Inr (body', st2)" and void: "\<not> GetReturnType body' \<noteq> kVoid"
    and r: "visit_branches reg rest (PopScope st2) (merge_shadowed (GetShadowed st2) all_shadowed)
              = Inr (rest', ts', sh')"
    and ns': "ns' = cond' # body' # rest'"
    by (auto split: if_splits)
  have st1: "st1 = st" using visit_pure [OF c "20.prems"(2)] num
    by (cases "GetReturnType cond' = kVoid") auto
  have f: "frame (PushScope st) st2" using visit_frame [OF b] "20.prems"(2) st1 by simp
  have pop: "PopScope st2 = st" by (rule frame_pop_push [OF f])
  have ag: "agrees (merge_shadowed (GetShadowed st2) all_shadowed) st"
    by (rule merge_agrees [OF "20.prems"(3)]) (use shadowed_entry [OF "20.prems"(2) f] in auto)
  have nc: "node_ok env st st cond'" using "20.IH"(1) [OF c] "20.prems"(2-) ns' st1 by simp
  have nb: "node_ok env (PushScope st) st2 body'"
    using "20.IH"(2) [OF c refl num b] "20.prems"(2-) ns' st1 by simp
  obtain names where nr: "branches_ok env st names rest'"
    "fst ` set sh' = fst ` set (merge_shadowed (GetShadowed st2) all_shadowed) \<union> names"
    using "20.IH"(3) [OF c refl num b refl void r] pop ag "20.prems"(2-) ns' by auto
  from branches_ok_Cons [OF "20.prems"(2) f nb nc _ nr(1)] num nr(2) ns' show ?case
    by (intro exI [of _ "names \<union> fst ` set (GetShadowed st2)"]) (auto simp: merge_shadowed_names)
qed (auto simp: node_ok_def SetReturnType_def GetReturnType_def val_ok_def has_type_def ValueTypeToLLVMType_def)

lemma scopes_ok_initial: "scopes_ok ScopeStackInit (initial_state gs cs)"
  by (simp add: scopes_ok_def initial_state_def)

lemma BuildEntryFunction_ok:
  assumes "visit (function_registry env) n ScopeStackInit = Inr (n', ts')" "no_void_vars n'" "env_ok env"
    "GetReturnType n' \<noteq> kPtr"
  shows "\<exists>s. BuildEntryFunction env gs cs (GetReturnType n') n' = Inr s"
proof -
  have "node_ok env ScopeStackInit ts' n'" by (rule generated_aux(1) [OF assms(1) _ assms(2) refl assms(3)]) simp
  then obtain v s' where g: "cg env n' (initial_state gs cs) = Inr (v, s')" "val_ok (GetReturnType n') v"
    using scopes_ok_initial by (rule node_okE)
  from val_ok_known [OF g(2)] assms(4) obtain ll where "entry_ret_type (GetReturnType n') = Inr ll"
    using known_llvm [of "GetReturnType n'"] by (auto simp: entry_ret_type_def)
  with g show ?thesis by (auto simp: BuildEntryFunction_def val_ok_def)
qed

end
