(* ===== verification/Arena.thy ===== *)
theory Arena
  imports Status "HOL-Library.Word"
begin

unbundle bit_operations_syntax

text \<open>
  Model of include/arena.h and src/arena.cc: the bump allocator of an ExecContext. Addresses and
  sizes are 64-bit words and 0 is the null pointer. malloc is a parameter: it sees the blocks that
  are live and answers an address, 0 when it fails. The list of live blocks stands for the heap of
  the C library. Every call of free is recorded with the pointer it gets, in order, so that freeing a
  pointer twice, or one that is not live, which C leaves undefined, shows in the record and leaks show
  in the live blocks.
\<close>

section \<open>State\<close>

type_synonym addr = "64 word"
type_synonym mem_block = "addr \<times> 64 word"
type_synonym malloc_fun = "mem_block list \<Rightarrow> 64 word \<Rightarrow> addr"

record arena =
  min_chunk_size :: "64 word"
  total_bytes :: "64 word"
  avail_bytes :: "64 word"
  avail_buf :: addr
  chunks :: "mem_block list"
  finalizers :: "(addr \<times> nat) list"

text \<open>The arena and the live blocks.\<close>

type_synonym arena_heap = "arena \<times> mem_block list"

definition ArenaInit :: "64 word \<Rightarrow> arena" where
  "ArenaInit min_size = \<lparr>min_chunk_size = min_size, total_bytes = 0, avail_bytes = 0, avail_buf = 0,
     chunks = [], finalizers = []\<rparr>"

section \<open>Allocation\<close>

definition AllocateChunk :: "malloc_fun \<Rightarrow> 64 word \<Rightarrow> arena_heap \<Rightarrow> status + arena_heap" where
  "AllocateChunk malloc n ah = (case ah of (a, live) \<Rightarrow>
     let out = malloc live n in
     if out = 0 then Inl (RuntimeError ''failure to allocate'')
     else Inr (a\<lparr>chunks := chunks a @ [(out, n)], avail_buf := out, avail_bytes := n,
                 total_bytes := total_bytes a + n\<rparr>, live @ [(out, n)]))"

definition padding_for :: "addr \<Rightarrow> 64 word \<Rightarrow> 64 word" where
  "padding_for a alignment = (- a) AND (alignment - 1)"

definition bump :: "64 word \<Rightarrow> 64 word \<Rightarrow> arena \<Rightarrow> addr \<times> arena" where
  "bump n padding a =
     (avail_buf a + padding,
      a\<lparr>avail_buf := avail_buf a + (n + padding), avail_bytes := avail_bytes a - (n + padding)\<rparr>)"

definition Allocate :: "malloc_fun \<Rightarrow> 64 word \<Rightarrow> 64 word \<Rightarrow> arena_heap \<Rightarrow> addr \<times> arena_heap" where
  "Allocate malloc n alignment ah = (case ah of (a, live) \<Rightarrow>
     if n = 0 then (0, ah)
     else
       let padding = padding_for (avail_buf a) alignment in
       if avail_bytes a < n + padding then
         (case AllocateChunk malloc (max (n + alignment - 1) (min_chunk_size a)) ah of
            Inl _ \<Rightarrow> (0, ah)
          | Inr (a1, live1) \<Rightarrow>
              (case bump n (padding_for (avail_buf a1) alignment) a1 of (p, a2) \<Rightarrow> (p, a2, live1)))
       else (case bump n padding a of (p, a1) \<Rightarrow> (p, a1, live)))"

text \<open>Create<T>: \<open>dtor\<close> is the destructor of a type that has a non-trivial one.\<close>

definition Create :: "malloc_fun \<Rightarrow> 64 word \<Rightarrow> 64 word \<Rightarrow> nat option \<Rightarrow> arena_heap \<Rightarrow> addr \<times> arena_heap" where
  "Create malloc n alignment dtor ah =
     (case Allocate malloc n alignment ah of (p, a, live) \<Rightarrow>
        if p = 0 then (0, a, live)
        else (p, case dtor of None \<Rightarrow> a | Some f \<Rightarrow> a\<lparr>finalizers := finalizers a @ [(p, f)]\<rparr>, live))"

section \<open>Release\<close>

type_synonym frees = "addr list \<times> mem_block list"

text \<open>The pointers handed to free so far, and the live blocks.\<close>

definition Free :: "addr \<Rightarrow> frees \<Rightarrow> frees" where
  "Free buf fl = (case fl of (freed, live) \<Rightarrow> (freed @ [buf], filter (\<lambda>(p, _). p \<noteq> buf) live))"

text \<open>The calls of the finalizers, in order, and the arena after \<open>clear\<close>.\<close>

definition RunFinalizers :: "arena \<Rightarrow> (addr \<times> nat) list \<times> arena" where
  "RunFinalizers a = (rev (finalizers a), a\<lparr>finalizers := []\<rparr>)"

definition ReleaseChunks :: "bool \<Rightarrow> arena \<Rightarrow> mem_block list \<Rightarrow> frees" where
  "ReleaseChunks retain_first a live =
     fold (\<lambda>(p, _). Free p) (if retain_first then drop 1 (chunks a) else chunks a) ([], live)"

definition Reset :: "arena_heap \<Rightarrow> (addr \<times> nat) list \<times> addr list \<times> arena_heap" where
  "Reset ah = (case ah of (a, live) \<Rightarrow>
     case chunks a of
       [] \<Rightarrow> ([], [], a, live)
     | (buf, sz) # rest \<Rightarrow>
         (case RunFinalizers a of (calls, a1) \<Rightarrow>
            (case (if length (chunks a) > 1 then ReleaseChunks True a1 live else ([], live)) of (freed, live1) \<Rightarrow>
               (calls, freed,
                a1\<lparr>chunks := (if length (chunks a) > 1 then take 1 (chunks a) else chunks a),
                   avail_buf := buf, avail_bytes := sz, total_bytes := sz\<rparr>,
                live1))))"

definition ArenaDestroy :: "arena_heap \<Rightarrow> (addr \<times> nat) list \<times> frees" where
  "ArenaDestroy ah = (case ah of (a, live) \<Rightarrow>
     case RunFinalizers a of (calls, a1) \<Rightarrow> (calls, ReleaseChunks False a1 live))"

text \<open>A run of free that C defines: each pointer is that of a block that is live at its moment.\<close>

fun valid_frees :: "mem_block list \<Rightarrow> addr list \<Rightarrow> bool" where
  "valid_frees live [] = True"
| "valid_frees live (p # ps) = (p \<in> fst ` set live \<and> valid_frees (filter (\<lambda>b. fst b \<noteq> p) live) ps)"

section \<open>Memory\<close>

text \<open>A block of bytes that does not wrap around the address space, and blocks that do not overlap.\<close>

definition block_ok :: "mem_block \<Rightarrow> bool" where
  "block_ok b \<longleftrightarrow> fst b \<noteq> 0 \<and> unat (fst b) + unat (snd b) < 2 ^ 64"

definition disjoint :: "mem_block \<Rightarrow> mem_block \<Rightarrow> bool" where
  "disjoint b c \<longleftrightarrow> unat (fst b) + unat (snd b) \<le> unat (fst c) \<or> unat (fst c) + unat (snd c) \<le> unat (fst b)"

definition inside :: "mem_block \<Rightarrow> mem_block \<Rightarrow> bool" where
  "inside b c \<longleftrightarrow> unat (fst c) \<le> unat (fst b) \<and> unat (fst b) + unat (snd b) \<le> unat (fst c) + unat (snd c)"

text \<open>What malloc promises for a request that is not empty: null, or a fresh block.\<close>

definition malloc_ok :: "malloc_fun \<Rightarrow> bool" where
  "malloc_ok m \<longleftrightarrow> (\<forall>live n. n \<noteq> 0 \<longrightarrow> m live n \<noteq> 0 \<longrightarrow>
     block_ok (m live n, n) \<and> (\<forall>b\<in>set live. disjoint (m live n, n) b))"

text \<open>The live blocks, those of the arena among them, are pairwise disjoint; the free part of the
  arena is the tail of its last chunk.\<close>

definition heap_ok :: "mem_block list \<Rightarrow> bool" where
  "heap_ok live \<longleftrightarrow> (\<forall>b\<in>set live. block_ok b \<and> snd b \<noteq> 0) \<and> pairwise disjoint (set live) \<and> distinct live"

definition arena_inv :: "arena_heap \<Rightarrow> bool" where
  "arena_inv ah \<longleftrightarrow> (case ah of (a, live) \<Rightarrow>
     heap_ok live \<and> set (chunks a) \<subseteq> set live \<and> distinct (chunks a)
     \<and> (if chunks a = [] then avail_bytes a = 0 \<and> finalizers a = []
        else unat (fst (last (chunks a))) \<le> unat (avail_buf a)
           \<and> unat (avail_buf a) + unat (avail_bytes a)
             = unat (fst (last (chunks a))) + unat (snd (last (chunks a)))))"

text \<open>Blocks handed out since the last reset: each in a chunk of the arena, those of the last
  chunk before the free part, no two overlapping.\<close>

definition handed_ok :: "arena \<Rightarrow> mem_block list \<Rightarrow> bool" where
  "handed_ok a bs \<longleftrightarrow>
     (\<forall>b\<in>set bs. \<exists>c\<in>set (chunks a). inside b c
        \<and> (c = last (chunks a) \<longrightarrow> unat (fst b) + unat (snd b) \<le> unat (avail_buf a)))
     \<and> sorted_wrt disjoint bs"


section \<open>Alignment\<close>

lemma padding_take_bit: "padding_for a (2 ^ k) = take_bit k (- a)"
  by (simp add: padding_for_def take_bit_eq_mask mask_eq_exp_minus_1)

lemma unat_padding: "unat (padding_for a (2 ^ k)) = unat (- a) mod 2 ^ k"
  unfolding padding_take_bit by (simp only: unsigned_take_bit_eq) (simp add: take_bit_eq_mod)

lemma padding_less: "unat (padding_for a (2 ^ k)) < 2 ^ k"
  by (simp add: unat_padding)

lemma padding_aligns:
  assumes "k \<le> 64"
  shows "2 ^ k dvd unat a + unat (padding_for a (2 ^ k))"
proof -
  have "(unat a + unat (- a)) mod 2 ^ 64 = 0"
    using unat_word_ariths(1) [of a "- a"] by simp
  moreover have "(2::nat) ^ k dvd 2 ^ 64" using assms by (rule le_imp_power_dvd)
  ultimately have "(unat a + unat (- a)) mod 2 ^ k = 0" by (metis dvd_imp_mod_0 dvd_trans mod_0_imp_dvd)
  then show ?thesis by (simp add: unat_padding dvd_eq_mod_eq_0 mod_add_right_eq)
qed

section \<open>Allocation keeps the invariant\<close>

lemma arena_inv_init [simp]: "heap_ok live \<Longrightarrow> arena_inv (ArenaInit n, live)"
  by (simp add: arena_inv_def ArenaInit_def)

lemma unat_plus_no_wrap: "unat (x :: 64 word) + unat y < 2 ^ 64 \<Longrightarrow> unat (x + y) = unat x + unat y"
  using unat_add_lem [of x y] by simp

lemma disjoint_not_eq: "disjoint b c \<Longrightarrow> snd b \<noteq> 0 \<Longrightarrow> snd c \<noteq> 0 \<Longrightarrow> b \<noteq> c"
  by (auto simp: disjoint_def unat_eq_0)

lemma disjoint_sym: "disjoint b c \<longleftrightarrow> disjoint c b"
  by (auto simp: disjoint_def)

lemma disjoint_inside: "inside b c \<Longrightarrow> inside b' c' \<Longrightarrow> disjoint c c' \<Longrightarrow> disjoint b b'"
  by (auto simp: disjoint_def inside_def)

lemma handed_snoc:
  "handed_ok a (bs @ [b]) \<longleftrightarrow> handed_ok a bs
     \<and> (\<exists>c\<in>set (chunks a). inside b c \<and> (c = last (chunks a) \<longrightarrow> unat (fst b) + unat (snd b) \<le> unat (avail_buf a)))
     \<and> (\<forall>b'\<in>set bs. disjoint b' b)"
  by (auto simp: handed_ok_def sorted_wrt_append)

lemma AllocateChunk_ok:
  assumes "arena_inv (a, live)" "malloc_ok m" "n \<noteq> 0" "AllocateChunk m n (a, live) = Inr (a', live')"
  shows "arena_inv (a', live') \<and> chunks a' = chunks a @ [(avail_buf a', n)] \<and> avail_bytes a' = n
     \<and> (\<forall>bs. handed_ok a bs \<longrightarrow> handed_ok a' bs \<and> (\<forall>b\<in>set bs. disjoint b (avail_buf a', n)))"
proof -
  let ?p = "m live n"
  from assms(4) have p: "?p \<noteq> 0" and res: "live' = live @ [(?p, n)]"
    "a' = a\<lparr>chunks := chunks a @ [(?p, n)], avail_buf := ?p, avail_bytes := n, total_bytes := total_bytes a + n\<rparr>"
    by (auto simp: AllocateChunk_def Let_def split: if_splits)
  have new: "block_ok (?p, n)" "\<forall>b\<in>set live. disjoint (?p, n) b" using assms(2,3) p by (auto simp: malloc_ok_def)
  have h: "heap_ok live" "set (chunks a) \<subseteq> set live" "distinct (chunks a)" using assms(1) by (auto simp: arena_inv_def)
  have ne: "\<forall>b\<in>set live. b \<noteq> (?p, n)"
    using new(2) h(1) assms(3) disjoint_not_eq [of "(?p, n)"] by (fastforce simp: heap_ok_def)
  have "heap_ok live'"
    using h(1) new ne assms(3) res(1) by (auto simp: heap_ok_def pairwise_insert disjoint_sym)
  moreover have "distinct (chunks a')" using h(2,3) ne res(2) by auto
  ultimately have inv: "arena_inv (a', live')" using h(2) res by (auto simp: arena_inv_def)
  have "handed_ok a' bs \<and> (\<forall>b\<in>set bs. disjoint b (?p, n))" if "handed_ok a bs" for bs
  proof -
    have "\<exists>c\<in>set (chunks a'). inside b c \<and> c \<noteq> last (chunks a') \<and> disjoint b (?p, n)" if b: "b \<in> set bs" for b
    proof -
      obtain c where c: "c \<in> set (chunks a)" "inside b c"
        using \<open>handed_ok a bs\<close> b by (auto simp: handed_ok_def)
      then have "c \<in> set live" "disjoint c (?p, n)" using h(2) new(2) by (auto simp: disjoint_sym)
      with c ne res(2) disjoint_inside [of b c "(?p, n)" "(?p, n)"] show ?thesis
        by (auto simp: inside_def)
    qed
    with that show ?thesis by (fastforce simp: handed_ok_def)
  qed
  with inv res show ?thesis by simp
qed

lemma bump_ok:
  assumes "arena_inv (a, live)" "chunks a \<noteq> []" "k < 64"
    and fit: "unat n + unat (padding_for (avail_buf a) (2 ^ k)) \<le> unat (avail_bytes a)"
    and res: "bump n (padding_for (avail_buf a) (2 ^ k)) a = (p, a')"
  shows "arena_inv (a', live) \<and> p \<noteq> 0 \<and> 2 ^ k dvd unat p \<and> inside (p, n) (last (chunks a))
     \<and> chunks a' = chunks a \<and> finalizers a' = finalizers a
     \<and> unat (avail_buf a) \<le> unat p \<and> unat p + unat n \<le> unat (avail_buf a')
     \<and> unat (avail_buf a) \<le> unat (avail_buf a')"
proof -
  let ?pad = "padding_for (avail_buf a) (2 ^ k)" and ?c = "last (chunks a)"
  from assms(1,2) have c: "unat (fst ?c) \<le> unat (avail_buf a)"
    "unat (avail_buf a) + unat (avail_bytes a) = unat (fst ?c) + unat (snd ?c)" "?c \<in> set live"
    by (auto simp: arena_inv_def)
  then have ok: "fst ?c \<noteq> 0" "unat (fst ?c) + unat (snd ?c) < 2 ^ 64"
    using assms(1) by (auto simp: arena_inv_def heap_ok_def block_ok_def)
  have b64: "unat (avail_buf a) + (unat n + unat ?pad) < 2 ^ 64" using c ok fit by linarith
  have up: "unat (n + ?pad) = unat n + unat ?pad" using b64 by (intro unat_plus_no_wrap) linarith
  have ap: "unat (avail_buf a + ?pad) = unat (avail_buf a) + unat ?pad"
    using b64 by (intro unat_plus_no_wrap) linarith
  have an: "unat (avail_buf a + (n + ?pad)) = unat (avail_buf a) + (unat n + unat ?pad)"
    using b64 up unat_plus_no_wrap [of "avail_buf a" "n + ?pad"] by simp
  have av: "unat (avail_bytes a - (n + ?pad)) = unat (avail_bytes a) - (unat n + unat ?pad)"
    using fit up by (simp add: unat_sub word_le_nat_alt)
  from res have r: "p = avail_buf a + ?pad" "chunks a' = chunks a" "finalizers a' = finalizers a"
    "avail_buf a' = avail_buf a + (n + ?pad)" "avail_bytes a' = avail_bytes a - (n + ?pad)"
    by (auto simp: bump_def)
  have "unat (fst ?c) \<noteq> 0" using ok(1) by (simp add: unat_eq_0)
  then have p0: "p \<noteq> 0" using r(1) ap c(1) by (metis add_is_0 le_zero_eq unat_0)
  have "arena_inv (a', live)" using assms(1,2) r c an av fit by (auto simp: arena_inv_def)
  moreover have "2 ^ k dvd unat p" unfolding r(1) ap by (rule padding_aligns) (use assms(3) in simp)
  moreover have "inside (p, n) ?c" using r(1) ap c fit by (simp add: inside_def)
  ultimately show ?thesis using r an ap p0 by simp
qed


text \<open>What the source asserts of a request: an alignment that is a power of two, and sizes that do
  not wrap.\<close>

definition request_ok :: "64 word \<Rightarrow> 64 word \<Rightarrow> bool" where
  "request_ok n alignment \<longleftrightarrow> (\<exists>k<64. alignment = 2 ^ k \<and> unat n + 2 ^ k \<le> 2 ^ 64)"

lemma Allocate_cases:
  assumes inv: "arena_inv (a, live)" and m: "malloc_ok m" and n: "n \<noteq> 0" and k: "k < 64" "unat n + 2 ^ k \<le> 2 ^ 64"
    and res: "Allocate m n (2 ^ k) (a, live) = (p, a', live')"
  shows "p = 0 \<and> a' = a \<and> live' = live \<and> m live (max (n + 2 ^ k - 1) (min_chunk_size a)) = 0 \<or>
    (\<exists>a1. arena_inv (a1, live') \<and> chunks a1 \<noteq> [] \<and> finalizers a1 = finalizers a
      \<and> (\<forall>bs. handed_ok a bs \<longrightarrow> handed_ok a1 bs)
      \<and> unat n + unat (padding_for (avail_buf a1) (2 ^ k)) \<le> unat (avail_bytes a1)
      \<and> bump n (padding_for (avail_buf a1) (2 ^ k)) a1 = (p, a'))"
proof -
  let ?pad = "padding_for (avail_buf a) (2 ^ k)" and ?sz = "max (n + 2 ^ k - 1) (min_chunk_size a)"
  have np: "unat (n + ?pad) = unat n + unat ?pad"
    using padding_less [of "avail_buf a" k] k(2) by (intro unat_plus_no_wrap) linarith
  show ?thesis
  proof (cases "avail_bytes a < n + ?pad")
    case False
    then have fit: "unat n + unat ?pad \<le> unat (avail_bytes a)" using np by (simp add: word_less_nat_alt)
    moreover from this n have "chunks a \<noteq> []" using inv by (auto simp: arena_inv_def unat_eq_0)
    ultimately show ?thesis using False res n inv
      by (intro disjI2 exI [of _ a]) (auto simp: Allocate_def Let_def split: prod.splits)
  next
    case True
    have k1: "unat (2 ^ k - 1 :: 64 word) = 2 ^ k - 1"
    proof -
      have "(2::nat) ^ k < 2 ^ 64" using k(1) by (rule power_strict_increasing) simp
      then have "unat (of_nat (2 ^ k) :: 64 word) = 2 ^ k" by (simp only: unat_of_nat) simp
      then have "unat (2 ^ k :: 64 word) = 2 ^ k" by simp
      then show ?thesis using unat_sub [of 1 "2 ^ k :: 64 word"] by (simp add: word_le_nat_alt)
    qed
    have "unat (n + 2 ^ k - 1) = unat n + (2 ^ k - 1)"
      using unat_plus_no_wrap [of n "2 ^ k - 1"] k(2) k1 by (simp add: add_diff_eq)
    then have sz: "unat n + (2 ^ k - 1) \<le> unat ?sz" by (simp add: max_def word_le_nat_alt)
    then have "unat n \<le> unat ?sz" by linarith
    with n have sz0: "?sz \<noteq> 0" by (metis le_zero_eq unat_0 unat_eq_zero)
    show ?thesis
    proof (cases "AllocateChunk m ?sz (a, live)")
      case (Inl st)
      with True n res show ?thesis by (auto simp: Allocate_def AllocateChunk_def Let_def split: if_splits)
    next
      case (Inr al)
      obtain a1 live1 where al: "al = (a1, live1)" by force
      note c = AllocateChunk_ok [OF inv m sz0 Inr [unfolded al]]
      have "finalizers a1 = finalizers a"
        using Inr al by (auto simp: AllocateChunk_def Let_def split: if_splits)
      moreover have "unat n + unat (padding_for (avail_buf a1) (2 ^ k)) \<le> unat (avail_bytes a1)"
        using c sz padding_less [of "avail_buf a1" k] by simp
      ultimately show ?thesis using True n res c Inr al
        by (intro disjI2 exI [of _ a1]) (auto simp: Allocate_def Let_def split: prod.splits)
    qed
  qed
qed


lemma bump_handed:
  assumes inv: "arena_inv (a, live)" and ne: "chunks a \<noteq> []" and k: "k < 64"
    and fit: "unat n + unat (padding_for (avail_buf a) (2 ^ k)) \<le> unat (avail_bytes a)"
    and res: "bump n (padding_for (avail_buf a) (2 ^ k)) a = (p, a')" and h: "handed_ok a bs"
  shows "handed_ok a' (bs @ [(p, n)])"
proof -
  note b = bump_ok [OF inv ne k fit res]
  have live: "pairwise disjoint (set live)" "set (chunks a) \<subseteq> set live"
    using inv by (auto simp: arena_inv_def heap_ok_def)
  have "disjoint x (p, n)" if x: "x \<in> set bs" for x
  proof -
    obtain c where c: "c \<in> set (chunks a)" "inside x c"
      "c = last (chunks a) \<longrightarrow> unat (fst x) + unat (snd x) \<le> unat (avail_buf a)"
      using h x by (auto simp: handed_ok_def)
    show ?thesis
    proof (cases "c = last (chunks a)")
      case True
      with c b show ?thesis by (auto simp: disjoint_def)
    next
      case False
      with c(1) ne live have "disjoint c (last (chunks a))"
        by (metis last_in_set pairwiseD subsetD)
      with c(2) b show ?thesis by (blast intro: disjoint_inside)
    qed
  qed
  moreover have "handed_ok a' bs"
  proof -
    have "\<exists>c\<in>set (chunks a). inside x c \<and> (c = last (chunks a) \<longrightarrow> unat (fst x) + unat (snd x) \<le> unat (avail_buf a'))"
      if x: "x \<in> set bs" for x
      using h x b unfolding handed_ok_def by (meson le_trans)
    with h b show ?thesis by (simp add: handed_ok_def)
  qed
  ultimately show ?thesis using b ne unfolding handed_snoc by auto
qed

text \<open>An allocation that succeeds is aligned, lies in a chunk of the arena and overlaps nothing
  handed out before; one that fails changes nothing, and only fails when malloc does.\<close>

lemma Allocate_ok:
  assumes inv: "arena_inv (a, live)" and m: "malloc_ok m" and n: "n \<noteq> 0" and req: "request_ok n al"
    and res: "Allocate m n al (a, live) = (p, a', live')"
  shows "arena_inv (a', live') \<and> finalizers a' = finalizers a \<and>
    (if p = 0 then a' = a \<and> live' = live \<and> m live (max (n + al - 1) (min_chunk_size a)) = 0
     else unat al dvd unat p \<and> (\<forall>bs. handed_ok a bs \<longrightarrow> handed_ok a' (bs @ [(p, n)])))"
proof -
  obtain k where k: "k < 64" "al = 2 ^ k" "unat n + 2 ^ k \<le> 2 ^ 64" using req by (auto simp: request_ok_def)
  from Allocate_cases [OF inv m n k(1,3) res [unfolded k(2)]] consider
      "p = 0" "a' = a" "live' = live" "m live (max (n + 2 ^ k - 1) (min_chunk_size a)) = 0"
    | a1 where "arena_inv (a1, live')" "chunks a1 \<noteq> []" "finalizers a1 = finalizers a"
      "\<forall>bs. handed_ok a bs \<longrightarrow> handed_ok a1 bs"
      "unat n + unat (padding_for (avail_buf a1) (2 ^ k)) \<le> unat (avail_bytes a1)"
      "bump n (padding_for (avail_buf a1) (2 ^ k)) a1 = (p, a')"
    by blast
  then show ?thesis
  proof cases
    case 1
    with inv k(2) show ?thesis by simp
  next
    case 2
    note b = bump_ok [OF 2(1,2) k(1) 2(5,6)]
    have "(2::nat) ^ k < 2 ^ 64" using k(1) by (rule power_strict_increasing) simp
    then have "unat (of_nat (2 ^ k) :: 64 word) = 2 ^ k" by (simp only: unat_of_nat) simp
    then have "unat al = 2 ^ k" using k(2) by simp
    with b 2(3,4) bump_handed [OF 2(1,2) k(1) 2(5,6)] show ?thesis by simp
  qed
qed

section \<open>A run of requests\<close>

text \<open>The non-empty blocks that a sequence of requests (size, alignment, destructor) returns.\<close>

fun allocate_all :: "malloc_fun \<Rightarrow> (64 word \<times> 64 word \<times> nat option) list \<Rightarrow> arena_heap \<Rightarrow> mem_block list \<times> arena_heap" where
  "allocate_all m [] ah = ([], ah)"
| "allocate_all m ((n, al, dtor) # rs) ah =
     (case Create m n al dtor ah of (p, ah1) \<Rightarrow>
      case allocate_all m rs ah1 of (bs, ah2) \<Rightarrow> (if p = 0 then bs else (p, n) # bs, ah2))"

lemma set_finalizers [simp]:
  "handed_ok (a\<lparr>finalizers := f\<rparr>) bs \<longleftrightarrow> handed_ok a bs"
  "chunks a \<noteq> [] \<Longrightarrow> arena_inv (a\<lparr>finalizers := f\<rparr>, live) \<longleftrightarrow> arena_inv (a, live)"
  by (simp_all add: handed_ok_def arena_inv_def)

lemma Create_ok:
  assumes "arena_inv (a, live)" "malloc_ok m" "n \<noteq> 0" "request_ok n al" "Create m n al dtor (a, live) = (p, a', live')"
  shows "arena_inv (a', live') \<and>
    finalizers a' = finalizers a @ (if p = 0 then [] else case dtor of None \<Rightarrow> [] | Some f \<Rightarrow> [(p, f)])
    \<and> (if p = 0 then a' = a \<and> live' = live
       else unat al dvd unat p \<and> (\<forall>bs. handed_ok a bs \<longrightarrow> handed_ok a' (bs @ [(p, n)])))"
proof -
  obtain q a1 live1 where al: "Allocate m n al (a, live) = (q, a1, live1)" by (cases "Allocate m n al (a, live)") auto
  note ok = Allocate_ok [OF assms(1-4) al]
  have ne: "chunks a1 \<noteq> []" if "q \<noteq> 0"
  proof -
    have "handed_ok a []" by (simp add: handed_ok_def)
    with ok that have "handed_ok a1 ([] @ [(q, n)])" by (auto split: if_splits)
    then show ?thesis by (auto simp: handed_ok_def)
  qed
  show ?thesis
  proof (cases "q = 0")
    case True
    with ok assms(5) al show ?thesis by (auto simp: Create_def)
  next
    case False
    with ok ne assms(5) al show ?thesis by (cases dtor) (auto simp: Create_def)
  qed
qed

lemma allocate_all_ok:
  assumes "arena_inv (a, live)" "malloc_ok m" "\<forall>(n, al, d)\<in>set rs. n \<noteq> 0 \<and> request_ok n al"
    "handed_ok a bs" "allocate_all m rs (a, live) = (bs', a', live')"
  shows "arena_inv (a', live') \<and> handed_ok a' (bs @ bs')"
  using assms
proof (induction rs arbitrary: a live bs bs')
  case (Cons r rs)
  obtain n al d where r: "r = (n, al, d)" by (cases r) auto
  obtain p a1 live1 where c: "Create m n al d (a, live) = (p, a1, live1)" by (cases "Create m n al d (a, live)") auto
  obtain bs1 where rest: "allocate_all m rs (a1, live1) = (bs1, a', live')" "bs' = (if p = 0 then bs1 else (p, n) # bs1)"
    using Cons.prems(5) r c by (auto split: prod.splits)
  have "n \<noteq> 0" "request_ok n al" using Cons.prems(3) r by auto
  note ok = Create_ok [OF Cons.prems(1,2) this c]
  have "handed_ok a1 (if p = 0 then bs else bs @ [(p, n)])" using ok Cons.prems(4) by auto
  with Cons.IH [OF _ Cons.prems(2) _ this rest(1)] ok Cons.prems(3) rest(2) show ?case by auto
qed simp

section \<open>Reset and destruction\<close>

lemma fold_Free: "fold (\<lambda>(p, _). Free p) cs (ps, live) = (ps @ map fst cs, filter (\<lambda>b. fst b \<notin> fst ` set cs) live)"
proof (induction cs arbitrary: ps live)
  case (Cons c cs)
  then show ?case by (auto simp: Free_def split_beta conj_commute intro: filter_cong)
qed simp

lemma valid_frees_distinct: "distinct ps \<Longrightarrow> set ps \<subseteq> fst ` set live \<Longrightarrow> valid_frees live ps"
proof (induction ps arbitrary: live)
  case (Cons p ps)
  have "set ps \<subseteq> fst ` set (filter (\<lambda>b. fst b \<noteq> p) live)" using Cons.prems by force
  with Cons show ?case by simp
qed simp

text \<open>Conversely, a valid run of free frees no pointer twice.\<close>

lemma valid_frees_live: "valid_frees live ps \<Longrightarrow> distinct ps \<and> set ps \<subseteq> fst ` set live"
proof (induction live ps rule: valid_frees.induct)
  case (2 live p ps)
  then show ?case by auto
qed simp

lemma heap_ok_filter: "heap_ok live \<Longrightarrow> heap_ok (filter P live)"
  by (auto simp: heap_ok_def pairwise_def)

lemma heap_same_address:
  assumes "heap_ok live" "b \<in> set live" "c \<in> set live" "fst b = fst c"
  shows "b = c"
proof (rule ccontr)
  assume "b \<noteq> c"
  with assms(1-3) have "disjoint b c" "snd b \<noteq> 0" "snd c \<noteq> 0" by (auto simp: heap_ok_def pairwise_def)
  with assms(4) show False by (auto simp: disjoint_def unat_eq_0)
qed

lemma chunk_addresses:
  assumes "arena_inv (a, live)"
  shows "distinct (map fst (chunks a)) \<and> set (map fst (chunks a)) \<subseteq> fst ` set live"
proof -
  have live: "heap_ok live" "set (chunks a) \<subseteq> set live" "distinct (chunks a)" using assms by (auto simp: arena_inv_def)
  have "inj_on fst (set (chunks a))" using heap_same_address [OF live(1)] live(2) by (meson inj_onI subsetD)
  with live show ?thesis by (auto simp: distinct_map)
qed

lemma ReleaseChunks_ok:
  assumes "arena_inv (a, live)"
  defines "freed \<equiv> \<lambda>retain. if retain then drop 1 (chunks a) else chunks a"
  shows "fst (ReleaseChunks retain a live) = map fst (freed retain)"
    and "valid_frees live (map fst (freed retain))"
    and "set (snd (ReleaseChunks retain a live)) = set live - set (freed retain)"
proof -
  have live: "heap_ok live" "set (chunks a) \<subseteq> set live" using assms by (auto simp: arena_inv_def)
  have sub: "set (freed retain) \<subseteq> set live" using live(2) set_drop_subset [of 1 "chunks a"] by (auto simp: freed_def)
  have "{b \<in> set live. fst b \<notin> fst ` set (freed retain)} = set live - set (freed retain)"
    using sub heap_same_address [OF live(1)] by blast
  then show "set (snd (ReleaseChunks retain a live)) = set live - set (freed retain)"
    by (auto simp: ReleaseChunks_def fold_Free freed_def)
  show "fst (ReleaseChunks retain a live) = map fst (freed retain)"
    by (simp add: ReleaseChunks_def fold_Free freed_def)
  show "valid_frees live (map fst (freed retain))"
  proof (rule valid_frees_distinct)
    have "distinct (drop 1 (map fst (chunks a)))" using chunk_addresses [OF assms(1)] by simp
    then show "distinct (map fst (freed retain))" using chunk_addresses [OF assms(1)] by (simp add: freed_def drop_map)
    show "set (map fst (freed retain)) \<subseteq> fst ` set live" using sub by auto
  qed
qed

lemma Reset_ok:
  assumes "arena_inv (a, live)" "Reset (a, live) = (calls, freed, a', live')"
  shows "arena_inv (a', live') \<and> calls = rev (finalizers a) \<and> finalizers a' = []
    \<and> chunks a' = take 1 (chunks a) \<and> set live' = set live - set (drop 1 (chunks a))
    \<and> freed = map fst (drop 1 (chunks a)) \<and> valid_frees live freed
    \<and> handed_ok a' [] \<and> (chunks a \<noteq> [] \<longrightarrow> avail_buf a' = fst (hd (chunks a)) \<and> avail_bytes a' = snd (hd (chunks a)))"
proof (cases "chunks a")
  case Nil
  with assms show ?thesis by (auto simp: Reset_def handed_ok_def arena_inv_def)
next
  case (Cons c cs)
  obtain buf sz where c: "c = (buf, sz)" by force
  have live: "heap_ok live" "(buf, sz) \<in> set live" "(buf, sz) \<notin> set cs" "set cs \<subseteq> set live"
    using assms(1) Cons c by (auto simp: arena_inv_def)
  let ?r = "ReleaseChunks True (a\<lparr>finalizers := []\<rparr>) live"
  have same: "?r = ReleaseChunks True a live" by (simp add: ReleaseChunks_def)
  have rel: "fst ?r = map fst cs" "valid_frees live (map fst cs)" "set (snd ?r) = set live - set cs"
    using ReleaseChunks_ok [OF assms(1), of True] Cons unfolding same by simp_all
  have hp: "heap_ok (snd ?r)"
    unfolding ReleaseChunks_def fold_Free snd_conv using live(1) by (rule heap_ok_filter)
  show ?thesis
  proof (cases "cs = []")
    case True
    with assms Cons c live show ?thesis
      by (auto simp: Reset_def RunFinalizers_def arena_inv_def handed_ok_def)
  next
    case False
    with assms(2) Cons c have "a' = a\<lparr>finalizers := [], chunks := [(buf, sz)], avail_buf := buf, avail_bytes := sz, total_bytes := sz\<rparr>"
      "freed = fst ?r" "live' = snd ?r" "calls = rev (finalizers a)"
      by (auto simp: Reset_def RunFinalizers_def split: prod.splits)
    with rel hp live Cons c show ?thesis by (simp add: arena_inv_def handed_ok_def)
  qed
qed

lemma ArenaDestroy_ok:
  assumes "arena_inv (a, live)" "ArenaDestroy (a, live) = (calls, freed, live')"
  shows "calls = rev (finalizers a) \<and> freed = map fst (chunks a) \<and> valid_frees live freed \<and> distinct freed
    \<and> set live' = set live - set (chunks a)"
proof -
  have same: "ReleaseChunks False (a\<lparr>finalizers := []\<rparr>) live = ReleaseChunks False a live" by (simp add: ReleaseChunks_def)
  show ?thesis using assms(2) ReleaseChunks_ok [OF assms(1), of False] chunk_addresses [OF assms(1)]
    by (auto simp: ArenaDestroy_def RunFinalizers_def same)
qed

end
