(* ===== verification/Artifact.thy ===== *)
theory Artifact
  imports Types
begin

unbundle bit_operations_syntax

text \<open>
  Model of src/compiled_artifact.h and src/compiled_artifact.cc: the byte format of saved engines.
  A blob is a string of chars, the cursor of the reader a 64-bit size, so that its bounds checks
  wrap as the source's do. A string_view is the pair of its offset and its length. Return types are
  the underlying bytes of the enumeration, which has a fixed underlying type.
\<close>

section \<open>Headers\<close>

datatype artifact_mode = kSingle | kBatch
datatype fp_math_mode = kStrict | kFast

record artifact_extension =
  tag :: "32 word"
  payload :: string

record artifact_header =
  llvm_version :: string
  target_triple :: string
  cpu_name :: string
  mode :: artifact_mode
  fp_mode :: fp_math_mode
  per_entry_ret_types :: "8 word list"
  extensions :: "artifact_extension list"

record load_options =
  check_llvm_version :: bool
  check_target_triple :: bool
  check_cpu_name :: bool

definition mode_byte :: "artifact_mode \<Rightarrow> 8 word" where
  "mode_byte m = (case m of kSingle \<Rightarrow> 0 | kBatch \<Rightarrow> 1)"

definition fp_byte :: "fp_math_mode \<Rightarrow> 8 word" where
  "fp_byte m = (case m of kStrict \<Rightarrow> 0 | kFast \<Rightarrow> 1)"

definition kArtifactMagic :: string where "kArtifactMagic = ''JFCA''"
definition kArtifactFooterMagic :: string where "kArtifactFooterMagic = ''JFCE''"
definition kArtifactFormatVersion :: "32 word" where "kArtifactFormatVersion = 2"

section \<open>Writing\<close>

definition AppendU8 :: "string \<Rightarrow> 8 word \<Rightarrow> string" where
  "AppendU8 out v = out @ [char_of (unat v)]"

definition AppendU32LE :: "string \<Rightarrow> 32 word \<Rightarrow> string" where
  "AppendU32LE out v = out @ map (\<lambda>i. char_of (unat (drop_bit (i * 8) v AND 0xff))) [0..<4]"

definition AppendU64LE :: "string \<Rightarrow> 64 word \<Rightarrow> string" where
  "AppendU64LE out v = out @ map (\<lambda>i. char_of (unat (drop_bit (i * 8) v AND 0xff))) [0..<8]"

definition AppendLenPrefixedStr :: "string \<Rightarrow> string \<Rightarrow> string" where
  "AppendLenPrefixedStr out s = AppendU32LE out (of_nat (length s)) @ s"

definition AppendExtension :: "string \<Rightarrow> artifact_extension \<Rightarrow> string" where
  "AppendExtension out ext =
     AppendU32LE (AppendU32LE out (tag ext)) (of_nat (length (payload ext))) @ payload ext"

text \<open>\<open>num_entries\<close> is the count as a 32-bit number, and so is the bound of the loop.\<close>

definition SerializeArtifact :: "artifact_header \<Rightarrow> string \<Rightarrow> string \<Rightarrow> status + string" where
  "SerializeArtifact header object_bytes out =
     (if per_entry_ret_types header = []
      then Inl (InvalidArgument ''[internal] SerializeArtifact: header has 0 entries'')
      else if mode header = kSingle \<and> length (per_entry_ret_types header) \<noteq> 1
      then Inl (InvalidArgument (''[internal] SerializeArtifact: single-mode artifact must have exactly 1 entry, got ''
             @ nat_to_string (length (per_entry_ret_types header))))
      else
        let out1 = AppendU32LE (out @ kArtifactMagic) kArtifactFormatVersion;
            out2 = AppendLenPrefixedStr (AppendLenPrefixedStr (AppendLenPrefixedStr out1 (llvm_version header))
                     (target_triple header)) (cpu_name header);
            out3 = AppendU8 (AppendU8 out2 (mode_byte (mode header))) (fp_byte (fp_mode header));
            num_entries = (of_nat (length (per_entry_ret_types header)) :: 32 word);
            out4 = foldl AppendU8 (AppendU32LE out3 num_entries) (take (unat num_entries) (per_entry_ret_types header));
            out5 = AppendU64LE out4 (of_nat (length object_bytes)) @ object_bytes;
            out6 = AppendU32LE out5 (of_nat (length (extensions header)));
            out7 = foldl AppendExtension out6 (extensions header)
        in Inr (out7 @ kArtifactFooterMagic))"

section \<open>Reading\<close>

definition sz :: "string \<Rightarrow> 64 word" where
  "sz buf = of_nat (length buf)"

definition byte_at :: "string \<Rightarrow> 64 word \<Rightarrow> nat" where
  "byte_at buf p = of_char (buf ! unat p)"

type_synonym 'a read = "status + ('a \<times> 64 word)"

definition bad :: "string \<Rightarrow> status" where
  "bad msg = InvalidArgument (''compiled artifact: '' @ msg)"

definition ReadU8 :: "string \<Rightarrow> 64 word \<Rightarrow> 8 word read" where
  "ReadU8 buf pos =
     (if pos + 1 > sz buf then Inl (bad (''unexpected EOF reading u8 at offset '' @ nat_to_string (unat pos)))
      else Inr (of_nat (byte_at buf pos), pos + 1))"

definition ReadU32LE :: "string \<Rightarrow> 64 word \<Rightarrow> 32 word read" where
  "ReadU32LE buf pos =
     (if pos + 4 > sz buf then Inl (bad (''unexpected EOF reading u32 at offset '' @ nat_to_string (unat pos)))
      else Inr (foldl (\<lambda>v i. v OR push_bit (i * 8) (of_nat (byte_at buf (pos + of_nat i)))) 0 [0..<4], pos + 4))"

definition ReadU64LE :: "string \<Rightarrow> 64 word \<Rightarrow> 64 word read" where
  "ReadU64LE buf pos =
     (if pos + 8 > sz buf then Inl (bad (''unexpected EOF reading u64 at offset '' @ nat_to_string (unat pos)))
      else Inr (foldl (\<lambda>v i. v OR push_bit (i * 8) (of_nat (byte_at buf (pos + of_nat i)))) 0 [0..<8], pos + 8))"

definition sub_bytes :: "string \<Rightarrow> 64 word \<Rightarrow> nat \<Rightarrow> string" where
  "sub_bytes buf pos n = take n (drop (unat pos) buf)"

definition ReadLenPrefixedStr :: "string \<Rightarrow> 64 word \<Rightarrow> string read" where
  "ReadLenPrefixedStr buf pos =
     bind_result (ReadU32LE buf pos) (\<lambda>(len, pos1).
       if pos1 + ucast len > sz buf
       then Inl (bad (''truncated string (want '' @ nat_to_string (unat len) @ '' bytes, have ''
                  @ nat_to_string (unat (sz buf - pos1)) @ '')''))
       else Inr (sub_bytes buf pos1 (unat len), pos1 + ucast len))"

definition ReadMagic :: "string \<Rightarrow> string \<Rightarrow> string \<Rightarrow> 64 word \<Rightarrow> unit read" where
  "ReadMagic expected lab buf pos =
     (if pos + 4 > sz buf then Inl (bad (''unexpected EOF reading '' @ lab @ '' magic''))
      else if list_ex (\<lambda>i. buf ! unat (pos + of_nat i) \<noteq> expected ! i) [0..<4]
      then Inl (bad (''wrong '' @ lab @ '' magic (not a JitFusion compiled artifact?)''))
      else Inr ((), pos + 4))"

type_synonym view = "64 word \<times> 64 word"

definition ReadBytesView :: "64 word \<Rightarrow> string \<Rightarrow> 64 word \<Rightarrow> view read" where
  "ReadBytesView n buf pos =
     (if pos + n > sz buf
      then Inl (bad (''truncated blob (want '' @ nat_to_string (unat n) @ '' bytes, have ''
                 @ nat_to_string (unat (sz buf - pos)) @ '')''))
      else Inr ((pos, n), pos + n))"

text \<open>The bytes of a view that lies in the buffer.\<close>

definition view_bytes :: "string \<Rightarrow> view \<Rightarrow> string option" where
  "view_bytes buf v =
     (if unat (fst v) + unat (snd v) \<le> length buf then Some (sub_bytes buf (fst v) (unat (snd v))) else None)"

definition ReadBytesCopy :: "64 word \<Rightarrow> string \<Rightarrow> 64 word \<Rightarrow> string read" where
  "ReadBytesCopy n buf pos =
     bind_result (ReadBytesView n buf pos) (\<lambda>((off, len), pos1). Inr (sub_bytes buf off (unat len), pos1))"

fun read_ret_types :: "nat \<Rightarrow> string \<Rightarrow> 64 word \<Rightarrow> 8 word list read" where
  "read_ret_types 0 buf pos = Inr ([], pos)"
| "read_ret_types (Suc n) buf pos =
     bind_result (ReadU8 buf pos) (\<lambda>(b, pos1).
     bind_result (read_ret_types n buf pos1) (\<lambda>(bs, pos2). Inr (b # bs, pos2)))"

definition ReadExtension :: "string \<Rightarrow> 64 word \<Rightarrow> artifact_extension read" where
  "ReadExtension buf pos =
     bind_result (ReadU32LE buf pos) (\<lambda>(t, pos1).
     bind_result (ReadU32LE buf pos1) (\<lambda>(plen, pos2).
     bind_result (ReadBytesCopy (ucast plen) buf pos2) (\<lambda>(p, pos3).
     Inr (\<lparr>tag = t, payload = p\<rparr>, pos3))))"

fun read_extensions :: "nat \<Rightarrow> string \<Rightarrow> 64 word \<Rightarrow> artifact_extension list read" where
  "read_extensions 0 buf pos = Inr ([], pos)"
| "read_extensions (Suc n) buf pos =
     bind_result (ReadExtension buf pos) (\<lambda>(e, pos1).
     bind_result (read_extensions n buf pos1) (\<lambda>(es, pos2). Inr (e # es, pos2)))"

definition decode_mode :: "8 word \<Rightarrow> status + artifact_mode" where
  "decode_mode b = (if b \<noteq> mode_byte kSingle \<and> b \<noteq> mode_byte kBatch
     then Inl (bad (''unknown mode byte '' @ nat_to_string (unat b)))
     else Inr (if b = mode_byte kSingle then kSingle else kBatch))"

definition decode_fp :: "8 word \<Rightarrow> status + fp_math_mode" where
  "decode_fp b = (if b \<noteq> fp_byte kStrict \<and> b \<noteq> fp_byte kFast
     then Inl (bad (''unknown fp_math_mode byte '' @ nat_to_string (unat b)))
     else Inr (if b = fp_byte kStrict then kStrict else kFast))"

definition DeserializeArtifact :: "string \<Rightarrow> status + (artifact_header \<times> view)" where
  "DeserializeArtifact blob =
     bind_result (ReadMagic kArtifactMagic ''header'' blob 0) (\<lambda>(_, p0).
     bind_result (ReadU32LE blob p0) (\<lambda>(format_ver, p1).
     if format_ver \<noteq> kArtifactFormatVersion
     then Inl (bad (''format version '' @ nat_to_string (unat format_ver) @ '' not supported (this build expects ''
            @ nat_to_string (unat kArtifactFormatVersion)
            @ ''). The artifact was produced by an incompatible jitfusion version.''))
     else
     bind_result (ReadLenPrefixedStr blob p1) (\<lambda>(llvm, p2).
     bind_result (ReadLenPrefixedStr blob p2) (\<lambda>(triple, p3).
     bind_result (ReadLenPrefixedStr blob p3) (\<lambda>(cpu, p4).
     bind_result (ReadU8 blob p4) (\<lambda>(mb, p5).
     bind_result (decode_mode mb) (\<lambda>m.
     bind_result (ReadU8 blob p5) (\<lambda>(fb, p6).
     bind_result (decode_fp fb) (\<lambda>f.
     bind_result (ReadU32LE blob p6) (\<lambda>(num_entries, p7).
     if num_entries = 0 then Inl (bad ''num_entries is 0'')
     else if m = kSingle \<and> num_entries \<noteq> 1
     then Inl (bad (''single-mode artifact with num_entries='' @ nat_to_string (unat num_entries)))
     else
     bind_result (read_ret_types (unat num_entries) blob p7) (\<lambda>(rets, p8).
     bind_result (ReadU64LE blob p8) (\<lambda>(obj_size, p9).
     bind_result (ReadBytesView obj_size blob p9) (\<lambda>(obj, p10).
     bind_result (ReadU32LE blob p10) (\<lambda>(ext_count, p11).
     bind_result (read_extensions (unat ext_count) blob p11) (\<lambda>(exts, p12).
     bind_result (ReadMagic kArtifactFooterMagic ''footer'' blob p12) (\<lambda>(_, p13).
     if sz blob - p13 \<noteq> 0
     then Inl (bad (nat_to_string (unat (sz blob - p13)) @ '' trailing bytes after footer''))
     else Inr (\<lparr>llvm_version = llvm, target_triple = triple, cpu_name = cpu, mode = m, fp_mode = f,
                 per_entry_ret_types = rets, extensions = exts\<rparr>, obj)))))))))))))))))"

section \<open>Host checks\<close>

text \<open>The dash of the message, in UTF-8.\<close>

definition em_dash :: string where "em_dash = [CHR 0xE2, CHR 0x80, CHR 0x94]"

definition CheckHostCompatibility ::
  "artifact_header \<Rightarrow> load_options \<Rightarrow> string \<Rightarrow> string \<Rightarrow> string \<Rightarrow> artifact_mode \<Rightarrow> status" where
  "CheckHostCompatibility header opts host_llvm_version host_target_triple host_cpu_name expected_mode =
     (if check_llvm_version opts \<and> llvm_version header \<noteq> host_llvm_version
      then bad (''LLVM version mismatch (artifact='' @ llvm_version header @ '', runtime='' @ host_llvm_version
        @ ''). LLVM does not guarantee object-file compatibility across versions; regenerate the artifact.'')
      else if check_target_triple opts \<and> target_triple header \<noteq> host_target_triple
      then bad (''target triple mismatch (artifact='' @ target_triple header @ '', runtime='' @ host_target_triple @ '')'')
      else if check_cpu_name opts \<and> cpu_name header \<noteq> host_cpu_name
      then bad (''host CPU mismatch (artifact='' @ cpu_name header @ '', runtime='' @ host_cpu_name
        @ ''). Regenerate the artifact on this host.'')
      else if mode header \<noteq> expected_mode
      then bad (''mode mismatch '' @ em_dash @ '' this blob was saved by ''
        @ (if expected_mode = kSingle then ''BatchExecEngine'' else ''ExecEngine'') @ ''. Load it with ''
        @ (if expected_mode = kSingle then ''ExecEngine::LoadCompiled'' else ''BatchExecEngine::LoadCompiled'')
        @ '' instead.'')
      else OK)"


section \<open>What is written is read back\<close>

lemma byte_mod [simp]: "unat (b :: 8 word) mod 256 = unat b"
  using unsigned_less [of b, where 'a = nat] by simp

definition u32_bytes :: "32 word \<Rightarrow> string" where
  "u32_bytes v = map (\<lambda>i. char_of (unat (drop_bit (i * 8) v AND 0xff))) [0..<4]"

definition u64_bytes :: "64 word \<Rightarrow> string" where
  "u64_bytes v = map (\<lambda>i. char_of (unat (drop_bit (i * 8) v AND 0xff))) [0..<8]"

lemma length_u32_bytes [simp]: "length (u32_bytes v) = 4" and length_u64_bytes [simp]: "length (u64_bytes w) = 8"
  by (simp_all add: u32_bytes_def u64_bytes_def)

lemma and_ff_less: "unat ((w :: 'a :: len word) AND 0xff) < 256"
proof -
  have "w AND 0xff = take_bit 8 w" by (simp add: take_bit_eq_mask mask_eq_exp_minus_1)
  then have "unat (w AND 0xff) = take_bit 8 (unat w)" by (simp only: unsigned_take_bit_eq)
  then show ?thesis using take_bit_nat_less_exp [of 8 "unat w"] by simp
qed

lemma ff_mod [simp]: "unat ((w :: 'a :: len word) AND 0xff) mod 256 = unat (w AND 0xff)"
  using and_ff_less [of w] by simp

lemma split_bytes_32: "(w :: 32 word) = (w AND 0xff) OR push_bit 8 (drop_bit 8 w AND 0xff)
    OR push_bit 16 (drop_bit 16 w AND 0xff) OR push_bit 24 (drop_bit 24 w AND 0xff)"
proof -
  have ff: "v AND 0xff = take_bit 8 v" for v :: "32 word" by (simp add: take_bit_eq_mask mask_eq_exp_minus_1)
  show ?thesis
    unfolding ff
  proof (rule bit_word_eqI)
    fix n
    show "bit w n = bit (take_bit 8 w OR push_bit 8 (take_bit 8 (drop_bit 8 w)) OR push_bit 16 (take_bit 8 (drop_bit 16 w))
      OR push_bit 24 (take_bit 8 (drop_bit 24 w))) n" if "n < LENGTH(32)"
    proof -
      from that consider "n < 8" | "8 \<le> n" "n < 16" | "16 \<le> n" "n < 24" | "24 \<le> n" "n < 32" by fastforce
      then show ?thesis by cases (auto simp: bit_simps)
    qed
  qed
qed

lemma split_bytes_64: "(w :: 64 word) = (w AND 0xff) OR push_bit 8 (drop_bit 8 w AND 0xff)
    OR push_bit 16 (drop_bit 16 w AND 0xff) OR push_bit 24 (drop_bit 24 w AND 0xff)
    OR push_bit 32 (drop_bit 32 w AND 0xff) OR push_bit 40 (drop_bit 40 w AND 0xff)
    OR push_bit 48 (drop_bit 48 w AND 0xff) OR push_bit 56 (drop_bit 56 w AND 0xff)"
proof -
  have ff: "v AND 0xff = take_bit 8 v" for v :: "64 word" by (simp add: take_bit_eq_mask mask_eq_exp_minus_1)
  show ?thesis
    unfolding ff
  proof (rule bit_word_eqI)
    fix n
    show "bit w n = bit (take_bit 8 w OR push_bit 8 (take_bit 8 (drop_bit 8 w)) OR push_bit 16 (take_bit 8 (drop_bit 16 w))
      OR push_bit 24 (take_bit 8 (drop_bit 24 w)) OR push_bit 32 (take_bit 8 (drop_bit 32 w))
      OR push_bit 40 (take_bit 8 (drop_bit 40 w)) OR push_bit 48 (take_bit 8 (drop_bit 48 w))
      OR push_bit 56 (take_bit 8 (drop_bit 56 w))) n" if "n < LENGTH(64)"
    proof -
      from that consider "n < 8" | "8 \<le> n" "n < 16" | "16 \<le> n" "n < 24" | "24 \<le> n" "n < 32"
        | "32 \<le> n" "n < 40" | "40 \<le> n" "n < 48" | "48 \<le> n" "n < 56" | "56 \<le> n" "n < 64" by fastforce
      then show ?thesis by cases (auto simp: bit_simps)
    qed
  qed
qed


section \<open>Readers as inverses of writers\<close>

text \<open>\<open>reads f e x\<close>: at the place where the bytes \<open>e\<close> stand, \<open>f\<close> reads \<open>x\<close> and stops behind them.\<close>

definition reads :: "(string \<Rightarrow> 64 word \<Rightarrow> 'a read) \<Rightarrow> string \<Rightarrow> 'a \<Rightarrow> bool" where
  "reads f e x \<longleftrightarrow> (\<forall>pre rest. length (pre @ e @ rest) < 2 ^ 63 \<longrightarrow>
     f (pre @ e @ rest) (of_nat (length pre)) = Inr (x, of_nat (length pre + length e)))"

lemma readsD:
  "reads f e x \<Longrightarrow> blob = pre @ e @ rest \<Longrightarrow> length blob < 2 ^ 63 \<Longrightarrow>
     f blob (of_nat (length pre)) = Inr (x, of_nat (length (pre @ e)))"
  by (simp add: reads_def)

lemma unat_small: "n < 2 ^ 63 \<Longrightarrow> unat (of_nat n :: 64 word) = n"
  by (simp add: unat_of_nat)

lemma in_bounds:
  assumes "p + k \<le> length buf" "length buf < 2 ^ 63"
  shows "\<not> (of_nat p + of_nat k > sz buf)"
proof -
  have "of_nat p + of_nat k = (of_nat (p + k) :: 64 word)" by simp
  moreover have "unat (of_nat (p + k) :: 64 word) = p + k" using assms by (intro unat_small) simp
  moreover have "unat (sz buf) = length buf" unfolding sz_def using assms by (intro unat_small) simp
  ultimately show ?thesis using assms by (simp only: word_less_nat_alt not_less)
qed

lemma byte_at_append:
  assumes "length (pre @ e @ rest) < 2 ^ 63" "i < length e"
  shows "byte_at (pre @ e @ rest) (of_nat (length pre) + of_nat i) = of_char (e ! i)"
proof -
  have "unat (of_nat (length pre) + of_nat i :: 64 word) = length pre + i"
    using assms unat_small [of "length pre + i"] by simp
  then show ?thesis using assms by (simp add: byte_at_def nth_append)
qed

lemma upt4: "[0..<4::nat] = [0, 1, 2, 3]" and upt8: "[0..<8::nat] = [0, 1, 2, 3, 4, 5, 6, 7]"
  by (simp_all add: upt_rec numeral_eq_Suc)

lemma reads_u8: "reads ReadU8 [char_of (unat b)] b"
  unfolding reads_def
proof (intro allI impI)
  fix pre rest assume l: "length (pre @ [char_of (unat b)] @ rest) < 2 ^ 63"
  from byte_at_append [OF this, of 0] have "byte_at (pre @ [char_of (unat b)] @ rest) (of_nat (length pre)) = unat b"
    by simp
  moreover have "\<not> (of_nat (length pre) + of_nat 1 > sz (pre @ [char_of (unat b)] @ rest))"
    by (rule in_bounds) (use l in auto)
  ultimately show "ReadU8 (pre @ [char_of (unat b)] @ rest) (of_nat (length pre))
      = Inr (b, of_nat (length pre + length [char_of (unat b)]))"
    by (simp add: ReadU8_def)
qed

lemma reads_u32: "reads ReadU32LE (u32_bytes v) v"
  unfolding reads_def
proof (intro allI impI)
  fix pre rest assume l: "length (pre @ u32_bytes v @ rest) < 2 ^ 63"
  note b = byte_at_append [OF this]
  have "\<not> (of_nat (length pre) + of_nat 4 > sz (pre @ u32_bytes v @ rest))"
    by (rule in_bounds) (use l in auto)
  moreover have "foldl (\<lambda>x i. x OR push_bit (i * 8) (of_nat (byte_at (pre @ u32_bytes v @ rest) (of_nat (length pre) + of_nat i)))) 0 [0..<4] = v"
    unfolding upt4 using b [of 0] b [of 1] b [of 2] b [of 3] split_bytes_32 [of v]
    by (simp add: u32_bytes_def upt4 or.assoc)
  ultimately show "ReadU32LE (pre @ u32_bytes v @ rest) (of_nat (length pre)) = Inr (v, of_nat (length pre + length (u32_bytes v)))"
    by (simp add: ReadU32LE_def)
qed


lemma reads_u64: "reads ReadU64LE (u64_bytes v) v"
  unfolding reads_def
proof (intro allI impI)
  fix pre rest assume l: "length (pre @ u64_bytes v @ rest) < 2 ^ 63"
  note b = byte_at_append [OF this]
  have "\<not> (of_nat (length pre) + of_nat 8 > sz (pre @ u64_bytes v @ rest))"
    by (rule in_bounds) (use l in auto)
  moreover have "foldl (\<lambda>x i. x OR push_bit (i * 8) (of_nat (byte_at (pre @ u64_bytes v @ rest) (of_nat (length pre) + of_nat i)))) 0 [0..<8] = v"
    unfolding upt8 using b [of 0] b [of 1] b [of 2] b [of 3] b [of 4] b [of 5] b [of 6] b [of 7] split_bytes_64 [of v]
    by (simp add: u64_bytes_def upt8 or.assoc)
  ultimately show "ReadU64LE (pre @ u64_bytes v @ rest) (of_nat (length pre)) = Inr (v, of_nat (length pre + length (u64_bytes v)))"
    by (simp add: ReadU64LE_def)
qed

lemma reads_bind:
  assumes "reads f e1 x" "reads (g x) e2 y"
  shows "reads (\<lambda>b p. bind_result (f b p) (\<lambda>(x, p1). g x b p1)) (e1 @ e2) y"
  unfolding reads_def
proof (intro allI impI)
  fix pre rest assume "length (pre @ (e1 @ e2) @ rest) < 2 ^ 63"
  then have l: "length (pre @ e1 @ e2 @ rest) < 2 ^ 63" "length ((pre @ e1) @ e2 @ rest) < 2 ^ 63" by auto
  have "f (pre @ e1 @ e2 @ rest) (of_nat (length pre)) = Inr (x, of_nat (length (pre @ e1)))"
    using assms(1) l(1) by (simp add: reads_def)
  moreover have "g x ((pre @ e1) @ e2 @ rest) (of_nat (length (pre @ e1))) = Inr (y, of_nat (length (pre @ e1) + length e2))"
    using assms(2) l(2) unfolding reads_def by blast
  ultimately show "bind_result (f (pre @ (e1 @ e2) @ rest) (of_nat (length pre))) (\<lambda>(x, p1). g x (pre @ (e1 @ e2) @ rest) p1)
      = Inr (y, of_nat (length pre + length (e1 @ e2)))"
    by (simp add: add.assoc)
qed

lemma reads_return: "reads (\<lambda>b p. Inr (x, p)) [] x"
  by (simp add: reads_def)

lemma sub_bytes_append [simp]:
  "length pre < 2 ^ 63 \<Longrightarrow> sub_bytes (pre @ s @ rest) (of_nat (length pre)) (length s) = s"
  by (simp add: sub_bytes_def unat_of_nat)

lemma ucast_len: "n < 2 ^ 32 \<Longrightarrow> ucast (of_nat n :: 32 word) = (of_nat n :: 64 word)"
  by (simp add: unsigned_of_nat take_bit_nat_eq_self)

lemma reads_str: "length s < 2 ^ 32 \<Longrightarrow> reads ReadLenPrefixedStr (u32_bytes (of_nat (length s)) @ s) s"
  unfolding ReadLenPrefixedStr_def
proof (rule reads_bind [OF reads_u32], unfold reads_def, intro allI impI)
  fix pre rest assume s: "length s < 2 ^ 32" and l: "length (pre @ s @ rest) < 2 ^ 63"
  have "\<not> (of_nat (length pre) + of_nat (length s) > sz (pre @ s @ rest))"
    by (rule in_bounds) (use l in auto)
  with s l show "(if of_nat (length pre) + ucast (of_nat (length s) :: 32 word) > sz (pre @ s @ rest)
       then Inl (bad (''truncated string (want '' @ nat_to_string (unat (of_nat (length s) :: 32 word)) @ '' bytes, have ''
                  @ nat_to_string (unat (sz (pre @ s @ rest) - of_nat (length pre))) @ '')''))
       else Inr (sub_bytes (pre @ s @ rest) (of_nat (length pre)) (unat (of_nat (length s) :: 32 word)),
                 of_nat (length pre) + ucast (of_nat (length s) :: 32 word)))
      = Inr (s, of_nat (length pre + length s) :: 64 word)"
    unfolding ucast_len [OF s] by (simp add: unat_of_nat)
qed

lemma reads_magic: "length e = 4 \<Longrightarrow> reads (ReadMagic e lab) e ()"
  unfolding reads_def
proof (intro allI impI)
  fix pre rest :: string assume e: "length e = 4" and l: "length (pre @ e @ rest) < 2 ^ 63"
  have "\<not> (of_nat (length pre) + of_nat 4 > sz (pre @ e @ rest))"
    by (rule in_bounds) (use l e in auto)
  moreover have "(pre @ e @ rest) ! unat (of_nat (length pre) + of_nat i :: 64 word) = e ! i" if "i < 4" for i
  proof -
    have "unat (of_nat (length pre) + of_nat i :: 64 word) = length pre + i"
      using unat_small [of "length pre + i"] l e that by simp
    with that e show ?thesis by (simp add: nth_append)
  qed
  then have "\<not> list_ex (\<lambda>i. (pre @ e @ rest) ! unat (of_nat (length pre) + of_nat i :: 64 word) \<noteq> e ! i) [0..<4]"
    by (auto simp: list_ex_iff)
  ultimately show "ReadMagic e lab (pre @ e @ rest) (of_nat (length pre)) = Inr ((), of_nat (length pre + length e))"
    using e by (simp add: ReadMagic_def)
qed

lemma ReadBytesView_append:
  assumes "length (pre @ e @ rest) < 2 ^ 63"
  shows "ReadBytesView (of_nat (length e)) (pre @ e @ rest) (of_nat (length pre))
      = Inr ((of_nat (length pre), of_nat (length e)), of_nat (length pre + length e))"
proof -
  have "\<not> (of_nat (length pre) + of_nat (length e) > sz (pre @ e @ rest))"
    by (rule in_bounds) (use assms in auto)
  then show ?thesis by (simp add: ReadBytesView_def)
qed

lemma reads_copy: "length e < 2 ^ 32 \<Longrightarrow> reads (ReadBytesCopy (ucast (of_nat (length e) :: 32 word))) e e"
  unfolding reads_def
  by (simp add: ReadBytesCopy_def ucast_len ReadBytesView_append unat_of_nat)

lemma reads_rets: "reads (read_ret_types (length bs)) (map (\<lambda>b. char_of (unat b)) bs) bs"
proof (induction bs)
  case (Cons b bs)
  have "reads (\<lambda>buf pos. bind_result (ReadU8 buf pos) (\<lambda>(b, pos1).
     bind_result (read_ret_types (length bs) buf pos1) (\<lambda>(bs, pos2). Inr (b # bs, pos2))))
     ([char_of (unat b)] @ (map (\<lambda>b. char_of (unat b)) bs @ [])) (b # bs)"
    by (intro reads_bind [OF reads_u8] reads_bind [OF Cons.IH] reads_return)
  then show ?case by simp
qed (simp add: reads_return)

definition ext_bytes :: "artifact_extension \<Rightarrow> string" where
  "ext_bytes e = u32_bytes (tag e) @ u32_bytes (of_nat (length (payload e))) @ payload e"

lemma reads_ext:
  assumes "length (payload e) < 2 ^ 32"
  shows "reads ReadExtension (ext_bytes e) e"
proof -
  have "reads ReadExtension (u32_bytes (tag e) @ (u32_bytes (of_nat (length (payload e))) @ (payload e @ []))) \<lparr>tag = tag e, payload = payload e\<rparr>"
    unfolding ReadExtension_def
    by (intro reads_bind [OF reads_u32] reads_bind [OF reads_copy [OF assms]] reads_return)
  then show ?thesis by (cases e) (simp add: ext_bytes_def)
qed

lemma reads_exts:
  "\<forall>e\<in>set es. length (payload e) < 2 ^ 32 \<Longrightarrow> reads (read_extensions (length es)) (concat (map ext_bytes es)) es"
proof (induction es)
  case (Cons e es)
  then have IH: "reads (read_extensions (length es)) (concat (map ext_bytes es)) es" by simp
  have e: "reads ReadExtension (ext_bytes e) e" using Cons.prems by (simp add: reads_ext)
  have "reads (\<lambda>buf pos. bind_result (ReadExtension buf pos) (\<lambda>(e, pos1).
     bind_result (read_extensions (length es) buf pos1) (\<lambda>(es, pos2). Inr (e # es, pos2))))
     (ext_bytes e @ (concat (map ext_bytes es) @ [])) (e # es)"
    by (intro reads_bind [OF e] reads_bind [OF IH] reads_return)
  then show ?case by simp
qed (simp add: reads_def)

section \<open>The round trip\<close>

text \<open>A header whose counts and lengths fit their 32-bit fields.\<close>

definition header_ok :: "artifact_header \<Rightarrow> bool" where
  "header_ok h \<longleftrightarrow> length (llvm_version h) < 2 ^ 32 \<and> length (target_triple h) < 2 ^ 32 \<and> length (cpu_name h) < 2 ^ 32
     \<and> per_entry_ret_types h \<noteq> [] \<and> length (per_entry_ret_types h) < 2 ^ 32
     \<and> (mode h = kSingle \<longrightarrow> length (per_entry_ret_types h) = 1)
     \<and> length (extensions h) < 2 ^ 32 \<and> list_all (\<lambda>e. length (payload e) < 2 ^ 32) (extensions h)"

definition str_bytes :: "string \<Rightarrow> string" where
  "str_bytes s = u32_bytes (of_nat (length s)) @ s"

lemma foldl_AppendU8: "foldl AppendU8 out bs = out @ map (\<lambda>b. char_of (unat b)) bs"
  by (induction bs arbitrary: out) (simp_all add: AppendU8_def)

lemma foldl_AppendExtension: "foldl AppendExtension out es = out @ concat (map ext_bytes es)"
  by (induction es arbitrary: out) (simp_all add: AppendExtension_def ext_bytes_def AppendU32LE_def u32_bytes_def)

lemma SerializeArtifact_bytes:
  assumes "header_ok h"
  shows "SerializeArtifact h obj out = Inr (out @ kArtifactMagic @ u32_bytes kArtifactFormatVersion
     @ str_bytes (llvm_version h) @ str_bytes (target_triple h) @ str_bytes (cpu_name h)
     @ [char_of (unat (mode_byte (mode h)))] @ [char_of (unat (fp_byte (fp_mode h)))]
     @ u32_bytes (of_nat (length (per_entry_ret_types h))) @ map (\<lambda>b. char_of (unat b)) (per_entry_ret_types h)
     @ u64_bytes (of_nat (length obj)) @ obj
     @ u32_bytes (of_nat (length (extensions h))) @ concat (map ext_bytes (extensions h)) @ kArtifactFooterMagic)"
  using assms
  by (simp add: SerializeArtifact_def header_ok_def Let_def foldl_AppendU8 foldl_AppendExtension str_bytes_def
      AppendLenPrefixedStr_def AppendU8_def AppendU32LE_def AppendU64LE_def u32_bytes_def u64_bytes_def unat_of_nat)


lemma DeserializeArtifact_bytes:
  assumes h: "header_ok h" and blob: "SerializeArtifact h obj [] = Inr blob" and len: "length blob < 2 ^ 63"
  shows "\<exists>v. DeserializeArtifact blob = Inr (h, v) \<and> view_bytes blob v = Some obj"
proof -
  define a1 where "a1 = kArtifactMagic"
  define a2 where "a2 = a1 @ u32_bytes kArtifactFormatVersion"
  define a3 where "a3 = a2 @ str_bytes (llvm_version h)"
  define a4 where "a4 = a3 @ str_bytes (target_triple h)"
  define a5 where "a5 = a4 @ str_bytes (cpu_name h)"
  define a6 where "a6 = a5 @ [char_of (unat (mode_byte (mode h)))]"
  define a7 where "a7 = a6 @ [char_of (unat (fp_byte (fp_mode h)))]"
  define n where "n = length (per_entry_ret_types h)"
  define a8 where "a8 = a7 @ u32_bytes (of_nat n)"
  define a9 where "a9 = a8 @ map (\<lambda>b. char_of (unat b)) (per_entry_ret_types h)"
  define a10 where "a10 = a9 @ u64_bytes (of_nat (length obj))"
  define a11 where "a11 = a10 @ obj"
  define k where "k = length (extensions h)"
  define a12 where "a12 = a11 @ u32_bytes (of_nat k)"
  define a13 where "a13 = a12 @ concat (map ext_bytes (extensions h))"
  have b: "blob = a13 @ kArtifactFooterMagic"
    using blob unfolding SerializeArtifact_bytes [OF h]
    by (simp add: a1_def a2_def a3_def a4_def a5_def a6_def a7_def a8_def a9_def a10_def a11_def a12_def a13_def n_def k_def)
  have small: "length (llvm_version h) < 2 ^ 32" "length (target_triple h) < 2 ^ 32" "length (cpu_name h) < 2 ^ 32"
    "n < 2 ^ 32" "n \<noteq> 0" "mode h = kSingle \<longrightarrow> n = 1" "k < 2 ^ 32" "\<forall>e\<in>set (extensions h). length (payload e) < 2 ^ 32"
    using h by (auto simp: header_ok_def n_def k_def list_all_iff)
  note rd = readsD [OF _ _ len]
  have 1: "ReadMagic kArtifactMagic ''header'' blob 0 = Inr ((), of_nat (length a1))"
    using rd [OF reads_magic, of kArtifactMagic "[]"] b
    by (simp add: a13_def a12_def a11_def a10_def a9_def a8_def a7_def a6_def a5_def a4_def a3_def a2_def a1_def kArtifactMagic_def)
  have 2: "ReadU32LE blob (of_nat (length a1)) = Inr (kArtifactFormatVersion, of_nat (length a2))"
    unfolding a2_def by (rule rd [OF reads_u32]) (simp add: b a13_def a12_def a11_def a10_def a9_def a8_def a7_def a6_def a5_def a4_def a3_def a2_def)
  have 3: "ReadLenPrefixedStr blob (of_nat (length a2)) = Inr (llvm_version h, of_nat (length a3))"
    unfolding a3_def str_bytes_def by (rule rd [OF reads_str [OF small(1)]])
      (simp add: b a13_def a12_def a11_def a10_def a9_def a8_def a7_def a6_def a5_def a4_def a3_def str_bytes_def)
  have 4: "ReadLenPrefixedStr blob (of_nat (length a3)) = Inr (target_triple h, of_nat (length a4))"
    unfolding a4_def str_bytes_def by (rule rd [OF reads_str [OF small(2)]])
      (simp add: b a13_def a12_def a11_def a10_def a9_def a8_def a7_def a6_def a5_def a4_def str_bytes_def)
  have 5: "ReadLenPrefixedStr blob (of_nat (length a4)) = Inr (cpu_name h, of_nat (length a5))"
    unfolding a5_def str_bytes_def by (rule rd [OF reads_str [OF small(3)]])
      (simp add: b a13_def a12_def a11_def a10_def a9_def a8_def a7_def a6_def a5_def str_bytes_def)
  have 6: "ReadU8 blob (of_nat (length a5)) = Inr (mode_byte (mode h), of_nat (length a6))"
    unfolding a6_def by (rule rd [OF reads_u8]) (simp add: b a13_def a12_def a11_def a10_def a9_def a8_def a7_def a6_def)
  have 7: "ReadU8 blob (of_nat (length a6)) = Inr (fp_byte (fp_mode h), of_nat (length a7))"
    unfolding a7_def by (rule rd [OF reads_u8]) (simp add: b a13_def a12_def a11_def a10_def a9_def a8_def a7_def)
  have 8: "ReadU32LE blob (of_nat (length a7)) = Inr (of_nat n, of_nat (length a8))"
    unfolding a8_def by (rule rd [OF reads_u32]) (simp add: b a13_def a12_def a11_def a10_def a9_def a8_def)
  have 9: "read_ret_types n blob (of_nat (length a8)) = Inr (per_entry_ret_types h, of_nat (length a9))"
    unfolding a9_def n_def by (rule rd [OF reads_rets]) (simp add: b a13_def a12_def a11_def a10_def a9_def)
  have 10: "ReadU64LE blob (of_nat (length a9)) = Inr (of_nat (length obj), of_nat (length a10))"
    unfolding a10_def by (rule rd [OF reads_u64]) (simp add: b a13_def a12_def a11_def a10_def)
  have bo: "blob = a10 @ obj @ u32_bytes (of_nat k) @ concat (map ext_bytes (extensions h)) @ kArtifactFooterMagic"
    by (simp add: b a13_def a12_def a11_def)
  have 11: "ReadBytesView (of_nat (length obj)) blob (of_nat (length a10))
      = Inr ((of_nat (length a10), of_nat (length obj)), of_nat (length a11))"
    using ReadBytesView_append [of a10 obj] len bo by (simp add: a11_def)
  have 12: "ReadU32LE blob (of_nat (length a11)) = Inr (of_nat k, of_nat (length a12))"
    unfolding a12_def by (rule rd [OF reads_u32]) (simp add: b a13_def a12_def)
  have 13: "read_extensions k blob (of_nat (length a12)) = Inr (extensions h, of_nat (length a13))"
    unfolding a13_def k_def by (rule rd [OF reads_exts [OF small(8)]]) (simp add: b a13_def)
  have 14: "ReadMagic kArtifactFooterMagic ''footer'' blob (of_nat (length a13)) = Inr ((), of_nat (length blob))"
    using rd [OF reads_magic, of kArtifactFooterMagic a13 "[]"] b by (simp add: kArtifactFooterMagic_def)
  have u: "unat (of_nat n :: 32 word) = n" "unat (of_nat k :: 32 word) = k" "of_nat n \<noteq> (0 :: 32 word)"
    "mode h = kSingle \<longrightarrow> of_nat n = (1 :: 32 word)"
    using small(4-7) by (auto simp: unat_of_nat of_nat_eq_0_iff word_of_nat_eq_0_iff dest: nat_dvd_not_less)
  have m: "decode_mode (mode_byte (mode h)) = Inr (mode h)" "decode_fp (fp_byte (fp_mode h)) = Inr (fp_mode h)"
    by (cases "mode h"; simp add: decode_mode_def mode_byte_def) (cases "fp_mode h"; simp add: decode_fp_def fp_byte_def)
  have "DeserializeArtifact blob = Inr (h, (of_nat (length a10), of_nat (length obj)))"
    unfolding DeserializeArtifact_def using 1 2 3 4 5 6 7 8 9 10 11 12 13 14 u m by (simp add: sz_def)
  moreover have "view_bytes blob (of_nat (length a10), of_nat (length obj)) = Some obj"
    using len bo by (simp add: view_bytes_def unat_of_nat)
  ultimately show ?thesis by blast
qed


section \<open>Bounds of the object view\<close>

lemma ReadBytesView_bounds:
  assumes "ReadBytesView n buf pos = Inr (v, pos1)" "pos \<le> sz buf" "length buf < 2 ^ 63" "unat n < 2 ^ 63"
  shows "view_bytes buf v \<noteq> None"
proof -
  from assms(1) have v: "v = (pos, n)" "pos + n \<le> sz buf" by (auto simp: ReadBytesView_def split: if_splits)
  have "unat (sz buf) = length buf" unfolding sz_def using assms(3) by (rule unat_small)
  moreover from this have "unat (pos + n) = unat pos + unat n"
    using assms(2-4) unat_add_lem [of pos n] by (simp add: word_le_nat_alt)
  ultimately show ?thesis using v by (simp add: view_bytes_def word_le_nat_alt)
qed

lemma ReadU64LE_pos: "ReadU64LE buf pos = Inr (v, pos1) \<Longrightarrow> pos1 \<le> sz buf"
  by (auto simp: ReadU64LE_def split: if_splits)

lemma DeserializeArtifact_view:
  assumes "DeserializeArtifact blob = Inr (h, v)" "length blob < 2 ^ 63" "unat (snd v) < 2 ^ 63"
  shows "view_bytes blob v \<noteq> None"
proof -
  from assms(1) obtain p n p1 q where "ReadU64LE blob p = Inr (n, p1)" "ReadBytesView n blob p1 = Inr (v, q)"
    unfolding DeserializeArtifact_def by (auto split: if_splits)
  moreover from this(2) have "snd v = n" by (auto simp: ReadBytesView_def split: if_splits)
  ultimately show ?thesis using assms(2,3) ReadBytesView_bounds ReadU64LE_pos by blast
qed

text \<open>A blob whose object size makes the cursor wrap: the reader goes back into the CPU name, which
  holds an extension record that ends right before the footer.\<close>

definition wrapping_blob :: string where
  "wrapping_blob = kArtifactMagic @ u32_bytes 2 @ u32_bytes 0 @ u32_bytes 0
     @ u32_bytes 12 @ (u32_bytes 1 @ u32_bytes 0 @ u32_bytes 15)
     @ map char_of [0, 0 :: nat] @ u32_bytes 1 @ map char_of [2 :: nat] @ u64_bytes (- 27) @ kArtifactFooterMagic"

definition accepted_view :: "string \<Rightarrow> view option" where
  "accepted_view blob = (case DeserializeArtifact blob of Inl _ \<Rightarrow> None | Inr x \<Rightarrow> Some (snd x))"

lemma wrapping_blob_accepted: "accepted_view wrapping_blob = Some (47, - 27)"
  by code_simp

lemma wrapping_blob_length: "length wrapping_blob = 51"
  by code_simp

end
