(* ===== verification/Engine.thy ===== *)
theory Engine
  imports CodeGenCorrect Arena Artifact
begin

text \<open>
  Model of src/jit_core.cc, src/exec_engine.cc, src/batch_exec_engine.cc, src/execute_dispatch.h and
  include/exec_options.h. What LLVM does is a record of functions: verification of a module,
  creation of a JIT, adding a module or an object, defining symbols, looking a symbol up, the object
  code of a module, the identity of the host, and the call of compiled code. A call through a null
  pointer has no result (\<open>None\<close>).
\<close>

section \<open>Execution contexts\<close>

record exec_ctx =
  ctx_arena :: arena_heap
  errors :: "string list"

definition Clear :: "exec_ctx \<Rightarrow> exec_ctx" where
  "Clear c = c\<lparr>ctx_arena := snd (snd (Reset (ctx_arena c))), errors := []\<rparr>"

definition HasErrors :: "exec_ctx \<Rightarrow> bool" where
  "HasErrors c \<longleftrightarrow> errors c \<noteq> []"

fun join_with :: "string \<Rightarrow> string \<Rightarrow> bool \<Rightarrow> string list \<Rightarrow> string" where
  "join_with sep acc is_first [] = acc"
| "join_with sep acc is_first (m # ms) = join_with sep (acc @ (if is_first then [] else sep) @ m) False ms"

definition GetErrorMessage :: "exec_ctx \<Rightarrow> string" where
  "GetErrorMessage c = join_with ''; '' [] True (errors c)"

definition AddError :: "string \<Rightarrow> exec_ctx \<Rightarrow> exec_ctx" where
  "AddError msg c = c\<lparr>errors := errors c @ [msg]\<rparr>"

definition NewContext :: "64 word \<Rightarrow> exec_ctx" where
  "NewContext min_chunk = \<lparr>ctx_arena = (ArenaInit min_chunk, []), errors = []\<rparr>"

section \<open>LLVM\<close>

record ll_module =
  mod_functions :: "(string \<times> basic_block list) list"
  mod_globals :: "global_var list"
  mod_callees :: "(string \<times> ll_type) list"
  mod_attrs :: "(string \<times> attr_setter) list"

datatype image = NoJit | EmptyJit | ModuleJit ll_module | ObjectJit string

record llvm =
  create_jit :: "string option"
  verify_module :: "ll_module \<Rightarrow> string option"
  add_image :: "image \<Rightarrow> string option"
  define_symbols :: "(string \<times> u64) list \<Rightarrow> string option"
  lookup_symbol :: "image \<Rightarrow> (string \<times> u64) list \<Rightarrow> string \<Rightarrow> string + u64"
  object_code :: "ll_module \<Rightarrow> string"
  ir_text :: "ll_module \<Rightarrow> string"
  host_llvm_version :: string
  host_triple :: string
  host_cpu :: string

record engine_option =
  arena_min_chunk :: "64 word"
  dump_ir :: bool
  opt_fp_math_mode :: fp_math_mode
  enable_save_compiled :: bool

record jit_core =
  core_option :: engine_option
  jit :: image
  ir_code :: string
  compiled_object_bytes :: string

definition NewJitCore :: "engine_option \<Rightarrow> jit_core" where
  "NewJitCore opt = \<lparr>core_option = opt, jit = NoJit, ir_code = [], compiled_object_bytes = []\<rparr>"

definition ResetCore :: "jit_core \<Rightarrow> jit_core" where
  "ResetCore core = core\<lparr>jit := NoJit, ir_code := [], compiled_object_bytes := []\<rparr>"

definition CreateJit :: "llvm \<Rightarrow> jit_core \<Rightarrow> status + jit_core" where
  "CreateJit ll core =
     (case create_jit ll of Some e \<Rightarrow> Inl (RuntimeError e) | None \<Rightarrow> Inr (core\<lparr>jit := EmptyJit\<rparr>))"

section \<open>BuildAndLink\<close>

definition kEntryFunctionName :: string where "kEntryFunctionName = ''entry''"

text \<open>One validator, so one scope stack, for all roots.\<close>

fun validate_all :: "registry \<Rightarrow> exec_node list \<Rightarrow> type_stack \<Rightarrow> status + exec_node list" where
  "validate_all reg [] ts = Inr []"
| "validate_all reg (n # ns) ts =
     bind_result (Validate reg n ts) (\<lambda>(n', ts1).
     bind_result (validate_all reg ns ts1) (\<lambda>ns'. Inr (n' # ns')))"

text \<open>The loop over the roots, with the return types set so far.\<close>

fun build_entries :: "cg_env \<Rightarrow> (exec_node \<times> string) list \<Rightarrow> nat \<Rightarrow> ll_module \<Rightarrow> value_type list
     \<Rightarrow> (cg_error + ll_module) \<times> value_type list" where
  "build_entries env [] i m types = (Inr m, types)"
| "build_entries env ((n, nm) # rest) i m types =
     (let t = GetReturnType n; types1 = types[i := t] in
      case BuildEntryFunction env (mod_globals m) (mod_callees m) t n of
        Inl e \<Rightarrow> (Inl e, types1)
      | Inr s \<Rightarrow> build_entries env rest (i + 1)
          (m\<lparr>mod_functions := mod_functions m @ [(nm, blocks s)], mod_globals := globals s, mod_callees := callees s\<rparr>)
          types1)"

text \<open>std::vector::resize; new elements are value-initialised.\<close>

definition resize :: "nat \<Rightarrow> 'a \<Rightarrow> 'a list \<Rightarrow> 'a list" where
  "resize n d xs = take n xs @ replicate (n - length xs) d"

text \<open>The loop over the symbol names: the message of a failure takes the name and LLVM's error.\<close>

fun lookup_all :: "(string \<Rightarrow> string + u64) \<Rightarrow> (string \<Rightarrow> string \<Rightarrow> string) \<Rightarrow> string list \<Rightarrow> nat \<Rightarrow> u64 list
     \<Rightarrow> status option \<times> u64 list" where
  "lookup_all look msg [] i ptrs = (None, ptrs)"
| "lookup_all look msg (nm # nms) i ptrs =
     (case look nm of
        Inl e \<Rightarrow> (Some (RuntimeError (msg nm e)), ptrs)
      | Inr p \<Rightarrow> lookup_all look msg nms (i + 1) (ptrs[i := p]))"

definition empty_module :: ll_module where
  "empty_module = \<lparr>mod_functions = [], mod_globals = [], mod_callees = [], mod_attrs = []\<rparr>"

text \<open>From the finished module to the function pointers.\<close>

definition LinkModule :: "llvm \<Rightarrow> registry \<Rightarrow> ll_module \<Rightarrow> string list \<Rightarrow> jit_core \<Rightarrow> u64 list
     \<Rightarrow> cg_error option \<times> jit_core \<times> u64 list" where
  "LinkModule ll reg m0 names core ptrs =
     (let m = m0\<lparr>mod_attrs := SetCFuncAttr reg (\<lambda>s. map_of (mod_callees m0) s \<noteq> None)\<rparr>;
          fail = (\<lambda>msg c. (Some (CgStatus (RuntimeError msg)), c, ptrs)) in
      case verify_module ll m of
        Some info \<Rightarrow> fail (''Module verification failed: '' @ info) core
      | None \<Rightarrow>
      (case CreateJit ll core of
         Inl st \<Rightarrow> (Some (CgStatus st), core, ptrs)
       | Inr core1 \<Rightarrow>
      (case add_image ll (ModuleJit m) of
         Some e \<Rightarrow> fail (''Failed to add module to JIT: '' @ e) core1
       | None \<Rightarrow>
      let core2 = core1\<lparr>jit := ModuleJit m\<rparr>; symbols = MappingToJIT reg in
      (case define_symbols ll symbols of
         Some e \<Rightarrow> fail (''Failed to define symbol in JIT: '' @ e) core2
       | None \<Rightarrow>
      (case lookup_all (lookup_symbol ll (ModuleJit m) symbols)
              (\<lambda>nm e. ''Failed to lookup function: '' @ nm @ '', error: '' @ e) names 0 (resize (length names) 0 ptrs) of
         (err, ptrs1) \<Rightarrow>
           (map_option CgStatus err,
            core2\<lparr>compiled_object_bytes := (if enable_save_compiled (core_option core) then object_code ll m else []),
                  ir_code := (if dump_ir (core_option core) then ir_text ll m else [])\<rparr>, ptrs1))))))"

definition BuildAndLink :: "llvm \<Rightarrow> cg_env \<Rightarrow> exec_node list \<Rightarrow> string list \<Rightarrow> jit_core \<Rightarrow> u64 list \<Rightarrow> value_type list
     \<Rightarrow> cg_error option \<times> jit_core \<times> u64 list \<times> value_type list" where
  "BuildAndLink ll env nodes names core ptrs types =
     (if nodes = [] then (Some (CgStatus (ParseError ''BuildAndLink: nodes is empty'')), core, ptrs, types)
      else if length nodes \<noteq> length names
      then (Some (internal_error ''BuildAndLink: nodes.size() != symbol_names.size() (compiler bug)''), core, ptrs, types)
      else case validate_all (function_registry env) nodes ScopeStackInit of
        Inl st \<Rightarrow> (Some (CgStatus st), core, ptrs, types)
      | Inr nodes' \<Rightarrow>
          (let core1 = ResetCore core in
           case build_entries env (zip nodes' names) 0 empty_module (resize (length nodes) kUnknown types) of
             (Inl e, types1) \<Rightarrow> (Some e, core1, ptrs, types1)
           | (Inr m, types1) \<Rightarrow>
               (case LinkModule ll (function_registry env) m names core1 ptrs of
                  (err, core2, ptrs1) \<Rightarrow> (err, core2, ptrs1, types1))))"

definition LoadObject :: "llvm \<Rightarrow> registry \<Rightarrow> string \<Rightarrow> string list \<Rightarrow> jit_core \<Rightarrow> u64 list
     \<Rightarrow> status option \<times> jit_core \<times> u64 list" where
  "LoadObject ll reg object_bytes names core ptrs =
     (case CreateJit ll (ResetCore core) of
        Inl st \<Rightarrow> (Some st, ResetCore core, ptrs)
      | Inr core1 \<Rightarrow>
          (case add_image ll (ObjectJit object_bytes) of
             Some e \<Rightarrow> (Some (RuntimeError (''LoadCompiled: addObjectFile failed: '' @ e)), core1, ptrs)
           | None \<Rightarrow>
               (let core2 = core1\<lparr>jit := ObjectJit object_bytes\<rparr>; symbols = MappingToJIT reg in
                case define_symbols ll symbols of
                  Some e \<Rightarrow> (Some (RuntimeError (''Failed to define symbol in JIT: '' @ e)), core2, ptrs)
                | None \<Rightarrow>
                    (case lookup_all (lookup_symbol ll (ObjectJit object_bytes) symbols)
                            (\<lambda>nm e. ''LoadCompiled: entry symbol '' @ quoted nm @ '' not found: '' @ e
                               @ ''. The FunctionRegistry is probably missing a function the artifact depends on.'')
                            names 0 (resize (length names) 0 ptrs) of
                       (err, ptrs1) \<Rightarrow> (err, core2, ptrs1)))))"

end
