(* ===== verification/Execution.thy ===== *)
theory Execution
  imports Engine
begin

text \<open>
  Model of src/execute_dispatch.h, src/exec_engine.cc and src/batch_exec_engine.cc: compiling,
  executing, saving and loading. Compiled code is a parameter: calling a pointer gives the value
  left in the return register (for a string or a list the data pointer and the length of the
  struct), the memory after the call and the changed context. A call through a null pointer, the
  index of a vector outside of it and a view outside its blob have no result (\<open>None\<close>).
\<close>

section \<open>The value of a call\<close>

type_synonym memory = "addr \<Rightarrow> 8 word"

record machine =
  run_entry :: "u64 \<Rightarrow> addr \<Rightarrow> exec_ctx \<Rightarrow> (u64 \<times> u32) \<times> memory \<times> exec_ctx"

datatype ret_value = RetConst const_value | RetList const_list

definition ret_default :: ret_value where
  "ret_default = RetConst (CU8 0)"

text \<open>A little-endian load of \<open>k\<close> bytes.\<close>

fun load_bytes :: "memory \<Rightarrow> nat \<Rightarrow> addr \<Rightarrow> u64" where
  "load_bytes mem 0 p = 0"
| "load_bytes mem (Suc k) p = ucast (mem p) + 256 * load_bytes mem k (p + 1)"

text \<open>\<open>std::vector<T>(data, data + len)\<close> for elements of \<open>k\<close> bytes.\<close>

definition load_list :: "memory \<Rightarrow> nat \<Rightarrow> addr \<Rightarrow> u32 \<Rightarrow> u64 list" where
  "load_list mem k p n = map (\<lambda>i. load_bytes mem k (p + of_nat (i * k))) [0..<unat n]"

definition load_string :: "memory \<Rightarrow> addr \<Rightarrow> u32 \<Rightarrow> string" where
  "load_string mem p n = map (\<lambda>i. char_of (unat (mem (p + of_nat i)))) [0..<unat n]"

text \<open>The elements of a string list are structs of 16 bytes: a pointer and a 32-bit length.\<close>

definition load_strings :: "memory \<Rightarrow> addr \<Rightarrow> u32 \<Rightarrow> string list" where
  "load_strings mem p n = map (\<lambda>i. load_string mem (load_bytes mem 8 (p + of_nat (i * 16)))
       (ucast (load_bytes mem 4 (p + of_nat (i * 16) + 8)))) [0..<unat n]"

text \<open>The arms of the switch after the call; void and the two types of the default have none.\<close>

definition box_result :: "value_type \<Rightarrow> u64 \<Rightarrow> u32 \<Rightarrow> memory \<Rightarrow> ret_value option" where
  "box_result t x n mem = (case t of
     kVoid \<Rightarrow> None | kUnknown \<Rightarrow> None | kPtr \<Rightarrow> None
   | kU8 \<Rightarrow> Some (RetConst (CU8 (ucast x))) | kI8 \<Rightarrow> Some (RetConst (CI8 (ucast x)))
   | kU16 \<Rightarrow> Some (RetConst (CU16 (ucast x))) | kI16 \<Rightarrow> Some (RetConst (CI16 (ucast x)))
   | kU32 \<Rightarrow> Some (RetConst (CU32 (ucast x))) | kI32 \<Rightarrow> Some (RetConst (CI32 (ucast x)))
   | kU64 \<Rightarrow> Some (RetConst (CU64 x)) | kI64 \<Rightarrow> Some (RetConst (CI64 x))
   | kF32 \<Rightarrow> Some (RetConst (CF32 (ucast x))) | kF64 \<Rightarrow> Some (RetConst (CF64 x))
   | kString \<Rightarrow> Some (RetConst (CString (load_string mem x n)))
   | kU8List \<Rightarrow> Some (RetList (LU8 (map ucast (load_list mem 1 x n))))
   | kU16List \<Rightarrow> Some (RetList (LU16 (map ucast (load_list mem 2 x n))))
   | kU32List \<Rightarrow> Some (RetList (LU32 (map ucast (load_list mem 4 x n))))
   | kU64List \<Rightarrow> Some (RetList (LU64 (load_list mem 8 x n)))
   | kI8List \<Rightarrow> Some (RetList (LI8 (map ucast (load_list mem 1 x n))))
   | kI16List \<Rightarrow> Some (RetList (LI16 (map ucast (load_list mem 2 x n))))
   | kI32List \<Rightarrow> Some (RetList (LI32 (map ucast (load_list mem 4 x n))))
   | kI64List \<Rightarrow> Some (RetList (LI64 (load_list mem 8 x n)))
   | kF32List \<Rightarrow> Some (RetList (LF32 (map ucast (load_list mem 4 x n))))
   | kF64List \<Rightarrow> Some (RetList (LF64 (load_list mem 8 x n)))
   | kStringList \<Rightarrow> Some (RetList (LString (load_strings mem x n))))"

text \<open>JF_EXPAND_SWITCH_TYPE: the status of the early return, if any, the result slot, the context.\<close>

definition dispatch :: "machine \<Rightarrow> u64 \<Rightarrow> value_type \<Rightarrow> ret_value \<Rightarrow> exec_ctx
     \<Rightarrow> (status option \<times> ret_value \<times> exec_ctx) option" where
  "dispatch mach func_ptr t result ctx =
     (if t = kUnknown \<or> t = kPtr then Some (Some (RuntimeError ''Unsupported return type''), result, ctx)
      else if func_ptr = 0 then None
      else case run_entry mach func_ptr 0 ctx of ((x, n), mem, ctx') \<Rightarrow>
        Some (None, (case box_result t x n mem of None \<Rightarrow> result | Some v \<Rightarrow> v), ctx'))"

text \<open>\<open>return_void_function_type\<close> called with the result pointer of the \<open>void*\<close> overloads.\<close>

definition call_void :: "machine \<Rightarrow> u64 \<Rightarrow> addr \<Rightarrow> exec_ctx \<Rightarrow> exec_ctx option" where
  "call_void mach func_ptr result ctx =
     (if func_ptr = 0 then None else Some (snd (snd (run_entry mach func_ptr result ctx))))"

definition ctx_status :: "exec_ctx \<Rightarrow> status" where
  "ctx_status ctx = (if HasErrors ctx then RuntimeError (GetErrorMessage ctx) else OK)"

section \<open>ExecEngine\<close>

record exec_engine =
  core :: jit_core
  entry_func_ptr :: u64
  engine_ret_type :: value_type

definition NewEngine :: "engine_option \<Rightarrow> exec_engine" where
  "NewEngine opt = \<lparr>core = NewJitCore opt, entry_func_ptr = 0, engine_ret_type = kUnknown\<rparr>"

definition Compile :: "llvm \<Rightarrow> cg_env \<Rightarrow> exec_node \<Rightarrow> exec_engine \<Rightarrow> cg_error option \<times> exec_engine" where
  "Compile ll env node eng =
     (case BuildAndLink ll env [node] [kEntryFunctionName] (core eng) [] [] of
        (Some e, core1, ptrs, types) \<Rightarrow> (Some e, \<lparr>core = core1, entry_func_ptr = 0, engine_ret_type = kUnknown\<rparr>)
      | (None, core1, ptrs, types) \<Rightarrow> (None, \<lparr>core = core1, entry_func_ptr = ptrs ! 0, engine_ret_type = types ! 0\<rparr>))"

definition min_chunk :: "jit_core \<Rightarrow> 64 word" where
  "min_chunk c = arena_min_chunk (core_option c)"

definition Execute :: "machine \<Rightarrow> exec_engine \<Rightarrow> ret_value \<Rightarrow> (status \<times> ret_value) option" where
  "Execute mach eng result =
     (case dispatch mach (entry_func_ptr eng) (engine_ret_type eng) result (NewContext (min_chunk (core eng))) of
        None \<Rightarrow> None
      | Some (Some st, r, ctx) \<Rightarrow> Some (st, r)
      | Some (None, r, ctx) \<Rightarrow> Some (ctx_status ctx, r))"

definition ExecuteCtx :: "machine \<Rightarrow> exec_engine \<Rightarrow> exec_ctx \<Rightarrow> ret_value \<Rightarrow> (status \<times> ret_value \<times> exec_ctx) option" where
  "ExecuteCtx mach eng ctx0 result =
     (case dispatch mach (entry_func_ptr eng) (engine_ret_type eng) result ctx0 of
        None \<Rightarrow> None
      | Some (Some st, r, ctx) \<Rightarrow> Some (st, r, ctx)
      | Some (None, r, ctx) \<Rightarrow> Some (ctx_status ctx, r, Clear ctx))"

definition ExecuteVoid :: "machine \<Rightarrow> exec_engine \<Rightarrow> addr \<Rightarrow> status option" where
  "ExecuteVoid mach eng result =
     map_option ctx_status (call_void mach (entry_func_ptr eng) result (NewContext (min_chunk (core eng))))"

definition ExecuteVoidCtx :: "machine \<Rightarrow> exec_engine \<Rightarrow> exec_ctx \<Rightarrow> addr \<Rightarrow> (status \<times> exec_ctx) option" where
  "ExecuteVoidCtx mach eng ctx0 result =
     map_option (\<lambda>ctx. (ctx_status ctx, Clear ctx)) (call_void mach (entry_func_ptr eng) result ctx0)"

section \<open>BatchExecEngine\<close>

record batch_engine =
  bcore :: jit_core
  entry_func_ptrs :: "u64 list"
  ret_types :: "value_type list"

definition NewBatch :: "engine_option \<Rightarrow> batch_engine" where
  "NewBatch opt = \<lparr>bcore = NewJitCore opt, entry_func_ptrs = [], ret_types = []\<rparr>"

definition entry_name :: "nat \<Rightarrow> string" where
  "entry_name i = kEntryFunctionName @ nat_to_string i"

text \<open>The engine's own vectors are handed to BuildAndLink.\<close>

definition BatchCompile :: "llvm \<Rightarrow> cg_env \<Rightarrow> exec_node list \<Rightarrow> batch_engine \<Rightarrow> cg_error option \<times> batch_engine" where
  "BatchCompile ll env nodes eng =
     (if nodes = [] then (Some (CgStatus (ParseError ''Compile: exec_nodes is empty'')), eng)
      else case BuildAndLink ll env nodes (map entry_name [0..<length nodes]) (bcore eng) [] [] of
        (err, core1, ptrs, types) \<Rightarrow> (err, \<lparr>bcore = core1, entry_func_ptrs = ptrs, ret_types = types\<rparr>))"

definition out_of_range :: status where
  "out_of_range = RuntimeError ''ExecuteAt: index out of range''"

definition ExecuteAt :: "machine \<Rightarrow> batch_engine \<Rightarrow> nat \<Rightarrow> ret_value \<Rightarrow> (status \<times> ret_value) option" where
  "ExecuteAt mach eng index result =
     (if length (entry_func_ptrs eng) \<le> index then Some (out_of_range, result)
      else if length (ret_types eng) \<le> index then None
      else case dispatch mach (entry_func_ptrs eng ! index) (ret_types eng ! index) result
                  (NewContext (min_chunk (bcore eng))) of
        None \<Rightarrow> None
      | Some (Some st, r, ctx) \<Rightarrow> Some (st, r)
      | Some (None, r, ctx) \<Rightarrow> Some (ctx_status ctx, r))"

definition ExecuteAtCtx :: "machine \<Rightarrow> batch_engine \<Rightarrow> nat \<Rightarrow> exec_ctx \<Rightarrow> ret_value
     \<Rightarrow> (status \<times> ret_value \<times> exec_ctx) option" where
  "ExecuteAtCtx mach eng index ctx0 result =
     (if length (entry_func_ptrs eng) \<le> index then Some (out_of_range, result, ctx0)
      else if length (ret_types eng) \<le> index then None
      else case dispatch mach (entry_func_ptrs eng ! index) (ret_types eng ! index) result ctx0 of
        None \<Rightarrow> None
      | Some (Some st, r, ctx) \<Rightarrow> Some (st, r, ctx)
      | Some (None, r, ctx) \<Rightarrow> Some (ctx_status ctx, r, Clear ctx))"

definition ExecuteAtVoid :: "machine \<Rightarrow> batch_engine \<Rightarrow> nat \<Rightarrow> addr \<Rightarrow> status option" where
  "ExecuteAtVoid mach eng index result =
     (if length (entry_func_ptrs eng) \<le> index then Some out_of_range
      else map_option ctx_status
        (call_void mach (entry_func_ptrs eng ! index) result (NewContext (min_chunk (bcore eng)))))"

definition ExecuteAtVoidCtx :: "machine \<Rightarrow> batch_engine \<Rightarrow> nat \<Rightarrow> exec_ctx \<Rightarrow> addr \<Rightarrow> (status \<times> exec_ctx) option" where
  "ExecuteAtVoidCtx mach eng index ctx0 result =
     (if length (entry_func_ptrs eng) \<le> index then Some (out_of_range, ctx0)
      else map_option (\<lambda>ctx. (ctx_status ctx, Clear ctx))
        (call_void mach (entry_func_ptrs eng ! index) result ctx0))"

text \<open>The errors collected by the loops of ExecuteAll.\<close>

definition collect_error :: "status \<Rightarrow> string \<Rightarrow> string" where
  "collect_error st all_errors =
     (if ok st then all_errors
      else (if all_errors \<noteq> [] then all_errors @ ''| '' else all_errors) @ status_ToString st)"

definition all_status :: "string \<Rightarrow> status" where
  "all_status all_errors = (if all_errors \<noteq> [] then RuntimeError all_errors else OK)"

fun execute_loop :: "machine \<Rightarrow> batch_engine \<Rightarrow> nat list \<Rightarrow> ret_value list \<Rightarrow> string \<Rightarrow> (status \<times> ret_value list) option" where
  "execute_loop mach eng [] results all_errors = Some (all_status all_errors, results)"
| "execute_loop mach eng (i # is) results all_errors =
     (case ExecuteAt mach eng i (results ! i) of
        None \<Rightarrow> None
      | Some (st, r) \<Rightarrow> execute_loop mach eng is (results[i := r]) (collect_error st all_errors))"

definition ExecuteAll :: "machine \<Rightarrow> batch_engine \<Rightarrow> ret_value list \<Rightarrow> (status \<times> ret_value list) option" where
  "ExecuteAll mach eng results =
     (let n = length (entry_func_ptrs eng) in execute_loop mach eng [0..<n] (resize n ret_default results) [])"

fun execute_loop_ctx :: "machine \<Rightarrow> batch_engine \<Rightarrow> nat list \<Rightarrow> exec_ctx \<Rightarrow> ret_value list \<Rightarrow> string
     \<Rightarrow> (status \<times> ret_value list \<times> exec_ctx) option" where
  "execute_loop_ctx mach eng [] ctx results all_errors = Some (all_status all_errors, results, ctx)"
| "execute_loop_ctx mach eng (i # is) ctx results all_errors =
     (case ExecuteAtCtx mach eng i ctx (results ! i) of
        None \<Rightarrow> None
      | Some (st, r, ctx') \<Rightarrow> execute_loop_ctx mach eng is ctx' (results[i := r]) (collect_error st all_errors))"

definition ExecuteAllCtx :: "machine \<Rightarrow> batch_engine \<Rightarrow> exec_ctx \<Rightarrow> ret_value list
     \<Rightarrow> (status \<times> ret_value list \<times> exec_ctx) option" where
  "ExecuteAllCtx mach eng ctx results =
     (let n = length (entry_func_ptrs eng) in execute_loop_ctx mach eng [0..<n] ctx (resize n ret_default results) [])"

fun execute_loop_void :: "machine \<Rightarrow> batch_engine \<Rightarrow> nat list \<Rightarrow> addr \<Rightarrow> string \<Rightarrow> status option" where
  "execute_loop_void mach eng [] result all_errors = Some (all_status all_errors)"
| "execute_loop_void mach eng (i # is) result all_errors =
     (case ExecuteAtVoid mach eng i result of
        None \<Rightarrow> None
      | Some st \<Rightarrow> execute_loop_void mach eng is result (collect_error st all_errors))"

definition ExecuteAllVoid :: "machine \<Rightarrow> batch_engine \<Rightarrow> addr \<Rightarrow> status option" where
  "ExecuteAllVoid mach eng result = execute_loop_void mach eng [0..<length (entry_func_ptrs eng)] result []"

fun execute_loop_void_ctx :: "machine \<Rightarrow> batch_engine \<Rightarrow> nat list \<Rightarrow> exec_ctx \<Rightarrow> addr \<Rightarrow> string
     \<Rightarrow> (status \<times> exec_ctx) option" where
  "execute_loop_void_ctx mach eng [] ctx result all_errors = Some (all_status all_errors, ctx)"
| "execute_loop_void_ctx mach eng (i # is) ctx result all_errors =
     (case ExecuteAtVoidCtx mach eng i ctx result of
        None \<Rightarrow> None
      | Some (st, ctx') \<Rightarrow> execute_loop_void_ctx mach eng is ctx' result (collect_error st all_errors))"

definition ExecuteAllVoidCtx :: "machine \<Rightarrow> batch_engine \<Rightarrow> exec_ctx \<Rightarrow> addr \<Rightarrow> (status \<times> exec_ctx) option" where
  "ExecuteAllVoidCtx mach eng ctx result =
     execute_loop_void_ctx mach eng [0..<length (entry_func_ptrs eng)] ctx result []"

section \<open>Saving and loading\<close>

definition no_object_bytes :: status where
  "no_object_bytes = RuntimeError (''SaveCompiled: no object bytes captured. Set ''
     @ ''ExecEngineOption::enable_save_compiled=true BEFORE calling Compile(), ''
     @ ''then re-compile. (Artifacts loaded via LoadCompiled also cannot be ''
     @ ''re-saved '' @ em_dash @ '' the loaded bytes are intentionally not retained.)'')"

definition nothing_compiled :: status where
  "nothing_compiled = RuntimeError ''SaveCompiled: nothing compiled yet. Call Compile() first.''"

definition type_byte :: "value_type \<Rightarrow> 8 word" where
  "type_byte t = of_nat (value_type_code t)"

text \<open>The enumerator of a byte; a byte that is not one takes the default branch of every switch, as
  \<open>kUnknown\<close> does.\<close>

definition type_of_byte :: "8 word \<Rightarrow> value_type" where
  "type_of_byte b =
     (case find (\<lambda>t. type_byte t = b) [kVoid, kU8, kU16, kU32, kU64, kI8, kI16, kI32, kI64, kF32, kF64, kString,
        kU8List, kU16List, kU32List, kU64List, kI8List, kI16List, kI32List, kI64List, kF32List, kF64List,
        kStringList, kPtr] of
        None \<Rightarrow> kUnknown | Some t \<Rightarrow> t)"

definition host_header :: "llvm \<Rightarrow> jit_core \<Rightarrow> artifact_mode \<Rightarrow> value_type list \<Rightarrow> artifact_header" where
  "host_header ll c md types =
     \<lparr>llvm_version = host_llvm_version ll, target_triple = host_triple ll, cpu_name = host_cpu ll, mode = md,
      fp_mode = opt_fp_math_mode (core_option c), per_entry_ret_types = map type_byte types, extensions = []\<rparr>"

definition SaveCompiled :: "llvm \<Rightarrow> exec_engine \<Rightarrow> string \<Rightarrow> status + string" where
  "SaveCompiled ll eng out =
     (if entry_func_ptr eng = 0 then Inl nothing_compiled
      else let obj = compiled_object_bytes (core eng) in
        if obj = [] then Inl no_object_bytes
        else SerializeArtifact (host_header ll (core eng) kSingle [engine_ret_type eng]) obj out)"

definition BatchSave :: "llvm \<Rightarrow> batch_engine \<Rightarrow> string \<Rightarrow> status + string" where
  "BatchSave ll eng out =
     (if entry_func_ptrs eng = [] then Inl nothing_compiled
      else let obj = compiled_object_bytes (bcore eng) in
        if obj = [] then Inl no_object_bytes
        else SerializeArtifact (host_header ll (bcore eng) kBatch (ret_types eng)) obj out)"

definition load_core :: "jit_core \<Rightarrow> artifact_header \<Rightarrow> jit_core" where
  "load_core c h = NewJitCore ((core_option c)\<lparr>opt_fp_math_mode := fp_mode h\<rparr>)"

definition LoadCompiled :: "llvm \<Rightarrow> registry \<Rightarrow> load_options \<Rightarrow> string \<Rightarrow> exec_engine
     \<Rightarrow> (status option \<times> exec_engine) option" where
  "LoadCompiled ll reg opts bytes eng =
     (case DeserializeArtifact bytes of
        Inl st \<Rightarrow> Some (Some st, eng)
      | Inr (header, obj_view) \<Rightarrow>
          let st = CheckHostCompatibility header opts (host_llvm_version ll) (host_triple ll) (host_cpu ll) kSingle in
          if \<not> ok st then Some (Some st, eng)
          else (case view_bytes bytes obj_view of
            None \<Rightarrow> None
          | Some obj \<Rightarrow>
              (case LoadObject ll reg obj [kEntryFunctionName] (load_core (core eng) header) [] of
                 (Some st1, core1, ptrs) \<Rightarrow> Some (Some st1, eng\<lparr>core := core1\<rparr>)
               | (None, core1, ptrs) \<Rightarrow>
                   Some (None, \<lparr>core = core1, entry_func_ptr = ptrs ! 0,
                     engine_ret_type = type_of_byte (per_entry_ret_types header ! 0)\<rparr>))))"

definition BatchLoad :: "llvm \<Rightarrow> registry \<Rightarrow> load_options \<Rightarrow> string \<Rightarrow> batch_engine
     \<Rightarrow> (status option \<times> batch_engine) option" where
  "BatchLoad ll reg opts bytes eng =
     (case DeserializeArtifact bytes of
        Inl st \<Rightarrow> Some (Some st, eng)
      | Inr (header, obj_view) \<Rightarrow>
          let st = CheckHostCompatibility header opts (host_llvm_version ll) (host_triple ll) (host_cpu ll) kBatch in
          if \<not> ok st then Some (Some st, eng)
          else (case view_bytes bytes obj_view of
            None \<Rightarrow> None
          | Some obj \<Rightarrow>
              (case LoadObject ll reg obj (map entry_name [0..<length (per_entry_ret_types header)])
                      (load_core (bcore eng) header) [] of
                 (Some st1, core1, ptrs) \<Rightarrow> Some (Some st1, eng\<lparr>bcore := core1\<rparr>)
               | (None, core1, ptrs) \<Rightarrow>
                   Some (None, \<lparr>bcore = core1, entry_func_ptrs = ptrs,
                     ret_types = map type_of_byte (per_entry_ret_types header)\<rparr>))))"


section \<open>Names and bytes\<close>

lemma entry_name_inject [simp]: "entry_name i = entry_name j \<longleftrightarrow> i = j"
  by (simp add: entry_name_def)

lemma distinct_entry_names: "distinct (map entry_name [0..<n])"
  by (simp add: distinct_map inj_on_def)

lemma type_of_type_byte [simp]: "type_of_byte (type_byte t) = t"
  by (cases t) (simp_all add: type_of_byte_def type_byte_def value_type_code_def)

section \<open>Linking\<close>

lemma lookup_all_ok:
  assumes "list_all2 (\<lambda>nm p. look nm = Inr p) names ps" "i + length names = length ptrs"
  shows "lookup_all look msg names i ptrs = (None, take i ptrs @ ps)"
  using assms
proof (induction arbitrary: i ptrs rule: list_all2_induct)
  case (Cons nm names p ps)
  have "lookup_all look msg names (i + 1) (ptrs[i := p]) = (None, take (i + 1) (ptrs[i := p]) @ ps)"
    using Cons.prems by (intro Cons.IH) simp
  moreover have "take (i + 1) (ptrs[i := p]) = take i ptrs @ [p]"
    using Cons.prems by (simp add: take_Suc_conv_app_nth)
  ultimately show ?case using Cons.hyps(1) by simp
qed simp

lemma length_resize [simp]: "length (resize n d xs) = n"
  by (simp add: resize_def)

text \<open>What LLVM must answer for the module and the symbols it is given.\<close>

definition llvm_links :: "llvm \<Rightarrow> registry \<Rightarrow> ll_module \<Rightarrow> string list \<Rightarrow> u64 list \<Rightarrow> bool" where
  "llvm_links ll reg m names ps \<longleftrightarrow>
     create_jit ll = None \<and> verify_module ll m = None \<and> add_image ll (ModuleJit m) = None
     \<and> define_symbols ll (MappingToJIT reg) = None
     \<and> list_all2 (\<lambda>nm p. lookup_symbol ll (ModuleJit m) (MappingToJIT reg) nm = Inr p) names ps"

definition with_attrs :: "registry \<Rightarrow> ll_module \<Rightarrow> ll_module" where
  "with_attrs reg m = m\<lparr>mod_attrs := SetCFuncAttr reg (\<lambda>s. map_of (mod_callees m) s \<noteq> None)\<rparr>"

lemma LinkModule_ok:
  assumes "llvm_links ll reg (with_attrs reg m) names ps"
  shows "LinkModule ll reg m names c ptrs =
     (None, c\<lparr>jit := ModuleJit (with_attrs reg m),
        compiled_object_bytes := (if enable_save_compiled (core_option c) then object_code ll (with_attrs reg m) else []),
        ir_code := (if dump_ir (core_option c) then ir_text ll (with_attrs reg m) else [])\<rparr>, ps)"
proof -
  have "lookup_all (lookup_symbol ll (ModuleJit (with_attrs reg m)) (MappingToJIT reg)) msg names 0
      (resize (length names) 0 ptrs) = (None, ps)" for msg
    using assms by (subst lookup_all_ok [of _ names ps]) (auto simp: llvm_links_def)
  with assms show ?thesis
    unfolding LinkModule_def with_attrs_def [symmetric] by (simp add: llvm_links_def CreateJit_def Let_def)
qed

text \<open>Roots that are valid on their own and declare no variable for the roots after them.\<close>

definition root_ok :: "cg_env \<Rightarrow> exec_node \<Rightarrow> exec_node \<Rightarrow> bool" where
  "root_ok env n n' \<longleftrightarrow> visit (function_registry env) n ScopeStackInit = Inr (n', ScopeStackInit)
     \<and> no_void_vars n' \<and> GetReturnType n' \<noteq> kPtr"

lemma validate_all_ok:
  "list_all2 (root_ok env) ns ns' \<Longrightarrow> validate_all (function_registry env) ns ScopeStackInit = Inr ns'"
  by (induction rule: list_all2_induct) (simp_all add: root_ok_def Validate_def)

lemma build_entries_ok:
  assumes "list_all2 (root_ok env) ns ns'" "env_ok env" "length names = length ns'" "i + length ns' = length types"
  shows "\<exists>m'. build_entries env (zip ns' names) i m types = (Inr m', take i types @ map GetReturnType ns')
    \<and> map fst (mod_functions m') = map fst (mod_functions m) @ names"
  using assms
proof (induction arbitrary: names i m types rule: list_all2_induct)
  case (Cons n ns n' ns')
  obtain nm names' where names: "names = nm # names'" using Cons.prems(2) by (cases names) auto
  let ?ty = "GetReturnType n'"
  obtain s where s: "BuildEntryFunction env (mod_globals m) (mod_callees m) ?ty n' = Inr s"
    using Cons.hyps(1) Cons.prems(1) BuildEntryFunction_ok unfolding root_ok_def by blast
  let ?m = "m\<lparr>mod_functions := mod_functions m @ [(nm, blocks s)], mod_globals := globals s, mod_callees := callees s\<rparr>"
  have "\<exists>m'. build_entries env (zip ns' names') (i + 1) ?m (types[i := ?ty])
      = (Inr m', take (i + 1) (types[i := ?ty]) @ map GetReturnType ns')
    \<and> map fst (mod_functions m') = map fst (mod_functions ?m) @ names'"
    using Cons.prems names by (intro Cons.IH) auto
  moreover have "take (i + 1) (types[i := ?ty]) = take i types @ [?ty]"
    using Cons.prems(3) by (simp add: take_Suc_conv_app_nth)
  ultimately show ?case using s names by auto
qed simp

text \<open>Validated roots compile: only LLVM can fail.\<close>

definition module_for :: "cg_env \<Rightarrow> exec_node list \<Rightarrow> string list \<Rightarrow> ll_module \<Rightarrow> bool" where
  "module_for env ns names m \<longleftrightarrow> map fst (mod_functions m) = names
     \<and> (\<exists>m0 i types types'. build_entries env (zip ns names) i empty_module types = (Inr m0, types')
          \<and> m = with_attrs (function_registry env) m0)"

lemma BuildAndLink_module:
  assumes "list_all2 (root_ok env) ns ns'" "ns \<noteq> []" "env_ok env" "length names = length ns"
  shows "\<exists>m. module_for env ns' names m \<and>
    (\<forall>ps. llvm_links ll (function_registry env) m names ps \<longrightarrow>
       (\<exists>c'. jit c' = ModuleJit m \<and> core_option c' = core_option c
         \<and> (enable_save_compiled (core_option c) \<longrightarrow> compiled_object_bytes c' = object_code ll m)
         \<and> BuildAndLink ll env ns names c ptrs types = (None, c', ps, map GetReturnType ns')))"
proof -
  have len: "length ns' = length ns" using assms(1) by (simp add: list_all2_lengthD)
  obtain m where m: "build_entries env (zip ns' names) 0 empty_module (resize (length ns) kUnknown types)
      = (Inr m, map GetReturnType ns')" "map fst (mod_functions m) = names"
    using build_entries_ok [OF assms(1,3), of names 0 "resize (length ns) kUnknown types" empty_module] len assms(4)
    by (auto simp: empty_module_def)
  show ?thesis
  proof (intro exI conjI allI impI)
    have "map fst (mod_functions (with_attrs (function_registry env) m)) = names" using m(2) by (simp add: with_attrs_def)
    then show "module_for env ns' names (with_attrs (function_registry env) m)"
      unfolding module_for_def using m(1) by blast
  next
    fix ps assume l: "llvm_links ll (function_registry env) (with_attrs (function_registry env) m) names ps"
    show "BuildAndLink ll env ns names c ptrs types = (None,
        (ResetCore c)\<lparr>jit := ModuleJit (with_attrs (function_registry env) m),
          compiled_object_bytes := (if enable_save_compiled (core_option c)
             then object_code ll (with_attrs (function_registry env) m) else []),
          ir_code := (if dump_ir (core_option c) then ir_text ll (with_attrs (function_registry env) m) else [])\<rparr>,
        ps, map GetReturnType ns')"
      using assms(2,4) validate_all_ok [OF assms(1)] m(1) LinkModule_ok [OF l, of "ResetCore c"]
      by (simp add: BuildAndLink_def Let_def ResetCore_def)
  qed (simp_all add: ResetCore_def)
qed

lemma BuildAndLink_ok:
  assumes "list_all2 (root_ok env) ns ns'" "ns \<noteq> []" "env_ok env" "length names = length ns"
  shows "\<exists>m. map fst (mod_functions m) = names \<and>
    (\<forall>ps. llvm_links ll (function_registry env) m names ps \<longrightarrow>
       (\<exists>c'. jit c' = ModuleJit m \<and> core_option c' = core_option c
         \<and> (enable_save_compiled (core_option c) \<longrightarrow> compiled_object_bytes c' = object_code ll m)
         \<and> BuildAndLink ll env ns names c ptrs types = (None, c', ps, map GetReturnType ns')))"
  using BuildAndLink_module [OF assms, of ll c ptrs types] unfolding module_for_def by blast

lemma Compile_module:
  assumes "root_ok env n n'" "env_ok env"
  shows "\<exists>m. module_for env [n'] [kEntryFunctionName] m \<and>
    (\<forall>p. llvm_links ll (function_registry env) m [kEntryFunctionName] [p] \<longrightarrow>
       (\<exists>c. jit c = ModuleJit m \<and> core_option c = core_option (core eng)
         \<and> (enable_save_compiled (core_option c) \<longrightarrow> compiled_object_bytes c = object_code ll m)
         \<and> Compile ll env n eng = (None, \<lparr>core = c, entry_func_ptr = p, engine_ret_type = GetReturnType n'\<rparr>)))"
proof -
  have "list_all2 (root_ok env) [n] [n']" using assms(1) by simp
  from BuildAndLink_module [OF this _ assms(2), of "[kEntryFunctionName]" ll "core eng" "[]" "[]"]
  obtain m where m: "module_for env [n'] [kEntryFunctionName] m"
    "\<forall>ps. llvm_links ll (function_registry env) m [kEntryFunctionName] ps \<longrightarrow>
       (\<exists>c'. jit c' = ModuleJit m \<and> core_option c' = core_option (core eng)
         \<and> (enable_save_compiled (core_option (core eng)) \<longrightarrow> compiled_object_bytes c' = object_code ll m)
         \<and> BuildAndLink ll env [n] [kEntryFunctionName] (core eng) [] [] = (None, c', ps, map GetReturnType [n']))"
    by (simp del: list.map) (elim exE conjE, rule that)
  show ?thesis
  proof (rule exI [of _ m], intro conjI allI impI)
    fix p assume "llvm_links ll (function_registry env) m [kEntryFunctionName] [p]"
    with m(2) obtain c' where "jit c' = ModuleJit m" "core_option c' = core_option (core eng)"
      "enable_save_compiled (core_option (core eng)) \<longrightarrow> compiled_object_bytes c' = object_code ll m"
      "BuildAndLink ll env [n] [kEntryFunctionName] (core eng) [] [] = (None, c', [p], map GetReturnType [n'])" by blast
    then show "\<exists>c. jit c = ModuleJit m \<and> core_option c = core_option (core eng)
         \<and> (enable_save_compiled (core_option c) \<longrightarrow> compiled_object_bytes c = object_code ll m)
         \<and> Compile ll env n eng = (None, \<lparr>core = c, entry_func_ptr = p, engine_ret_type = GetReturnType n'\<rparr>)"
      by (intro exI [of _ c']) (simp add: Compile_def)
  qed (rule m(1))
qed

lemma Compile_ok:
  assumes "root_ok env n n'" "env_ok env"
  shows "\<exists>m. map fst (mod_functions m) = [kEntryFunctionName] \<and>
    (\<forall>p. llvm_links ll (function_registry env) m [kEntryFunctionName] [p] \<longrightarrow>
       (\<exists>c. jit c = ModuleJit m \<and> core_option c = core_option (core eng)
         \<and> (enable_save_compiled (core_option c) \<longrightarrow> compiled_object_bytes c = object_code ll m)
         \<and> Compile ll env n eng = (None, \<lparr>core = c, entry_func_ptr = p, engine_ret_type = GetReturnType n'\<rparr>)))"
  using Compile_module [OF assms, of ll eng] unfolding module_for_def
  by - (elim exE conjE, intro exI conjI, assumption, assumption)

lemma BatchCompile_ok:
  assumes "list_all2 (root_ok env) ns ns'" "ns \<noteq> []" "env_ok env"
  shows "\<exists>m. map fst (mod_functions m) = map entry_name [0..<length ns] \<and>
    (\<forall>ps. llvm_links ll (function_registry env) m (map entry_name [0..<length ns]) ps \<longrightarrow>
       (\<exists>c. jit c = ModuleJit m \<and> core_option c = core_option (bcore eng)
         \<and> (enable_save_compiled (core_option c) \<longrightarrow> compiled_object_bytes c = object_code ll m)
         \<and> BatchCompile ll env ns eng =
             (None, \<lparr>bcore = c, entry_func_ptrs = ps, ret_types = map GetReturnType ns'\<rparr>)))"
proof -
  let ?names = "map entry_name [0..<length ns]"
  obtain m where "map fst (mod_functions m) = ?names"
    "\<And>ps. llvm_links ll (function_registry env) m ?names ps \<Longrightarrow>
       (\<exists>c'. jit c' = ModuleJit m \<and> core_option c' = core_option (bcore eng)
         \<and> (enable_save_compiled (core_option (bcore eng)) \<longrightarrow> compiled_object_bytes c' = object_code ll m)
         \<and> BuildAndLink ll env ns ?names (bcore eng) [] [] = (None, c', ps, map GetReturnType ns'))"
    using BuildAndLink_ok [OF assms, of ?names ll "bcore eng" "[]" "[]"] by auto
  with assms(2) show ?thesis by (intro exI [of _ m]) (fastforce simp: BatchCompile_def)
qed

text \<open>A Compile that fails leaves an engine whose executions are refused without a call.\<close>

lemma Compile_failed:
  "Compile ll env n eng = (Some e, eng') \<Longrightarrow> entry_func_ptr eng' = 0 \<and> engine_ret_type eng' = kUnknown"
  by (auto simp: Compile_def split: prod.splits option.splits)

section \<open>The outcome of Compile is that of LLVM\<close>

lemma lookup_all_error: "lookup_all look msg names i ptrs = (Some e, ps) \<Longrightarrow> \<exists>t. e = RuntimeError t"
  by (induction names arbitrary: i ptrs) (auto split: sum.splits)

lemma LinkModule_error: "LinkModule ll reg m names c ptrs = (Some e, c', ps) \<Longrightarrow> \<exists>t. e = CgStatus (RuntimeError t)"
  by (auto simp: LinkModule_def Let_def CreateJit_def split: option.splits prod.splits dest!: lookup_all_error)

text \<open>A single entry is linked exactly if LLVM answers as \<open>llvm_links\<close> says.\<close>

lemma LinkModule_entry:
  assumes "LinkModule ll reg m [nm] c [] = (None, c', ps)"
  shows "jit c' = ModuleJit (with_attrs reg m) \<and> llvm_links ll reg (with_attrs reg m) [nm] ps"
  using assms unfolding LinkModule_def with_attrs_def [symmetric] Let_def
  by (auto simp: llvm_links_def CreateJit_def resize_def split: option.splits sum.splits prod.splits)

lemma LinkModule_rejected:
  "verify_module ll (with_attrs reg m) = Some info \<Longrightarrow> LinkModule ll reg m names c ptrs =
     (Some (CgStatus (RuntimeError (''Module verification failed: '' @ info))), c, ptrs)"
  unfolding LinkModule_def with_attrs_def [symmetric] by (simp add: Let_def)

lemma Compile_LinkModule:
  assumes "root_ok env n n'" "env_ok env"
  shows "\<exists>m. module_for env [n'] [kEntryFunctionName] (with_attrs (function_registry env) m) \<and>
    (\<forall>ll eng. Compile ll env n eng =
       (case LinkModule ll (function_registry env) m [kEntryFunctionName] (ResetCore (core eng)) [] of
          (err, c, ps) \<Rightarrow> (err, \<lparr>core = c, entry_func_ptr = (if err = None then ps ! 0 else 0),
             engine_ret_type = (if err = None then GetReturnType n' else kUnknown)\<rparr>)))"
proof -
  have all: "list_all2 (root_ok env) [n] [n']" using assms(1) by simp
  obtain m where m: "build_entries env (zip [n'] [kEntryFunctionName]) 0 empty_module [kUnknown]
      = (Inr m, [GetReturnType n'])" "map fst (mod_functions m) = [kEntryFunctionName]"
    using build_entries_ok [OF all assms(2), of "[kEntryFunctionName]" 0 "[kUnknown]" empty_module]
    by (auto simp: empty_module_def)
  have "module_for env [n'] [kEntryFunctionName] (with_attrs (function_registry env) m)"
    unfolding module_for_def using m by (intro conjI exI [of _ m] exI) (simp add: with_attrs_def, assumption, rule refl)
  moreover have build: "BuildAndLink ll env [n] [kEntryFunctionName] (core eng) [] [] =
      (case LinkModule ll (function_registry env) m [kEntryFunctionName] (ResetCore (core eng)) [] of
         (err, c, ps) \<Rightarrow> (err, c, ps, [GetReturnType n']))" for ll eng
    using validate_all_ok [OF all] m(1)
    by (simp add: BuildAndLink_def Let_def resize_def del: validate_all.simps build_entries.simps zip_Cons_Cons)
  ultimately show ?thesis
    by (intro exI [of _ m] conjI allI) (assumption, simp add: Compile_def build split: prod.split option.split)
qed

lemma Compile_outcome:
  assumes "root_ok env n n'" "env_ok env"
  shows "\<exists>m. module_for env [n'] [kEntryFunctionName] m \<and> (\<forall>ll eng.
      (\<forall>p. (\<exists>c. jit c = ModuleJit m \<and> Compile ll env n eng =
            (None, \<lparr>core = c, entry_func_ptr = p, engine_ret_type = GetReturnType n'\<rparr>))
          \<longleftrightarrow> llvm_links ll (function_registry env) m [kEntryFunctionName] [p])
    \<and> (\<forall>info. verify_module ll m = Some info \<longrightarrow>
          fst (Compile ll env n eng) = Some (CgStatus (RuntimeError (''Module verification failed: '' @ info))))
    \<and> (\<forall>e. fst (Compile ll env n eng) = Some e \<longrightarrow> (\<exists>t. e = CgStatus (RuntimeError t))))"
proof -
  let ?reg = "function_registry env"
  obtain m where m: "module_for env [n'] [kEntryFunctionName] (with_attrs ?reg m)"
    and c: "\<And>ll eng. Compile ll env n eng = (case LinkModule ll ?reg m [kEntryFunctionName] (ResetCore (core eng)) [] of
       (err, c, ps) \<Rightarrow> (err, \<lparr>core = c, entry_func_ptr = (if err = None then ps ! 0 else 0),
          engine_ret_type = (if err = None then GetReturnType n' else kUnknown)\<rparr>))"
    using Compile_LinkModule [OF assms] by blast
  show ?thesis
  proof (rule exI [of _ "with_attrs ?reg m"], intro conjI allI impI iffI)
    fix ll eng p assume e: "\<exists>c. jit c = ModuleJit (with_attrs ?reg m) \<and> Compile ll env n eng =
          (None, \<lparr>core = c, entry_func_ptr = p, engine_ret_type = GetReturnType n'\<rparr>)"
    obtain err c' ps where l: "LinkModule ll ?reg m [kEntryFunctionName] (ResetCore (core eng)) [] = (err, c', ps)"
      by (cases "LinkModule ll ?reg m [kEntryFunctionName] (ResetCore (core eng)) []") auto
    with e c [of ll eng] have "err = None" "p = ps ! 0" by auto
    moreover from this LinkModule_entry l have "llvm_links ll ?reg (with_attrs ?reg m) [kEntryFunctionName] ps" by metis
    moreover from this have "ps = [ps ! 0]" by (auto simp: llvm_links_def list_all2_Cons1)
    ultimately show "llvm_links ll ?reg (with_attrs ?reg m) [kEntryFunctionName] [p]" by metis
  next
    fix ll :: llvm and p and eng :: exec_engine assume "llvm_links ll ?reg (with_attrs ?reg m) [kEntryFunctionName] [p]"
    from LinkModule_ok [OF this, of "ResetCore (core eng)" "[]"] obtain c' where
      "LinkModule ll ?reg m [kEntryFunctionName] (ResetCore (core eng)) [] = (None, c', [p])"
      "jit c' = ModuleJit (with_attrs ?reg m)" by (rule that) simp
    then show "\<exists>c. jit c = ModuleJit (with_attrs ?reg m) \<and> Compile ll env n eng =
          (None, \<lparr>core = c, entry_func_ptr = p, engine_ret_type = GetReturnType n'\<rparr>)"
      by (intro exI [of _ c'] conjI) (simp_all add: c)
  next
    fix ll :: llvm and info and eng :: exec_engine assume "verify_module ll (with_attrs ?reg m) = Some info"
    from LinkModule_rejected [OF this] c [of ll eng]
    show "fst (Compile ll env n eng) = Some (CgStatus (RuntimeError (''Module verification failed: '' @ info)))" by simp
  next
    fix ll eng e assume "fst (Compile ll env n eng) = Some e"
    then show "\<exists>t. e = CgStatus (RuntimeError t)" using c [of ll eng] LinkModule_error
      by (auto split: prod.splits)
  qed (rule m)
qed

section \<open>Executing every entry\<close>

definition executes :: "machine \<Rightarrow> batch_engine \<Rightarrow> bool" where
  "executes mach eng \<longleftrightarrow> (\<forall>i<length (entry_func_ptrs eng). \<forall>r. ExecuteAt mach eng i r \<noteq> None)"

lemma executes_iff:
  "length (ret_types eng) = length (entry_func_ptrs eng) \<Longrightarrow> 0 \<notin> set (entry_func_ptrs eng) \<Longrightarrow> executes mach eng"
  by (auto simp: executes_def ExecuteAt_def dispatch_def split: prod.splits option.splits) (metis nth_mem)

lemma collect_empty_iff: "collect_error st e = [] \<longleftrightarrow> ok st \<and> e = []"
  by (simp add: collect_error_def)

lemma execute_loop_ok:
  assumes "\<forall>i\<in>set is. \<forall>r. ExecuteAt mach eng i r \<noteq> None" "distinct is" "\<forall>i\<in>set is. i < length rs"
  shows "\<exists>st rs'. execute_loop mach eng is rs e = Some (st, rs') \<and> length rs' = length rs
    \<and> (\<forall>i. i \<notin> set is \<longrightarrow> rs' ! i = rs ! i)
    \<and> (\<forall>i\<in>set is. \<exists>st. ExecuteAt mach eng i (rs ! i) = Some (st, rs' ! i))
    \<and> (ok st \<longleftrightarrow> e = [] \<and> (\<forall>i\<in>set is. \<exists>r st'. ExecuteAt mach eng i (rs ! i) = Some (st', r) \<and> ok st'))"
  using assms
proof (induction "is" arbitrary: rs e)
  case Nil
  then show ?case by (simp add: all_status_def)
next
  case (Cons i "is")
  obtain st r where x: "ExecuteAt mach eng i (rs ! i) = Some (st, r)" using Cons.prems(1) by fastforce
  have "\<exists>st' rs'. execute_loop mach eng is (rs[i := r]) (collect_error st e) = Some (st', rs')
    \<and> length rs' = length (rs[i := r]) \<and> (\<forall>j. j \<notin> set is \<longrightarrow> rs' ! j = rs[i := r] ! j)
    \<and> (\<forall>j\<in>set is. \<exists>st. ExecuteAt mach eng j (rs[i := r] ! j) = Some (st, rs' ! j))
    \<and> (ok st' \<longleftrightarrow> collect_error st e = [] \<and>
        (\<forall>j\<in>set is. \<exists>r' st'. ExecuteAt mach eng j (rs[i := r] ! j) = Some (st', r') \<and> ok st'))"
    using Cons.prems by (intro Cons.IH) simp_all
  then obtain st' rs' where r: "execute_loop mach eng is (rs[i := r]) (collect_error st e) = Some (st', rs')"
    "length rs' = length (rs[i := r])" "\<forall>j. j \<notin> set is \<longrightarrow> rs' ! j = rs[i := r] ! j"
    "\<forall>j\<in>set is. \<exists>st. ExecuteAt mach eng j (rs[i := r] ! j) = Some (st, rs' ! j)"
    "ok st' \<longleftrightarrow> collect_error st e = [] \<and>
       (\<forall>j\<in>set is. \<exists>r' st'. ExecuteAt mach eng j (rs[i := r] ! j) = Some (st', r') \<and> ok st')"
    by (elim exE conjE) (rule that)
  have same: "\<forall>j\<in>set is. rs[i := r] ! j = rs ! j" using Cons.prems(2) by (auto intro!: nth_list_update_neq)
  have at_i: "rs' ! i = r" using r(3) Cons.prems by auto
  show ?case
  proof (intro exI conjI)
    show "execute_loop mach eng (i # is) rs e = Some (st', rs')" using x r(1) by simp
    show "\<forall>j\<in>set (i # is). \<exists>st. ExecuteAt mach eng j (rs ! j) = Some (st, rs' ! j)"
      using x at_i r(4) same by auto
    show "\<forall>j. j \<notin> set (i # is) \<longrightarrow> rs' ! j = rs ! j" using r(3) by auto
  qed (use x r(2,5) same in \<open>auto simp: collect_empty_iff\<close>)
qed

lemma ExecuteAll_ok:
  assumes "executes mach eng"
  shows "\<exists>st rs. ExecuteAll mach eng results = Some (st, rs) \<and> length rs = length (entry_func_ptrs eng)
    \<and> (\<forall>i<length rs. \<exists>sti. ExecuteAt mach eng i (resize (length rs) ret_default results ! i) = Some (sti, rs ! i))
    \<and> (ok st \<longleftrightarrow> (\<forall>i<length rs. \<exists>r sti.
         ExecuteAt mach eng i (resize (length rs) ret_default results ! i) = Some (sti, r) \<and> ok sti))"
proof -
  let ?n = "length (entry_func_ptrs eng)" and ?rs = "resize (length (entry_func_ptrs eng)) ret_default results"
  have "\<exists>st rs'. execute_loop mach eng [0..<?n] ?rs [] = Some (st, rs') \<and> length rs' = length ?rs
    \<and> (\<forall>i. i \<notin> set [0..<?n] \<longrightarrow> rs' ! i = ?rs ! i)
    \<and> (\<forall>i\<in>set [0..<?n]. \<exists>st. ExecuteAt mach eng i (?rs ! i) = Some (st, rs' ! i))
    \<and> (ok st \<longleftrightarrow> ([] :: string) = [] \<and> (\<forall>i\<in>set [0..<?n]. \<exists>r st'. ExecuteAt mach eng i (?rs ! i) = Some (st', r) \<and> ok st'))"
    using assms by (intro execute_loop_ok) (simp_all add: executes_def)
  then obtain st rs' where "execute_loop mach eng [0..<?n] ?rs [] = Some (st, rs')" "length rs' = ?n"
    "\<forall>i<?n. \<exists>st. ExecuteAt mach eng i (?rs ! i) = Some (st, rs' ! i)"
    "ok st \<longleftrightarrow> (\<forall>i<?n. \<exists>r st'. ExecuteAt mach eng i (?rs ! i) = Some (st', r) \<and> ok st')"
    by (elim exE conjE) (rule that; simp add: Ball_def)
  then show ?thesis by (intro exI [of _ st] exI [of _ rs']) (simp add: ExecuteAll_def Let_def)
qed

section \<open>Contexts that are used again\<close>

text \<open>A context between two executions: a well-formed arena with nothing handed out, no error.\<close>

definition ctx_clean :: "exec_ctx \<Rightarrow> bool" where
  "ctx_clean ctx \<longleftrightarrow> arena_inv (ctx_arena ctx) \<and> finalizers (fst (ctx_arena ctx)) = [] \<and> errors ctx = []"

definition machine_ok :: "machine \<Rightarrow> bool" where
  "machine_ok mach \<longleftrightarrow> (\<forall>p res ctx. arena_inv (ctx_arena ctx) \<longrightarrow>
     arena_inv (ctx_arena (snd (snd (run_entry mach p res ctx)))))"

lemma Clear_clean:
  assumes "arena_inv (ctx_arena ctx)"
  shows "ctx_clean (Clear ctx) \<and> length (chunks (fst (ctx_arena (Clear ctx)))) \<le> 1"
proof -
  obtain a live where a: "ctx_arena ctx = (a, live)" by force
  obtain calls freed a' live' where r: "Reset (a, live) = (calls, freed, a', live')" by (cases "Reset (a, live)") auto
  from Reset_ok [OF _ r] assms a r show ?thesis by (simp add: ctx_clean_def Clear_def)
qed

lemma dispatch_arena:
  assumes "dispatch mach p t result ctx = Some (early, r, ctx')" "machine_ok mach" "arena_inv (ctx_arena ctx)"
  shows "arena_inv (ctx_arena ctx') \<and> (early \<noteq> None \<longrightarrow> ctx' = ctx)"
  using assms by (auto simp: dispatch_def machine_ok_def split: if_splits prod.splits) (metis snd_conv)

lemma ExecuteAtCtx_clean:
  assumes "ExecuteAtCtx mach eng i ctx result = Some (st, r, ctx')" "machine_ok mach" "ctx_clean ctx"
  shows "ctx_clean ctx'"
proof -
  consider "ctx' = ctx" | early r' c where "dispatch mach (entry_func_ptrs eng ! i) (ret_types eng ! i) result ctx = Some (early, r', c)"
      "ctx' = (if early = None then Clear c else c)"
    using assms(1) by (auto simp: ExecuteAtCtx_def split: if_splits option.splits)
  then show ?thesis
  proof cases
    case 2
    from dispatch_arena [OF 2(1) assms(2)] assms(3) have "arena_inv (ctx_arena c)" "early \<noteq> None \<longrightarrow> c = ctx"
      by (auto simp: ctx_clean_def)
    with 2(2) assms(3) Clear_clean [of c] show ?thesis by auto
  qed (use assms(3) in simp)
qed

lemma execute_loop_ctx_clean:
  "execute_loop_ctx mach eng is ctx rs e = Some (st, rs', ctx') \<Longrightarrow> machine_ok mach \<Longrightarrow> ctx_clean ctx \<Longrightarrow> ctx_clean ctx'"
  by (induction "is" arbitrary: ctx rs e) (auto dest: ExecuteAtCtx_clean split: option.splits prod.splits)

section \<open>Save, then load\<close>

lemma header_ok_host:
  assumes "length (host_llvm_version ll) < 2 ^ 32" "length (host_triple ll) < 2 ^ 32" "length (host_cpu ll) < 2 ^ 32"
    "types \<noteq> []" "length types < 2 ^ 32" "md = kSingle \<longrightarrow> length types = 1"
  shows "header_ok (host_header ll c md types)"
  using assms by (simp add: header_ok_def host_header_def)

lemma compatible_host:
  "CheckHostCompatibility (host_header ll c md types) opts (host_llvm_version ll) (host_triple ll) (host_cpu ll) md = OK"
  by (simp add: CheckHostCompatibility_def host_header_def)

lemma mode_mismatch:
  "md \<noteq> md' \<Longrightarrow> \<not> ok (CheckHostCompatibility (host_header ll c md types) opts v tr cpu md')"
  by (auto simp: CheckHostCompatibility_def host_header_def bad_def)

definition object_links :: "llvm \<Rightarrow> registry \<Rightarrow> string \<Rightarrow> string list \<Rightarrow> u64 list \<Rightarrow> bool" where
  "object_links ll reg obj names ps \<longleftrightarrow>
     create_jit ll = None \<and> add_image ll (ObjectJit obj) = None \<and> define_symbols ll (MappingToJIT reg) = None
     \<and> list_all2 (\<lambda>nm p. lookup_symbol ll (ObjectJit obj) (MappingToJIT reg) nm = Inr p) names ps"

lemma LoadObject_ok:
  assumes "object_links ll reg obj names ps"
  shows "LoadObject ll reg obj names c ptrs = (None, (ResetCore c)\<lparr>jit := ObjectJit obj\<rparr>, ps)"
proof -
  have "lookup_all (lookup_symbol ll (ObjectJit obj) (MappingToJIT reg)) msg names 0
      (resize (length names) 0 ptrs) = (None, ps)" for msg
    using assms by (subst lookup_all_ok [of _ names ps]) (auto simp: object_links_def)
  with assms show ?thesis
    unfolding LoadObject_def by (simp add: object_links_def CreateJit_def Let_def)
qed

definition host_ok :: "llvm \<Rightarrow> bool" where
  "host_ok ll \<longleftrightarrow> length (host_llvm_version ll) < 2 ^ 32 \<and> length (host_triple ll) < 2 ^ 32 \<and> length (host_cpu ll) < 2 ^ 32"

lemma SaveCompiled_load:
  assumes "entry_func_ptr eng \<noteq> 0" "compiled_object_bytes (core eng) = obj" "obj \<noteq> []" "host_ok ll"
    and save: "SaveCompiled ll eng [] = Inr blob" and len: "length blob < 2 ^ 63"
    and "object_links ll reg obj [kEntryFunctionName] [p]"
  shows "\<exists>c. jit c = ObjectJit obj \<and> LoadCompiled ll reg opts blob eng2 =
    Some (None, \<lparr>core = c, entry_func_ptr = p, engine_ret_type = engine_ret_type eng\<rparr>)"
proof -
  let ?h = "host_header ll (core eng) kSingle [engine_ret_type eng]"
  have h: "header_ok ?h" using assms(4) by (intro header_ok_host) (auto simp: host_ok_def)
  have "SerializeArtifact ?h obj [] = Inr blob" using assms(1-3) save by (simp add: SaveCompiled_def Let_def)
  then obtain v where v: "DeserializeArtifact blob = Inr (?h, v)" "view_bytes blob v = Some obj"
    using DeserializeArtifact_bytes [OF h _ len] by blast
  have "per_entry_ret_types ?h ! 0 = type_byte (engine_ret_type eng)" by (simp add: host_header_def)
  with v LoadObject_ok [OF assms(7)] show ?thesis by (simp add: LoadCompiled_def compatible_host Let_def)
qed

lemma BatchSave_load:
  assumes "entry_func_ptrs eng \<noteq> []" "length (ret_types eng) = length (entry_func_ptrs eng)"
    "length (ret_types eng) < 2 ^ 32" "compiled_object_bytes (bcore eng) = obj" "obj \<noteq> []" "host_ok ll"
    and save: "BatchSave ll eng [] = Inr blob" and len: "length blob < 2 ^ 63"
    and "object_links ll reg obj (map entry_name [0..<length (ret_types eng)]) ps"
  shows "\<exists>c. jit c = ObjectJit obj \<and> BatchLoad ll reg opts blob eng2 =
    Some (None, \<lparr>bcore = c, entry_func_ptrs = ps, ret_types = ret_types eng\<rparr>)"
proof -
  let ?h = "host_header ll (bcore eng) kBatch (ret_types eng)"
  have h: "header_ok ?h" using assms(1-3,6) by (intro header_ok_host) (auto simp: host_ok_def)
  have "SerializeArtifact ?h obj [] = Inr blob" using assms(1-5) save by (simp add: BatchSave_def Let_def)
  then obtain v where v: "DeserializeArtifact blob = Inr (?h, v)" "view_bytes blob v = Some obj"
    using DeserializeArtifact_bytes [OF h _ len] by blast
  have "per_entry_ret_types ?h = map type_byte (ret_types eng)" by (simp add: host_header_def)
  with v LoadObject_ok [OF assms(9)] show ?thesis by (simp add: BatchLoad_def compatible_host Let_def comp_def)
qed

end
