(* ===== verification/Dsu.thy ===== *)
theory Dsu
  imports "HOL-Library.Word"
begin

text \<open>
  Model of athena/dsu.h and athena/dsu.cc: a union-find structure on 64-bit keys, with path
  compression and union by rank. The two hash maps are finite maps; the 32-bit ranks wrap. The
  recursion of Find ends only on acyclic parents, so it is a partial function, and that it returns
  is part of the theorem that it refines a partition of the keys.
\<close>

section \<open>Operations\<close>

record dsu =
  parent :: "64 word \<Rightarrow> 64 word option"
  rank :: "64 word \<Rightarrow> 32 word option"

definition DsuInit :: dsu where
  "DsuInit = \<lparr>parent = (\<lambda>_. None), rank = (\<lambda>_. None)\<rparr>"

partial_function (option) Find :: "dsu \<Rightarrow> 64 word \<Rightarrow> (64 word \<times> dsu) option" where
  "Find d x =
     (case parent d x of
        None \<Rightarrow> Some (x, d\<lparr>parent := (parent d)(x \<mapsto> x), rank := (rank d)(x \<mapsto> 0)\<rparr>)
      | Some p \<Rightarrow>
          if p \<noteq> x then
            Option.bind (Find d p) (\<lambda>(r, d1). Some (r, d1\<lparr>parent := (parent d1)(x \<mapsto> r)\<rparr>))
          else Some (p, d))"

text \<open>operator[] of a rank that is not there inserts 0.\<close>

definition rank_of :: "dsu \<Rightarrow> 64 word \<Rightarrow> 32 word" where
  "rank_of d x = (case rank d x of None \<Rightarrow> 0 | Some r \<Rightarrow> r)"

definition Union :: "dsu \<Rightarrow> 64 word \<Rightarrow> 64 word \<Rightarrow> dsu option" where
  "Union d x y =
     (case Find d x of
        None \<Rightarrow> None
      | Some (rx, d1) \<Rightarrow>
          (case Find d1 y of
             None \<Rightarrow> None
           | Some (ry, d2) \<Rightarrow>
               if rx = ry then Some d2
               else if rank_of d2 rx < rank_of d2 ry then Some (d2\<lparr>parent := (parent d2)(rx \<mapsto> ry)\<rparr>)
               else if rank_of d2 ry < rank_of d2 rx then Some (d2\<lparr>parent := (parent d2)(ry \<mapsto> rx)\<rparr>)
               else Some (d2\<lparr>parent := (parent d2)(ry \<mapsto> rx),
                             rank := (rank d2)(rx \<mapsto> rank_of d2 rx + 1)\<rparr>)))"

definition Connected :: "dsu \<Rightarrow> 64 word \<Rightarrow> 64 word \<Rightarrow> (bool \<times> dsu) option" where
  "Connected d x y =
     (case Find d x of
        None \<Rightarrow> None
      | Some (rx, d1) \<Rightarrow> (case Find d1 y of None \<Rightarrow> None | Some (ry, d2) \<Rightarrow> Some (rx = ry, d2)))"

fun Unions :: "dsu \<Rightarrow> (64 word \<times> 64 word) list \<Rightarrow> dsu option" where
  "Unions d [] = Some d"
| "Unions d ((x, y) # es) = (case Union d x y of None \<Rightarrow> None | Some d1 \<Rightarrow> Unions d1 es)"

section \<open>The partition behind a structure\<close>

text \<open>\<open>rep\<close> maps every key to the root of its class (keys never seen to themselves). Ranks grow
  along parent pointers, so they are acyclic, and a root of rank k has 2^k keys below it, so no
  rank wraps: there are only 2^64 keys.\<close>

definition class_of :: "dsu \<Rightarrow> (64 word \<Rightarrow> 64 word) \<Rightarrow> 64 word \<Rightarrow> 64 word set" where
  "class_of d rep r = {x \<in> dom (parent d). rep x = r}"

definition dsu_rep :: "dsu \<Rightarrow> (64 word \<Rightarrow> 64 word) \<Rightarrow> bool" where
  "dsu_rep d rep \<longleftrightarrow>
     dom (rank d) = dom (parent d)
     \<and> (\<forall>x y. parent d x = Some y \<longrightarrow> parent d y \<noteq> None \<and> rep y = rep x
          \<and> (y = x \<longrightarrow> rep x = x) \<and> (y \<noteq> x \<longrightarrow> unat (rank_of d x) < unat (rank_of d y)))
     \<and> (\<forall>x. parent d x = None \<longrightarrow> rep x = x)
     \<and> (\<forall>x. parent d x \<noteq> None \<longrightarrow> parent d (rep x) = Some (rep x)
          \<and> (x \<noteq> rep x \<longrightarrow> unat (rank_of d x) < unat (rank_of d (rep x))))
     \<and> (\<forall>r. parent d r = Some r \<longrightarrow> 2 ^ unat (rank_of d r) \<le> card (class_of d rep r))"

lemma dsu_rep_init: "dsu_rep DsuInit id"
  by (simp add: dsu_rep_def DsuInit_def)

lemma dsu_repD:
  assumes "dsu_rep d rep"
  shows "dom (rank d) = dom (parent d)"
    "parent d x = Some y \<Longrightarrow> parent d y \<noteq> None \<and> rep y = rep x"
    "parent d x = Some x \<Longrightarrow> rep x = x"
    "parent d x = Some y \<Longrightarrow> y \<noteq> x \<Longrightarrow> unat (rank_of d x) < unat (rank_of d y)"
    "parent d x = None \<Longrightarrow> rep x = x"
    "parent d x \<noteq> None \<Longrightarrow> parent d (rep x) = Some (rep x)"
    "parent d x \<noteq> None \<Longrightarrow> x \<noteq> rep x \<Longrightarrow> unat (rank_of d x) < unat (rank_of d (rep x))"
    "parent d r = Some r \<Longrightarrow> 2 ^ unat (rank_of d r) \<le> card (class_of d rep r)"
  using assms unfolding dsu_rep_def by blast+

lemma dsu_repI:
  assumes "dom (rank d) = dom (parent d)"
    "\<And>x y. parent d x = Some y \<Longrightarrow> parent d y \<noteq> None \<and> rep y = rep x \<and> (y = x \<longrightarrow> rep x = x)
      \<and> (y \<noteq> x \<longrightarrow> unat (rank_of d x) < unat (rank_of d y))"
    "\<And>x. parent d x \<noteq> None \<Longrightarrow> parent d (rep x) = Some (rep x)
      \<and> (x \<noteq> rep x \<longrightarrow> unat (rank_of d x) < unat (rank_of d (rep x)))"
    "\<And>r. parent d r = Some r \<Longrightarrow> 2 ^ unat (rank_of d r) \<le> card (class_of d rep r)"
    "\<And>x. parent d x = None \<Longrightarrow> rep x = x"
  shows "dsu_rep d rep"
  unfolding dsu_rep_def using assms by (intro conjI allI impI) blast+

lemma card_keys: "card (A :: 64 word set) \<le> 2 ^ 64"
proof -
  have "card A \<le> card (UNIV :: 64 word set)" by (rule card_mono) simp_all
  then show ?thesis by (simp add: card_word)
qed

text \<open>No rank exceeds 64.\<close>

lemma rank_bound:
  assumes "dsu_rep d rep"
  shows "unat (rank_of d x) \<le> 64"
proof (cases "parent d x")
  case None
  then have "rank d x = None" using dsu_repD(1) [OF assms] by auto
  then show ?thesis by (simp add: rank_of_def)
next
  case (Some y)
  let ?r = "rep x"
  have root: "parent d ?r = Some ?r" using dsu_repD(6) [OF assms] Some by simp
  have "unat (rank_of d x) \<le> unat (rank_of d ?r)"
    using dsu_repD(7) [OF assms, of x] Some by (cases "x = ?r") auto
  moreover have "2 ^ unat (rank_of d ?r) \<le> (2::nat) ^ 64"
    using dsu_repD(8) [OF assms root] card_keys [of "class_of d rep ?r"] by linarith
  then have "unat (rank_of d ?r) \<le> 64" by (simp add: power_increasing_iff del: power_numeral)
  ultimately show ?thesis by linarith
qed


section \<open>Find\<close>

lemma Find_unfold [simp]:
  "parent d x = None \<Longrightarrow> Find d x = Some (x, d\<lparr>parent := (parent d)(x \<mapsto> x), rank := (rank d)(x \<mapsto> 0)\<rparr>)"
  "parent d x = Some x \<Longrightarrow> Find d x = Some (x, d)"
  by (simp_all add: Find.simps)

lemma Find_step:
  "parent d x = Some p \<Longrightarrow> p \<noteq> x \<Longrightarrow> Find d p = Some (r, d1) \<Longrightarrow>
     Find d x = Some (r, d1\<lparr>parent := (parent d1)(x \<mapsto> r)\<rparr>)"
  by (simp add: Find.simps [of d x])

text \<open>The first occurrence of a key makes it a class of its own.\<close>

lemma dsu_rep_insert:
  assumes "dsu_rep d rep" "parent d x = None"
  shows "dsu_rep (d\<lparr>parent := (parent d)(x \<mapsto> x), rank := (rank d)(x \<mapsto> 0)\<rparr>) rep"
proof -
  let ?d = "d\<lparr>parent := (parent d)(x \<mapsto> x), rank := (rank d)(x \<mapsto> 0)\<rparr>"
  have rn: "rank d x = None" using dsu_repD(1) [OF assms(1)] assms(2) by (metis domIff)
  have rk: "rank_of ?d z = rank_of d z" for z
    using rn by (simp add: rank_of_def)
  have rx: "rep x = x" using dsu_repD(5) [OF assms] .
  have sub: "class_of d rep r \<subseteq> class_of ?d rep r" for r by (auto simp: class_of_def)
  have f1: "dom (rank ?d) = dom (parent ?d)" using dsu_repD(1) [OF assms(1)] by auto
  have f2: "parent ?d y \<noteq> None \<and> rep y = rep z \<and> (y = z \<longrightarrow> rep z = z)
      \<and> (y \<noteq> z \<longrightarrow> unat (rank_of d z) < unat (rank_of d y))" if p: "parent ?d z = Some y" for z y
  proof (cases "z = x")
    case True
    with p rx show ?thesis by simp
  next
    case False
    with p have "parent d z = Some y" by simp
    with dsu_repD(2-4) [OF assms(1)] have "parent d y \<noteq> None" "rep y = rep z"
      "y = z \<longrightarrow> rep z = z" "y \<noteq> z \<longrightarrow> unat (rank_of d z) < unat (rank_of d y)" by blast+
    then show ?thesis by simp
  qed
  have f3: "parent ?d (rep z) = Some (rep z)
      \<and> (z \<noteq> rep z \<longrightarrow> unat (rank_of d z) < unat (rank_of d (rep z)))" if "parent ?d z \<noteq> None" for z
    using that rx dsu_repD(6,7) [OF assms(1), of z] by (cases "z = x") auto
  have f4: "2 ^ unat (rank_of d r) \<le> card (class_of ?d rep r)" if "parent ?d r = Some r" for r
  proof (cases "r = x")
    case True
    then have "rank_of d r = 0" using rn by (simp add: rank_of_def)
    moreover have "r \<in> class_of ?d rep r" using True rx by (simp add: class_of_def)
    then have "0 < card (class_of ?d rep r)" by (auto simp: card_gt_0_iff)
    ultimately show ?thesis by simp
  next
    case False
    with that have "2 ^ unat (rank_of d r) \<le> card (class_of d rep r)" using dsu_repD(8) [OF assms(1)] by simp
    also have "\<dots> \<le> card (class_of ?d rep r)" by (rule card_mono [OF _ sub]) simp
    finally show ?thesis .
  qed
  have f5: "rep z = z" if "parent ?d z = None" for z
    using that dsu_repD(5) [OF assms(1), of z] by (auto split: if_splits)
  show ?thesis
  proof (rule dsu_repI, goal_cases)
    case 1
    show ?case by (rule f1)
  next
    case (2 z y)
    then show ?case unfolding rk by (rule f2)
  next
    case (3 z)
    then show ?case unfolding rk by (rule f3)
  next
    case (4 r)
    then show ?case unfolding rk by (rule f4)
  next
    case (5 z)
    then show ?case by (rule f5)
  qed
qed

text \<open>Path compression: a key that is not a root points to its root.\<close>

lemma dsu_rep_compress:
  assumes "dsu_rep d rep" "parent d x = Some p" "p \<noteq> x"
  shows "dsu_rep (d\<lparr>parent := (parent d)(x \<mapsto> rep x)\<rparr>) rep"
proof -
  let ?d = "d\<lparr>parent := (parent d)(x \<mapsto> rep x)\<rparr>"
  have dom: "parent ?d z = None \<longleftrightarrow> parent d z = None" for z using assms by auto
  have rk: "rank_of ?d z = rank_of d z" for z by (simp add: rank_of_def)
  have cls: "class_of ?d rep r = class_of d rep r" for r using assms(2) by (auto simp: class_of_def)
  have root: "parent d (rep x) = Some (rep x)" using dsu_repD(6) [OF assms(1)] assms(2) by simp
  then have nx: "rep x \<noteq> x" using assms(2,3) by auto
  have rr: "rep (rep x) = rep x" using dsu_repD(3) [OF assms(1) root] .
  have f1: "dom (rank ?d) = dom (parent ?d)" using dsu_repD(1) [OF assms(1)] assms(2) by auto
  have f2: "parent ?d y \<noteq> None \<and> rep y = rep z \<and> (y = z \<longrightarrow> rep z = z)
      \<and> (y \<noteq> z \<longrightarrow> unat (rank_of d z) < unat (rank_of d y))" if "parent ?d z = Some y" for z y
  proof (cases "z = x")
    case True
    with that have "y = rep x" by simp
    with True root nx rr dsu_repD(7) [OF assms(1), of x] assms(2) show ?thesis by simp
  next
    case False
    with that have "parent d z = Some y" by simp
    with dsu_repD(2-4) [OF assms(1)] dom show ?thesis by metis
  qed
  have f3: "parent ?d (rep z) = Some (rep z)" if "parent d z \<noteq> None" for z
  proof -
    have "parent d (rep z) = Some (rep z)" using dsu_repD(6) [OF assms(1) that] .
    moreover from this have "rep z \<noteq> x" using assms(2,3) by auto
    ultimately show ?thesis by simp
  qed
  have f4: "2 ^ unat (rank_of d r) \<le> card (class_of d rep r)" if "parent ?d r = Some r" for r
    using that nx dsu_repD(8) [OF assms(1), of r] by (auto split: if_splits)
  have f5: "parent ?d (rep z) = Some (rep z)
      \<and> (z \<noteq> rep z \<longrightarrow> unat (rank_of d z) < unat (rank_of d (rep z)))" if "parent d z \<noteq> None" for z
    using f3 [OF that] dsu_repD(7) [OF assms(1) that] by blast
  show ?thesis
  proof (rule dsu_repI, goal_cases)
    case 1
    show ?case by (rule f1)
  next
    case (2 z y)
    then show ?case unfolding rk by (rule f2)
  next
    case (3 z)
    then show ?case unfolding rk dom by (rule f5)
  next
    case (4 r)
    then show ?case unfolding rk cls by (rule f4)
  next
    case (5 z)
    then show ?case unfolding dom by (rule dsu_repD(5) [OF assms(1)])
  qed
qed

text \<open>Find returns the root, keeps the partition, and the key is in the structure afterwards; ranks
  of roots do not change.\<close>

lemma Find_ok:
  assumes "dsu_rep d rep"
  shows "\<exists>d'. Find d x = Some (rep x, d') \<and> dsu_rep d' rep \<and> parent d' x \<noteq> None
    \<and> (\<forall>z. parent d z \<noteq> None \<longrightarrow> parent d' z \<noteq> None)"
  using assms
proof (induction "64 - unat (rank_of d x)" arbitrary: x rule: less_induct)
  case less
  show ?case
  proof (cases "parent d x")
    case None
    with dsu_rep_insert [OF less.prems None] dsu_repD(5) [OF less.prems None] show ?thesis by auto
  next
    case (Some p)
    show ?thesis
    proof (cases "p = x")
      case True
      with Some less.prems dsu_repD(3) [OF less.prems, of x] show ?thesis by auto
    next
      case False
      have "unat (rank_of d x) < unat (rank_of d p)" using dsu_repD(4) [OF less.prems Some False] .
      with rank_bound [OF less.prems, of p] have "64 - unat (rank_of d p) < 64 - unat (rank_of d x)" by linarith
      from less.hyps [OF this less.prems] obtain d1 where d1: "Find d p = Some (rep p, d1)" "dsu_rep d1 rep"
        "\<forall>z. parent d z \<noteq> None \<longrightarrow> parent d1 z \<noteq> None" by blast
      have rp: "rep p = rep x" using dsu_repD(2) [OF less.prems Some] by simp
      obtain q where q: "parent d1 x = Some q" using d1(3) Some by auto
      have "rep x \<noteq> x" using dsu_repD(6) [OF less.prems, of x] Some False by auto
      then have "q \<noteq> x" using dsu_repD(3) [OF d1(2), of x] q by auto
      with dsu_rep_compress [OF d1(2) q] have "dsu_rep (d1\<lparr>parent := (parent d1)(x \<mapsto> rep x)\<rparr>) rep" by simp
      with Find_step [OF Some False d1(1)] rp d1(3) show ?thesis by auto
    qed
  qed
qed


section \<open>Union\<close>

text \<open>The partition after two classes with roots \<open>a\<close> and \<open>b\<close> have been merged below \<open>a\<close>.\<close>

definition merge_rep :: "(64 word \<Rightarrow> 64 word) \<Rightarrow> 64 word \<Rightarrow> 64 word \<Rightarrow> 64 word \<Rightarrow> 64 word" where
  "merge_rep rep a b z = (if rep z = b then a else rep z)"

lemma class_merge:
  assumes "a \<noteq> b"
  shows "class_of (d\<lparr>parent := (parent d)(b \<mapsto> a)\<rparr>) (merge_rep rep a b) r \<supseteq>
    (if r = a then class_of d rep a \<union> class_of d rep b else if r = b then {} else class_of d rep r)"
  by (auto simp: class_of_def merge_rep_def)

text \<open>Linking root \<open>b\<close> below root \<open>a\<close>, with a rank for \<open>a\<close> that is above the rank of \<open>b\<close> and justified
  by the size of the new class.\<close>

lemma dsu_rep_link:
  assumes inv: "dsu_rep d rep" and roots: "parent d a = Some a" "parent d b = Some b" "a \<noteq> b"
    and k: "unat (rank_of d a) \<le> unat k" "unat (rank_of d b) < unat k"
    and size: "2 ^ unat k \<le> card (class_of d rep a \<union> class_of d rep b)"
  shows "dsu_rep (d\<lparr>parent := (parent d)(b \<mapsto> a), rank := (rank d)(a \<mapsto> k)\<rparr>) (merge_rep rep a b)"
proof -
  let ?d = "d\<lparr>parent := (parent d)(b \<mapsto> a), rank := (rank d)(a \<mapsto> k)\<rparr>" and ?rep = "merge_rep rep a b"
  have ra: "rep a = a" "rep b = b" using dsu_repD(3) [OF inv] roots by auto
  have dom: "parent ?d z = None \<longleftrightarrow> parent d z = None" for z using roots by auto
  have rk: "rank_of ?d z = (if z = a then k else rank_of d z)" for z by (simp add: rank_of_def)
  have mono: "unat (rank_of d z) \<le> unat (rank_of ?d z)" for z using k(1) by (simp add: rk)
  have cls: "class_of ?d ?rep r = class_of (d\<lparr>parent := (parent d)(b \<mapsto> a)\<rparr>) ?rep r" for r
    by (simp add: class_of_def)
  have 1: "dom (rank ?d) = dom (parent ?d)" using dsu_repD(1) [OF inv] roots by auto
  have 2: "parent ?d y \<noteq> None \<and> ?rep y = ?rep z \<and> (y = z \<longrightarrow> ?rep z = z)
      \<and> (y \<noteq> z \<longrightarrow> unat (rank_of ?d z) < unat (rank_of ?d y))" if p: "parent ?d z = Some y" for z y
  proof (cases "z = b")
    case True
    with p have "y = a" using roots(3) by simp
    with True roots ra k show ?thesis by (simp add: merge_rep_def rk)
  next
    case False
    with p have q: "parent d z = Some y" by simp
    then have z: "parent d y \<noteq> None" "rep y = rep z" using dsu_repD(2) [OF inv] by auto
    show ?thesis
    proof (cases "y = z")
      case True
      with q dsu_repD(3) [OF inv] have "rep z = z" by simp
      with True False p show ?thesis by (simp add: merge_rep_def)
    next
      case ne: False
      with q roots have "z \<noteq> a" by auto
      with dsu_repD(4) [OF inv q ne] mono [of y] have "unat (rank_of ?d z) < unat (rank_of ?d y)"
        by (simp add: rk)
      with z ne dom [of y] show ?thesis by (simp add: merge_rep_def del: fun_upd_apply)
    qed
  qed
  have 3: "parent ?d (?rep z) = Some (?rep z)
      \<and> (z \<noteq> ?rep z \<longrightarrow> unat (rank_of ?d z) < unat (rank_of ?d (?rep z)))" if z: "parent d z \<noteq> None" for z
  proof (cases "rep z = b")
    case True
    have "z \<noteq> a" using True ra roots(3) by auto
    moreover have "unat (rank_of d z) < unat k"
      using dsu_repD(7) [OF inv z] True k(2) by (cases "z = b") auto
    ultimately show ?thesis using True roots by (simp add: merge_rep_def rk)
  next
    case False
    have "z \<noteq> rep z \<Longrightarrow> z \<noteq> a" using ra by auto
    with False dsu_repD(6,7) [OF inv z] mono [of "rep z"] show ?thesis by (auto simp: merge_rep_def rk)
  qed
  have 4: "2 ^ unat (rank_of ?d r) \<le> card (class_of ?d ?rep r)" if r: "parent ?d r = Some r" for r
  proof -
    have nb: "r \<noteq> b" using r roots(3) by auto
    have "2 ^ unat (rank_of ?d r) \<le> card (if r = a then class_of d rep a \<union> class_of d rep b else class_of d rep r)"
      using size r nb dsu_repD(8) [OF inv, of r] by (auto simp: rk)
    also have "\<dots> \<le> card (class_of ?d ?rep r)"
      unfolding cls by (rule card_mono) (use class_merge [OF roots(3), where d = d and rep = rep and r = r] nb in \<open>auto split: if_splits\<close>)
    finally show ?thesis .
  qed
  have 5: "?rep z = z" if "parent d z = None" for z
    using dsu_repD(5) [OF inv that] that roots by (auto simp: merge_rep_def)
  show ?thesis
    by (rule dsu_repI [OF 1 2 _ 4]) (use 3 5 in \<open>unfold dom, blast+\<close>)
qed

text \<open>Union merges the classes of its arguments, and Connected tells them apart.\<close>

lemma Union_ok:
  assumes "dsu_rep d rep"
  shows "\<exists>d' rep'. Union d x y = Some d' \<and> dsu_rep d' rep'
    \<and> (\<forall>u v. rep' u = rep' v \<longleftrightarrow> rep u = rep v \<or> rep u = rep x \<and> rep v = rep y \<or> rep u = rep y \<and> rep v = rep x)"
proof -
  obtain d1 where d1: "Find d x = Some (rep x, d1)" "dsu_rep d1 rep" "parent d1 x \<noteq> None"
    using Find_ok [OF assms] by blast
  obtain d2 where d2: "Find d1 y = Some (rep y, d2)" "dsu_rep d2 rep" "parent d2 y \<noteq> None" "parent d2 x \<noteq> None"
    using Find_ok [OF d1(2)] d1(3) by blast
  let ?a = "rep x" and ?b = "rep y"
  have roots: "parent d2 ?a = Some ?a" "parent d2 ?b = Some ?b"
    using dsu_repD(6) [OF d2(2)] d2(3,4) by auto
  have U: "Union d x y = (if ?a = ?b then Some d2
      else if rank_of d2 ?a < rank_of d2 ?b then Some (d2\<lparr>parent := (parent d2)(?a \<mapsto> ?b)\<rparr>)
      else if rank_of d2 ?b < rank_of d2 ?a then Some (d2\<lparr>parent := (parent d2)(?b \<mapsto> ?a)\<rparr>)
      else Some (d2\<lparr>parent := (parent d2)(?b \<mapsto> ?a), rank := (rank d2)(?a \<mapsto> rank_of d2 ?a + 1)\<rparr>))"
    by (simp add: Union_def d1(1) d2(1))
  have rank_id: "(rank d2)(r \<mapsto> rank_of d2 r) = rank d2" if "parent d2 r = Some r" for r
    using that dsu_repD(1) [OF d2(2)] by (auto simp: rank_of_def fun_eq_iff split: option.splits)
  have keep: "dsu_rep (d2\<lparr>parent := (parent d2)(b \<mapsto> a)\<rparr>) (merge_rep rep a b)"
    if "rank_of d2 b < rank_of d2 a" "parent d2 a = Some a" "parent d2 b = Some b" for a b
  proof -
    have "2 ^ unat (rank_of d2 a) \<le> card (class_of d2 rep a \<union> class_of d2 rep b)"
      by (rule le_trans [OF dsu_repD(8) [OF d2(2) that(2)]]) (rule card_mono, simp_all)
    with dsu_rep_link [OF d2(2) that(2,3), of "rank_of d2 a"] that(1) rank_id [OF that(2)] show ?thesis
      by (auto simp: word_less_nat_alt)
  qed
  consider "?a = ?b" | "?a \<noteq> ?b" "rank_of d2 ?a < rank_of d2 ?b" | "?a \<noteq> ?b" "rank_of d2 ?b < rank_of d2 ?a"
    | "?a \<noteq> ?b" "rank_of d2 ?a = rank_of d2 ?b" by fastforce
  then show ?thesis
  proof cases
    case 1
    with U d2(2) show ?thesis by (intro exI [of _ d2] exI [of _ rep]) auto
  next
    case 2
    with U keep [OF 2(2) roots(2,1)] show ?thesis
      by (intro exI [of _ "d2\<lparr>parent := (parent d2)(?a \<mapsto> ?b)\<rparr>"] exI [of _ "merge_rep rep ?b ?a"])
        (auto simp: merge_rep_def)
  next
    case 3
    then have "\<not> rank_of d2 ?a < rank_of d2 ?b" by simp
    with 3 U keep [OF 3(2) roots] show ?thesis
      by (intro exI [of _ "d2\<lparr>parent := (parent d2)(?b \<mapsto> ?a)\<rparr>"] exI [of _ "merge_rep rep ?a ?b"])
        (auto simp: merge_rep_def)
  next
    case 4
    let ?k = "rank_of d2 ?a + 1"
    have k: "unat ?k = unat (rank_of d2 ?a) + 1"
      using rank_bound [OF d2(2), of ?a] unat_add_lem [of "rank_of d2 ?a" 1] by simp
    have "class_of d2 rep ?a \<inter> class_of d2 rep ?b = {}" using 4(1) by (auto simp: class_of_def)
    then have "card (class_of d2 rep ?a \<union> class_of d2 rep ?b) = card (class_of d2 rep ?a) + card (class_of d2 rep ?b)"
      by (rule card_Un_disjoint [rotated 2]) simp_all
    with dsu_repD(8) [OF d2(2) roots(1)] dsu_repD(8) [OF d2(2) roots(2)] 4(2) k
    have "2 ^ unat ?k \<le> card (class_of d2 rep ?a \<union> class_of d2 rep ?b)" by simp
    with dsu_rep_link [OF d2(2) roots 4(1), of ?k] k 4(2)
    have "dsu_rep (d2\<lparr>parent := (parent d2)(?b \<mapsto> ?a), rank := (rank d2)(?a \<mapsto> ?k)\<rparr>) (merge_rep rep ?a ?b)" by simp
    with 4 U show ?thesis
      by (intro exI [of _ "d2\<lparr>parent := (parent d2)(?b \<mapsto> ?a), rank := (rank d2)(?a \<mapsto> ?k)\<rparr>"]
          exI [of _ "merge_rep rep ?a ?b"]) (auto simp: merge_rep_def)
  qed
qed

lemma Connected_ok:
  assumes "dsu_rep d rep"
  shows "\<exists>d'. Connected d x y = Some (rep x = rep y, d') \<and> dsu_rep d' rep"
proof -
  obtain d1 where "Find d x = Some (rep x, d1)" "dsu_rep d1 rep" using Find_ok [OF assms] by blast
  moreover from this(2) obtain d2 where "Find d1 y = Some (rep y, d2)" "dsu_rep d2 rep" using Find_ok by blast
  ultimately show ?thesis by (simp add: Connected_def)
qed

text \<open>The equivalence closure of a list of pairs.\<close>

definition joined :: "(64 word \<times> 64 word) list \<Rightarrow> (64 word \<times> 64 word) set" where
  "joined es = (set es \<union> (set es)\<inverse>)\<^sup>*"

lemma Unions_ok:
  assumes "dsu_rep d rep" "\<And>u v. rep u = rep v \<longleftrightarrow> (u, v) \<in> (S \<union> S\<inverse>)\<^sup>*"
  shows "\<exists>d' rep'. Unions d es = Some d' \<and> dsu_rep d' rep'
     \<and> (\<forall>u v. rep' u = rep' v \<longleftrightarrow> (u, v) \<in> ((S \<union> set es) \<union> (S \<union> set es)\<inverse>)\<^sup>*)"
  using assms
proof (induction es arbitrary: d rep S)
  case (Cons e es)
  obtain x y where e: "e = (x, y)" by force
  obtain d1 rep1 where d1: "Union d x y = Some d1" "dsu_rep d1 rep1"
    "\<And>u v. rep1 u = rep1 v \<longleftrightarrow> rep u = rep v \<or> rep u = rep x \<and> rep v = rep y \<or> rep u = rep y \<and> rep v = rep x"
    using Union_ok [OF Cons.prems(1), of x y] by blast
  let ?S = "insert (x, y) S"
  have old: "(S \<union> S\<inverse>)\<^sup>* \<subseteq> (?S \<union> ?S\<inverse>)\<^sup>*" by (rule rtrancl_mono) auto
  have xy: "(x, y) \<in> (?S \<union> ?S\<inverse>)\<^sup>*" "(y, x) \<in> (?S \<union> ?S\<inverse>)\<^sup>*" by auto
  have "rep1 u = rep1 v" if "(u, v) \<in> (?S \<union> ?S\<inverse>)\<^sup>*" for u v
    using that
  proof induction
    case (step v w)
    have "rep v = rep w \<or> (v, w) = (x, y) \<or> (v, w) = (y, x)"
      using step.hyps(2) Cons.prems(2) [of v w] by auto
    then have "rep1 v = rep1 w" using d1(3) [of v w] by auto
    with step.IH show ?case by simp
  qed simp
  moreover have "(u, v) \<in> (?S \<union> ?S\<inverse>)\<^sup>*" if "rep1 u = rep1 v" for u v
  proof -
    from that d1(3) consider "rep u = rep v" | "rep u = rep x" "rep y = rep v" | "rep u = rep y" "rep x = rep v"
      by metis
    then show ?thesis
    proof cases
      case 1
      then show ?thesis using Cons.prems(2) old by blast
    next
      case 2
      then have "(u, x) \<in> (?S \<union> ?S\<inverse>)\<^sup>*" "(y, v) \<in> (?S \<union> ?S\<inverse>)\<^sup>*" using Cons.prems(2) old by blast+
      with xy(1) show ?thesis by (meson rtrancl_trans)
    next
      case 3
      then have "(u, y) \<in> (?S \<union> ?S\<inverse>)\<^sup>*" "(x, v) \<in> (?S \<union> ?S\<inverse>)\<^sup>*" using Cons.prems(2) old by blast+
      with xy(2) show ?thesis by (meson rtrancl_trans)
    qed
  qed
  ultimately have "rep1 u = rep1 v \<longleftrightarrow> (u, v) \<in> (?S \<union> ?S\<inverse>)\<^sup>*" for u v by blast
  from Cons.IH [OF d1(2) this] d1(1) e show ?case by simp
qed auto

end
