(* ===== verification/Grouper.thy ===== *)
theory Grouper
  imports ExecNode Dsu "HOL-Library.Multiset"
begin

text \<open>
  Model of athena/pipeline_grouper.h and athena/pipeline_grouper.cc: pipelines that share a
  subexpression of height 1 become one NoOP node. GetHeight visits a tree, joins the current root
  with the hash of every subtree whose height is 1, and returns the height; the visitor's members
  \<open>height_\<close> and \<open>dsu_\<close> are the result and the threaded structure. Every visit returns OK, so only a
  DSU that does not end could fail. The iteration order of the final hash map is a parameter.
\<close>

section \<open>Hashes and heights\<close>

text \<open>\<open>hash * 131 + c\<close> on a signed char.\<close>

definition StringHash :: "string \<Rightarrow> 64 word" where
  "StringHash str = foldl (\<lambda>hash c. hash * 131 + scast (of_char c :: 8 word)) 0 str"

lemma size_snd_list: "size_list (size \<circ> snd) args \<le> size_list (size_prod (\<lambda>x. 0) size) args"
  by (induction args) (auto simp: size_prod_def split: prod.splits)

function GetHeight :: "64 word \<Rightarrow> exec_node \<Rightarrow> dsu \<Rightarrow> (32 word \<times> dsu) option"
  and VisitHeight :: "64 word \<Rightarrow> exec_node \<Rightarrow> dsu \<Rightarrow> (32 word \<times> dsu) option"
  and max_height :: "64 word \<Rightarrow> exec_node list \<Rightarrow> 32 word \<Rightarrow> dsu \<Rightarrow> (32 word \<times> dsu) option" where
  "GetHeight root n d =
     (case VisitHeight root n d of
        None \<Rightarrow> None
      | Some (h, d1) \<Rightarrow>
          if 1 = h then
            (case Union d1 root (StringHash (NodeToString [] n)) of None \<Rightarrow> None | Some d2 \<Rightarrow> Some (h, d2))
          else Some (h, d1))"
| "VisitHeight root (EntryArgumentNode _) d = Some (0, d)"
| "VisitHeight root (ExecContextNode _) d = Some (0, d)"
| "VisitHeight root (OutputNode _) d = Some (0, d)"
| "VisitHeight root (ConstantValueNode _ _) d = Some (0, d)"
| "VisitHeight root (ConstantListValueNode _ _) d = Some (0, d)"
| "VisitHeight root (UnaryOPNode _ _ c) d =
     (case GetHeight root c d of None \<Rightarrow> None | Some (h, d1) \<Rightarrow> Some (h + 1, d1))"
| "VisitHeight root (BinaryOPNode _ _ l r) d =
     (case GetHeight root l d of
        None \<Rightarrow> None
      | Some (hl, d1) \<Rightarrow>
          (case GetHeight root r d1 of None \<Rightarrow> None | Some (hr, d2) \<Rightarrow> Some (max hl hr + 1, d2)))"
| "VisitHeight root (FunctionNode _ _ args) d =
     (case max_height root args 0 d of None \<Rightarrow> None | Some (h, d1) \<Rightarrow> Some (h + 1, d1))"
| "VisitHeight root (NoOPNode _ args _) d =
     (case max_height root (map snd args) 0 d of None \<Rightarrow> None | Some (h, d1) \<Rightarrow> Some (h + 1, d1))"
| "VisitHeight root (IfNode _ args) d =
     (case max_height root args 0 d of None \<Rightarrow> None | Some (h, d1) \<Rightarrow> Some (h + 1, d1))"
| "VisitHeight root (SwitchNode _ args) d =
     (case max_height root args 0 d of None \<Rightarrow> None | Some (h, d1) \<Rightarrow> Some (h + 1, d1))"
| "VisitHeight root (IfBlockNode _ args) d =
     (case max_height root args 0 d of None \<Rightarrow> None | Some (h, d1) \<Rightarrow> Some (h + 1, d1))"
| "VisitHeight root (RefNode _ _) d = Some (2, d)"
| "max_height root [] m d = Some (m, d)"
| "max_height root (n # ns) m d =
     (case GetHeight root n d of None \<Rightarrow> None | Some (h, d1) \<Rightarrow> max_height root ns (max m h) d1)"
  by pat_completeness auto
termination
  by (relation "measure (\<lambda>x. case x of
        Inl (root, n, d) \<Rightarrow> 2 * size n + 1
      | Inr (Inl (root, n, d)) \<Rightarrow> 2 * size n
      | Inr (Inr (root, ns, m, d)) \<Rightarrow> 2 * size_list size ns + 1)") (auto simp: less_Suc_eq_le size_snd_list)

section \<open>Grouping\<close>

definition root_id :: "nat \<Rightarrow> 64 word" where
  "root_id i = StringHash (''root_'' @ nat_to_string i)"

text \<open>The first loop, from index \<open>i\<close>.\<close>

fun visit_roots :: "nat \<Rightarrow> exec_node list \<Rightarrow> dsu \<Rightarrow> dsu option" where
  "visit_roots i [] d = Some d"
| "visit_roots i (n # ns) d =
     (case GetHeight (root_id i) n d of None \<Rightarrow> None | Some (_, d1) \<Rightarrow> visit_roots (i + 1) ns d1)"

text \<open>The second loop: \<open>union_id_to_nodes[union_id].emplace_back(node)\<close>.\<close>

fun collect_groups ::
  "nat \<Rightarrow> exec_node list \<Rightarrow> dsu \<Rightarrow> (64 word \<times> exec_node list) list
     \<Rightarrow> ((64 word \<times> exec_node list) list \<times> dsu) option" where
  "collect_groups i [] d acc = Some (acc, d)"
| "collect_groups i (n # ns) d acc =
     (case Find d (root_id i) of
        None \<Rightarrow> None
      | Some (u, d1) \<Rightarrow>
          collect_groups (i + 1) ns d1
            (AList.update u ((case map_of acc u of None \<Rightarrow> [] | Some g \<Rightarrow> g) @ [n]) acc))"

definition NoOPOfNodes :: "exec_node list \<Rightarrow> bool \<Rightarrow> exec_node" where
  "NoOPOfNodes ns isol = NoOPNode new_info (map (\<lambda>n. (no_var, n)) ns) isol"

text \<open>The member \<open>dsu_\<close> outlives the call: it is an argument and a result.\<close>

definition Group ::
  "((64 word \<times> exec_node list) list \<Rightarrow> (64 word \<times> exec_node list) list) \<Rightarrow> exec_node list \<Rightarrow> dsu
     \<Rightarrow> (exec_node list \<times> dsu) option" where
  "Group map_order nodes dsu =
     (if nodes = [] then Some ([], dsu)
      else case visit_roots 0 nodes dsu of
        None \<Rightarrow> None
      | Some d \<Rightarrow>
          (case collect_groups 0 nodes d [] of
             None \<Rightarrow> None
           | Some (groups, d1) \<Rightarrow> Some (map (\<lambda>(_, ns). NoOPOfNodes ns True) (map_order groups), d1)))"


section \<open>What the visitor computes\<close>

fun height :: "exec_node \<Rightarrow> 32 word" where
  "height (UnaryOPNode _ _ c) = height c + 1"
| "height (BinaryOPNode _ _ l r) = max (height l) (height r) + 1"
| "height (FunctionNode _ _ args) = foldl max 0 (map height args) + 1"
| "height (NoOPNode _ args _) = foldl max 0 (map (\<lambda>p. height (snd p)) args) + 1"
| "height (IfNode _ args) = foldl max 0 (map height args) + 1"
| "height (SwitchNode _ args) = foldl max 0 (map height args) + 1"
| "height (IfBlockNode _ args) = foldl max 0 (map height args) + 1"
| "height (RefNode _ _) = 2"
| "height _ = 0"

text \<open>The subtrees of height 1, in the order of the visit.\<close>

definition self_light :: "exec_node \<Rightarrow> exec_node list" where
  "self_light n = (if height n = 1 then [n] else [])"

fun light :: "exec_node \<Rightarrow> exec_node list" where
  "light (UnaryOPNode i op c) = light c @ self_light (UnaryOPNode i op c)"
| "light (BinaryOPNode i op l r) = light l @ light r @ self_light (BinaryOPNode i op l r)"
| "light (FunctionNode i fn args) = concat (map light args) @ self_light (FunctionNode i fn args)"
| "light (NoOPNode i args isol) = concat (map (\<lambda>p. light (snd p)) args) @ self_light (NoOPNode i args isol)"
| "light (IfNode i args) = concat (map light args) @ self_light (IfNode i args)"
| "light (SwitchNode i args) = concat (map light args) @ self_light (SwitchNode i args)"
| "light (IfBlockNode i args) = concat (map light args) @ self_light (IfBlockNode i args)"
| "light n = self_light n"

definition edges :: "64 word \<Rightarrow> exec_node list \<Rightarrow> (64 word \<times> 64 word) list" where
  "edges root ns = map (\<lambda>n. (root, StringHash (NodeToString [] n))) ns"

lemma Unions_append: "Unions d (xs @ ys) = (case Unions d xs of None \<Rightarrow> None | Some d1 \<Rightarrow> Unions d1 ys)"
  by (induction xs arbitrary: d) (auto split: option.splits)

lemma edges_simps [simp]: "edges root [] = []" "edges root (xs @ ys) = edges root xs @ edges root ys"
  by (simp_all add: edges_def)

text \<open>The visit of a tree is the union of the root with all its subtrees of height 1.\<close>

definition then_height :: "32 word \<Rightarrow> dsu option \<Rightarrow> (32 word \<times> dsu) option" where
  "then_height h od = map_option (\<lambda>d. (h, d)) od"

fun light_children :: "exec_node \<Rightarrow> exec_node list" where
  "light_children (UnaryOPNode i op c) = light c"
| "light_children (BinaryOPNode i op l r) = light l @ light r"
| "light_children (FunctionNode i fn args) = concat (map light args)"
| "light_children (NoOPNode i args isol) = concat (map (\<lambda>p. light (snd p)) args)"
| "light_children (IfNode i args) = concat (map light args)"
| "light_children (SwitchNode i args) = concat (map light args)"
| "light_children (IfBlockNode i args) = concat (map light args)"
| "light_children n = []"

lemma light_split: "light n = light_children n @ self_light n"
  by (cases n) simp_all

lemma GetHeight_aux:
  "GetHeight root n d = then_height (height n) (Unions d (edges root (light n)))"
  "VisitHeight root n d = then_height (height n) (Unions d (edges root (light_children n)))"
  "max_height root ns m d = then_height (foldl max m (map height ns)) (Unions d (edges root (concat (map light ns))))"
proof (induction root n d and root n d and root ns m d rule: GetHeight_VisitHeight_max_height.induct)
  case (1 root n d)
  then show ?case
    by (auto simp: light_split [of n] self_light_def then_height_def Unions_append edges_def split: option.splits)
next
  case (10 root i args isol d)
  then show ?case by (simp add: then_height_def comp_def split: option.splits)
qed (simp_all add: then_height_def Unions_append split: option.splits)

lemmas GetHeight_unions = GetHeight_aux(1)

fun all_edges :: "nat \<Rightarrow> exec_node list \<Rightarrow> (64 word \<times> 64 word) list" where
  "all_edges i [] = []"
| "all_edges i (n # ns) = edges (root_id i) (light n) @ all_edges (i + 1) ns"

lemma visit_roots_unions: "visit_roots i ns d = Unions d (all_edges i ns)"
  by (induction ns arbitrary: i d)
    (auto simp: GetHeight_unions then_height_def Unions_append simp del: GetHeight.simps split: option.splits)

section \<open>What the groups are\<close>

definition group_at :: "(64 word \<times> exec_node list) list \<Rightarrow> 64 word \<Rightarrow> exec_node list" where
  "group_at g u = (case map_of g u of None \<Rightarrow> [] | Some ns \<Rightarrow> ns)"

text \<open>The nodes, from index \<open>i\<close>, whose root is in class \<open>u\<close>.\<close>

fun class_nodes :: "(64 word \<Rightarrow> 64 word) \<Rightarrow> nat \<Rightarrow> exec_node list \<Rightarrow> 64 word \<Rightarrow> exec_node list" where
  "class_nodes rep i [] u = []"
| "class_nodes rep i (n # ns) u = (if rep (root_id i) = u then [n] else []) @ class_nodes rep (i + 1) ns u"

fun class_ids :: "(64 word \<Rightarrow> 64 word) \<Rightarrow> nat \<Rightarrow> exec_node list \<Rightarrow> 64 word set" where
  "class_ids rep i [] = {}"
| "class_ids rep i (n # ns) = insert (rep (root_id i)) (class_ids rep (i + 1) ns)"

lemma collect_groups_ok:
  assumes "dsu_rep d rep" "distinct (map fst acc)"
  shows "\<exists>g d'. collect_groups i ns d acc = Some (g, d') \<and> distinct (map fst g)
    \<and> fst ` set g = fst ` set acc \<union> class_ids rep i ns
    \<and> (\<forall>u. group_at g u = group_at acc u @ class_nodes rep i ns u)"
  using assms
proof (induction ns arbitrary: i d acc)
  case (Cons n ns)
  obtain d1 where d1: "Find d (root_id i) = Some (rep (root_id i), d1)" "dsu_rep d1 rep"
    using Find_ok [OF Cons.prems(1)] by blast
  let ?u = "rep (root_id i)"
  let ?acc = "AList.update ?u (group_at acc ?u @ [n]) acc"
  have "distinct (map fst ?acc)" using Cons.prems(2) by (rule distinct_update)
  from Cons.IH [OF d1(2) this, of "i + 1"] obtain g d' where g: "collect_groups (i + 1) ns d1 ?acc = Some (g, d')"
    "distinct (map fst g)" "fst ` set g = fst ` set ?acc \<union> class_ids rep (i + 1) ns"
    "\<forall>u. group_at g u = group_at ?acc u @ class_nodes rep (i + 1) ns u" by blast
  have "group_at ?acc u = (if u = ?u then group_at acc u @ [n] else group_at acc u)" for u
    by (simp add: group_at_def map_of_update)
  with g d1(1) show ?case by (auto simp: group_at_def [symmetric] keys_update)
qed simp

lemma class_nodes_eq:
  "class_nodes rep i ns u = map (\<lambda>j. ns ! j) (filter (\<lambda>j. rep (root_id (i + j)) = u) [0..<length ns])"
proof (induction ns arbitrary: i)
  case (Cons n ns)
  have "[0..<length (n # ns)] = 0 # map Suc [0..<length ns]" by (simp add: upt_conv_Cons map_Suc_upt del: upt_Suc)
  with Cons show ?case by (simp add: filter_map comp_def)
qed simp

lemma class_ids_eq: "class_ids rep i ns = (\<lambda>j. rep (root_id (i + j))) ` {..<length ns}"
proof (induction ns arbitrary: i)
  case (Cons n ns)
  have "{..<length (n # ns)} = insert 0 (Suc ` {..<length ns})" by (simp add: lessThan_Suc_eq_insert_0)
  then have "(\<lambda>j. rep (root_id (i + j))) ` {..<length (n # ns)} =
      insert (rep (root_id i)) ((\<lambda>j. rep (root_id (i + Suc j))) ` {..<length ns})"
    by (simp add: image_image)
  with Cons show ?case by simp
qed simp

lemma groups_by_key:
  assumes "distinct (map fst g)"
  shows "map (\<lambda>(_, ns). F ns) g = map (\<lambda>u. F (group_at g u)) (map fst g)"
  using assms by (auto simp: group_at_def intro!: map_cong)

text \<open>Group returns, up to the order of the hash map, one isolated NoOP node per class of pipelines,
  with the pipelines of the class in their order. Two pipelines are in one class exactly if the
  pairs (root, hash of a subtree of height 1) connect their roots.\<close>

lemma Group_ok:
  assumes ord: "\<And>g. mset (map_order g) = mset g" and ne: "nodes \<noteq> []"
  shows "\<exists>(rep :: 64 word \<Rightarrow> 64 word) us d'. (\<forall>u v. rep u = rep v \<longleftrightarrow> (u, v) \<in> joined (all_edges 0 nodes))
     \<and> distinct us \<and> set us = (\<lambda>i. rep (root_id i)) ` {..<length nodes}
     \<and> Group map_order nodes DsuInit = Some (map (\<lambda>u. NoOPOfNodes
          (map (\<lambda>i. nodes ! i) (filter (\<lambda>i. rep (root_id i) = u) [0..<length nodes])) True) us, d')"
proof -
  obtain d rep where d: "Unions DsuInit (all_edges 0 nodes) = Some d" "dsu_rep d rep"
    "\<forall>u v. rep u = rep v \<longleftrightarrow> (u, v) \<in> joined (all_edges 0 nodes)"
    using Unions_ok [OF dsu_rep_init, of "{}" "all_edges 0 nodes"] by (auto simp: joined_def)
  obtain g d' where g: "collect_groups 0 nodes d [] = Some (g, d')" "distinct (map fst g)"
    "fst ` set g = class_ids rep 0 nodes" "\<forall>u. group_at g u = class_nodes rep 0 nodes u"
    using collect_groups_ok [OF d(2), of "[]" 0 nodes] by (auto simp: group_at_def)
  let ?o = "map_order g"
  have o: "mset (map fst ?o) = mset (map fst g)" using ord [of g] by (metis mset_map)
  have dist: "distinct (map fst ?o)" using g(2) mset_eq_imp_distinct_iff [OF o] by simp
  have "map_of ?o = map_of g"
    using ord [of g] dist g(2) by (metis map_of_inject_set set_mset_mset)
  then have at: "group_at ?o u = class_nodes rep 0 nodes u" for u using g(4) by (simp add: group_at_def)
  have "set (map fst ?o) = (\<lambda>i. rep (root_id i)) ` {..<length nodes}"
    using g(3) mset_eq_setD [OF o] by (simp add: class_ids_eq)
  moreover have "Group map_order nodes DsuInit = Some (map (\<lambda>u. NoOPOfNodes
      (map (\<lambda>i. nodes ! i) (filter (\<lambda>i. rep (root_id i) = u) [0..<length nodes])) True) (map fst ?o), d')"
  proof -
    have "Group map_order nodes DsuInit = Some (map (\<lambda>(_, ns). NoOPOfNodes ns True) ?o, d')"
      using ne d(1) g(1) by (simp add: Group_def visit_roots_unions)
    also have "\<dots> = Some (map (\<lambda>u. NoOPOfNodes (class_nodes rep 0 nodes u) True) (map fst ?o), d')"
      unfolding groups_by_key [OF dist] at ..
    finally show ?thesis by (simp only: class_nodes_eq add_0)
  qed
  ultimately show ?thesis
    using d(3) dist by - (rule exI [of _ rep], rule exI [of _ "map fst ?o"], rule exI [of _ d'], intro conjI)
qed

section \<open>Shared subexpressions\<close>

text \<open>Two pipelines share a subexpression if subtrees of height 1 of both have the same text. The texts
  that are hashed are those and the names of the roots.\<close>

definition light_texts :: "exec_node \<Rightarrow> string set" where
  "light_texts n = NodeToString [] ` set (light n)"

definition shares :: "exec_node list \<Rightarrow> (nat \<times> nat) set" where
  "shares nodes = {(i, j). i < length nodes \<and> j < length nodes \<and> light_texts (nodes ! i) \<inter> light_texts (nodes ! j) \<noteq> {}}"

definition root_text :: "nat \<Rightarrow> string" where
  "root_text i = ''root_'' @ nat_to_string i"

definition hashed_texts :: "exec_node list \<Rightarrow> string set" where
  "hashed_texts nodes = root_text ` {..<length nodes} \<union> (\<Union>n\<in>set nodes. light_texts n)"

lemma NodeToString_bar: "\<exists>s. NodeToString [] n = CHR ''|'' # s"
  by (cases n) simp_all

lemma root_text_no_tree: "root_text i \<noteq> NodeToString [] n"
  using NodeToString_bar [of n] by (auto simp: root_text_def)

lemma set_all_edges: "set (all_edges i ns) =
  {(root_id (i + k), StringHash w) |k w. k < length ns \<and> w \<in> light_texts (ns ! k)}"
proof (induction ns arbitrary: i)
  case (Cons n ns)
  have e: "set (edges (root_id i) (light n)) = {(root_id i, StringHash w) |w. w \<in> light_texts n}"
    by (auto simp: edges_def light_texts_def)
  show ?case unfolding all_edges.simps set_append e Cons.IH
  proof (intro equalityI subsetI)
    fix p assume "p \<in> {(root_id i, StringHash w) |w. w \<in> light_texts n}
      \<union> {(root_id (i + 1 + k), StringHash w) |k w. k < length ns \<and> w \<in> light_texts (ns ! k)}"
    then consider w where "p = (root_id i, StringHash w)" "w \<in> light_texts n"
      | k w where "p = (root_id (i + Suc k), StringHash w)" "k < length ns" "w \<in> light_texts (ns ! k)" by auto
    then show "p \<in> {(root_id (i + k), StringHash w) |k w. k < length (n # ns) \<and> w \<in> light_texts ((n # ns) ! k)}"
    proof cases
      case 1 then show ?thesis by (intro CollectI exI [of _ 0] exI [of _ w]) simp
    next
      case 2 then show ?thesis by (intro CollectI exI [of _ "Suc k"] exI [of _ w]) simp
    qed
  next
    fix p assume "p \<in> {(root_id (i + k), StringHash w) |k w. k < length (n # ns) \<and> w \<in> light_texts ((n # ns) ! k)}"
    then obtain k w where "p = (root_id (i + k), StringHash w)" "k < length (n # ns)" "w \<in> light_texts ((n # ns) ! k)" by auto
    then show "p \<in> {(root_id i, StringHash w) |w. w \<in> light_texts n}
      \<union> {(root_id (i + 1 + k), StringHash w) |k w. k < length ns \<and> w \<in> light_texts (ns ! k)}"
      by (cases k) auto
  qed
qed simp

lemma sym_shares: "(i, j) \<in> shares nodes \<Longrightarrow> (j, i) \<in> shares nodes"
  by (auto simp: shares_def)

text \<open>A chain of shared subexpressions joins the roots, whatever the hash is.\<close>

lemma shares_joined: "(i, j) \<in> (shares nodes)\<^sup>* \<Longrightarrow> (root_id i, root_id j) \<in> joined (all_edges 0 nodes)"
  unfolding joined_def
proof (induction rule: rtrancl_induct)
  case (step k l)
  let ?E = "set (all_edges 0 nodes) \<union> (set (all_edges 0 nodes))\<inverse>"
  from step.hyps(2) obtain w where "k < length nodes" "l < length nodes" "w \<in> light_texts (nodes ! k)" "w \<in> light_texts (nodes ! l)"
    by (auto simp: shares_def)
  then have "(root_id k, StringHash w) \<in> ?E" "(StringHash w, root_id l) \<in> ?E" by (auto simp: set_all_edges)
  with step.IH show ?case by (meson rtrancl.rtrancl_into_rtrancl)
qed simp

text \<open>If the hash has no collisions on these texts, two roots are joined only by such a chain.\<close>

lemma joined_shares:
  assumes inj: "inj_on StringHash (hashed_texts nodes)" and ij: "i < length nodes" "j < length nodes"
    and jn: "(root_id i, root_id j) \<in> joined (all_edges 0 nodes)"
  shows "(i, j) \<in> (shares nodes)\<^sup>*"
proof -
  have root: "root_id k = StringHash (root_text k)" for k by (simp add: root_id_def root_text_def)
  have texts: "w \<in> hashed_texts nodes" if "k < length nodes" "w \<in> light_texts (nodes ! k)" for k w
    using that by (auto simp: hashed_texts_def)
  have roots: "root_text k \<in> hashed_texts nodes" if "k < length nodes" for k using that by (auto simp: hashed_texts_def)
  have rr: "k = l" if "root_id k = root_id l" "k < length nodes" "l < length nodes" for k l
    using inj_onD [OF inj that(1) [unfolded root] roots roots] that(2,3) by (auto simp: root_text_def)
  have rt: "root_id k \<noteq> StringHash w" if "k < length nodes" "l < length nodes" "w \<in> light_texts (nodes ! l)" for k l w
    using inj_onD [OF inj _ roots texts, of k w l] that root_text_no_tree by (auto simp: root light_texts_def)
  have tt: "v = w" if "StringHash v = StringHash w" "k < length nodes" "l < length nodes" "v \<in> light_texts (nodes ! k)" "w \<in> light_texts (nodes ! l)" for v w k l
    using inj_onD [OF inj that(1) texts texts] that(2-) by blast
  from jn have "\<exists>k < length nodes. (i, k) \<in> (shares nodes)\<^sup>*
      \<and> (root_id j = root_id k \<or> root_id j \<in> StringHash ` light_texts (nodes ! k))" unfolding joined_def
  proof induction
    case base
    show ?case using ij(1) by blast
  next
    case (step x y)
    then obtain k where k: "k < length nodes" "(i, k) \<in> (shares nodes)\<^sup>*"
        "x = root_id k \<or> x \<in> StringHash ` light_texts (nodes ! k)" by blast
    from step.hyps(2) obtain l w where l: "l < length nodes" "w \<in> light_texts (nodes ! l)"
        "x = root_id l \<and> y = StringHash w \<or> x = StringHash w \<and> y = root_id l"
      by (auto simp: set_all_edges)
    from l(3) show ?case
    proof (elim disjE conjE)
      assume x: "x = root_id l" "y = StringHash w"
      have "x \<notin> StringHash ` light_texts (nodes ! k)" using rt [OF l(1) k(1)] x(1) by (metis imageE)
      then have "k = l" using k(1,3) rr [OF _ k(1) l(1)] x(1) by metis
      with k(2) x(2) l(1,2) show ?thesis by blast
    next
      assume x: "x = StringHash w" "y = root_id l"
      then obtain v where v: "v \<in> light_texts (nodes ! k)" "StringHash v = StringHash w"
        using k(3) rt [OF k(1) l(1,2)] by (metis imageE)
      then have "v = w" using tt k(1) l(1,2) by blast
      then have "(k, l) \<in> shares nodes" using v(1) k(1) l(1,2) by (auto simp: shares_def)
      with k(2) have "(i, l) \<in> (shares nodes)\<^sup>*" by (rule rtrancl.rtrancl_into_rtrancl)
      with x(2) l(1) show ?thesis by blast
    qed
  qed
  then show "(i, j) \<in> (shares nodes)\<^sup>*" using rr rt ij(2) by blast
qed

text \<open>The classes, as classes of indices.\<close>

lemma Group_shared:
  assumes ord: "\<And>g. mset (map_order g) = mset g" and ne: "nodes \<noteq> []"
  shows "\<exists>(cls :: nat \<Rightarrow> 64 word) us d'.
       (\<forall>i j. (i, j) \<in> (shares nodes)\<^sup>* \<longrightarrow> cls i = cls j)
     \<and> (inj_on StringHash (hashed_texts nodes) \<longrightarrow>
          (\<forall>i<length nodes. \<forall>j<length nodes. cls i = cls j \<longrightarrow> (i, j) \<in> (shares nodes)\<^sup>*))
     \<and> distinct us \<and> set us = cls ` {..<length nodes}
     \<and> Group map_order nodes DsuInit = Some (map (\<lambda>u. NoOPOfNodes
          (map (\<lambda>i. nodes ! i) (filter (\<lambda>i. cls i = u) [0..<length nodes])) True) us, d')"
proof -
  obtain rep :: "64 word \<Rightarrow> 64 word" and us d' where r: "\<forall>u v. rep u = rep v \<longleftrightarrow> (u, v) \<in> joined (all_edges 0 nodes)"
    "distinct us" "set us = (\<lambda>i. rep (root_id i)) ` {..<length nodes}"
    "Group map_order nodes DsuInit = Some (map (\<lambda>u. NoOPOfNodes
          (map (\<lambda>i. nodes ! i) (filter (\<lambda>i. rep (root_id i) = u) [0..<length nodes])) True) us, d')"
    using Group_ok [OF ord ne] by blast
  then show ?thesis using shares_joined [of _ _ nodes] joined_shares [of nodes]
    by - (rule exI [of _ "\<lambda>i. rep (root_id i)"], rule exI [of _ us], rule exI [of _ d'], auto)
qed

end
