(* ===== verification/Elem.thy ===== *)
theory Elem
  imports Ieee "HOL-Library.Signed_Division"
begin

unbundle bit_operations_syntax

text \<open>
  The element types of the lists (include/type.h, \<open>CElementType\<close> of each list structure) and the
  C++ operators the function templates apply to them. A template is a definition that takes the
  operators of its element type as a record. An integer is its value, with the width and the
  signedness of its type; operands narrower than 32 bits are promoted to \<open>int\<close>, and a signed
  overflow, a division by zero and the quotient of the least value by -1 are undefined: \<open>None\<close>. A
  floating-point number is its bit pattern; rounded arithmetic and conversions are parameters.
\<close>

section \<open>C++ integers\<close>

definition in_range :: "nat \<Rightarrow> bool \<Rightarrow> int \<Rightarrow> bool" where
  "in_range w s x \<longleftrightarrow> (if s then - (2 ^ (w - 1)) \<le> x \<and> x < 2 ^ (w - 1) else 0 \<le> x \<and> x < 2 ^ w)"

text \<open>The conversion of any value to an integer type.\<close>

definition convert_int :: "nat \<Rightarrow> bool \<Rightarrow> int \<Rightarrow> int" where
  "convert_int w s x = (if s then (x + 2 ^ (w - 1)) mod 2 ^ w - 2 ^ (w - 1) else x mod 2 ^ w)"

text \<open>A binary operator on two operands of one type: its exact result in the promoted type, stored
  back into the type.\<close>

definition promoted :: "nat \<Rightarrow> bool \<Rightarrow> nat \<times> bool" where
  "promoted w s = (if w < 32 then (32, True) else (w, s))"

definition store_result :: "nat \<Rightarrow> bool \<Rightarrow> int \<Rightarrow> int option" where
  "store_result w s r =
     (case promoted w s of (pw, ps) \<Rightarrow>
        if ps then (if in_range pw True r then Some (convert_int w s r) else None)
        else Some (convert_int w s (convert_int pw False r)))"

definition int_div :: "nat \<Rightarrow> bool \<Rightarrow> int \<Rightarrow> int \<Rightarrow> int option" where
  "int_div w s a b = (if b = 0 then None else store_result w s (a sdiv b))"

text \<open>The remainder is defined only where the quotient is representable.\<close>

definition int_mod :: "nat \<Rightarrow> bool \<Rightarrow> int \<Rightarrow> int \<Rightarrow> int option" where
  "int_mod w s a b =
     (if b = 0 \<or> store_result w s (a sdiv b) = None then None else store_result w s (a smod b))"

section \<open>Element types\<close>

record 'a elem =
  elem_size :: u64
  elem_zero :: 'a
  elem_lowest :: 'a
  elem_max :: 'a
  elem_add :: "'a \<Rightarrow> 'a \<Rightarrow> 'a option"
  elem_sub :: "'a \<Rightarrow> 'a \<Rightarrow> 'a option"
  elem_mul :: "'a \<Rightarrow> 'a \<Rightarrow> 'a option"
  elem_div :: "'a \<Rightarrow> 'a \<Rightarrow> 'a option"
  elem_mod :: "'a \<Rightarrow> 'a \<Rightarrow> 'a option"
  elem_and :: "'a \<Rightarrow> 'a \<Rightarrow> 'a option"
  elem_or :: "'a \<Rightarrow> 'a \<Rightarrow> 'a option"
  elem_xor :: "'a \<Rightarrow> 'a \<Rightarrow> 'a option"
  elem_less :: "'a \<Rightarrow> 'a \<Rightarrow> bool"
  elem_eq :: "'a \<Rightarrow> 'a \<Rightarrow> bool"
  elem_of_nat :: "nat \<Rightarrow> 'a"
  elem_to_f64 :: "'a \<Rightarrow> u64"

text \<open>What the processor does on floating-point numbers, and the libm functions.\<close>

record 'a fp_arith =
  fp_add :: "'a \<Rightarrow> 'a \<Rightarrow> 'a"
  fp_sub :: "'a \<Rightarrow> 'a \<Rightarrow> 'a"
  fp_mul :: "'a \<Rightarrow> 'a \<Rightarrow> 'a"
  fp_div :: "'a \<Rightarrow> 'a \<Rightarrow> 'a"
  fp_of_int :: "int \<Rightarrow> 'a"
  fp_to_f64 :: "'a \<Rightarrow> u64"

definition int_elem :: "(int \<Rightarrow> u64) \<Rightarrow> nat \<Rightarrow> bool \<Rightarrow> int elem" where
  "int_elem to_f64 w s =
     \<lparr>elem_size = of_nat (w div 8), elem_zero = 0,
      elem_lowest = (if s then - (2 ^ (w - 1)) else 0), elem_max = (if s then 2 ^ (w - 1) - 1 else 2 ^ w - 1),
      elem_add = (\<lambda>a b. store_result w s (a + b)), elem_sub = (\<lambda>a b. store_result w s (a - b)),
      elem_mul = (\<lambda>a b. store_result w s (a * b)), elem_div = int_div w s, elem_mod = int_mod w s,
      elem_and = (\<lambda>a b. store_result w s (a AND b)), elem_or = (\<lambda>a b. store_result w s (a OR b)),
      elem_xor = (\<lambda>a b. store_result w s (a XOR b)),
      elem_less = (<), elem_eq = (=), elem_of_nat = (\<lambda>n. convert_int w s (int n)), elem_to_f64 = to_f64\<rparr>"

text \<open>The operators that C++ does not have on floating-point numbers are not instantiated.\<close>

definition fp_elem :: "u64 \<Rightarrow> 'a \<Rightarrow> 'a \<Rightarrow> 'a \<Rightarrow> ('a \<Rightarrow> 'a \<Rightarrow> bool) \<Rightarrow> ('a \<Rightarrow> 'a \<Rightarrow> bool) \<Rightarrow> 'a fp_arith \<Rightarrow> 'a elem" where
  "fp_elem sz z lo hi lt eq fp =
     \<lparr>elem_size = sz, elem_zero = z, elem_lowest = lo, elem_max = hi,
      elem_add = (\<lambda>a b. Some (fp_add fp a b)), elem_sub = (\<lambda>a b. Some (fp_sub fp a b)),
      elem_mul = (\<lambda>a b. Some (fp_mul fp a b)), elem_div = (\<lambda>a b. Some (fp_div fp a b)),
      elem_mod = (\<lambda>_ _. None), elem_and = (\<lambda>_ _. None), elem_or = (\<lambda>_ _. None), elem_xor = (\<lambda>_ _. None),
      elem_less = lt, elem_eq = eq, elem_of_nat = (\<lambda>n. fp_of_int fp (int n)), elem_to_f64 = fp_to_f64 fp\<rparr>"

definition f32_elem :: "u32 fp_arith \<Rightarrow> u32 elem" where
  "f32_elem fp = fp_elem 4 0 0xff7fffff 0x7f7fffff f32_less f32_eq fp"

definition f64_elem :: "u64 fp_arith \<Rightarrow> u64 elem" where
  "f64_elem fp = fp_elem 8 0 0xffefffffffffffff 0x7fefffffffffffff f64_less f64_eq fp"

text \<open>The other comparison operators; an unordered pair satisfies only \<open>!=\<close>.\<close>

definition elem_le :: "'a elem \<Rightarrow> 'a \<Rightarrow> 'a \<Rightarrow> bool" where
  "elem_le T a b \<longleftrightarrow> elem_less T a b \<or> elem_eq T a b"

definition std_max :: "'a elem \<Rightarrow> 'a \<Rightarrow> 'a \<Rightarrow> 'a" where
  "std_max T a b = (if elem_less T a b then b else a)"

definition std_min :: "'a elem \<Rightarrow> 'a \<Rightarrow> 'a \<Rightarrow> 'a" where
  "std_min T a b = (if elem_less T b a then b else a)"

section \<open>Laws of integers\<close>

lemma in_range_convert: "0 < w \<Longrightarrow> in_range w s (convert_int w s x)"
proof (cases s)
  case True
  assume w: "0 < w"
  have p: "(2::int) ^ w = 2 * 2 ^ (w - 1)" using w by (cases w) simp_all
  have "0 \<le> (x + 2 ^ (w - 1)) mod 2 ^ w" "(x + 2 ^ (w - 1)) mod 2 ^ w < 2 ^ w" by simp_all
  with True p show ?thesis by (simp add: in_range_def convert_int_def)
qed (simp add: in_range_def convert_int_def)

lemma convert_in_range: "0 < w \<Longrightarrow> in_range w s x \<Longrightarrow> convert_int w s x = x"
proof (cases s)
  case True
  assume w: "0 < w" and r: "in_range w s x"
  have p: "(2::int) ^ w = 2 * 2 ^ (w - 1)" using w by (cases w) simp_all
  have "(x + 2 ^ (w - 1)) mod 2 ^ w = x + 2 ^ (w - 1)"
    using r True p by (intro mod_pos_pos_trivial) (auto simp: in_range_def)
  with True show ?thesis by (simp add: convert_int_def)
qed (simp add: in_range_def convert_int_def)

lemma convert_cong: "(x - y) mod 2 ^ w = 0 \<Longrightarrow> convert_int w s x = convert_int w s y"
proof -
  assume "(x - y) mod 2 ^ w = 0"
  then have "2 ^ w dvd (x - y)" by presburger
  then have "x mod 2 ^ w = y mod 2 ^ w" "(x + 2 ^ (w - 1)) mod 2 ^ w = (y + 2 ^ (w - 1)) mod 2 ^ w"
    by (auto simp: mod_eq_dvd_iff)
  then show ?thesis by (simp add: convert_int_def)
qed

lemma convert_convert:
  assumes "w \<le> v"
  shows "convert_int w s (convert_int v t x) = convert_int w s x"
proof (rule convert_cong)
  have d: "(2::int) ^ w dvd 2 ^ v" using assms by (rule le_imp_power_dvd)
  have "2 ^ v dvd convert_int v t x - x"
    by (auto simp: convert_int_def mod_eq_dvd_iff [symmetric] mod_diff_left_eq mod_simps algebra_simps)
  with d have "2 ^ w dvd convert_int v t x - x" by (rule dvd_trans)
  then show "(convert_int v t x - x) mod 2 ^ w = 0" by presburger
qed

text \<open>A defined operation stores its exact result modulo the width.\<close>

lemma store_result_Some: "store_result w s r = Some v \<Longrightarrow> v = convert_int w s r"
  by (auto simp: store_result_def promoted_def convert_convert split: if_splits)

lemma store_result_in_range:
  assumes "0 < w" "in_range w s r"
  shows "store_result w s r = Some r"
proof (cases "w < 32")
  case True
  have "(2::int) ^ w \<le> 2 ^ 31" "(2::int) ^ (w - 1) \<le> 2 ^ 31"
    by (rule power_increasing; use True in simp)+
  then have "in_range 32 True r" using assms by (auto simp: in_range_def split: if_splits)
  with True assms show ?thesis by (simp add: store_result_def promoted_def convert_in_range)
next
  case False
  with assms show ?thesis by (auto simp: store_result_def promoted_def convert_in_range)
qed

lemma store_result_unsigned: "32 \<le> w \<Longrightarrow> store_result w False r = Some (convert_int w False r)"
  by (simp add: store_result_def promoted_def convert_convert)

lemma store_result_narrow:
  "w < 32 \<Longrightarrow> - (2 ^ 31) \<le> r \<Longrightarrow> r < 2 ^ 31 \<Longrightarrow> store_result w s r = Some (convert_int w s r)"
  by (simp add: store_result_def promoted_def in_range_def)

end
