(* ===== verification/Buffer.thy ===== *)
theory Buffer
  imports Elem Engine
begin

text \<open>
  What the function templates of src/function/ share: the list structures of include/type.h (a data
  pointer, what the memory behind it holds, and a 32-bit length), reads and writes that have no
  result outside of a buffer, memcpy, the allocation of a buffer in the arena of the context, and
  the counting loops. A fresh buffer holds no values; the arena never hands out memory twice, so a
  list that a function received keeps its contents.
\<close>

section \<open>Lists in memory\<close>

record 'a list_struct =
  ls_data :: addr
  ls_cells :: "'a option list"
  ls_len :: u32

type_synonym string_struct = "char list_struct"
type_synonym string_list_struct = "string_struct list_struct"

definition null_list :: "'a list_struct" where
  "null_list = \<lparr>ls_data = 0, ls_cells = [], ls_len = 0\<rparr>"

abbreviation list_len :: "'a list_struct \<Rightarrow> nat" where
  "list_len a \<equiv> unat (ls_len a)"

definition rd :: "'a option list \<Rightarrow> nat \<Rightarrow> 'a option" where
  "rd cs i = (if i < length cs then cs ! i else None)"

definition wr :: "'a option list \<Rightarrow> nat \<Rightarrow> 'a \<Rightarrow> 'a option list option" where
  "wr cs i v = (if i < length cs then Some (cs[i := Some v]) else None)"

definition rd_block :: "'a option list \<Rightarrow> nat \<Rightarrow> nat \<Rightarrow> 'a list option" where
  "rd_block cs i k = (if i + k \<le> length cs then those (take k (drop i cs)) else None)"

definition wr_block :: "'a option list \<Rightarrow> nat \<Rightarrow> 'a list \<Rightarrow> 'a option list option" where
  "wr_block cs i vs =
     (if i + length vs \<le> length cs then Some (take i cs @ map Some vs @ drop (i + length vs) cs) else None)"

text \<open>memcpy of \<open>k\<close> elements copies bytes, so also cells without a value.\<close>

definition memcpy :: "'a option list \<Rightarrow> nat \<Rightarrow> 'a option list \<Rightarrow> nat \<Rightarrow> nat \<Rightarrow> 'a option list option" where
  "memcpy dst i src j k =
     (if i + k \<le> length dst \<and> j + k \<le> length src
      then Some (take i dst @ take k (drop j src) @ drop (i + k) dst) else None)"

text \<open>\<open>exec_ctx->arena.Allocate(n)\<close> for a buffer of elements of size \<open>esz\<close>: null has no cells.\<close>

definition kDefaultAlignment :: u64 where "kDefaultAlignment = 8"

definition alloc_cells :: "malloc_fun \<Rightarrow> u64 \<Rightarrow> u64 \<Rightarrow> exec_ctx \<Rightarrow> addr \<times> 'a option list \<times> exec_ctx" where
  "alloc_cells malloc esz n c =
     (case Allocate malloc n kDefaultAlignment (ctx_arena c) of (p, ah) \<Rightarrow>
        (p, if p = 0 then [] else replicate (unat n div unat esz) None, c\<lparr>ctx_arena := ah\<rparr>))"

section \<open>Loops\<close>

text \<open>\<open>for (i = from; i < to; ++i)\<close> and the loop with a larger step. The counters of the source do
  not wrap: their bound is at most the largest 32-bit number, and a larger step divides the
  distance to its bound.\<close>

function for_loop :: "nat \<Rightarrow> nat \<Rightarrow> (nat \<Rightarrow> 's \<Rightarrow> 's option) \<Rightarrow> 's \<Rightarrow> 's option" where
  "for_loop i n f s = (if i < n then Option.bind (f i s) (for_loop (Suc i) n f) else Some s)"
  by auto
termination by (relation "measure (\<lambda>(i, n, f, s). n - i)") auto

function for_step :: "nat \<Rightarrow> nat \<Rightarrow> nat \<Rightarrow> (nat \<Rightarrow> 's \<Rightarrow> 's option) \<Rightarrow> 's \<Rightarrow> 's option" where
  "for_step k i n f s =
     (if i < n \<and> 0 < k then Option.bind (f i s) (for_step k (i + k) n f) else Some s)"
  by auto
termination by (relation "measure (\<lambda>(k, i, n, f, s). n - i)") auto

declare for_loop.simps [simp del] for_step.simps [simp del]

lemma for_loop_done [simp]: "n \<le> i \<Longrightarrow> for_loop i n f s = Some s"
  by (subst for_loop.simps) simp

lemma for_loop_Suc: "i < n \<Longrightarrow> for_loop i n f s = Option.bind (f i s) (for_loop (Suc i) n f)"
  by (subst for_loop.simps) simp

lemma for_step_done [simp]: "n \<le> i \<Longrightarrow> for_step k i n f s = Some s"
  by (subst for_step.simps) simp

text \<open>A loop whose state after \<open>j\<close> rounds is \<open>g j\<close>.\<close>

lemma for_step_trace:
  assumes "\<And>j. j < m \<Longrightarrow> f (i + j * k) (g j) = Some (g (Suc j))" "0 < k" "n = i + m * k"
  shows "for_step k i n f (g 0) = Some (g m)"
  using assms
proof (induction m arbitrary: i g)
  case 0
  then show ?case by simp
next
  case (Suc m)
  have f0: "f i (g 0) = Some (g 1)" using Suc.prems(1) [of 0] by simp
  have "for_step k (i + k) n f (g (Suc 0)) = Some (g (Suc m))"
    by (rule Suc.IH [of "i + k" "\<lambda>j. g (Suc j)"])
      (use Suc.prems(1) [of "Suc j" for j] Suc.prems(2,3) in \<open>auto simp: algebra_simps\<close>)
  moreover have "i < n" using Suc.prems(2,3) by simp
  ultimately show ?case using f0 Suc.prems(2) by (subst for_step.simps) simp
qed

lemma for_loop_trace:
  assumes "\<And>j. i \<le> j \<Longrightarrow> j < n \<Longrightarrow> f j (g j) = Some (g (Suc j))" "i \<le> n"
  shows "for_loop i n f (g i) = Some (g n)"
  using assms
proof (induction "n - i" arbitrary: i)
  case 0
  then show ?case by simp
next
  case (Suc d)
  then have "i < n" "d = n - Suc i" "Suc i \<le> n" by auto
  with Suc show ?case by (simp add: for_loop_Suc)
qed

text \<open>A loop with a step larger than 1 is the loop over the blocks.\<close>

lemma for_step_blocks:
  assumes "0 < k"
  shows "for_step k (i * k) (n * k) f s = for_loop i n (\<lambda>j. f (j * k)) s"
proof (induction "n - i" arbitrary: i s)
  case 0
  then show ?case by simp
next
  case (Suc d)
  then have "i < n" "d = n - Suc i" by auto
  with Suc(1) [of "Suc i"] assms show ?case
    by (subst for_step.simps) (simp add: for_loop_Suc add.commute cong: Option.bind_cong)
qed

lemma for_loop_inv:
  assumes "I i s" "i \<le> n" "\<And>j s. i \<le> j \<Longrightarrow> j < n \<Longrightarrow> I j s \<Longrightarrow> \<exists>s'. f j s = Some s' \<and> I (Suc j) s'"
  shows "\<exists>s'. for_loop i n f s = Some s' \<and> I n s'"
  using assms
proof (induction "n - i" arbitrary: i s)
  case 0
  then show ?case by simp
next
  case (Suc d)
  then have i: "i < n" "d = n - Suc i" "Suc i \<le> n" by auto
  obtain s1 where s1: "f i s = Some s1" "I (Suc i) s1" using Suc.prems(3) [OF order.refl i(1) Suc.prems(1)] by auto
  have "\<exists>s'. for_loop (Suc i) n f s1 = Some s' \<and> I n s'"
    by (rule Suc.hyps(1) [OF i(2) s1(2) i(3)]) (use Suc.prems(3) in auto)
  with i s1 show ?case by (simp add: for_loop_Suc)
qed

lemma for_loop_fails:
  assumes "I i s" "\<And>k s s'. i \<le> k \<Longrightarrow> k < j \<Longrightarrow> I k s \<Longrightarrow> f k s = Some s' \<Longrightarrow> I (Suc k) s'"
    "i \<le> j" "j < n" "\<And>s. I j s \<Longrightarrow> f j s = None"
  shows "for_loop i n f s = None"
  using assms
proof (induction "j - i" arbitrary: i s)
  case 0
  then show ?case by (simp add: for_loop_Suc)
next
  case (Suc d)
  then have i: "i < j" "d = j - Suc i" "Suc i \<le> j" by auto
  show ?case
  proof (cases "f i s")
    case None
    with i Suc.prems show ?thesis by (simp add: for_loop_Suc)
  next
    case (Some s1)
    have "for_loop (Suc i) n f s1 = None"
      by (rule Suc.hyps(1) [OF i(2)]) (use Suc.prems i Some in auto)
    with Some i Suc.prems show ?thesis by (simp add: for_loop_Suc)
  qed
qed

lemma for_step_inv:
  assumes "I 0 s" "\<And>j s. j < m \<Longrightarrow> I j s \<Longrightarrow> \<exists>s'. f (j * k) s = Some s' \<and> I (Suc j) s'" "0 < k"
  shows "\<exists>s'. for_step k 0 (m * k) f s = Some s' \<and> I m s'"
  using for_loop_inv [of I 0 s m "\<lambda>j. f (j * k)"] assms for_step_blocks [of k 0 m f s] by simp

lemma for_loop_cong [fundef_cong]:
  assumes "i = i'" "n = n'" "s = s'" "\<And>j s. j < n' \<Longrightarrow> f j s = f' j s"
  shows "for_loop i n f s = for_loop i' n' f' s'"
proof -
  have "for_loop i n f s = for_loop i n f' s"
    using assms(2,4)
  proof (induction "n - i" arbitrary: i s)
    case 0
    then show ?case by simp
  next
    case (Suc d)
    then have "i < n" "d = n - Suc i" by auto
    with Suc show ?case by (cases "f' i s") (simp_all add: for_loop_Suc)
  qed
  with assms show ?thesis by simp
qed

lemma for_loop_split:
  "i \<le> m \<Longrightarrow> m \<le> n \<Longrightarrow> for_loop i n f s = Option.bind (for_loop i m f s) (for_loop m n f)"
proof (induction "m - i" arbitrary: i s)
  case 0
  then show ?case by simp
next
  case (Suc d)
  then have "i < m" "i < n" "d = m - Suc i" by auto
  with Suc show ?case by (cases "f i s") (simp_all add: for_loop_Suc)
qed

section \<open>Lists that hold values\<close>

text \<open>The structure holds exactly the values: its length is their number and each is in its cell.\<close>

definition holds :: "'a list_struct \<Rightarrow> 'a list \<Rightarrow> bool" where
  "holds a xs \<longleftrightarrow> list_len a = length xs \<and> length xs \<le> length (ls_cells a)
     \<and> take (length xs) (ls_cells a) = map Some xs"

definition lst :: "addr \<Rightarrow> 'a list \<Rightarrow> 'a list_struct" where
  "lst p xs = \<lparr>ls_data = p, ls_cells = map Some xs, ls_len = of_nat (length xs)\<rparr>"

lemma holds_lst [simp]: "length xs < 2 ^ 32 \<Longrightarrow> holds (lst p xs) xs"
  by (simp add: holds_def lst_def unat_of_nat)

lemma holds_len: "holds a xs \<Longrightarrow> list_len a = length xs"
  by (simp add: holds_def)

lemma holds_bound: "holds a xs \<Longrightarrow> length xs < 2 ^ 32"
  using unsigned_less [of "ls_len a", where ?'a = nat] by (simp add: holds_def)

lemma holds_len_eq: "holds a xs \<Longrightarrow> ls_len a = of_nat (length xs)"
  by (rule word_unat_eq_iff [THEN iffD2]) (simp add: holds_len unat_of_nat holds_bound [simplified])

lemma holds_rd: "holds a xs \<Longrightarrow> i < length xs \<Longrightarrow> rd (ls_cells a) i = Some (xs ! i)"
proof -
  assume h: "holds a xs" and i: "i < length xs"
  have "ls_cells a ! i = take (length xs) (ls_cells a) ! i" using i by simp
  also have "\<dots> = Some (xs ! i)" using h i by (simp add: holds_def del: nth_take)
  finally show ?thesis using h i by (simp add: rd_def holds_def)
qed

lemma holds_inj: "holds a xs \<Longrightarrow> holds a ys \<Longrightarrow> xs = ys"
  by (metis holds_def inj_Some inj_map_eq_map)

lemma holds_null [simp]: "holds null_list []"
  by (simp add: holds_def null_list_def)

lemma those_Some: "those xs = Some ys \<longleftrightarrow> xs = map Some ys"
proof (induction xs arbitrary: ys)
  case Nil
  then show ?case by auto
next
  case (Cons x xs)
  then show ?case by (cases x; cases ys) (auto simp: map_option_case split: option.splits)
qed

lemma those_append:
  "those (xs @ ys) = Option.bind (those xs) (\<lambda>us. map_option (\<lambda>vs. us @ vs) (those ys))"
proof (induction xs)
  case Nil
  then show ?case by (cases "those ys") simp_all
next
  case (Cons x xs)
  then show ?case by (cases x; cases "those xs"; cases "those ys") simp_all
qed

lemma those_length: "those xs = Some ys \<Longrightarrow> length ys = length xs"
  by (auto simp: those_Some)

lemma holds_rd_block:
  "holds a xs \<Longrightarrow> i + k \<le> length xs \<Longrightarrow> rd_block (ls_cells a) i k = Some (take k (drop i xs))"
proof -
  assume h: "holds a xs" and ik: "i + k \<le> length xs"
  have "take k (drop i (ls_cells a)) = take k (drop i (take (length xs) (ls_cells a)))"
    using ik by (simp add: drop_take min_def)
  also have "\<dots> = map Some (take k (drop i xs))"
    using h by (simp add: holds_def drop_map take_map)
  finally show ?thesis using h ik by (simp add: rd_block_def holds_def)
qed

lemma length_wr: "wr cs i v = Some cs' \<Longrightarrow> length cs' = length cs"
  by (auto simp: wr_def split: if_splits)

lemma rd_map_Some: "i < length ys \<Longrightarrow> rd (map Some ys) i = Some (ys ! i)"
  by (simp add: rd_def)

lemma wr_map_Some: "i < length ys \<Longrightarrow> wr (map Some ys) i v = Some (map Some (ys[i := v]))"
  by (simp add: wr_def map_update)

section \<open>Filling a buffer\<close>

text \<open>The buffer after the first \<open>j\<close> elements of the result have been stored.\<close>

definition filled :: "nat \<Rightarrow> 'a list \<Rightarrow> 'a option list \<Rightarrow> 'a option list" where
  "filled j ys cs = map Some (take j ys) @ drop j cs"

lemma filled_0 [simp]: "filled 0 ys cs = cs"
  by (simp add: filled_def)

lemma filled_all: "length ys = length cs \<Longrightarrow> filled (length ys) ys cs = map Some ys"
  by (simp add: filled_def)

lemma length_filled [simp]: "j \<le> length ys \<Longrightarrow> j \<le> length cs \<Longrightarrow> length (filled j ys cs) = length cs"
  by (simp add: filled_def)

lemma wr_filled:
  assumes "j < length ys" "j < length cs"
  shows "wr (filled j ys cs) j (ys ! j) = Some (filled (Suc j) ys cs)"
proof -
  have "(map Some (take j ys) @ drop j cs)[j := Some (ys ! j)] = map Some (take (Suc j) ys) @ drop (Suc j) cs"
    using assms by (simp add: list_update_append take_Suc_conv_app_nth Cons_nth_drop_Suc [symmetric])
  with assms show ?thesis by (simp add: wr_def filled_def)
qed

lemma wr_block_filled:
  assumes "j + k \<le> length ys" "j + k \<le> length cs"
  shows "wr_block (filled j ys cs) j (take k (drop j ys)) = Some (filled (j + k) ys cs)"
proof -
  have l: "length (take k (drop j ys)) = k" "length (map Some (take j ys)) = j" using assms by auto
  have "take j (filled j ys cs) = map Some (take j ys)" "drop (j + k) (filled j ys cs) = drop (j + k) cs"
    using l(2) assms by (simp_all add: filled_def add.commute)
  then show ?thesis
    using assms l by (simp add: wr_block_def take_add) (simp add: filled_def take_add)
qed

text \<open>A loop that stores one computed element per round. It has a result exactly if every
  element has.\<close>

lemma fill_loop_from:
  assumes "n \<le> length cs" "i \<le> n" "length us = i"
  shows "for_loop i n (\<lambda>i cs. Option.bind (f i) (wr cs i)) (map Some us @ drop i cs)
    = map_option (\<lambda>ys. map Some (us @ ys) @ drop n cs) (those (map f [i..<n]))"
  using assms
proof (induction "n - i" arbitrary: i us)
  case 0
  then show ?case by simp
next
  case (Suc d)
  then have lt: "i < n" and d: "d = n - Suc i" by auto
  have up: "[i..<n] = i # [Suc i..<n]" using lt by (rule upt_conv_Cons)
  show ?case
  proof (cases "f i")
    case None
    with lt up show ?thesis by (simp add: for_loop_Suc)
  next
    case (Some v)
    have "i < length cs" using lt Suc.prems(1) by simp
    then have "(map Some us @ drop i cs)[i := Some v] = map Some (us @ [v]) @ drop (Suc i) cs"
      using Suc.prems(3) by (simp add: list_update_append Cons_nth_drop_Suc [symmetric])
    with \<open>i < length cs\<close> have w: "wr (map Some us @ drop i cs) i v = Some (map Some (us @ [v]) @ drop (Suc i) cs)"
      using Suc.prems(3) by (simp add: wr_def)
    have "for_loop (Suc i) n (\<lambda>i cs. Option.bind (f i) (wr cs i)) (map Some (us @ [v]) @ drop (Suc i) cs)
      = map_option (\<lambda>ys. map Some ((us @ [v]) @ ys) @ drop n cs) (those (map f [Suc i..<n]))"
      by (rule Suc.hyps(1) [OF d]) (use Suc.prems lt in auto)
    with Some lt up w show ?thesis by (simp add: for_loop_Suc option.map_comp o_def)
  qed
qed

lemma fill_loop:
  "n \<le> length cs \<Longrightarrow> for_loop 0 n (\<lambda>i cs. Option.bind (f i) (wr cs i)) cs
    = map_option (\<lambda>ys. map Some ys @ drop n cs) (those (map f [0..<n]))"
  using fill_loop_from [of n cs 0 "[]" f] by simp

lemma those_map_holds:
  "holds a xs \<Longrightarrow> n = length xs
    \<Longrightarrow> map (\<lambda>i. Option.bind (rd (ls_cells a) i) f) [0..<n] = map f xs"
  by (rule nth_equalityI) (simp_all add: holds_rd)

lemma those_map_holds2:
  "holds a xs \<Longrightarrow> holds b ys \<Longrightarrow> length xs = length ys \<Longrightarrow> n = length xs
    \<Longrightarrow> map (\<lambda>i. Option.bind (rd (ls_cells a) i) (\<lambda>x. Option.bind (rd (ls_cells b) i) (f x))) [0..<n]
      = map2 f xs ys"
  by (rule nth_equalityI) (simp_all add: holds_rd)

section \<open>Allocation\<close>

text \<open>The allocation of \<open>n\<close> bytes succeeds; nothing is requested for 0 bytes.\<close>

definition can_allocate :: "malloc_fun \<Rightarrow> exec_ctx \<Rightarrow> u64 \<Rightarrow> bool" where
  "can_allocate malloc c n \<longleftrightarrow> n = 0 \<or> fst (Allocate malloc n kDefaultAlignment (ctx_arena c)) \<noteq> 0"

definition arena_ptr :: "malloc_fun \<Rightarrow> exec_ctx \<Rightarrow> u64 \<Rightarrow> addr" where
  "arena_ptr malloc c n = fst (Allocate malloc n kDefaultAlignment (ctx_arena c))"

definition after_alloc :: "malloc_fun \<Rightarrow> exec_ctx \<Rightarrow> u64 \<Rightarrow> exec_ctx" where
  "after_alloc malloc c n = c\<lparr>ctx_arena := snd (Allocate malloc n kDefaultAlignment (ctx_arena c))\<rparr>"

lemma errors_after_alloc [simp]: "errors (after_alloc malloc c n) = errors c"
  by (simp add: after_alloc_def)

lemma alloc_cells_eq:
  "can_allocate malloc c n
    \<Longrightarrow> alloc_cells malloc esz n c = (arena_ptr malloc c n, replicate (unat n div unat esz) None, after_alloc malloc c n)"
  by (auto simp: alloc_cells_def can_allocate_def arena_ptr_def after_alloc_def Allocate_def split: prod.splits)

text \<open>The byte count of a list of at most \<open>2^32\<close> elements does not wrap.\<close>

lemma unat_ucast_u32 [simp]: "unat (ucast (n :: u32) :: u64) = unat n"
proof -
  have "take_bit 64 (unat n) = unat n"
    using unsigned_less [of n, where ?'a = nat] by (intro take_bit_nat_eq_self) simp
  then show ?thesis by (simp add: unsigned_ucast_eq)
qed

lemma unat_mult_bytes:
  assumes "unat esz \<le> 16"
  shows "unat (ucast (n :: u32) * esz :: u64) = unat n * unat esz"
proof -
  have "unat n \<le> 2 ^ 32 - 1" using unsigned_less [of n, where ?'a = nat] by simp
  then have "unat n * unat esz \<le> (2 ^ 32 - 1) * 16" using assms by (rule mult_le_mono)
  then have "unat (ucast n :: u64) * unat esz < 2 ^ LENGTH(64)" by simp
  then show ?thesis by (simp only: unat_mult_lem) simp
qed

lemma unat_bytes:
  assumes "unat esz \<le> 16" "esz \<noteq> 0"
  shows "unat (ucast (n :: u32) * esz :: u64) div unat esz = unat n"
  using assms by (simp add: unat_mult_bytes unat_eq_0)

definition elem_ok :: "'a elem \<Rightarrow> bool" where
  "elem_ok T \<longleftrightarrow> elem_size T \<noteq> 0 \<and> unat (elem_size T) \<le> 16"

lemma elem_ok_int: "w \<in> {8, 16, 32, 64} \<Longrightarrow> elem_ok (int_elem f w s)"
  by (auto simp: elem_ok_def int_elem_def)

lemma elem_ok_float [simp]: "elem_ok (f32_elem fp)" "elem_ok (f64_elem fp')"
  by (simp_all add: elem_ok_def f32_elem_def f64_elem_def fp_elem_def)

text \<open>The bytes of \<open>n\<close> elements, and their allocation.\<close>

abbreviation list_bytes :: "'a elem \<Rightarrow> u32 \<Rightarrow> u64" where
  "list_bytes T n \<equiv> ucast n * elem_size T"

lemma alloc_cells_elem:
  assumes "can_allocate malloc c (list_bytes T n)" "elem_ok T"
  shows "alloc_cells malloc (elem_size T) (list_bytes T n) c
    = (arena_ptr malloc c (list_bytes T n), replicate (unat n) None, after_alloc malloc c (list_bytes T n))"
  using assms by (simp add: alloc_cells_eq unat_bytes elem_ok_def)

end
