(* ===== verification/ListArithmetic.thy ===== *)
theory ListArithmetic
  imports Buffer
begin

text \<open>
  Model of the function templates of src/function/list_arithmetic.cc: elementwise arithmetic of a
  list with a scalar or with a list of the same length. Where the source is built with xsimd, a
  loop over whole batches comes first; the library is a parameter, one function per operation on
  batches, and a batch size of 0 stands for a build without it.
\<close>

section \<open>The vector library\<close>

record 'a simd =
  kBatchSize :: nat
  simd_add :: "'a list \<Rightarrow> 'a list \<Rightarrow> 'a list option"
  simd_sub :: "'a list \<Rightarrow> 'a list \<Rightarrow> 'a list option"
  simd_mul :: "'a list \<Rightarrow> 'a list \<Rightarrow> 'a list option"
  simd_div :: "'a list \<Rightarrow> 'a list \<Rightarrow> 'a list option"
  simd_mod :: "'a list \<Rightarrow> 'a list \<Rightarrow> 'a list option"
  simd_and :: "'a list \<Rightarrow> 'a list \<Rightarrow> 'a list option"
  simd_or :: "'a list \<Rightarrow> 'a list \<Rightarrow> 'a list option"
  simd_xor :: "'a list \<Rightarrow> 'a list \<Rightarrow> 'a list option"
  simd_min :: "'a list \<Rightarrow> 'a list \<Rightarrow> 'a list option"
  simd_max :: "'a list \<Rightarrow> 'a list \<Rightarrow> 'a list option"
  simd_positive :: "'a list \<Rightarrow> bool list"
  simd_select :: "bool list \<Rightarrow> 'a list \<Rightarrow> 'a list \<Rightarrow> 'a list"

text \<open>A function of libm on one element, and its counterpart on a batch.\<close>

record ('a, 'b) libm =
  libm_scalar :: "'a \<Rightarrow> 'b"
  libm_batch :: "'a list \<Rightarrow> 'b list"

section \<open>The loops\<close>

definition mismatch :: "string \<Rightarrow> u32 \<Rightarrow> u32 \<Rightarrow> string" where
  "mismatch fname l r =
     fname @ '': lhs and rhs len mismatch, lhs len: '' @ nat_to_string (unat l)
       @ '', rhs len: '' @ nat_to_string (unat r)"

text \<open>A list and a scalar: allocate, then store \<open>op (a.data[i]) b\<close> for each index.\<close>

definition list_scalar :: "u64 \<Rightarrow> ('a \<Rightarrow> 'b option) \<Rightarrow> malloc_fun \<Rightarrow> 'a list_struct \<Rightarrow> exec_ctx
     \<Rightarrow> ('b list_struct \<times> exec_ctx) option" where
  "list_scalar esz op malloc a c =
     (case alloc_cells malloc esz (ucast (ls_len a) * esz) c of (p, cs, c1) \<Rightarrow>
        map_option (\<lambda>cs'. (\<lparr>ls_data = p, ls_cells = cs', ls_len = ls_len a\<rparr>, c1))
          (for_loop 0 (list_len a) (\<lambda>i cs. Option.bind (Option.bind (rd (ls_cells a) i) op) (wr cs i)) cs))"

text \<open>The batched loop over the first \<open>vec_size\<close> elements, then the scalar loop over the rest.\<close>

definition vec_size :: "nat \<Rightarrow> nat \<Rightarrow> nat" where
  "vec_size k n = (if k = 0 then 0 else n - n mod k)"

definition batched_loop :: "nat \<Rightarrow> nat \<Rightarrow> (nat \<Rightarrow> 'a option list \<Rightarrow> 'a list option)
     \<Rightarrow> (nat \<Rightarrow> 'a option list \<Rightarrow> 'a option) \<Rightarrow> 'a option list \<Rightarrow> 'a option list option" where
  "batched_loop k n vop op cs =
     Option.bind (for_step k 0 (vec_size k n) (\<lambda>i cs. Option.bind (vop i cs) (wr_block cs i)) cs)
       (for_loop (vec_size k n) n (\<lambda>i cs. Option.bind (op i cs) (wr cs i)))"

definition list_list :: "string \<Rightarrow> 'a elem \<Rightarrow> nat \<Rightarrow> ('a list \<Rightarrow> 'a list \<Rightarrow> 'a list option) \<Rightarrow> ('a \<Rightarrow> 'a \<Rightarrow> 'a option)
     \<Rightarrow> malloc_fun \<Rightarrow> 'a list_struct \<Rightarrow> 'a list_struct \<Rightarrow> exec_ctx \<Rightarrow> ('a list_struct \<times> exec_ctx) option" where
  "list_list fname T k vop op malloc a b c =
     (if ls_len a \<noteq> ls_len b then Some (null_list, AddError (mismatch fname (ls_len a) (ls_len b)) c)
      else
        (case alloc_cells malloc (elem_size T) (ucast (ls_len a) * elem_size T) c of (p, cs, c1) \<Rightarrow>
           map_option (\<lambda>cs'. (\<lparr>ls_data = p, ls_cells = cs', ls_len = ls_len a\<rparr>, c1))
             (batched_loop k (list_len a)
               (\<lambda>i _. Option.bind (rd_block (ls_cells a) i k) (\<lambda>xs. Option.bind (rd_block (ls_cells b) i k) (vop xs)))
               (\<lambda>i _. Option.bind (rd (ls_cells a) i) (\<lambda>x. Option.bind (rd (ls_cells b) i) (op x))) cs)))"

text \<open>The functions of one list, whose result type may differ.\<close>

definition list_unary :: "u64 \<Rightarrow> nat \<Rightarrow> ('a, 'b) libm \<Rightarrow> malloc_fun \<Rightarrow> 'a list_struct \<Rightarrow> exec_ctx
     \<Rightarrow> ('b list_struct \<times> exec_ctx) option" where
  "list_unary esz k f malloc a c =
     (case alloc_cells malloc esz (ucast (ls_len a) * esz) c of (p, cs, c1) \<Rightarrow>
        map_option (\<lambda>cs'. (\<lparr>ls_data = p, ls_cells = cs', ls_len = ls_len a\<rparr>, c1))
          (batched_loop k (list_len a)
            (\<lambda>i _. map_option (libm_batch f) (rd_block (ls_cells a) i k))
            (\<lambda>i _. map_option (libm_scalar f) (rd (ls_cells a) i)) cs))"

text \<open>ListMin and ListMax: the scalar is spread over a batch.\<close>

definition list_extremum :: "'a elem \<Rightarrow> nat \<Rightarrow> ('a list \<Rightarrow> 'a list \<Rightarrow> 'a list option) \<Rightarrow> ('a \<Rightarrow> 'a \<Rightarrow> 'a)
     \<Rightarrow> malloc_fun \<Rightarrow> 'a list_struct \<Rightarrow> 'a \<Rightarrow> exec_ctx \<Rightarrow> ('a list_struct \<times> exec_ctx) option" where
  "list_extremum T k vop op malloc a b c =
     (case alloc_cells malloc (elem_size T) (ucast (ls_len a) * elem_size T) c of (p, cs, c1) \<Rightarrow>
        map_option (\<lambda>cs'. (\<lparr>ls_data = p, ls_cells = cs', ls_len = ls_len a\<rparr>, c1))
          (batched_loop k (list_len a)
            (\<lambda>i _. Option.bind (rd_block (ls_cells a) i k) (\<lambda>xs. vop xs (replicate k b)))
            (\<lambda>i _. map_option (\<lambda>x. op x b) (rd (ls_cells a) i)) cs))"

section \<open>The templates\<close>

definition ListAdd where "ListAdd T malloc a b c = list_scalar (elem_size T) (\<lambda>x. elem_add T x b) malloc a c"
definition ListSub where "ListSub T malloc a b c = list_scalar (elem_size T) (\<lambda>x. elem_sub T x b) malloc a c"
definition ListMul where "ListMul T malloc a b c = list_scalar (elem_size T) (\<lambda>x. elem_mul T x b) malloc a c"
definition ListDiv where "ListDiv T malloc a b c = list_scalar (elem_size T) (\<lambda>x. elem_div T x b) malloc a c"
definition ListMod where "ListMod T malloc a b c = list_scalar (elem_size T) (\<lambda>x. elem_mod T x b) malloc a c"

definition ListBitwiseAnd where
  "ListBitwiseAnd T malloc a b c = list_scalar (elem_size T) (\<lambda>x. elem_and T x b) malloc a c"
definition ListBitwiseOr where
  "ListBitwiseOr T malloc a b c = list_scalar (elem_size T) (\<lambda>x. elem_or T x b) malloc a c"
definition ListBitwiseXor where
  "ListBitwiseXor T malloc a b c = list_scalar (elem_size T) (\<lambda>x. elem_xor T x b) malloc a c"

definition ListAddList where
  "ListAddList T v malloc a b c = list_list ''ListAddList'' T (kBatchSize v) (simd_add v) (elem_add T) malloc a b c"
definition ListSubList where
  "ListSubList T v malloc a b c = list_list ''ListSubList'' T (kBatchSize v) (simd_sub v) (elem_sub T) malloc a b c"
definition ListMulList where
  "ListMulList T v malloc a b c = list_list ''ListMulList'' T (kBatchSize v) (simd_mul v) (elem_mul T) malloc a b c"
definition ListDivList where
  "ListDivList T v malloc a b c = list_list ''ListDivList'' T (kBatchSize v) (simd_div v) (elem_div T) malloc a b c"
definition ListModList where
  "ListModList T v malloc a b c = list_list ''ListModList'' T (kBatchSize v) (simd_mod v) (elem_mod T) malloc a b c"
definition ListBitwiseAndList where
  "ListBitwiseAndList T v malloc a b c =
     list_list ''ListBitwiseAndList'' T (kBatchSize v) (simd_and v) (elem_and T) malloc a b c"
definition ListBitwiseOrList where
  "ListBitwiseOrList T v malloc a b c =
     list_list ''ListBitwiseOrList'' T (kBatchSize v) (simd_or v) (elem_or T) malloc a b c"
definition ListBitwiseXorList where
  "ListBitwiseXorList T v malloc a b c =
     list_list ''ListBitwiseXorList'' T (kBatchSize v) (simd_xor v) (elem_xor T) malloc a b c"

definition ListExp where "ListExp R k exp_f malloc a c = list_unary (elem_size R) k exp_f malloc a c"
definition ListLog where "ListLog R k log_f malloc a c = list_unary (elem_size R) k log_f malloc a c"
definition ListLog2 where "ListLog2 R k log2_f malloc a c = list_unary (elem_size R) k log2_f malloc a c"
definition ListLog10 where "ListLog10 R k log10_f malloc a c = list_unary (elem_size R) k log10_f malloc a c"
definition ListCeil where "ListCeil T k ceil_f malloc a c = list_unary (elem_size T) k ceil_f malloc a c"
definition ListFloor where "ListFloor T k floor_f malloc a c = list_unary (elem_size T) k floor_f malloc a c"
definition ListRound where "ListRound T k round_f malloc a c = list_unary (elem_size T) k round_f malloc a c"

definition ListMin where
  "ListMin T v malloc a b c = list_extremum T (kBatchSize v) (simd_min v) (std_min T) malloc a b c"
definition ListMax where
  "ListMax T v malloc a b c = list_extremum T (kBatchSize v) (simd_max v) (std_max T) malloc a b c"

section \<open>What the loops compute\<close>

text \<open>Without batches, the values of all elements, or no result where one has none.\<close>

lemma list_scalar_spec:
  assumes a: "holds a xs" and R: "elem_ok R" and can: "can_allocate malloc c (list_bytes R (ls_len a))"
  shows "list_scalar (elem_size R) op malloc a c
    = map_option (\<lambda>ys. (lst (arena_ptr malloc c (list_bytes R (ls_len a))) ys,
                         after_alloc malloc c (list_bytes R (ls_len a)))) (those (map op xs))"
proof -
  have n: "list_len a = length xs" using a by (rule holds_len)
  have "for_loop 0 (length xs) (\<lambda>i cs. Option.bind (Option.bind (rd (ls_cells a) i) op) (wr cs i)) (replicate (length xs) None)
    = map_option (\<lambda>ys. map Some ys) (those (map op xs))"
    using fill_loop [of "length xs" "replicate (length xs) None" "\<lambda>i. Option.bind (rd (ls_cells a) i) op"]
    by (simp add: those_map_holds [OF a])
  then show ?thesis
    unfolding list_scalar_def alloc_cells_elem [OF can R] prod.case n
    by (cases "those (map op xs)") (auto simp: lst_def holds_len_eq [OF a] dest: those_length)
qed

text \<open>A batch operation that agrees with the scalar operation wherever that has a value.\<close>

definition lanewise :: "nat \<Rightarrow> ('a list \<Rightarrow> 'a list \<Rightarrow> 'a list option) \<Rightarrow> ('a \<Rightarrow> 'a \<Rightarrow> 'a option) \<Rightarrow> bool" where
  "lanewise k vop op \<longleftrightarrow>
     (\<forall>xs ys zs. length xs = k \<longrightarrow> length ys = k \<longrightarrow> map2 op xs ys = map Some zs \<longrightarrow> vop xs ys = Some zs)"

lemma vec_size_le: "vec_size k n \<le> n"
  by (simp add: vec_size_def)

lemma vec_size_mult: "vec_size k n = (n div k) * k"
  by (simp add: vec_size_def minus_mod_eq_div_mult)

lemma block_inside: "j < n div k \<Longrightarrow> j * k + k \<le> (n::nat)"
proof -
  assume "j < n div k"
  then have "Suc j * k \<le> n div k * k" by (intro mult_right_mono) simp_all
  also have "\<dots> \<le> n" by simp
  finally show ?thesis by (simp add: add.commute)
qed

text \<open>The two loops store the elements of a list if each batch and each element is that of the list.\<close>

lemma batched_loop_fills:
  assumes len: "length ys = n" "length cs = n"
    and vop: "\<And>j. j < n div k \<Longrightarrow> vop (j * k) (filled (j * k) ys cs) = Some (take k (drop (j * k) ys))"
    and op: "\<And>i. n div k * k \<le> i \<Longrightarrow> i < n \<Longrightarrow> op i (filled i ys cs) = Some (ys ! i)"
  shows "batched_loop k n vop op cs = Some (map Some ys)"
proof -
  let ?v = "vec_size k n"
  have v: "?v = n div k * k" by (rule vec_size_mult)
  have "for_step k 0 ?v (\<lambda>i cs. Option.bind (vop i cs) (wr_block cs i)) cs = Some (filled ?v ys cs)"
  proof (cases "k = 0")
    case True
    then show ?thesis by (simp add: vec_size_def)
  next
    case False
    have "for_step k 0 ?v (\<lambda>i cs. Option.bind (vop i cs) (wr_block cs i)) (filled (0 * k) ys cs)
      = Some (filled (n div k * k) ys cs)"
    proof (rule for_step_trace [where g = "\<lambda>j. filled (j * k) ys cs"])
      fix j assume j: "j < n div k"
      then show "Option.bind (vop (0 + j * k) (filled (j * k) ys cs)) (wr_block (filled (j * k) ys cs) (0 + j * k))
        = Some (filled (Suc j * k) ys cs)"
        using len block_inside [OF j] by (simp add: vop wr_block_filled add.commute)
    qed (use False v in simp_all)
    then show ?thesis by (simp add: v)
  qed
  moreover have "for_loop ?v n (\<lambda>i cs. Option.bind (op i cs) (wr cs i)) (filled ?v ys cs) = Some (filled n ys cs)"
    by (rule for_loop_trace [where g = "\<lambda>j. filled j ys cs"]) (use len v in \<open>simp_all add: op wr_filled\<close>)
  ultimately show ?thesis using len filled_all [of ys cs] by (simp add: batched_loop_def)
qed

lemma those_map2: "those (map2 f xs ys) = Some zs \<longleftrightarrow> map2 f xs ys = map Some zs"
  by (rule those_Some)

lemma map2_block:
  assumes "map2 op xs ys = map Some zs" "length xs = length ys"
  shows "map2 op (take k (drop i xs)) (take k (drop i ys)) = map Some (take k (drop i zs))"
  using assms by (simp flip: take_zip drop_zip take_map drop_map)

text \<open>Lists of one length: the pointwise results, whatever the batch size.\<close>

lemma list_list_spec:
  assumes a: "holds a xs" and b: "holds b ys" and eq: "length xs = length ys"
    and T: "elem_ok T" and can: "can_allocate malloc c (list_bytes T (ls_len a))" and lw: "lanewise k vop op" and zs: "map2 op xs ys = map Some zs"
  shows "list_list fname T k vop op malloc a b c = Some (lst (arena_ptr malloc c (list_bytes T (ls_len a))) zs, after_alloc malloc c (list_bytes T (ls_len a)))"
proof -
  have n: "list_len a = length xs" "ls_len a = of_nat (length xs)" "ls_len b = of_nat (length xs)"
    using holds_len [OF a] holds_len_eq [OF a] holds_len_eq [OF b] eq by simp_all
  have lz: "length zs = length xs" using arg_cong [OF zs, of length] eq by simp
  have zi: "op (xs ! i) (ys ! i) = Some (zs ! i)" if "i < length xs" for i
    using arg_cong [OF zs, of "\<lambda>l. l ! i"] that eq lz by simp
  have "batched_loop k (length xs)
      (\<lambda>i _. Option.bind (rd_block (ls_cells a) i k) (\<lambda>xs. Option.bind (rd_block (ls_cells b) i k) (vop xs)))
      (\<lambda>i _. Option.bind (rd (ls_cells a) i) (\<lambda>x. Option.bind (rd (ls_cells b) i) (op x))) (replicate (length xs) None) = Some (map Some zs)"
  proof (rule batched_loop_fills [OF lz])
    fix j assume "j < length xs div k"
    then have i: "j * k + k \<le> length xs" by (rule block_inside)
    moreover have "vop (take k (drop (j * k) xs)) (take k (drop (j * k) ys)) = Some (take k (drop (j * k) zs))"
      using lw map2_block [OF zs eq, of k "j * k"] i eq by (auto simp: lanewise_def)
    ultimately show "Option.bind (rd_block (ls_cells a) (j * k) k) (\<lambda>xs. Option.bind (rd_block (ls_cells b) (j * k) k) (vop xs))
      = Some (take k (drop (j * k) zs))"
      using eq by (simp add: holds_rd_block [OF a] holds_rd_block [OF b])
  qed (use eq zi in \<open>simp_all add: holds_rd [OF a] holds_rd [OF b]\<close>)
  with n(2,3) lz show ?thesis unfolding list_list_def alloc_cells_elem [OF can T] prod.case n(1) by (simp add: lst_def)
qed

lemma list_list_mismatch:
  "ls_len a \<noteq> ls_len b
    \<Longrightarrow> list_list fname T k vop op malloc a b c = Some (null_list, AddError (mismatch fname (ls_len a) (ls_len b)) c)"
  by (simp add: list_list_def)

text \<open>Batches of size 0: a build without the vector library. An undefined element is no result.\<close>

lemma list_list_scalar:
  assumes a: "holds a xs" and b: "holds b ys" and eq: "length xs = length ys"
    and T: "elem_ok T" and can: "can_allocate malloc c (list_bytes T (ls_len a))"
  shows "list_list fname T 0 vop op malloc a b c = map_option (\<lambda>zs. (lst (arena_ptr malloc c (list_bytes T (ls_len a))) zs,
        after_alloc malloc c (list_bytes T (ls_len a)))) (those (map2 op xs ys))"
proof -
  have n: "list_len a = length xs" "ls_len a = of_nat (length xs)" "ls_len b = of_nat (length xs)"
    using holds_len [OF a] holds_len_eq [OF a] holds_len_eq [OF b] eq by simp_all
  have "for_loop 0 (length xs) (\<lambda>i cs. Option.bind (Option.bind (rd (ls_cells a) i)
      (\<lambda>x. Option.bind (rd (ls_cells b) i) (op x))) (wr cs i)) (replicate (length xs) None)
    = map_option (\<lambda>ys. map Some ys) (those (map2 op xs ys))"
    using fill_loop [of "length xs" "replicate (length xs) None" "\<lambda>i. Option.bind (rd (ls_cells a) i) (\<lambda>x. Option.bind (rd (ls_cells b) i) (op x))"]
      by (simp add: those_map_holds2 [OF a b eq])
  then show ?thesis
    unfolding list_list_def alloc_cells_elem [OF can T] prod.case n(1)
    using n(2,3) eq by (cases "those (map2 op xs ys)") (auto simp: batched_loop_def vec_size_def lst_def those_length)
qed

lemma list_extremum_spec:
  assumes a: "holds a xs" and T: "elem_ok T" and can: "can_allocate malloc c (list_bytes T (ls_len a))"
    and lw: "lanewise k vop (\<lambda>x y. Some (op x y))"
  shows "list_extremum T k vop op malloc a b c = Some (lst (arena_ptr malloc c (list_bytes T (ls_len a))) (map (\<lambda>x. op x b) xs),
      after_alloc malloc c (list_bytes T (ls_len a)))"
proof -
  let ?ys = "map (\<lambda>x. op x b) xs"
  have n: "list_len a = length xs" "ls_len a = of_nat (length xs)" using holds_len [OF a] holds_len_eq [OF a] by simp_all
  have "batched_loop k (length xs) (\<lambda>i _. Option.bind (rd_block (ls_cells a) i k) (\<lambda>xs. vop xs (replicate k b)))
      (\<lambda>i _. map_option (\<lambda>x. op x b) (rd (ls_cells a) i)) (replicate (length xs) None) = Some (map Some ?ys)"
  proof (rule batched_loop_fills)
    fix j assume "j < length xs div k"
    then have i: "j * k + k \<le> length xs" by (rule block_inside)
    let ?x = "take k (drop (j * k) xs)"
    have lx: "length ?x = k" using i by simp
    have "map2 (\<lambda>x y. Some (op x y)) ?x (replicate k b) = map Some (map (\<lambda>x. op x b) ?x)"
      using lx by (intro nth_equalityI) simp_all
    then have "vop ?x (replicate k b) = Some (map (\<lambda>x. op x b) ?x)"
      using lw lx unfolding lanewise_def by (metis length_replicate)
    then show "Option.bind (rd_block (ls_cells a) (j * k) k) (\<lambda>xs. vop xs (replicate k b)) = Some (take k (drop (j * k) ?ys))"
      using i by (simp add: holds_rd_block [OF a] take_map drop_map)
  qed (simp_all add: holds_rd [OF a])
  with n(2) show ?thesis unfolding list_extremum_def alloc_cells_elem [OF can T] prod.case n(1) by (simp add: lst_def)
qed

text \<open>The functions of libm: whole batches by the batch function, the rest by the scalar one.\<close>

fun by_batches :: "nat \<Rightarrow> nat \<Rightarrow> ('a, 'b) libm \<Rightarrow> 'a list \<Rightarrow> 'b list" where
  "by_batches 0 k f xs = map (libm_scalar f) xs"
| "by_batches (Suc m) k f xs = libm_batch f (take k xs) @ by_batches m k f (drop k xs)"

lemma by_batches_lanewise:
  "(\<And>xs. length xs = k \<Longrightarrow> libm_batch f xs = map (libm_scalar f) xs) \<Longrightarrow> m * k \<le> length xs
    \<Longrightarrow> by_batches m k f xs = map (libm_scalar f) xs"
proof (induction m arbitrary: xs)
  case 0
  then show ?case by simp
next
  case (Suc m)
  then have "by_batches m k f (drop k xs) = map (libm_scalar f) (drop k xs)" by simp
  moreover have "libm_batch f (take k xs) = map (libm_scalar f) (take k xs)" using Suc.prems by simp
  ultimately show ?case by (simp flip: map_append)
qed

lemma length_by_batches:
  assumes "\<And>xs. length xs = k \<Longrightarrow> length (libm_batch f xs) = k" "m * k \<le> length xs"
  shows "length (by_batches m k f xs) = length xs"
  using assms(2)
proof (induction m arbitrary: xs)
  case (Suc m)
  have "length (libm_batch f (take k xs)) = k" using Suc.prems by (intro assms(1)) simp
  with Suc show ?case by simp
qed simp

lemma by_batches_block:
  assumes "\<And>xs. length xs = k \<Longrightarrow> length (libm_batch f xs) = k" "m * k \<le> length xs" "j < m"
  shows "take k (drop (j * k) (by_batches m k f xs)) = libm_batch f (take k (drop (j * k) xs))"
  using assms(2,3)
proof (induction m arbitrary: j xs)
  case (Suc m)
  have lb: "length (libm_batch f (take k xs)) = k" using Suc.prems(1) by (intro assms(1)) simp
  show ?case
  proof (cases j)
    case 0
    with lb show ?thesis by simp
  next
    case (Suc i)
    have "take k (drop (i * k) (by_batches m k f (drop k xs))) = libm_batch f (take k (drop (i * k) (drop k xs)))"
      using Suc Suc.prems by (intro Suc.IH) simp_all
    with Suc lb show ?thesis by (simp add: add.commute)
  qed
qed simp

lemma by_batches_rest:
  assumes "\<And>xs. length xs = k \<Longrightarrow> length (libm_batch f xs) = k" "m * k \<le> i" "i < length xs"
  shows "by_batches m k f xs ! i = libm_scalar f (xs ! i)"
  using assms(2,3)
proof (induction m arbitrary: i xs)
  case (Suc m)
  have lb: "length (libm_batch f (take k xs)) = k" using Suc.prems by (intro assms(1)) simp
  have "by_batches m k f (drop k xs) ! (i - k) = libm_scalar f (drop k xs ! (i - k))"
    using Suc.prems by (intro Suc.IH) simp_all
  with lb Suc.prems show ?case by (simp add: nth_append)
qed simp

lemma list_unary_spec:
  assumes a: "holds a xs" and R: "elem_ok R" and can: "can_allocate malloc c (list_bytes R (ls_len a))"
    and lf: "\<And>xs. length xs = k \<Longrightarrow> length (libm_batch f xs) = k"
  shows "list_unary (elem_size R) k f malloc a c
    = Some (lst (arena_ptr malloc c (list_bytes R (ls_len a))) (by_batches (length xs div k) k f xs),
        after_alloc malloc c (list_bytes R (ls_len a)))"
proof -
  let ?m = "length xs div k" let ?ys = "by_batches ?m k f xs"
  have n: "list_len a = length xs" "ls_len a = of_nat (length xs)"
    using holds_len [OF a] holds_len_eq [OF a] by simp_all
  have m: "?m * k \<le> length xs" by simp
  have ly: "length ?ys = length xs" using lf m by (rule length_by_batches)
  have "batched_loop k (length xs) (\<lambda>i _. map_option (libm_batch f) (rd_block (ls_cells a) i k))
      (\<lambda>i _. map_option (libm_scalar f) (rd (ls_cells a) i)) (replicate (length xs) None) = Some (map Some ?ys)"
  proof (rule batched_loop_fills [OF ly])
    fix j assume j: "j < length xs div k"
    then show "map_option (libm_batch f) (rd_block (ls_cells a) (j * k) k) = Some (take k (drop (j * k) ?ys))"
      using block_inside [OF j] by (simp add: holds_rd_block [OF a] by_batches_block [OF lf m])
  qed (simp_all add: holds_rd [OF a] by_batches_rest [OF lf])
  with n(2) ly show ?thesis
    unfolding list_unary_def alloc_cells_elem [OF can R] prod.case n(1) by (simp add: lst_def)
qed

end
