(* ===== verification/Order.thy ===== *)
theory Order
  imports Elem "HOL-Library.Multiset" "HOL-Library.List_Lexorder"
begin

text \<open>
  The algorithms of the C++ standard library that the functions of src/function/ call with the order
  of their element type: sorting, the extreme elements, binary search and first occurrence. Their
  laws are proved in the locale \<open>elem_order\<close>, whose assumption is that the order is that of a key on
  the values that are not exceptional, and interpreted for integers, both floating-point formats
  (without NaN) and strings.
\<close>

section \<open>Algorithms\<close>

text \<open>std::sort needs a strict weak order on the values that are there; otherwise it is undefined.\<close>

definition strict_weak_order :: "('a \<Rightarrow> 'a \<Rightarrow> bool) \<Rightarrow> 'a list \<Rightarrow> bool" where
  "strict_weak_order lt xs \<longleftrightarrow>
     list_all (\<lambda>x. \<not> lt x x) xs
     \<and> list_all (\<lambda>x. list_all (\<lambda>y. list_all (\<lambda>z.
           (lt x y \<and> lt y z \<longrightarrow> lt x z)
           \<and> (\<not> lt x y \<and> \<not> lt y x \<and> \<not> lt y z \<and> \<not> lt z y \<longrightarrow> \<not> lt x z \<and> \<not> lt z x)) xs) xs) xs"

fun insert_by :: "('a \<Rightarrow> 'a \<Rightarrow> bool) \<Rightarrow> 'a \<Rightarrow> 'a list \<Rightarrow> 'a list" where
  "insert_by lt x [] = [x]"
| "insert_by lt x (y # ys) = (if lt y x then y # insert_by lt x ys else x # y # ys)"

fun sort_by :: "('a \<Rightarrow> 'a \<Rightarrow> bool) \<Rightarrow> 'a list \<Rightarrow> 'a list" where
  "sort_by lt [] = []"
| "sort_by lt (x # xs) = insert_by lt x (sort_by lt xs)"

definition std_sort :: "('a \<Rightarrow> 'a \<Rightarrow> bool) \<Rightarrow> 'a list \<Rightarrow> 'a list option" where
  "std_sort lt xs = (if strict_weak_order lt xs then Some (sort_by lt xs) else None)"

text \<open>std::max\_element and std::min\_element: the first of the extreme elements.\<close>

fun max_element :: "('a \<Rightarrow> 'a \<Rightarrow> bool) \<Rightarrow> 'a \<Rightarrow> 'a list \<Rightarrow> 'a" where
  "max_element lt m [] = m"
| "max_element lt m (x # xs) = max_element lt (if lt m x then x else m) xs"

fun min_element :: "('a \<Rightarrow> 'a \<Rightarrow> bool) \<Rightarrow> 'a \<Rightarrow> 'a list \<Rightarrow> 'a" where
  "min_element lt m [] = m"
| "min_element lt m (x # xs) = min_element lt (if lt x m then x else m) xs"

text \<open>The halving loop of std::lower\_bound and std::upper\_bound over a range of \<open>n\<close> elements that
  starts at \<open>i\<close>: \<open>go_right\<close> is \<open>*it < value\<close> for the one, \<open>!(value < *it)\<close> for the other.\<close>

function bisect :: "(nat \<Rightarrow> bool) \<Rightarrow> nat \<Rightarrow> nat \<Rightarrow> nat" where
  "bisect go_right i n =
     (if n = 0 then i
      else let half = n div 2; mid = i + half in
        if go_right mid then bisect go_right (mid + 1) (n - half - 1) else bisect go_right i half)"
  by auto
termination by (relation "measure (\<lambda>(p, i, n). n)") auto

declare bisect.simps [simp del]

text \<open>The first index in \<open>[i, n)\<close> that satisfies a condition, else \<open>n\<close>: the linear scans.\<close>

function scan :: "(nat \<Rightarrow> bool) \<Rightarrow> nat \<Rightarrow> nat \<Rightarrow> nat" where
  "scan stop i n = (if i < n \<and> \<not> stop i then scan stop (Suc i) n else i)"
  by auto
termination by (relation "measure (\<lambda>(p, i, n). n - i)") auto

declare scan.simps [simp del]

text \<open>The keys of a hash container, in the order of their insertion.\<close>

fun insert_new :: "('a \<Rightarrow> 'a \<Rightarrow> bool) \<Rightarrow> 'a \<Rightarrow> 'a list \<Rightarrow> 'a list" where
  "insert_new eq x seen = (if list_ex (eq x) seen then seen else seen @ [x])"

definition hash_set :: "('a \<Rightarrow> 'a \<Rightarrow> bool) \<Rightarrow> 'a list \<Rightarrow> 'a list" where
  "hash_set eq xs = fold (insert_new eq) xs []"

section \<open>Bisection\<close>

text \<open>On a range that \<open>go_right\<close> splits into a left and a right part, the split point.\<close>

lemma bisect_split:
  assumes "\<And>j. i \<le> j \<Longrightarrow> j < i + n \<Longrightarrow> go_right j \<longleftrightarrow> j < m" "i \<le> m" "m \<le> i + n"
  shows "bisect go_right i n = m"
  using assms
proof (induction go_right i n rule: bisect.induct)
  case (1 p i n)
  show ?case
  proof (cases "n = 0")
    case True
    with 1 show ?thesis by (subst bisect.simps) simp
  next
    case False
    let ?h = "n div 2"
    have h: "?h < n" using False by simp
    show ?thesis
    proof (cases "p (i + ?h)")
      case True
      then have lt: "i + ?h < m" using "1.prems"(1) [of "i + ?h"] h by simp
      have "bisect p (i + ?h + 1) (n - ?h - 1) = m"
        by (rule "1.IH"(1)) (use False True lt h "1.prems" in auto)
      with False True show ?thesis by (subst bisect.simps) (simp add: Let_def)
    next
      case F: False
      then have ge: "m \<le> i + ?h" using "1.prems"(1) [of "i + ?h"] h by simp
      have "bisect p i ?h = m"
        by (rule "1.IH"(2)) (use False F ge h "1.prems" in auto)
      with False F show ?thesis by (subst bisect.simps) (simp add: Let_def)
    qed
  qed
qed

lemma scan_split:
  assumes "\<And>j. i \<le> j \<Longrightarrow> j < m \<Longrightarrow> \<not> stop j" "i \<le> m" "m \<le> n" "m < n \<Longrightarrow> stop m"
  shows "scan stop i n = m"
  using assms
proof (induction "m - i" arbitrary: i)
  case 0
  then show ?case by (subst scan.simps) auto
next
  case (Suc d)
  then have "i < m" "d = m - Suc i" by auto
  with Suc show ?case by (subst scan.simps) simp
qed

lemma scan_next: "i < n \<Longrightarrow> \<not> stop i \<Longrightarrow> scan stop i n = scan stop (Suc i) n"
  by (subst scan.simps) simp

lemma scan_here: "\<not> (i < n \<and> \<not> stop i) \<Longrightarrow> scan stop i n = i"
  by (subst scan.simps) auto

lemma scan_bounds: "i \<le> n \<Longrightarrow> i \<le> scan stop i n \<and> scan stop i n \<le> n"
proof (induction stop i n rule: scan.induct)
  case (1 stop i n)
  then show ?case by (cases "i < n \<and> \<not> stop i") (auto simp: scan_next scan_here dest: Suc_leD)
qed

lemma scan_stop: "scan stop i n < n \<Longrightarrow> stop (scan stop i n)"
proof (induction stop i n rule: scan.induct)
  case (1 stop i n)
  then show ?case by (cases "i < n \<and> \<not> stop i") (auto simp: scan_next scan_here)
qed

lemma scan_before: "i \<le> j \<Longrightarrow> j < scan stop i n \<Longrightarrow> \<not> stop j"
proof (induction stop i n rule: scan.induct)
  case (1 stop i n)
  show ?case
  proof (cases "i < n \<and> \<not> stop i")
    case True
    with 1 show ?thesis by (cases "i = j") (auto simp: scan_next)
  next
    case False
    with 1 show ?thesis by (simp add: scan_here)
  qed
qed

section \<open>Orders with a key\<close>

locale elem_order =
  fixes less :: "'a \<Rightarrow> 'a \<Rightarrow> bool" and eq :: "'a \<Rightarrow> 'a \<Rightarrow> bool"
    and key :: "'a \<Rightarrow> 'k::linorder" and valid :: "'a \<Rightarrow> bool"
  assumes less_key: "valid x \<Longrightarrow> valid y \<Longrightarrow> less x y \<longleftrightarrow> key x < key y"
    and eq_key: "valid x \<Longrightarrow> valid y \<Longrightarrow> eq x y \<longleftrightarrow> key x = key y"
begin

lemma weak_order: "list_all valid xs \<Longrightarrow> strict_weak_order less xs"
  unfolding strict_weak_order_def list_all_iff using less_key by fastforce

lemma mset_insert_by: "mset (insert_by less x ys) = add_mset x (mset ys)"
  by (induction ys) simp_all

lemma mset_sort_by: "mset (sort_by less xs) = mset xs"
  by (induction xs) (simp_all add: mset_insert_by)

lemma set_insert_by: "set (insert_by less x ys) = insert x (set ys)"
  by (induction ys) auto

lemma set_sort_by: "set (sort_by less xs) = set xs"
  by (induction xs) (simp_all add: set_insert_by)

lemma length_sort_by: "length (sort_by less xs) = length xs"
  by (metis mset_sort_by size_mset)

lemma sorted_insert_by:
  "valid x \<Longrightarrow> list_all valid ys \<Longrightarrow> sorted (map key ys) \<Longrightarrow> sorted (map key (insert_by less x ys))"
  by (induction ys) (auto simp: less_key set_insert_by)

lemma sorted_sort_by: "list_all valid xs \<Longrightarrow> sorted (map key (sort_by less xs))"
  by (induction xs) (simp_all add: sorted_insert_by list_all_iff set_sort_by)

lemma std_sort_sorts:
  assumes "list_all valid xs"
  shows "\<exists>ys. std_sort less xs = Some ys \<and> mset ys = mset xs \<and> sorted (map key ys)"
  using assms by (simp add: std_sort_def weak_order mset_sort_by sorted_sort_by)

lemma max_element_max:
  "valid m \<Longrightarrow> list_all valid xs
    \<Longrightarrow> max_element less m xs \<in> insert m (set xs) \<and> (\<forall>x\<in>insert m (set xs). key x \<le> key (max_element less m xs))"
proof (induction xs arbitrary: m)
  case (Cons x xs)
  then show ?case using Cons.IH [of "if less m x then x else m"] by (fastforce simp: less_key split: if_splits)
qed simp

lemma min_element_min:
  "valid m \<Longrightarrow> list_all valid xs
    \<Longrightarrow> min_element less m xs \<in> insert m (set xs) \<and> (\<forall>x\<in>insert m (set xs). key (min_element less m xs) \<le> key x)"
proof (induction xs arbitrary: m)
  case (Cons x xs)
  then show ?case using Cons.IH [of "if less x m then x else m"] by (fastforce simp: less_key split: if_splits)
qed simp

text \<open>Binary search in a sorted list: the number of the elements that lie before the value.\<close>

lemma sorted_split:
  assumes "sorted (map key xs)" "list_all valid xs"
  shows "j < length xs \<Longrightarrow> key (xs ! j) < k \<longleftrightarrow> j < length (filter (\<lambda>x. key x < k) xs)"
    and "j < length xs \<Longrightarrow> key (xs ! j) \<le> k \<longleftrightarrow> j < length (filter (\<lambda>x. key x \<le> k) xs)"
proof -
  show "j < length xs \<Longrightarrow> key (xs ! j) < k \<longleftrightarrow> j < length (filter (\<lambda>x. key x < k) xs)"
    using assms(1)
  proof (induction xs arbitrary: j)
    case (Cons x xs)
    have "filter (\<lambda>x. key x < k) xs = []" if "\<not> key x < k" using Cons.prems that by (auto simp: filter_empty_conv)
    with Cons show ?case by (cases j) (auto dest: nth_mem)
  qed simp
  show "j < length xs \<Longrightarrow> key (xs ! j) \<le> k \<longleftrightarrow> j < length (filter (\<lambda>x. key x \<le> k) xs)"
    using assms(1)
  proof (induction xs arbitrary: j)
    case (Cons x xs)
    have "filter (\<lambda>x. key x \<le> k) xs = []" if "\<not> key x \<le> k" using Cons.prems that by (auto simp: filter_empty_conv)
    with Cons show ?case by (cases j) (auto dest: nth_mem)
  qed simp
qed

lemma lower_bound:
  assumes "sorted (map key xs)" "list_all valid xs" "valid v"
  shows "bisect (\<lambda>j. less (xs ! j) v) 0 (length xs) = length (filter (\<lambda>x. key x < key v) xs)"
  by (rule bisect_split)
    (use assms sorted_split(1) [OF assms(1,2)] in \<open>auto simp: less_key list_all_length length_filter_le\<close>)

lemma upper_bound:
  assumes "sorted (map key xs)" "list_all valid xs" "valid v"
  shows "bisect (\<lambda>j. \<not> less v (xs ! j)) 0 (length xs) = length (filter (\<lambda>x. key x \<le> key v) xs)"
  by (rule bisect_split)
    (use assms sorted_split(2) [OF assms(1,2)] in \<open>auto simp: less_key list_all_length length_filter_le linorder_not_less\<close>)

text \<open>The element at the lower bound is the first occurrence of the value, if there is one.\<close>

lemma lower_bound_find:
  assumes "sorted (map key xs)" "list_all valid xs" "valid v"
  defines "m \<equiv> length (filter (\<lambda>x. key x < key v) xs)"
  shows "(m < length xs \<and> eq (xs ! m) v \<longrightarrow> scan (\<lambda>j. eq (xs ! j) v) 0 (length xs) = m)
    \<and> (m < length xs \<and> eq (xs ! m) v \<or> scan (\<lambda>j. eq (xs ! j) v) 0 (length xs) = length xs)"
proof -
  have before: "\<not> eq (xs ! j) v" if "j < m" for j
  proof -
    have "j < length xs" using that length_filter_le [of "\<lambda>x. key x < key v" xs] unfolding m_def by (rule less_le_trans)
    moreover from this have "key (xs ! j) < key v" using sorted_split(1) [OF assms(1,2)] that by (simp add: m_def)
    ultimately show ?thesis using assms(2,3) by (auto simp: eq_key list_all_length)
  qed
  have le: "m \<le> length xs" by (simp add: m_def)
  show ?thesis
  proof (cases "m < length xs \<and> eq (xs ! m) v")
    case True
    then have "scan (\<lambda>j. eq (xs ! j) v) 0 (length xs) = m" by (intro scan_split) (use before in auto)
    with True show ?thesis by simp
  next
    case False
    have "\<not> eq (xs ! j) v" if "j < length xs" for j
    proof (cases "j < m")
      case False
      then have "m < length xs" using that by simp
      then have "key v < key (xs ! m)"
        using \<open>\<not> (m < length xs \<and> eq (xs ! m) v)\<close> sorted_split(1) [OF assms(1,2), of m "key v"] assms(2,3)
        by (simp add: m_def [symmetric] eq_key list_all_length linorder_not_less)
      also have "key (xs ! m) \<le> key (xs ! j)"
        using sorted_nth_mono [OF assms(1), of m j] False that by simp
      finally show ?thesis using assms(2,3) that by (auto simp: eq_key list_all_length)
    qed (rule before)
    then have "scan (\<lambda>j. eq (xs ! j) v) 0 (length xs) = length xs" by (intro scan_split) auto
    with False show ?thesis by simp
  qed
qed

end

interpretation int_order: elem_order "(<) :: int \<Rightarrow> int \<Rightarrow> bool" "(=)" "\<lambda>x. x" "\<lambda>_. True"
  by unfold_locales auto

interpretation int_desc: elem_order "\<lambda>x y :: int. y < x" "(=)" uminus "\<lambda>_. True"
  by unfold_locales auto

interpretation f32_order: elem_order f32_less f32_eq key32 "\<lambda>x. \<not> is_nan32 x"
  by unfold_locales (auto simp: f32_less_def f32_eq_def)

interpretation f32_desc: elem_order "\<lambda>x y. f32_less y x" f32_eq "\<lambda>x. - key32 x" "\<lambda>x. \<not> is_nan32 x"
  by unfold_locales (auto simp: f32_less_def f32_eq_def)

interpretation f64_order: elem_order f64_less f64_eq key64 "\<lambda>x. \<not> is_nan64 x"
  by unfold_locales (auto simp: f64_less_def f64_eq_def)

interpretation f64_desc: elem_order "\<lambda>x y. f64_less y x" f64_eq "\<lambda>x. - key64 x" "\<lambda>x. \<not> is_nan64 x"
  by unfold_locales (auto simp: f64_less_def f64_eq_def)

definition string_key :: "string \<Rightarrow> nat list" where
  "string_key s = map of_char s"

lemma string_less_key: "string_less s t \<longleftrightarrow> string_key s < string_key t"
  unfolding string_less_def string_key_def
  by (induction s t rule: list_induct2') (auto simp: char_less_def)

lemma string_key_inject: "string_key s = string_key t \<longleftrightarrow> s = t"
  unfolding string_key_def by (intro inj_map_eq_map injI) simp

interpretation string_order: elem_order string_less "(=)" string_key "\<lambda>_. True"
  by unfold_locales (auto simp: string_less_key string_key_inject)

section \<open>Hash containers\<close>

text \<open>For an equality that is the identity, the distinct values in the order of their first
  occurrence.\<close>

lemma fold_insert_new:
  "distinct seen \<Longrightarrow> distinct (fold (insert_new (=)) xs seen)
     \<and> set (fold (insert_new (=)) xs seen) = set seen \<union> set xs"
proof (induction xs arbitrary: seen)
  case (Cons x xs)
  show ?case
  proof (cases "x \<in> set seen")
    case True
    then have "list_ex ((=) x) seen" by (auto simp: list_ex_iff)
    with Cons True show ?thesis by auto
  next
    case False
    then have "\<not> list_ex ((=) x) seen" by (auto simp: list_ex_iff)
    with Cons.IH [of "seen @ [x]"] Cons.prems False show ?thesis by auto
  qed
qed simp

lemma hash_set_distinct: "distinct (hash_set (=) xs)" "set (hash_set (=) xs) = set xs"
  using fold_insert_new [of "[]" xs] by (simp_all add: hash_set_def)

lemma length_hash_set: "length (hash_set (=) xs) = card (set xs)"
  by (metis hash_set_distinct distinct_card)

end
