(* ===== verification/ListAggregation.thy ===== *)
theory ListAggregation
  imports Buffer Order
begin

text \<open>
  Model of the function templates of src/function/list_aggregation.cc: sums, extreme elements,
  averages, medians, counting and indexing of a list. They read the list and allocate nothing.
\<close>

section \<open>The templates\<close>

text \<open>Sum: \<open>R\<close> is the accumulator type and \<open>conv\<close> the conversion of an element to it.\<close>

definition Sum_f :: "'r elem \<Rightarrow> ('a \<Rightarrow> 'r) \<Rightarrow> 'a list_struct \<Rightarrow> 'r option" where
  "Sum_f R conv a =
     for_loop 0 (list_len a) (\<lambda>i sum. Option.bind (rd (ls_cells a) i) (\<lambda>x. elem_add R sum (conv x))) (elem_zero R)"

definition Avg_f :: "'a elem \<Rightarrow> u64 fp_arith \<Rightarrow> 'a list_struct \<Rightarrow> u64 option" where
  "Avg_f T fp a =
     (if ls_len a = 0 then Some 0
      else map_option (\<lambda>sum. fp_div fp sum (fp_of_int fp (int (list_len a))))
        (for_loop 0 (list_len a)
          (\<lambda>i sum. map_option (\<lambda>x. fp_add fp sum (elem_to_f64 T x)) (rd (ls_cells a) i)) 0))"

definition Max_f :: "'a elem \<Rightarrow> 'a list_struct \<Rightarrow> 'a option" where
  "Max_f T a =
     (if ls_len a = 0 then Some (elem_zero T)
      else map_option (\<lambda>xs. max_element (elem_less T) (hd xs) (tl xs)) (rd_block (ls_cells a) 0 (list_len a)))"

definition Min_f :: "'a elem \<Rightarrow> 'a list_struct \<Rightarrow> 'a option" where
  "Min_f T a =
     (if ls_len a = 0 then Some (elem_zero T)
      else map_option (\<lambda>xs. min_element (elem_less T) (hd xs) (tl xs)) (rd_block (ls_cells a) 0 (list_len a)))"

text \<open>The size of the set is returned as a 32-bit number.\<close>

definition CountDistinct_f :: "'a elem \<Rightarrow> 'a list_struct \<Rightarrow> u32 option" where
  "CountDistinct_f T a =
     map_option (\<lambda>xs. of_nat (length (hash_set (elem_eq T) xs))) (rd_block (ls_cells a) 0 (list_len a))"

text \<open>\<open>\_\_builtin\_popcount\<close> and \<open>\_\_builtin\_popcountll\<close>, and the 8 bytes that memcpy puts into a
  64-bit number.\<close>

definition popcount :: "nat \<Rightarrow> int \<Rightarrow> nat" where
  "popcount w x = length (filter (bit x) [0..<w])"

definition load_u64 :: "int list \<Rightarrow> int" where
  "load_u64 bytes = foldr (\<lambda>b acc. b + 256 * acc) bytes 0"

definition CountBits_f :: "int list_struct \<Rightarrow> u32 option" where
  "CountBits_f a =
     (let batch_end = unat (ls_len a AND NOT 7) in
      Option.bind
        (for_step 8 0 batch_end
          (\<lambda>i cnt. map_option (\<lambda>bytes. cnt + of_nat (popcount 64 (load_u64 bytes))) (rd_block (ls_cells a) i 8)) 0)
        (for_loop batch_end (list_len a)
          (\<lambda>i cnt. map_option (\<lambda>x. cnt + of_nat (popcount 32 x)) (rd (ls_cells a) i))))"

text \<open>nth\_element leaves the list in an order whose middle is that of the sorted list: the two
  values that Median reads are those of the sorted list.\<close>

definition half_sum :: "u64 fp_arith \<Rightarrow> u64 \<Rightarrow> u64 \<Rightarrow> u64" where
  "half_sum fp l r = fp_div fp (fp_add fp l r) 0x4000000000000000"

definition Median_f :: "'a elem \<Rightarrow> u64 fp_arith \<Rightarrow> 'a list_struct \<Rightarrow> u64 option" where
  "Median_f T fp a =
     (if ls_len a = 0 then Some 0
      else Option.bind (rd_block (ls_cells a) 0 (list_len a)) (\<lambda>xs.
        map_option (\<lambda>tmp. let mid = list_len a div 2 in
            if list_len a mod 2 = 1 then elem_to_f64 T (tmp ! mid)
            else half_sum fp (elem_to_f64 T (max_element (elem_less T) (hd tmp) (take (mid - 1) (tl tmp))))
                   (elem_to_f64 T (tmp ! mid)))
          (std_sort (elem_less T) xs)))"

definition SortedMedian_f :: "'a elem \<Rightarrow> u64 fp_arith \<Rightarrow> 'a list_struct \<Rightarrow> u64 option" where
  "SortedMedian_f T fp a =
     (if ls_len a = 0 then Some 0
      else let mid = list_len a div 2 in
        if list_len a mod 2 = 1 then map_option (elem_to_f64 T) (rd (ls_cells a) mid)
        else Option.bind (rd (ls_cells a) (mid - 1)) (\<lambda>l. map_option (\<lambda>r.
               half_sum fp (elem_to_f64 T l) (elem_to_f64 T r)) (rd (ls_cells a) mid)))"

definition GetAt_f :: "'a elem \<Rightarrow> 'a list_struct \<Rightarrow> u32 \<Rightarrow> 'a option" where
  "GetAt_f T a idx = (if idx \<ge> ls_len a then Some (elem_zero T) else rd (ls_cells a) (unat idx))"

section \<open>Sums\<close>

lemma rd_block_all: "holds a xs \<Longrightarrow> rd_block (ls_cells a) 0 (list_len a) = Some xs"
  by (simp add: holds_rd_block holds_len)

lemma holds_len_0: "holds a xs \<Longrightarrow> ls_len a = 0 \<longleftrightarrow> xs = []"
  by (metis holds_len length_0_conv unat_eq_0)

text \<open>The state of an accumulating loop over a list.\<close>

lemma fold_loop:
  assumes a: "holds a xs" and g: "\<And>x acc. x \<in> set xs \<Longrightarrow> P acc \<Longrightarrow> f x acc = Some (g x acc) \<and> P (g x acc)"
    and P: "P acc" "i \<le> length xs"
  shows "for_loop i (length xs) (\<lambda>i acc. Option.bind (rd (ls_cells a) i) (\<lambda>x. f x acc)) acc
    = Some (fold g (drop i xs) acc)"
  using P
proof (induction "length xs - i" arbitrary: i acc)
  case 0
  then show ?case by simp
next
  case (Suc d)
  then have i: "i < length xs" "d = length xs - Suc i" by auto
  have fg: "f (xs ! i) acc = Some (g (xs ! i) acc)" "P (g (xs ! i) acc)" using g [of "xs ! i"] Suc.prems i by auto
  have "for_loop (Suc i) (length xs) (\<lambda>i acc. Option.bind (rd (ls_cells a) i) (\<lambda>x. f x acc)) (g (xs ! i) acc)
    = Some (fold g (drop (Suc i) xs) (g (xs ! i) acc))"
    by (rule Suc.hyps) (use i fg in auto)
  then show ?case
    using i fg(1) by (simp add: for_loop_Suc holds_rd [OF a] Cons_nth_drop_Suc [symmetric])
qed

text \<open>The 64-bit accumulators: modulo \<open>2^64\<close> for unsigned elements, exact where nothing overflows.\<close>

lemma convert_u64_add: "convert_int 64 False (convert_int 64 False x + y) = convert_int 64 False (x + y)"
  by (simp add: convert_int_def mod_simps)

lemma Sum_unsigned:
  assumes a: "holds a xs"
  shows "Sum_f (int_elem f 64 False) (\<lambda>x. x) a = Some (sum_list xs mod 2 ^ 64)"
proof -
  have step: "elem_add (int_elem f 64 False) acc x = Some ((acc + x) mod 2 ^ 64)" for acc x
    by (simp add: int_elem_def store_result_unsigned convert_int_def)
  have "for_loop 0 (length xs) (\<lambda>i acc. Option.bind (rd (ls_cells a) i) (elem_add (int_elem f 64 False) acc)) 0
    = Some (fold (\<lambda>x acc. (acc + x) mod 2 ^ 64) (drop 0 xs) 0)"
    by (rule fold_loop [OF a, where P = "\<lambda>_. True"]) (simp_all add: step)
  moreover have "fold (\<lambda>x acc. (acc + x) mod 2 ^ 64) ys acc = (acc + sum_list ys) mod 2 ^ 64"
    if "acc = acc mod 2 ^ 64" for ys and acc :: int
    using that by (induction ys arbitrary: acc) (simp_all add: mod_simps add.assoc)
  ultimately show ?thesis using a by (simp add: Sum_f_def holds_len int_elem_def)
qed

lemma sum_list_bound:
  assumes "\<forall>x\<in>set xs. \<bar>x\<bar> \<le> (b :: int)"
  shows "\<bar>sum_list xs\<bar> \<le> int (length xs) * b"
  using assms
proof (induction xs)
  case (Cons x xs)
  have "\<bar>x + sum_list xs\<bar> \<le> \<bar>x\<bar> + \<bar>sum_list xs\<bar>" by (rule abs_triangle_ineq)
  also have "\<dots> \<le> b + int (length xs) * b" using Cons by (intro add_mono) auto
  finally show ?case by (simp add: algebra_simps)
qed simp

text \<open>No list is long enough for a sum of 32-bit elements to leave the range of 64 bits.\<close>

lemma Sum_signed:
  assumes a: "holds a xs" and b: "\<forall>x\<in>set xs. \<bar>x\<bar> \<le> 2 ^ 31"
  shows "Sum_f (int_elem f 64 True) (\<lambda>x. x) a = Some (sum_list xs)"
proof -
  have len: "int (length xs) < 2 ^ 32" using holds_bound [OF a] by simp
  have small: "\<bar>sum_list ys\<bar> < 2 ^ 63" if "set ys \<subseteq> set xs" "length ys \<le> length xs" for ys
  proof -
    have "\<bar>sum_list ys\<bar> \<le> int (length ys) * 2 ^ 31" by (rule sum_list_bound) (use that b in auto)
    also have "\<dots> < 2 ^ 32 * 2 ^ 31" using that len by simp
    finally show ?thesis by simp
  qed
  let ?E = "int_elem f 64 True"
  have "for_loop 0 (length xs) (\<lambda>i sum. Option.bind (rd (ls_cells a) i) (elem_add ?E sum)) (sum_list (take 0 xs))
    = Some (sum_list (take (length xs) xs))"
  proof (rule for_loop_trace [where g = "\<lambda>i. sum_list (take i xs)"])
    fix i assume i: "i < length xs"
    have s: "sum_list (take (Suc i) xs) = sum_list (take i xs) + xs ! i" using i by (simp add: take_Suc_conv_app_nth)
    have "\<bar>sum_list (take (Suc i) xs)\<bar> < 2 ^ 63" by (rule small) (use i in \<open>auto simp: set_take_subset min_def dest: in_set_takeD\<close>)
    then have "in_range 64 True (sum_list (take (Suc i) xs))" by (auto simp: in_range_def)
    then have "store_result 64 True (sum_list (take i xs) + xs ! i) = Some (sum_list (take (Suc i) xs))"
      unfolding s by (rule store_result_in_range [rotated]) simp
    with i show "Option.bind (rd (ls_cells a) i) (elem_add ?E (sum_list (take i xs))) = Some (sum_list (take (Suc i) xs))"
      by (simp add: holds_rd [OF a] int_elem_def)
  qed simp
  then show ?thesis by (simp add: Sum_f_def holds_len [OF a] int_elem_def)
qed

lemma Sum_unsigned_exact:
  assumes a: "holds a xs" and b: "\<forall>x\<in>set xs. 0 \<le> x \<and> x < 2 ^ 32"
  shows "Sum_f (int_elem f 64 False) (\<lambda>x. x) a = Some (sum_list xs)"
proof -
  have len: "int (length xs) < 2 ^ 32" using holds_bound [OF a] by simp
  have "\<bar>sum_list xs\<bar> \<le> int (length xs) * 2 ^ 32" by (rule sum_list_bound) (use b in auto)
  also have "\<dots> < 2 ^ 32 * 2 ^ 32" using len by simp
  finally have "sum_list xs < 2 ^ 64" by simp
  moreover have "0 \<le> sum_list xs" using b by (intro sum_list_nonneg) auto
  ultimately show ?thesis by (simp add: Sum_unsigned [OF a])
qed

section \<open>Bits\<close>

lemma popcount_append:
  "0 \<le> x \<Longrightarrow> x < 2 ^ v \<Longrightarrow> popcount (v + w) (x + 2 ^ v * y) = popcount v x + popcount w y"
proof -
  assume x: "0 \<le> x" "x < 2 ^ v"
  have tb: "take_bit v (x + 2 ^ v * y) = x" using x by (simp add: take_bit_eq_mod)
  have db: "drop_bit v (x + 2 ^ v * y) = y" using x by (simp add: drop_bit_eq_div)
  have lo: "bit (x + 2 ^ v * y) i = bit x i" if "i < v" for i
    using arg_cong [OF tb, of "\<lambda>z. bit z i"] that by (simp add: bit_take_bit_iff)
  have hi: "bit (x + 2 ^ v * y) (v + i) = bit y i" for i
    using arg_cong [OF db, of "\<lambda>z. bit z i"] by (simp add: bit_drop_bit_eq)
  have "filter (bit (x + 2 ^ v * y)) [0..<v + w]
    = filter (bit (x + 2 ^ v * y)) [0..<v] @ filter (bit (x + 2 ^ v * y)) [v..<v + w]"
    using filter_append [of _ "[0..<v]" "[v..<v + w]"] by (simp flip: upt_add_eq_append)
  also have "[v..<v + w] = map (\<lambda>i. v + i) [0..<w]" by (rule nth_equalityI) simp_all
  finally have "popcount (v + w) (x + 2 ^ v * y)
    = length (filter (bit (x + 2 ^ v * y)) [0..<v]) + length (filter (bit (x + 2 ^ v * y) \<circ> (\<lambda>i. v + i)) [0..<w])"
    by (simp add: popcount_def filter_map)
  also have "filter (bit (x + 2 ^ v * y)) [0..<v] = filter (bit x) [0..<v]" by (intro filter_cong) (simp_all add: lo)
  also have "filter (bit (x + 2 ^ v * y) \<circ> (\<lambda>i. v + i)) [0..<w] = filter (bit y) [0..<w]"
    by (intro filter_cong) (simp_all add: hi)
  finally show ?thesis by (simp add: popcount_def)
qed

definition bytes_ok :: "int list \<Rightarrow> bool" where
  "bytes_ok xs \<longleftrightarrow> (\<forall>x\<in>set xs. 0 \<le> x \<and> x < 256)"

lemma popcount_byte: "0 \<le> x \<Longrightarrow> x < 256 \<Longrightarrow> 8 \<le> w \<Longrightarrow> popcount w x = popcount 8 x"
  using popcount_append [of x 8 "w - 8" 0] by (simp add: popcount_def)

lemma popcount_load: "bytes_ok xs \<Longrightarrow> popcount (8 * length xs) (load_u64 xs) = sum_list (map (popcount 8) xs)"
proof (induction xs)
  case Nil
  then show ?case by (simp add: popcount_def)
next
  case (Cons x xs)
  then show ?case using popcount_append [of x 8 "8 * length xs" "load_u64 xs"]
    by (simp add: bytes_ok_def load_u64_def)
qed

text \<open>\<open>len & ~7\<close> rounds down to a multiple of 8.\<close>

lemma and_not_7: "unat (n AND - 8 :: u32) = unat n div 8 * 8"
proof -
  have m: "(- 8 :: u32) = NOT (mask 3)" by (simp add: mask_eq_exp_minus_1)
  have "n AND - 8 = push_bit 3 (drop_bit 3 n)"
    unfolding m
    by (rule bit_word_eqI) (auto simp: bit_and_iff bit_not_iff bit_mask_iff bit_push_bit_iff bit_drop_bit_eq)
  moreover have "unat (push_bit 3 (drop_bit 3 n)) = unat n div 8 * 8"
  proof -
    have "unat n div 8 * 8 < 2 ^ 32" using unsigned_less [of n, where ?'a = nat] by simp
    then show ?thesis
      by (simp only: unsigned_push_bit_eq unsigned_drop_bit_eq) (simp add: push_bit_eq_mult drop_bit_eq_div take_bit_nat_eq_self)
  qed
  ultimately show ?thesis by simp
qed

text \<open>The batched count is the number of the bits that are set, modulo \<open>2^32\<close>.\<close>

lemma CountBits_counts:
  assumes a: "holds a xs" and bytes: "bytes_ok xs"
  shows "CountBits_f a = Some (of_nat (sum_list (map (popcount 8) xs)))"
proof -
  let ?n = "length xs" let ?m = "?n div 8"
  let ?cnt = "\<lambda>j. of_nat (sum_list (map (popcount 8) (take j xs))) :: u32"
  have e: "unat (ls_len a AND - 8) = ?m * 8" by (simp add: and_not_7 holds_len [OF a])
  have block: "sum_list (map (popcount 8) (take (i + k) xs))
    = sum_list (map (popcount 8) (take i xs)) + sum_list (map (popcount 8) (take k (drop i xs)))" for i k
    by (simp add: take_add)
  have "for_step 8 0 (?m * 8) (\<lambda>i cnt. map_option (\<lambda>bytes. cnt + of_nat (popcount 64 (load_u64 bytes)))
      (rd_block (ls_cells a) i 8)) (?cnt (0 * 8)) = Some (?cnt (?m * 8))"
  proof (rule for_step_trace [where g = "\<lambda>j. ?cnt (j * 8)"])
    fix j assume j: "j < ?m"
    then have j8: "j * 8 + 8 \<le> ?n" by simp
    have "popcount (8 * length (take 8 (drop (j * 8) xs))) (load_u64 (take 8 (drop (j * 8) xs)))
      = sum_list (map (popcount 8) (take 8 (drop (j * 8) xs)))"
      using bytes by (intro popcount_load) (auto simp: bytes_ok_def dest: in_set_takeD in_set_dropD)
    with j8 show "map_option (\<lambda>bytes. ?cnt (j * 8) + of_nat (popcount 64 (load_u64 bytes)))
        (rd_block (ls_cells a) (0 + j * 8) 8) = Some (?cnt (Suc j * 8))"
      using block [of "j * 8" 8] by (simp add: holds_rd_block [OF a] add.commute)
  qed simp_all
  moreover have "for_loop (?m * 8) ?n (\<lambda>i cnt. map_option (\<lambda>x. cnt + of_nat (popcount 32 x)) (rd (ls_cells a) i))
      (?cnt (?m * 8)) = Some (?cnt ?n)"
  proof (rule for_loop_trace [where g = ?cnt])
    fix i assume i: "i < ?n"
    then have "popcount 32 (xs ! i) = popcount 8 (xs ! i)"
      using bytes by (intro popcount_byte) (auto simp: bytes_ok_def)
    with i show "map_option (\<lambda>x. ?cnt i + of_nat (popcount 32 x)) (rd (ls_cells a) i) = Some (?cnt (Suc i))"
      by (simp add: holds_rd [OF a] take_Suc_conv_app_nth)
  qed simp
  ultimately show ?thesis by (simp add: CountBits_f_def Let_def e holds_len [OF a])
qed

section \<open>Extreme elements and medians\<close>

text \<open>The median is that of the sorted list, for every type whose order sorts.\<close>

context elem_order
begin

lemma max_of_sorted:
  assumes "sorted (map key xs)" "list_all valid xs" "xs \<noteq> []"
  shows "key (max_element less (hd xs) (tl xs)) = key (last xs)"
proof -
  have v: "valid (hd xs)" "list_all valid (tl xs)" using assms by (cases xs; simp)+
  have set: "insert (hd xs) (set (tl xs)) = set xs" using assms(3) by (cases xs) auto
  note m = max_element_max [OF v, unfolded set]
  have "key (last xs) \<le> key (max_element less (hd xs) (tl xs))" using m assms(3) by simp
  moreover have "key x \<le> key (last xs)" if x: "x \<in> set xs" for x
  proof -
    obtain i where i: "i < length xs" "x = xs ! i" using x by (auto simp: in_set_conv_nth)
    then have "key (xs ! i) \<le> key (xs ! (length xs - 1))"
      using sorted_nth_mono [OF assms(1), of i "length xs - 1"] by simp
    with i(2) show ?thesis by (simp only: last_conv_nth [OF assms(3)])
  qed
  ultimately show ?thesis using m by (intro antisym) auto
qed

lemma median_of_sorted:
  assumes less: "elem_less T = less" and f64: "\<And>x y. valid x \<Longrightarrow> valid y \<Longrightarrow> key x = key y \<Longrightarrow> elem_to_f64 T x = elem_to_f64 T y"
    and a: "holds a xs" and v: "list_all valid xs" and s: "holds s (sort_by less xs)"
  shows "Median_f T fp a = SortedMedian_f T fp s"
proof (cases "xs = []")
  case True
  with a s have "ls_len a = 0" "ls_len s = 0" by (simp_all add: holds_len_0)
  then show ?thesis by (simp add: Median_f_def SortedMedian_f_def)
next
  case False
  let ?t = "sort_by less xs" let ?n = "length xs"
  have lt: "length ?t = ?n" by (rule length_sort_by)
  have nz: "ls_len a \<noteq> 0" "ls_len s \<noteq> 0" using False a s lt by (auto simp: holds_len_0)
  have la: "list_len a = ?n" "list_len s = ?n" using a s lt by (simp_all add: holds_len)
  have sorted: "sorted (map key ?t)" and vt: "list_all valid ?t"
    using v sorted_sort_by by (auto simp: list_all_iff set_sort_by)
  show ?thesis
  proof (cases "?n mod 2 = 1")
    case True
    then have "?n div 2 < ?n" by simp
    with True nz la lt v show ?thesis
      by (simp add: Median_f_def SortedMedian_f_def rd_block_all [OF a, unfolded la] less std_sort_def weak_order holds_rd [OF s])
  next
    case F: False
    let ?m = "?n div 2"
    have m: "0 < ?m" "?m < ?n" using F False by (cases xs; auto)+
    obtain t ts where t: "?t = t # ts" using lt False by (cases ?t) auto
    have pre: "take ?m ?t = t # take (?m - 1) ts" using m(1) t by (cases ?m) simp_all
    have vp: "list_all valid (take ?m ?t)" using vt by (auto simp: list_all_iff dest: in_set_takeD)
    have sp: "sorted (map key (take ?m ?t))" using sorted by (simp add: sorted_wrt_take flip: take_map)
    have "key (max_element less (hd (take ?m ?t)) (tl (take ?m ?t))) = key (last (take ?m ?t))"
      by (rule max_of_sorted [OF sp vp]) (simp add: pre)
    moreover have "last (take ?m ?t) = ?t ! (?m - 1)" 
    proof -
      have "take ?m ?t \<noteq> []" using pre by (metis list.distinct(1))
      then show ?thesis using m lt by (simp add: last_conv_nth [OF \<open>take ?m ?t \<noteq> []\<close>] min_def del: take_eq_Nil)
    qed
    ultimately have k: "key (max_element less t (take (?m - 1) ts)) = key (?t ! (?m - 1))" by (simp add: pre)
    have "max_element less t (take (?m - 1) ts) \<in> set (take ?m ?t)"
      using max_element_max [of t "take (?m - 1) ts"] vp pre by simp
    then have "valid (max_element less t (take (?m - 1) ts))" "valid (?t ! (?m - 1))"
      using vp vt m lt by (auto simp: list_all_iff)
    with k have "elem_to_f64 T (max_element less t (take (?m - 1) ts)) = elem_to_f64 T (?t ! (?m - 1))" by (intro f64)
    then show ?thesis using F nz la lt v m t
      by (simp add: Median_f_def SortedMedian_f_def rd_block_all [OF a, unfolded la] less std_sort_def weak_order
          holds_rd [OF s] Let_def del: nth_Cons_numeral)
  qed
qed

end

end
