(* ===== verification/ListComparison.thy ===== *)
theory ListComparison
  imports ListArithmetic ListAggregation
begin

text \<open>
  Model of the function templates of src/function/list_comparison.cc: conditional replacement,
  selection by a bitmap, the generation of a bitmap from a comparison, and the filter that keeps the
  elements whose bit is set. Bit \<open>i mod 8\<close> of byte \<open>i div 8\<close> of a bitmap belongs to element \<open>i\<close>.
\<close>

section \<open>Conditional replacement\<close>

definition IfLarge where
  "IfLarge T malloc a cmp target c =
     list_scalar (elem_size T) (\<lambda>x. Some (if elem_less T cmp x then target else x)) malloc a c"
definition IfLargeEqual where
  "IfLargeEqual T malloc a cmp target c =
     list_scalar (elem_size T) (\<lambda>x. Some (if elem_le T cmp x then target else x)) malloc a c"
definition IfEqual where
  "IfEqual T malloc a cmp target c =
     list_scalar (elem_size T) (\<lambda>x. Some (if elem_eq T x cmp then target else x)) malloc a c"
definition IfLess where
  "IfLess T malloc a cmp target c =
     list_scalar (elem_size T) (\<lambda>x. Some (if elem_less T x cmp then target else x)) malloc a c"
definition IfLessEqual where
  "IfLessEqual T malloc a cmp target c =
     list_scalar (elem_size T) (\<lambda>x. Some (if elem_le T x cmp then target else x)) malloc a c"
definition IfNotEqual where
  "IfNotEqual T malloc a cmp target c =
     list_scalar (elem_size T) (\<lambda>x. Some (if \<not> elem_eq T x cmp then target else x)) malloc a c"

section \<open>Selection by a bitmap\<close>

text \<open>The bits are first unpacked into the elements of the result: whole bytes, then the rest.\<close>

definition bitmap_bit :: "'a elem \<Rightarrow> int list_struct \<Rightarrow> nat \<Rightarrow> nat \<Rightarrow> 'a option" where
  "bitmap_bit T bitmap byte j =
     map_option (\<lambda>b. elem_of_nat T (nat (drop_bit j b AND 1))) (rd (ls_cells bitmap) byte)"

definition unpack_bits :: "'a elem \<Rightarrow> int list_struct \<Rightarrow> u32 \<Rightarrow> 'a option list \<Rightarrow> 'a option list option" where
  "unpack_bits T bitmap n cs =
     (let loop_len = unat (n AND NOT 7); last_index = loop_len div 8 in
      Option.bind
        (for_step 8 0 loop_len (\<lambda>i cs.
           for_loop 0 8 (\<lambda>j cs. Option.bind (bitmap_bit T bitmap (i div 8) j) (wr cs (i + j))) cs) cs)
        (for_loop 0 (unat n - loop_len) (\<lambda>j cs.
           Option.bind (bitmap_bit T bitmap last_index j) (wr cs (loop_len + j)))))"

text \<open>Then each mask is replaced by the element it selects. \<open>l\<close> and \<open>r\<close> read one element of the two
  sides, \<open>lb\<close> and \<open>rb\<close> a batch.\<close>

definition select_loop :: "'a elem \<Rightarrow> 'a simd \<Rightarrow> nat \<Rightarrow> (nat \<Rightarrow> 'a list option) \<Rightarrow> (nat \<Rightarrow> 'a list option)
     \<Rightarrow> (nat \<Rightarrow> 'a option) \<Rightarrow> (nat \<Rightarrow> 'a option) \<Rightarrow> 'a option list \<Rightarrow> 'a option list option" where
  "select_loop T v n lb rb l r cs =
     batched_loop (kBatchSize v) n
       (\<lambda>i cs. Option.bind (rd_block cs i (kBatchSize v)) (\<lambda>msk.
          Option.bind (lb i) (\<lambda>xs. map_option (\<lambda>ys. simd_select v (simd_positive v msk) xs ys) (rb i))))
       (\<lambda>i cs. Option.bind (rd cs i) (\<lambda>m. if elem_less T (elem_zero T) m then l i else r i)) cs"

definition select_by_bitmap :: "string \<Rightarrow> 'a elem \<Rightarrow> 'a simd \<Rightarrow> malloc_fun \<Rightarrow> int list_struct \<Rightarrow> u32
     \<Rightarrow> (nat \<Rightarrow> 'a list option) \<Rightarrow> (nat \<Rightarrow> 'a list option) \<Rightarrow> (nat \<Rightarrow> 'a option) \<Rightarrow> (nat \<Rightarrow> 'a option)
     \<Rightarrow> exec_ctx \<Rightarrow> ('a list_struct \<times> exec_ctx) option" where
  "select_by_bitmap fname T v malloc bitmap n lb rb l r c =
     (if ls_len bitmap < (n + 7) div 8 then Some (null_list, AddError (fname @ '': bitmap len is too short'') c)
      else
        (case alloc_cells malloc (elem_size T) (ucast n * elem_size T) c of (p, cs, c1) \<Rightarrow>
           map_option (\<lambda>cs'. (\<lparr>ls_data = p, ls_cells = cs', ls_len = n\<rparr>, c1))
             (Option.bind (unpack_bits T bitmap n cs) (select_loop T v (unat n) lb rb l r))))"

definition IfByBitmapLLRB where
  "IfByBitmapLLRB T v malloc bitmap lhs rhs c =
     select_by_bitmap ''IfByBitmapLLRB'' T v malloc bitmap (ls_len lhs)
       (\<lambda>i. rd_block (ls_cells lhs) i (kBatchSize v)) (\<lambda>i. Some (replicate (kBatchSize v) rhs))
       (rd (ls_cells lhs)) (\<lambda>i. Some rhs) c"

definition IfByBitmapLBRL where
  "IfByBitmapLBRL T v malloc bitmap lhs rhs c =
     select_by_bitmap ''IfByBitmapLBRL'' T v malloc bitmap (ls_len rhs)
       (\<lambda>i. Some (replicate (kBatchSize v) lhs)) (\<lambda>i. rd_block (ls_cells rhs) i (kBatchSize v))
       (\<lambda>i. Some lhs) (rd (ls_cells rhs)) c"

definition IfByBitmapLLRL where
  "IfByBitmapLLRL T v malloc bitmap lhs rhs c =
     (if ls_len lhs \<noteq> ls_len rhs then Some (null_list, AddError ''IfByBitmapLLRL: lhs and rhs len mismatch'' c)
      else select_by_bitmap ''IfByBitmapLLRL'' T v malloc bitmap (ls_len lhs)
        (\<lambda>i. rd_block (ls_cells lhs) i (kBatchSize v)) (\<lambda>i. rd_block (ls_cells rhs) i (kBatchSize v))
        (rd (ls_cells lhs)) (rd (ls_cells rhs)) c)"

section \<open>Generation of a bitmap\<close>

text \<open>The comparison chosen at compile time; there is none for another operator.\<close>

fun compare_elem :: "binary_op \<Rightarrow> 'a elem \<Rightarrow> 'a \<Rightarrow> 'a \<Rightarrow> bool option" where
  "compare_elem kLarge T x y = Some (elem_less T y x)"
| "compare_elem kLargeEqual T x y = Some (elem_le T y x)"
| "compare_elem kEqual T x y = Some (elem_eq T x y)"
| "compare_elem kLess T x y = Some (elem_less T x y)"
| "compare_elem kLessEqual T x y = Some (elem_le T x y)"
| "compare_elem kNotEqual T x y = Some (\<not> elem_eq T x y)"
| "compare_elem op T x y = None"

text \<open>The 8-bit mask of up to 8 comparisons, and the loops over the list: \<open>is_true i\<close> compares the
  elements at index \<open>i\<close>. The byte at \<open>last_index\<close> is cleared also when no elements are left for it.\<close>

definition mask_or :: "int \<Rightarrow> nat \<Rightarrow> bool \<Rightarrow> int" where
  "mask_or msk j t = convert_int 8 False (msk OR push_bit j (if t then 1 else 0))"

definition gen_bits :: "u32 \<Rightarrow> (nat \<Rightarrow> bool option) \<Rightarrow> int option list \<Rightarrow> int option list option" where
  "gen_bits n is_true cs =
     (let vec_loop_len = unat (n AND NOT 7); last_index = vec_loop_len div 8 in
      Option.bind
        (for_step 8 0 vec_loop_len (\<lambda>i cs.
           Option.bind (for_loop 0 8 (\<lambda>j msk. map_option (mask_or msk j) (is_true (i + j))) 0) (wr cs (i div 8))) cs) (\<lambda>cs.
      Option.bind (wr cs last_index 0)
        (for_loop 0 (unat n - vec_loop_len) (\<lambda>j cs.
           Option.bind (rd cs last_index) (\<lambda>msk.
             Option.bind (map_option (mask_or msk j) (is_true (vec_loop_len + j))) (wr cs last_index))))))"

definition gen_bitmap :: "malloc_fun \<Rightarrow> u32 \<Rightarrow> (nat \<Rightarrow> bool option) \<Rightarrow> exec_ctx \<Rightarrow> (int list_struct \<times> exec_ctx) option" where
  "gen_bitmap malloc n is_true c =
     (let l = (n + 7) div 8 in
      case alloc_cells malloc 1 (ucast l) c of (p, cs, c1) \<Rightarrow>
        if n = 0 then Some (\<lparr>ls_data = p, ls_cells = cs, ls_len = l\<rparr>, c1)
        else map_option (\<lambda>cs'. (\<lparr>ls_data = p, ls_cells = cs', ls_len = l\<rparr>, c1)) (gen_bits n is_true cs))"

definition GenBitmap where
  "GenBitmap T op malloc a b c =
     gen_bitmap malloc (ls_len a) (\<lambda>i. Option.bind (rd (ls_cells a) i) (\<lambda>x. compare_elem op T x b)) c"

definition GenBitmapList where
  "GenBitmapList T op malloc a b c =
     (if ls_len a \<noteq> ls_len b then Some (null_list, AddError ''GenBitmap: lhs and rhs len mismatch'' c)
      else gen_bitmap malloc (ls_len a)
        (\<lambda>i. Option.bind (rd (ls_cells a) i) (\<lambda>x. Option.bind (rd (ls_cells b) i) (compare_elem op T x))) c)"

section \<open>Filtering\<close>

text \<open>One element: it is stored at \<open>cur\<close> whether or not its bit is set, and \<open>cur\<close> advances by the bit.
  The state of the loops is the buffer with the position \<open>cur\<close>.\<close>

definition filter_elem :: "'a list_struct \<Rightarrow> int \<Rightarrow> nat \<Rightarrow> nat \<Rightarrow> 'a option list \<times> nat \<Rightarrow> ('a option list \<times> nat) option" where
  "filter_elem a msk base k s =
     (case s of (cs, cur) \<Rightarrow>
        Option.bind (rd (ls_cells a) (base + k)) (\<lambda>x.
        map_option (\<lambda>cs'. (cs', cur + nat (drop_bit k msk AND 1))) (wr cs cur x)))"

definition filter_byte :: "'a list_struct \<Rightarrow> int list_struct \<Rightarrow> nat \<Rightarrow> 'a option list \<times> nat \<Rightarrow> ('a option list \<times> nat) option" where
  "filter_byte a bitmap i s =
     Option.bind (rd (ls_cells bitmap) i) (\<lambda>msk.
       if msk = 0 then Some s
       else if msk = 0xFF
       then (case s of (cs, cur) \<Rightarrow> map_option (\<lambda>cs'. (cs', cur + 8)) (memcpy cs cur (ls_cells a) (i * 8) 8))
       else for_loop 0 8 (filter_elem a msk (i * 8)) s)"

definition filter_tail :: "'a list_struct \<Rightarrow> int list_struct \<Rightarrow> 'a option list \<times> nat \<Rightarrow> (string + 'a option list \<times> nat) option" where
  "filter_tail a bitmap s =
     (let full_bytes = list_len a div 8 in
      if full_bytes < list_len bitmap then
        Option.bind (rd (ls_cells bitmap) full_bytes) (\<lambda>msk.
          let base_idx = full_bytes * 8; valid = list_len a - base_idx in
          if drop_bit valid msk \<noteq> 0 then Some (Inl ''FilterByBitmap: bitmap len is too long'')
          else map_option Inr (for_loop 0 valid (filter_elem a msk base_idx) s))
      else Some (Inr s))"

definition FilterByBitmap :: "'a elem \<Rightarrow> malloc_fun \<Rightarrow> 'a list_struct \<Rightarrow> int list_struct \<Rightarrow> u32 \<Rightarrow> exec_ctx
     \<Rightarrow> ('a list_struct \<times> exec_ctx) option" where
  "FilterByBitmap T malloc a bitmap bits_cnt c =
     (if (ls_len a + 7) div 8 \<noteq> ls_len bitmap
      then Some (null_list, AddError ''FilterByBitmap: bitmap len is not corresponding to list len'' c)
      else
        (case alloc_cells malloc (elem_size T) (ucast (bits_cnt + 1) * elem_size T) c of (p, cs, c1) \<Rightarrow>
           Option.bind (for_loop 0 (list_len a div 8) (filter_byte a bitmap) (cs, 0)) (\<lambda>s.
           map_option (\<lambda>r. case r of
                Inl msg \<Rightarrow> (null_list, AddError msg c1)
              | Inr (cs', cur) \<Rightarrow>
                  if cur \<noteq> unat bits_cnt
                  then (null_list, AddError ''FilterByBitmap: bitmap len is not corresponding to bits_cnt'' c1)
                  else (\<lparr>ls_data = p, ls_cells = cs', ls_len = bits_cnt\<rparr>, c1))
             (filter_tail a bitmap s))))"

section \<open>Bitmaps as lists of flags\<close>

definition flag :: "int list \<Rightarrow> nat \<Rightarrow> bool" where
  "flag bs i = bit (bs ! (i div 8)) (i mod 8)"

definition bitmap_of :: "bool list \<Rightarrow> int list" where
  "bitmap_of fs = map (\<lambda>k. horner_sum of_bool 2 (take 8 (drop (8 * k) fs))) [0..<(length fs + 7) div 8]"

lemma length_bitmap_of [simp]: "length (bitmap_of fs) = (length fs + 7) div 8"
  by (simp add: bitmap_of_def)

lemma nth_bitmap_of:
  "k < (length fs + 7) div 8 \<Longrightarrow> bitmap_of fs ! k = horner_sum of_bool 2 (take 8 (drop (8 * k) fs))"
  by (simp add: bitmap_of_def)

lemma flag_bitmap_of: "i < length fs \<Longrightarrow> flag (bitmap_of fs) i = fs ! i"
proof -
  assume i: "i < length fs"
  then have k: "i div 8 < (length fs + 7) div 8" by simp
  have e: "8 * (i div 8) + i mod 8 = i" by simp
  have "i mod 8 < length fs - 8 * (i div 8)" using i e by linarith
  then show ?thesis using i e by (simp add: flag_def nth_bitmap_of [OF k] bit_horner_sum_bit_iff)
qed

lemma horner_bound: "0 \<le> horner_sum of_bool (2::int) fs \<and> horner_sum of_bool (2::int) fs < 2 ^ length fs"
  by (induction fs) auto

lemma bytes_ok_bitmap_of: "bytes_ok (bitmap_of fs)"
proof -
  have "0 \<le> horner_sum of_bool (2::int) gs \<and> horner_sum of_bool (2::int) gs < 256" if "length gs \<le> 8" for gs
  proof -
    have "(2::int) ^ length gs \<le> 2 ^ 8" using that by (intro power_increasing) simp_all
    with horner_bound [of gs] show ?thesis by simp
  qed
  then show ?thesis by (auto simp: bytes_ok_def bitmap_of_def)
qed

lemma low_bit: "nat (drop_bit j (b::int) AND 1) = of_bool (bit b j)"
  by (simp add: and_one_eq bit_iff_odd_drop_bit odd_iff_mod_2_eq_one)

lemma mask_or_horner:
  assumes "j < length fs" "length fs \<le> 8"
  shows "mask_or (horner_sum of_bool 2 (take j fs)) j (fs ! j) = horner_sum of_bool 2 (take (Suc j) fs)"
proof -
  have c: "convert_int 8 False x = take_bit 8 x" for x by (simp add: convert_int_def take_bit_eq_mod)
  show ?thesis
    unfolding mask_or_def c
    by (rule bit_eqI)
      (use assms in \<open>auto simp: bit_take_bit_iff bit_or_iff bit_push_bit_iff bit_horner_sum_bit_iff bit_1_iff
        less_Suc_eq nth_take split: if_splits\<close>)
qed

lemma mask_loop:
  assumes "length fs \<le> 8" "\<And>j. j < length fs \<Longrightarrow> is_true (i + j) = Some (fs ! j)"
  shows "for_loop 0 (length fs) (\<lambda>j msk. map_option (mask_or msk j) (is_true (i + j))) 0
    = Some (horner_sum of_bool 2 fs)"
  using for_loop_trace [of 0 "length fs" "\<lambda>j msk. map_option (mask_or msk j) (is_true (i + j))"
      "\<lambda>j. horner_sum of_bool 2 (take j fs)"] assms
  by (simp add: mask_or_horner)

section \<open>What the generated bitmap holds\<close>

text \<open>The loop over the whole bytes, for any number of elements.\<close>

lemma gen_whole_bytes:
  assumes it: "\<And>i. i < length fs \<Longrightarrow> is_true i = Some (fs ! i)" and len: "length cs = (length fs + 7) div 8"
  shows "for_step 8 0 (length fs div 8 * 8) (\<lambda>i cs.
      Option.bind (for_loop 0 8 (\<lambda>j msk. map_option (mask_or msk j) (is_true (i + j))) 0) (wr cs (i div 8))) cs
    = Some (filled (length fs div 8) (bitmap_of fs) cs)"
proof -
  let ?m = "length fs div 8" let ?ys = "bitmap_of fs"
  have "for_step 8 0 (?m * 8) (\<lambda>i cs.
      Option.bind (for_loop 0 8 (\<lambda>j msk. map_option (mask_or msk j) (is_true (i + j))) 0) (wr cs (i div 8))) (filled 0 ?ys cs)
    = Some (filled ?m ?ys cs)"
  proof (rule for_step_trace [where g = "\<lambda>j. filled j ?ys cs"])
    fix k assume k: "k < ?m"
    let ?gs = "take 8 (drop (8 * k) fs)"
    have lg: "length ?gs = 8" using k by simp
    have "for_loop 0 (length ?gs) (\<lambda>j msk. map_option (mask_or msk j) (is_true (k * 8 + j))) 0
      = Some (horner_sum of_bool 2 ?gs)"
      by (rule mask_loop) (use lg k in \<open>simp_all add: it mult.commute\<close>)
    moreover have "?ys ! k = horner_sum of_bool 2 ?gs" using k by (intro nth_bitmap_of) simp
    moreover have "k < length ?ys" "k < length cs" using k len by simp_all
    ultimately show "Option.bind (for_loop 0 8 (\<lambda>j msk. map_option (mask_or msk j) (is_true (0 + k * 8 + j))) 0)
        (wr (filled k ?ys cs) ((0 + k * 8) div 8)) = Some (filled (Suc k) ?ys cs)"
      using wr_filled [of k ?ys cs] lg by simp
  qed simp_all
  then show ?thesis by simp
qed

lemma gen_bits_partial:
  assumes it: "\<And>i. i < length fs \<Longrightarrow> is_true i = Some (fs ! i)" and len: "length cs = (length fs + 7) div 8"
    and n: "unat n = length fs" and part: "length fs mod 8 \<noteq> 0"
  shows "gen_bits n is_true cs = Some (map Some (bitmap_of fs))"
proof -
  let ?m = "length fs div 8" let ?ys = "bitmap_of fs" let ?gs = "drop (8 * ?m) fs"
  let ?cs = "filled ?m ?ys cs"
  have v: "unat (n AND - 8) = ?m * 8" by (simp add: and_not_7 n)
  have lm: "(length fs + 7) div 8 = Suc ?m" using part by presburger
  have lg: "length ?gs = length fs - ?m * 8" "length ?gs \<le> 8" "length fs - ?m * 8 < 8" by (simp_all add: mult.commute)
  have ylast: "?ys ! ?m = horner_sum of_bool 2 ?gs" using lm lg(2) nth_bitmap_of [of ?m fs] by simp
  have lc: "length ?cs = Suc ?m" using len lm by simp
  let ?g = "\<lambda>j. ?cs[?m := Some (horner_sum of_bool 2 (take j ?gs))]"
  have "for_loop 0 (length ?gs) (\<lambda>j cs. Option.bind (rd cs ?m) (\<lambda>msk.
      Option.bind (map_option (mask_or msk j) (is_true (?m * 8 + j))) (wr cs ?m))) (?g 0) = Some (?g (length ?gs))"
  proof (rule for_loop_trace [where g = ?g])
    fix j assume j: "j < length ?gs"
    then have "is_true (?m * 8 + j) = Some (?gs ! j)" by (simp add: it mult.commute)
    then show "Option.bind (rd (?g j) ?m) (\<lambda>msk. Option.bind (map_option (mask_or msk j) (is_true (?m * 8 + j))) (wr (?g j) ?m))
      = Some (?g (Suc j))"
      using mask_or_horner [OF j lg(2)] lc by (simp add: rd_def wr_def)
  qed simp
  moreover have "?g (length ?gs) = map Some ?ys"
  proof -
    have "?g (length ?gs) = filled (Suc ?m) ?ys cs"
      using wr_filled [of ?m ?ys cs] len lm ylast lc by (simp add: wr_def)
    also have "\<dots> = map Some ?ys" using filled_all [of ?ys cs] len lm by simp
    finally show ?thesis .
  qed
  moreover have "wr ?cs ?m 0 = Some (?g 0)" using lc by (simp add: wr_def)
  ultimately show ?thesis
    using gen_whole_bytes [OF it len] lg(1) by (simp add: gen_bits_def Let_def v n)
qed

text \<open>A list whose length is a positive multiple of 8: the byte behind the last one is cleared.\<close>

lemma gen_bits_whole:
  assumes it: "\<And>i. i < length fs \<Longrightarrow> is_true i = Some (fs ! i)" and len: "length cs = (length fs + 7) div 8"
    and n: "unat n = length fs" and whole: "length fs mod 8 = 0"
  shows "gen_bits n is_true cs = None"
proof -
  let ?m = "length fs div 8" let ?cs = "filled ?m (bitmap_of fs) cs"
  have v: "unat (n AND - 8) = ?m * 8" by (simp add: and_not_7 n)
  have lm: "(length fs + 7) div 8 = ?m" using whole by presburger
  then have "wr ?cs ?m 0 = None" using len by (simp add: wr_def)
  then show ?thesis using gen_whole_bytes [OF it len] by (simp add: gen_bits_def Let_def v)
qed

lemma u32_round_up: "unat n + 7 < 2 ^ 32 \<Longrightarrow> unat ((n + 7) div 8 :: u32) = (unat n + 7) div 8"
proof -
  assume "unat n + 7 < 2 ^ 32"
  then have "unat (n + 7) = unat n + 7" using unat_add_lem [of n 7] by simp
  then show ?thesis by (simp add: unat_div)
qed

lemma gen_bitmap_spec:
  assumes it: "\<And>i. i < length fs \<Longrightarrow> is_true i = Some (fs ! i)" and n: "unat n = length fs" and b: "length fs + 7 < 2 ^ 32"
    and can: "can_allocate malloc c (ucast ((n + 7) div 8))"
  shows "gen_bitmap malloc n is_true c =
    (if fs \<noteq> [] \<and> length fs mod 8 = 0 then None
     else Some (lst (arena_ptr malloc c (ucast ((n + 7) div 8))) (bitmap_of fs),
                after_alloc malloc c (ucast ((n + 7) div 8))))"
proof -
  let ?l = "(n + 7) div 8"
  have l: "unat ?l = (length fs + 7) div 8" using u32_round_up [of n] n b by simp
  then have l': "?l = of_nat ((length fs + 7) div 8)" by (metis of_nat_unat ucast_id)
  have al: "alloc_cells malloc 1 (ucast ?l) c
    = (arena_ptr malloc c (ucast ?l), replicate ((length fs + 7) div 8) None :: int option list,
       after_alloc malloc c (ucast ?l))"
    using alloc_cells_eq [OF can, of 1] l by simp
  show ?thesis
  proof (cases "fs = []")
    case True
    then have "n = 0" using n by (simp add: unat_eq_0)
    with True al l l' show ?thesis by (simp add: gen_bitmap_def Let_def lst_def bitmap_of_def)
  next
    case False
    then have nz: "n \<noteq> 0" using n by auto
    let ?cs = "replicate ((length fs + 7) div 8) None"
    have "gen_bits n is_true ?cs = (if length fs mod 8 = 0 then None else Some (map Some (bitmap_of fs)))"
      using gen_bits_partial [of fs is_true ?cs n] gen_bits_whole [of fs is_true ?cs n] it n by auto
    with False nz al l' show ?thesis
      unfolding gen_bitmap_def Let_def al prod.case by (simp add: lst_def)
  qed
qed

section \<open>What the selection computes\<close>

text \<open>The flags as elements: 1 is positive, 0 is not.\<close>

definition mask_elem_ok :: "'a elem \<Rightarrow> bool" where
  "mask_elem_ok T \<longleftrightarrow> elem_less T (elem_zero T) (elem_of_nat T 1) \<and> \<not> elem_less T (elem_zero T) (elem_of_nat T 0)"

lemma mask_elem_ok_int: "w \<in> {8, 16, 32, 64} \<Longrightarrow> mask_elem_ok (int_elem f w s)"
  by (auto simp: mask_elem_ok_def int_elem_def convert_int_def)

text \<open>What the vector library promises: comparison and selection lane by lane.\<close>

definition select_ok :: "'a elem \<Rightarrow> 'a simd \<Rightarrow> bool" where
  "select_ok T v \<longleftrightarrow>
     (\<forall>ms. length ms = kBatchSize v \<longrightarrow> simd_positive v ms = map (elem_less T (elem_zero T)) ms)
     \<and> (\<forall>cs xs ys. length cs = kBatchSize v \<longrightarrow> length xs = kBatchSize v \<longrightarrow> length ys = kBatchSize v
          \<longrightarrow> simd_select v cs xs ys = map (\<lambda>(t, x, y). if t then x else y) (zip cs (zip xs ys)))"

lemma unpack_bits_spec:
  assumes b: "holds bitmap bs" and bl: "(unat n + 7) div 8 \<le> length bs" and len: "length cs = unat n"
  shows "unpack_bits T bitmap n cs = Some (map Some (map (\<lambda>i. elem_of_nat T (of_bool (flag bs i))) [0..<unat n]))"
proof -
  let ?n = "unat n" let ?m = "?n div 8"
  let ?ys = "map (\<lambda>i. elem_of_nat T (of_bool (flag bs i))) [0..<?n]"
  have v: "unat (n AND - 8) = ?m * 8" by (simp add: and_not_7)
  have bit: "bitmap_bit T bitmap k j = Some (?ys ! (k * 8 + j))" if "k * 8 + j < ?n" "j < 8" for k j
  proof -
    have "k < length bs" using that bl by simp
    moreover have "(k * 8 + j) div 8 = k" "(k * 8 + j) mod 8 = j" using that by simp_all
    ultimately show ?thesis using that by (simp add: bitmap_bit_def holds_rd [OF b] low_bit flag_def)
  qed
  have step: "wr (filled i ?ys cs) i (?ys ! i) = Some (filled (Suc i) ?ys cs)" if "i < ?n" for i
    using that len by (intro wr_filled) simp_all
  have "for_step 8 0 (?m * 8) (\<lambda>i cs.
      for_loop 0 8 (\<lambda>j cs. Option.bind (bitmap_bit T bitmap (i div 8) j) (wr cs (i + j))) cs) (filled (0 * 8) ?ys cs)
    = Some (filled (?m * 8) ?ys cs)"
  proof (rule for_step_trace [where g = "\<lambda>k. filled (k * 8) ?ys cs"])
    fix k assume k: "k < ?m"
    have "for_loop 0 8 (\<lambda>j cs. Option.bind (bitmap_bit T bitmap k j) (wr cs (k * 8 + j))) (filled (k * 8 + 0) ?ys cs)
      = Some (filled (k * 8 + 8) ?ys cs)"
    proof (rule for_loop_trace [where g = "\<lambda>j. filled (k * 8 + j) ?ys cs"])
      fix j :: nat assume "j < 8"
      then have "k * 8 + j < ?n" using k by simp
      then show "Option.bind (bitmap_bit T bitmap k j) (wr (filled (k * 8 + j) ?ys cs) (k * 8 + j))
        = Some (filled (k * 8 + Suc j) ?ys cs)"
        using bit \<open>j < 8\<close> step by simp
    qed simp
    then show "for_loop 0 8 (\<lambda>j cs. Option.bind (bitmap_bit T bitmap ((0 + k * 8) div 8) j) (wr cs (0 + k * 8 + j)))
        (filled (k * 8) ?ys cs) = Some (filled (Suc k * 8) ?ys cs)"
      by (simp add: add.commute)
  qed simp_all
  moreover have "for_loop 0 (?n - ?m * 8) (\<lambda>j cs. Option.bind (bitmap_bit T bitmap ?m j) (wr cs (?m * 8 + j)))
      (filled (?m * 8 + 0) ?ys cs) = Some (filled (?m * 8 + (?n - ?m * 8)) ?ys cs)"
  proof (rule for_loop_trace [where g = "\<lambda>j. filled (?m * 8 + j) ?ys cs"])
    fix j assume j: "j < ?n - ?m * 8"
    then have "?m * 8 + j < ?n" "j < 8" by simp_all
    then show "Option.bind (bitmap_bit T bitmap ?m j) (wr (filled (?m * 8 + j) ?ys cs) (?m * 8 + j))
      = Some (filled (?m * 8 + Suc j) ?ys cs)"
      using bit step by simp
  qed simp
  moreover have "filled ?n ?ys cs = map Some ?ys" using filled_all [of ?ys cs] len by simp
  ultimately show ?thesis by (simp add: unpack_bits_def Let_def v)
qed

lemma rd_filled: "j \<le> i \<Longrightarrow> i < length cs \<Longrightarrow> j \<le> length ys \<Longrightarrow> rd (filled j ys cs) i = rd cs i"
  by (simp add: rd_def filled_def nth_append)

lemma rd_block_filled:
  "j \<le> i \<Longrightarrow> i + k \<le> length cs \<Longrightarrow> j \<le> length ys \<Longrightarrow> rd_block (filled j ys cs) i k = rd_block cs i k"
  by (simp add: rd_block_def filled_def)

lemma rd_block_map_Some: "i + k \<le> length zs \<Longrightarrow> rd_block (map Some zs) i k = Some (take k (drop i zs))"
  by (simp add: rd_block_def take_map drop_map)

lemma select_loop_spec:
  assumes T: "mask_elem_ok T" and v: "select_ok T v" and len: "length xs = n" "length ys = n"
    and lb: "\<And>i. i + kBatchSize v \<le> n \<Longrightarrow> lb i = Some (take (kBatchSize v) (drop i xs))"
    and rb: "\<And>i. i + kBatchSize v \<le> n \<Longrightarrow> rb i = Some (take (kBatchSize v) (drop i ys))"
    and l: "\<And>i. i < n \<Longrightarrow> l i = Some (xs ! i)" and r: "\<And>i. i < n \<Longrightarrow> r i = Some (ys ! i)"
  shows "select_loop T v n lb rb l r (map Some (map (\<lambda>i. elem_of_nat T (of_bool (f i))) [0..<n]))
    = Some (map Some (map (\<lambda>i. if f i then xs ! i else ys ! i) [0..<n]))"
proof -
  let ?k = "kBatchSize v"
  let ?ms = "map (\<lambda>i. elem_of_nat T (of_bool (f i))) [0..<n]"
  let ?zs = "map (\<lambda>i. if f i then xs ! i else ys ! i) [0..<n]"
  have pos: "elem_less T (elem_zero T) (elem_of_nat T (of_bool t)) = t" for t
    using T by (cases t) (simp_all add: mask_elem_ok_def)
  show ?thesis
    unfolding select_loop_def
  proof (rule batched_loop_fills)
    fix j assume "j < n div ?k"
    then have i: "j * ?k + ?k \<le> n" by (rule block_inside)
    let ?b = "\<lambda>zs. take ?k (drop (j * ?k) zs)"
    have "rd_block (filled (j * ?k) ?zs (map Some ?ms)) (j * ?k) ?k = rd_block (map Some ?ms) (j * ?k) ?k"
      using i by (intro rd_block_filled) simp_all
    also have "\<dots> = Some (?b ?ms)" by (rule rd_block_map_Some) (use i in simp)
    finally have m: "rd_block (filled (j * ?k) ?zs (map Some ?ms)) (j * ?k) ?k = Some (?b ?ms)" .
    have p: "simd_positive v (?b ?ms) = map (elem_less T (elem_zero T)) (?b ?ms)"
      using v i by (simp add: select_ok_def)
    have "simd_select v (simd_positive v (?b ?ms)) (?b xs) (?b ys)
      = map (\<lambda>(t, x, y). if t then x else y) (zip (map (elem_less T (elem_zero T)) (?b ?ms)) (zip (?b xs) (?b ys)))"
      unfolding p using v i len by (simp add: select_ok_def)
    also have "\<dots> = ?b ?zs"
      using i len by (intro nth_equalityI) (simp_all add: pos)
    finally show "Option.bind (rd_block (filled (j * ?k) ?zs (map Some ?ms)) (j * ?k) ?k) (\<lambda>msk.
        Option.bind (lb (j * ?k)) (\<lambda>xs. map_option (\<lambda>ys. simd_select v (simd_positive v msk) xs ys) (rb (j * ?k))))
      = Some (?b ?zs)"
      using m i by (simp add: lb rb)
  next
    fix i assume i: "i < n"
    have "rd (filled i ?zs (map Some ?ms)) i = Some (?ms ! i)" using i by (simp add: rd_filled) (simp add: rd_def)
    with i show "Option.bind (rd (filled i ?zs (map Some ?ms)) i) (\<lambda>m. if elem_less T (elem_zero T) m then l i else r i)
      = Some (?zs ! i)"
      by (simp add: pos l r)
  qed simp_all
qed

lemma select_by_bitmap_spec:
  assumes T: "mask_elem_ok T" "elem_ok T" and v: "select_ok T v" and b: "holds bitmap bs"
    and n: "unat n + 7 < 2 ^ 32" and bl: "(unat n + 7) div 8 \<le> length bs"
    and can: "can_allocate malloc c (list_bytes T n)"
    and len: "length xs = unat n" "length ys = unat n"
    and lb: "\<And>i. i + kBatchSize v \<le> unat n \<Longrightarrow> lb i = Some (take (kBatchSize v) (drop i xs))"
    and rb: "\<And>i. i + kBatchSize v \<le> unat n \<Longrightarrow> rb i = Some (take (kBatchSize v) (drop i ys))"
    and l: "\<And>i. i < unat n \<Longrightarrow> l i = Some (xs ! i)" and r: "\<And>i. i < unat n \<Longrightarrow> r i = Some (ys ! i)"
  shows "select_by_bitmap fname T v malloc bitmap n lb rb l r c
    = Some (lst (arena_ptr malloc c (list_bytes T n)) (map (\<lambda>i. if flag bs i then xs ! i else ys ! i) [0..<unat n]),
        after_alloc malloc c (list_bytes T n))"
proof -
  have long: "\<not> ls_len bitmap < (n + 7) div 8"
    using bl u32_round_up [OF n] holds_len [OF b] by (simp add: word_less_nat_alt)
  have ln: "n = of_nat (length (map (\<lambda>i. if flag bs i then xs ! i else ys ! i) [0..<unat n]))"
    by simp
  have "unpack_bits T bitmap n (replicate (unat n) None)
    = Some (map Some (map (\<lambda>i. elem_of_nat T (of_bool (flag bs i))) [0..<unat n]))"
    by (rule unpack_bits_spec [OF b bl]) simp
  moreover have "select_loop T v (unat n) lb rb l r (map Some (map (\<lambda>i. elem_of_nat T (of_bool (flag bs i))) [0..<unat n]))
    = Some (map Some (map (\<lambda>i. if flag bs i then xs ! i else ys ! i) [0..<unat n]))"
    by (rule select_loop_spec [OF T(1) v len lb rb l r])
  ultimately show ?thesis
    unfolding select_by_bitmap_def alloc_cells_elem [OF can T(2)] prod.case using long ln by (simp add: lst_def)
qed

section \<open>What the filter keeps\<close>

text \<open>The elements below index \<open>j\<close> whose flag is set.\<close>

definition kept :: "'a list \<Rightarrow> int list \<Rightarrow> nat \<Rightarrow> 'a list" where
  "kept xs bs j = map ((!) xs) (filter (flag bs) [0..<j])"

lemma kept_add: "kept xs bs (i + k) = kept xs bs i @ map ((!) xs) (filter (flag bs) [i..<i + k])"
  by (simp add: kept_def upt_add_eq_append [of 0 i k, simplified])

lemma kept_Suc: "kept xs bs (Suc i) = kept xs bs i @ (if flag bs i then [xs ! i] else [])"
  by (simp add: kept_def)

lemma kept_mono: "i \<le> j \<Longrightarrow> length (kept xs bs i) \<le> length (kept xs bs j)"
  using kept_add [of xs bs i "j - i"] by simp

text \<open>The state of the loops: the buffer with one spare cell, and its filled part.\<close>

definition filter_inv :: "'a list \<Rightarrow> int list \<Rightarrow> nat \<Rightarrow> nat \<Rightarrow> 'a option list \<times> nat \<Rightarrow> bool" where
  "filter_inv xs bs N i s \<longleftrightarrow> length (fst s) = Suc N \<and> snd s = length (kept xs bs i)
     \<and> take (snd s) (fst s) = map Some (kept xs bs i)"

lemma filter_elem_step:
  assumes a: "holds a xs" and i: "k < 8" "i * 8 + k < length xs" and N: "length (kept xs bs (length xs)) \<le> N"
    and inv: "filter_inv xs bs N (i * 8 + k) s"
  shows "\<exists>s'. filter_elem a (bs ! i) (i * 8) k s = Some s' \<and> filter_inv xs bs N (Suc (i * 8 + k)) s'"
proof -
  obtain cs cur where s: "s = (cs, cur)" by (cases s)
  have I: "length cs = Suc N" "cur = length (kept xs bs (i * 8 + k))" "take cur cs = map Some (kept xs bs (i * 8 + k))"
    using inv by (auto simp: filter_inv_def s)
  have "cur \<le> N" using kept_mono [of "i * 8 + k" "length xs" xs bs] i(2) N I by simp
  then have cur: "cur < length cs" using I by simp
  have f: "flag bs (i * 8 + k) = bit (bs ! i) k" using i(1) by (simp add: flag_def)
  have "take cur (cs[cur := Some (xs ! (i * 8 + k))]) = map Some (kept xs bs (i * 8 + k))" using I(3) by simp
  moreover have "take (Suc cur) (cs[cur := Some (xs ! (i * 8 + k))])
    = map Some (kept xs bs (i * 8 + k)) @ [Some (xs ! (i * 8 + k))]"
    using cur I by (simp add: take_Suc_conv_app_nth)
  ultimately show ?thesis
    using I(1,2) i(2) cur
    by (auto simp: filter_elem_def s holds_rd [OF a] wr_def filter_inv_def kept_Suc f low_bit)
qed

lemma filter_elems:
  assumes a: "holds a xs" and m: "m \<le> 8" "i * 8 + m \<le> length xs" and N: "length (kept xs bs (length xs)) \<le> N"
    and inv: "filter_inv xs bs N (i * 8) s"
  shows "\<exists>s'. for_loop 0 m (filter_elem a (bs ! i) (i * 8)) s = Some s' \<and> filter_inv xs bs N (i * 8 + m) s'"
  by (rule for_loop_inv [where I = "\<lambda>k. filter_inv xs bs N (i * 8 + k)"])
    (use inv m filter_elem_step [OF a _ _ N] in auto)

lemma filter_byte_step:
  assumes a: "holds a xs" and b: "holds bitmap bs" and i: "i < length bs" "i * 8 + 8 \<le> length xs"
    and N: "length (kept xs bs (length xs)) \<le> N" and inv: "filter_inv xs bs N (i * 8) s"
  shows "\<exists>s'. filter_byte a bitmap i s = Some s' \<and> filter_inv xs bs N (Suc i * 8) s'"
proof -
  have f: "flag bs j = bit (bs ! i) (j - i * 8) \<and> j - i * 8 < 8" if "i * 8 \<le> j" "j < i * 8 + 8" for j
  proof -
    have d: "j div 8 = i" using that by (intro div_nat_eqI) simp_all
    then have "j mod 8 = j - i * 8" using minus_div_mult_eq_mod [of j 8] by simp
    with d that show ?thesis by (simp add: flag_def)
  qed
  consider "bs ! i = 0" | "bs ! i = 0xFF" | "bs ! i \<noteq> 0" "bs ! i \<noteq> 0xFF" by blast
  then show ?thesis
  proof cases
    case 1
    then have "filter (flag bs) [i * 8..<i * 8 + 8] = []" using f by (auto simp: filter_empty_conv)
    then have "kept xs bs (i * 8 + 8) = kept xs bs (i * 8)" by (simp add: kept_add)
    with 1 inv i show ?thesis by (auto simp: filter_byte_def holds_rd [OF b] filter_inv_def add.commute)
  next
    case 2
    obtain cs cur where s: "s = (cs, cur)" by (cases s)
    have I: "length cs = Suc N" "cur = length (kept xs bs (i * 8))" "take cur cs = map Some (kept xs bs (i * 8))"
      using inv by (auto simp: filter_inv_def s)
    have m8: "(0xFF :: int) = mask 8" by (simp add: mask_eq_exp_minus_1)
    have ff: "bit (0xFF :: int) k" if "k < 8" for k unfolding m8 using that by (simp only: bit_mask_iff) simp
    from 2 have "filter (flag bs) [i * 8..<i * 8 + 8] = [i * 8..<i * 8 + 8]"
      using f ff by (intro filter_True) (metis atLeastLessThan_iff set_upt)
    then have k8: "kept xs bs (i * 8 + 8) = kept xs bs (i * 8) @ take 8 (drop (i * 8) xs)"
      unfolding kept_add by simp (rule nth_equalityI, use i in simp_all)
    have room: "cur + 8 \<le> N" using kept_mono [of "i * 8 + 8" "length xs" xs bs] i(2) N I k8 by simp
    have src: "take 8 (drop (i * 8) (ls_cells a)) = map Some (take 8 (drop (i * 8) xs))"
      using holds_rd_block [OF a, of "i * 8" 8] i(2) by (simp add: rd_block_def those_Some split: if_splits)
    have la: "i * 8 + 8 \<le> length (ls_cells a)" using a i(2) by (simp add: holds_def)
    have "memcpy cs cur (ls_cells a) (i * 8) 8
      = Some (map Some (kept xs bs (i * 8 + 8)) @ drop (cur + 8) cs)"
      using room I la by (simp add: memcpy_def src k8)
    moreover have "cur + 8 = length (kept xs bs (i * 8 + 8))" using I k8 i(2) by simp
    ultimately show ?thesis
      using 2 i I room by (simp add: filter_byte_def holds_rd [OF b] s filter_inv_def add.commute)
  next
    case 3
    then show ?thesis using filter_elems [OF a _ i(2) N inv] i
      by (simp add: filter_byte_def holds_rd [OF b] add.commute)
  qed
qed

text \<open>The bits of the last byte that belong to no element.\<close>

definition clean_tail :: "int list \<Rightarrow> nat \<Rightarrow> bool" where
  "clean_tail bs n \<longleftrightarrow> (n mod 8 \<noteq> 0 \<longrightarrow> drop_bit (n mod 8) (bs ! (n div 8)) = 0)"

lemma filter_tail_spec:
  assumes a: "holds a xs" and b: "holds bitmap bs" and lb: "length bs = (length xs + 7) div 8"
    and N: "length (kept xs bs (length xs)) \<le> N" and inv: "filter_inv xs bs N (length xs div 8 * 8) s"
  shows "if clean_tail bs (length xs)
    then \<exists>s'. filter_tail a bitmap s = Some (Inr s') \<and> filter_inv xs bs N (length xs) s'
    else filter_tail a bitmap s = Some (Inl ''FilterByBitmap: bitmap len is too long'')"
proof -
  let ?n = "length xs" let ?m = "?n div 8"
  have la: "list_len a = ?n" "list_len bitmap = length bs" using a b by (simp_all add: holds_len)
  have v: "?n - ?m * 8 = ?n mod 8" by (simp add: minus_div_mult_eq_mod)
  show ?thesis
  proof (cases "?n mod 8 = 0")
    case True
    then have "\<not> ?m < length bs" "?m * 8 = ?n" using lb by presburger+
    with True inv show ?thesis by (simp add: filter_tail_def Let_def la clean_tail_def)
  next
    case False
    then have m: "?m < length bs" using lb by presburger
    have e: "?m * 8 + ?n mod 8 = ?n" by simp
    show ?thesis
    proof (cases "drop_bit (?n mod 8) (bs ! ?m) = 0")
      case True
      then show ?thesis using filter_elems [OF a _ _ N inv, of "?n mod 8"] m e False
        by (auto simp: filter_tail_def Let_def la v holds_rd [OF b] clean_tail_def)
    next
      case F: False
      then show ?thesis using m False by (simp add: filter_tail_def Let_def la v holds_rd [OF b] clean_tail_def)
    qed
  qed
qed

text \<open>FilterByBitmap with a count that is not below the number of the set flags.\<close>

lemma FilterByBitmap_spec:
  assumes a: "holds a xs" and b: "holds bitmap bs" and lb: "length bs = (length xs + 7) div 8"
    and n: "length xs + 7 < 2 ^ 32" and N: "length (kept xs bs (length xs)) \<le> unat cnt" "unat cnt < 2 ^ 32 - 1"
    and T: "elem_ok T" and can: "can_allocate malloc c (list_bytes T (cnt + 1))"
  defines "c1 \<equiv> after_alloc malloc c (list_bytes T (cnt + 1))"
  shows "if \<not> clean_tail bs (length xs)
      then FilterByBitmap T malloc a bitmap cnt c
        = Some (null_list, AddError ''FilterByBitmap: bitmap len is too long'' c1)
    else if unat cnt \<noteq> length (kept xs bs (length xs))
      then FilterByBitmap T malloc a bitmap cnt c
        = Some (null_list, AddError ''FilterByBitmap: bitmap len is not corresponding to bits_cnt'' c1)
    else \<exists>r. FilterByBitmap T malloc a bitmap cnt c = Some (r, c1) \<and> holds r (kept xs bs (length xs))
        \<and> ls_data r = arena_ptr malloc c (list_bytes T (cnt + 1))"
proof -
  let ?n = "length xs" let ?N = "unat cnt"
  have la: "list_len a = ?n" using a by (rule holds_len)
  have lens: "(ls_len a + 7) div 8 = ls_len bitmap"
    using u32_round_up [of "ls_len a"] n lb holds_len [OF a] holds_len [OF b] by (simp add: word_unat_eq_iff)
  have N1: "unat (cnt + 1) = Suc ?N" using unat_add_lem [of cnt 1] N(2) by simp
  let ?s = "(replicate (unat (cnt + 1)) None, 0) :: 'a option list \<times> nat"
  have "\<exists>s. for_loop 0 (?n div 8) (filter_byte a bitmap) ?s = Some s \<and> filter_inv xs bs ?N (?n div 8 * 8) s"
  proof (rule for_loop_inv [where I = "\<lambda>i. filter_inv xs bs ?N (i * 8)"])
    fix i s assume "i < ?n div 8" "filter_inv xs bs ?N (i * 8) s"
    then show "\<exists>s'. filter_byte a bitmap i s = Some s' \<and> filter_inv xs bs ?N (Suc i * 8) s'"
      using lb by (intro filter_byte_step [OF a b _ _ N(1)]) simp_all
  qed (simp_all add: filter_inv_def N1 kept_def)
  then obtain s where s: "for_loop 0 (?n div 8) (filter_byte a bitmap) ?s = Some s" "filter_inv xs bs ?N (?n div 8 * 8) s"
    by blast
  note t = filter_tail_spec [OF a b lb N(1) s(2)]
  show ?thesis
  proof (cases "clean_tail bs ?n")
    case False
    with t s(1) show ?thesis
      unfolding FilterByBitmap_def alloc_cells_elem [OF can T] prod.case la c1_def by (simp add: lens)
  next
    case True
    then obtain cs cur where f: "filter_tail a bitmap s = Some (Inr (cs, cur))" "filter_inv xs bs ?N ?n (cs, cur)"
      using t by auto
    have I: "length cs = Suc ?N" "cur = length (kept xs bs ?n)" "take cur cs = map Some (kept xs bs ?n)"
      using f(2) by (auto simp: filter_inv_def)
    have "holds \<lparr>ls_data = arena_ptr malloc c (list_bytes T (cnt + 1)), ls_cells = cs, ls_len = cnt\<rparr> (kept xs bs ?n)"
      if "?N = length (kept xs bs ?n)"
      using I that by (simp add: holds_def)
    with True s(1) f(1) I show ?thesis
      unfolding FilterByBitmap_def alloc_cells_elem [OF can T] prod.case la c1_def by (simp add: lens)
  qed
qed

text \<open>The count of all set bits is never too small, and exact for a clean bitmap.\<close>

lemma popcount_filter: "popcount w x = length (filter (bit x) [0..<w])"
  by (simp add: popcount_def)

lemma flags_count: "sum_list (map (popcount 8) bs) = length (filter (flag bs) [0..<8 * length bs])"
proof (induction bs rule: rev_induct)
  case Nil
  then show ?case by simp
next
  case (snoc b bs)
  have low: "flag (bs @ [b]) i = flag bs i" if "i < 8 * length bs" for i
    using that by (simp add: flag_def nth_append less_mult_imp_div_less mult.commute)
  have high: "flag (bs @ [b]) (8 * length bs + k) = bit b k" if "k < 8" for k using that by (simp add: flag_def)
  have up: "[8 * length bs..<8 * length bs + 8] = map (\<lambda>k. 8 * length bs + k) [0..<8]" by (rule nth_equalityI) simp_all
  have "[0..<8 * length (bs @ [b])] = [0..<8 * length bs] @ [8 * length bs..<8 * length bs + 8]"
    using upt_add_eq_append [of 0 "8 * length bs" 8] by (simp add: add.commute)
  moreover have "filter (flag (bs @ [b])) [0..<8 * length bs] = filter (flag bs) [0..<8 * length bs]"
    by (intro filter_cong) (simp_all add: low)
  moreover have "length (filter (flag (bs @ [b])) [8 * length bs..<8 * length bs + 8]) = popcount 8 b"
  proof -
    have "filter (\<lambda>k. flag (bs @ [b]) (8 * length bs + k)) [0..<8] = filter (bit b) [0..<8]"
      by (rule filter_cong [OF refl]) (rule high, simp)
    then show ?thesis unfolding up popcount_def filter_map o_def length_map by (rule arg_cong)
  qed
  ultimately show ?case using snoc by simp
qed

lemma kept_le_count:
  assumes "length xs \<le> 8 * length bs"
  shows "length (kept xs bs (length xs)) \<le> sum_list (map (popcount 8) bs)"
  using kept_mono [of "length xs" "8 * length bs" xs bs] assms by (simp add: flags_count kept_def)

lemma round_up_div8: "(n + 7) div 8 = n div 8 + (if n mod 8 = 0 then 0 else 1)" for n :: nat
  by presburger

lemma kept_eq_count:
  assumes lb: "length bs = (length xs + 7) div 8" and clean: "clean_tail bs (length xs)"
  shows "length (kept xs bs (length xs)) = sum_list (map (popcount 8) bs)"
proof -
  let ?n = "length xs"
  have le: "?n \<le> 8 * length bs" using lb by presburger
  have "\<not> flag bs i" if "?n \<le> i" "i < 8 * length bs" for i
  proof -
    have n: "?n = 8 * (?n div 8) + ?n mod 8" by simp
    have nz: "?n mod 8 \<noteq> 0" using that lb round_up_div8 [of ?n] n by (auto split: if_splits)
    then have "i < 8 * (?n div 8) + 8" "8 * (?n div 8) \<le> i" using that lb round_up_div8 [of ?n] n by auto
    then have m: "?n mod 8 \<noteq> 0" "i div 8 = ?n div 8" using nz by (auto intro: div_nat_eqI)
    have "i = 8 * (i div 8) + i mod 8" by simp
    then have "?n mod 8 \<le> i mod 8" using that(1) m(2) n by linarith
    then have "bit (bs ! (?n div 8)) (i mod 8) = bit (drop_bit (?n mod 8) (bs ! (?n div 8))) (i mod 8 - ?n mod 8)"
      by (simp add: bit_drop_bit_eq)
    with clean m show ?thesis by (simp add: flag_def clean_tail_def)
  qed
  then have "filter (flag bs) [?n..<8 * length bs] = []" by (auto simp: filter_empty_conv)
  moreover have "[0..<8 * length bs] = [0..<?n] @ [?n..<8 * length bs]" 
    using le upt_add_eq_append [of 0 ?n "8 * length bs - ?n"] by simp
  ultimately show ?thesis by (simp add: flags_count kept_def)
qed

lemma clean_bitmap_of: "clean_tail (bitmap_of fs) (length fs)"
proof -
  let ?n = "length fs"
  have "drop_bit (?n mod 8) (horner_sum of_bool 2 (take 8 (drop (8 * (?n div 8)) fs)) :: int) = 0"
  proof (rule bit_eqI)
    fix i
    have "length (take 8 (drop (8 * (?n div 8)) fs)) = ?n mod 8"
      by (simp add: minus_mult_div_eq_mod min_absorb2 less_imp_le)
    then show "bit (drop_bit (?n mod 8) (horner_sum of_bool 2 (take 8 (drop (8 * (?n div 8)) fs)) :: int)) i = bit 0 i"
      by (simp add: bit_drop_bit_eq bit_horner_sum_bit_iff del: length_take)
  qed
  moreover have "?n div 8 < (?n + 7) div 8" if "?n mod 8 \<noteq> 0" using that by presburger
  ultimately show ?thesis by (simp add: clean_tail_def nth_bitmap_of)
qed

lemma kept_bitmap_of:
  assumes "length fs = length xs"
  shows "kept xs (bitmap_of fs) (length xs) = map fst (filter snd (zip xs fs))"
proof -
  have "filter (flag (bitmap_of fs)) [0..<length xs] = filter ((!) fs) [0..<length xs]"
    using assms by (intro filter_cong) (simp_all add: flag_bitmap_of)
  moreover have "map ((!) xs) (filter ((!) fs) [0..<length xs]) = map fst (filter snd (zip xs fs))"
    using assms
  proof (induction fs xs rule: list_induct2)
    case (Cons f fs x xs)
    have "[0..<length (x # xs)] = 0 # map Suc [0..<length xs]" by (simp add: upt_conv_Cons map_Suc_upt del: upt_Suc)
    with Cons show ?case by (simp add: filter_map o_def del: upt_Suc)
  qed simp
  ultimately show ?thesis by (simp add: kept_def)
qed

end
