(* ===== verification/ListGroup.thy ===== *)
theory ListGroup
  imports ListArithmetic ListAggregation
begin

text \<open>
  Model of the function templates of src/function/list_group.cc: the group number of every key in
  the order of first occurrence, the keys of the groups, and sums, extreme values and averages per
  group. Group numbers are the elements of a list of 32-bit integers.
\<close>

section \<open>Strings as keys\<close>

text \<open>\<open>std::string_view(s.data, s.len)\<close>: its characters are read when they are compared.\<close>

definition string_view :: "string_struct \<Rightarrow> string option" where
  "string_view s = rd_block (ls_cells s) 0 (list_len s)"

section \<open>Group numbers\<close>

text \<open>try\_emplace on the hash map: the entry that is there, or a new one.\<close>

definition table_find :: "('k \<Rightarrow> 'k \<Rightarrow> bool) \<Rightarrow> ('k \<times> u32) list \<Rightarrow> 'k \<Rightarrow> u32 option" where
  "table_find eq table k = map_option snd (find (\<lambda>(k', _). eq k' k) table)"

definition try_emplace :: "('k \<Rightarrow> 'k \<Rightarrow> bool) \<Rightarrow> 'k \<Rightarrow> u32 \<Rightarrow> ('k \<times> u32) list \<Rightarrow> (u32 \<times> bool) \<times> ('k \<times> u32) list" where
  "try_emplace eq k v table =
     (case table_find eq table k of
        Some v' \<Rightarrow> ((v', False), table)
      | None \<Rightarrow> ((v, True), table @ [(k, v)]))"

definition group_index_loop :: "('k \<Rightarrow> 'k \<Rightarrow> bool) \<Rightarrow> (nat \<Rightarrow> 'k option) \<Rightarrow> malloc_fun \<Rightarrow> u32 \<Rightarrow> exec_ctx
     \<Rightarrow> (int list_struct \<times> exec_ctx) option" where
  "group_index_loop eq key_at malloc n c =
     (case alloc_cells malloc 4 (4 * ucast n) c of (p, cs, c1) \<Rightarrow>
        map_option (\<lambda>(cs', _, _). (\<lparr>ls_data = p, ls_cells = cs', ls_len = n\<rparr>, c1))
          (for_loop 0 (unat n) (\<lambda>i (cs, table, next_id).
             Option.bind (key_at i) (\<lambda>k.
               case try_emplace eq k next_id table of ((gid, inserted), table') \<Rightarrow>
                 map_option (\<lambda>cs'. (cs', table', if inserted then next_id + 1 else next_id)) (wr cs i (uint gid))))
             (cs, [], 0 :: u32)))"

definition GroupIndex where
  "GroupIndex T malloc keys c = group_index_loop (elem_eq T) (rd (ls_cells keys)) malloc (ls_len keys) c"

definition GroupIndexString :: "malloc_fun \<Rightarrow> string_list_struct \<Rightarrow> exec_ctx \<Rightarrow> (int list_struct \<times> exec_ctx) option" where
  "GroupIndexString malloc keys c =
     group_index_loop (=) (\<lambda>i. Option.bind (rd (ls_cells keys) i) string_view) malloc (ls_len keys) c"

definition GroupCount :: "int list_struct \<Rightarrow> u32 option" where
  "GroupCount group_index =
     (if ls_len group_index = 0 then Some 0
      else map_option (\<lambda>max_id. of_int max_id + 1)
        (for_loop 0 (list_len group_index) (\<lambda>i max_id. map_option (\<lambda>x. max x max_id) (rd (ls_cells group_index) i)) 0))"

section \<open>Values per group\<close>

definition group_mismatch :: "string \<Rightarrow> string \<Rightarrow> u32 \<Rightarrow> u32 \<Rightarrow> string" where
  "group_mismatch fname what l r =
     fname @ '': '' @ what @ '' and group_index len mismatch, '' @ what @ '' len: '' @ nat_to_string (unat l)
       @ '', group_index len: '' @ nat_to_string (unat r)"

definition GroupKeys :: "'a elem \<Rightarrow> malloc_fun \<Rightarrow> 'a list_struct \<Rightarrow> int list_struct \<Rightarrow> u32 \<Rightarrow> exec_ctx
     \<Rightarrow> ('a list_struct \<times> exec_ctx) option" where
  "GroupKeys T malloc keys group_index distinct_n c =
     (if ls_len keys \<noteq> ls_len group_index
      then Some (null_list, AddError (group_mismatch ''GroupKeys'' ''keys'' (ls_len keys) (ls_len group_index)) c)
      else
        (case alloc_cells malloc (elem_size T) (ucast distinct_n * elem_size T) c of (p, cs, c1) \<Rightarrow>
           map_option (\<lambda>(cs', filled_n). (\<lparr>ls_data = p, ls_cells = cs', ls_len = of_nat filled_n\<rparr>, c1))
             (for_loop 0 (list_len keys) (\<lambda>i (cs, filled_n).
                Option.bind (rd (ls_cells group_index) i) (\<lambda>g.
                  if g = int filled_n
                  then Option.bind (rd (ls_cells keys) i) (\<lambda>k. map_option (\<lambda>cs'. (cs', filled_n + 1)) (wr cs filled_n k))
                  else Some (cs, filled_n))) (cs, 0))))"

text \<open>The kernels that update \<open>result.data[group\_index.data[i]]\<close> in a buffer filled with a seed.\<close>

definition group_update :: "('v \<Rightarrow> 'a \<Rightarrow> 'v option) \<Rightarrow> 'a list_struct \<Rightarrow> int list_struct \<Rightarrow> 'v option list
     \<Rightarrow> 'v option list option" where
  "group_update upd vals group_index cs =
     for_loop 0 (list_len vals) (\<lambda>i cs.
       Option.bind (rd (ls_cells group_index) i) (\<lambda>g.
       Option.bind (rd cs (nat g)) (\<lambda>acc.
       Option.bind (rd (ls_cells vals) i) (\<lambda>x.
       Option.bind (upd acc x) (wr cs (nat g)))))) cs"

definition group_kernel :: "string \<Rightarrow> 'v elem \<Rightarrow> 'v \<Rightarrow> ('v \<Rightarrow> 'a \<Rightarrow> 'v option) \<Rightarrow> malloc_fun \<Rightarrow> 'a list_struct
     \<Rightarrow> int list_struct \<Rightarrow> u32 \<Rightarrow> exec_ctx \<Rightarrow> ('v list_struct \<times> exec_ctx) option" where
  "group_kernel fname R seed upd malloc vals group_index distinct_n c =
     (if ls_len vals \<noteq> ls_len group_index
      then Some (null_list, AddError (group_mismatch fname ''values'' (ls_len vals) (ls_len group_index)) c)
      else
        (case alloc_cells malloc (elem_size R) (ucast distinct_n * elem_size R) c of (p, cs, c1) \<Rightarrow>
           map_option (\<lambda>cs'. (\<lparr>ls_data = p, ls_cells = cs', ls_len = distinct_n\<rparr>, c1))
             (Option.bind (wr_block cs 0 (replicate (unat distinct_n) seed)) (group_update upd vals group_index))))"

definition GroupSum where
  "GroupSum R conv malloc vals gi n c =
     group_kernel ''GroupSum'' R (elem_zero R) (\<lambda>acc x. elem_add R acc (conv x)) malloc vals gi n c"
definition GroupMax where
  "GroupMax T malloc vals gi n c =
     group_kernel ''GroupMax'' T (elem_lowest T) (\<lambda>acc x. Some (std_max T acc x)) malloc vals gi n c"
definition GroupMin where
  "GroupMin T malloc vals gi n c =
     group_kernel ''GroupMin'' T (elem_max T) (\<lambda>acc x. Some (std_min T acc x)) malloc vals gi n c"

text \<open>GroupAvg keeps the counts beside the sums and divides at the end.\<close>

definition GroupAvg :: "'a elem \<Rightarrow> u64 fp_arith \<Rightarrow> malloc_fun \<Rightarrow> 'a list_struct \<Rightarrow> int list_struct \<Rightarrow> u32 \<Rightarrow> exec_ctx
     \<Rightarrow> (u64 list_struct \<times> exec_ctx) option" where
  "GroupAvg T fp malloc vals group_index distinct_n c =
     (if ls_len vals \<noteq> ls_len group_index
      then Some (null_list, AddError (group_mismatch ''GroupAvg'' ''values'' (ls_len vals) (ls_len group_index)) c)
      else
        (case alloc_cells malloc 8 (ucast distinct_n * 8) c of (p, cs, c1) \<Rightarrow>
           map_option (\<lambda>cs'. (\<lparr>ls_data = p, ls_cells = cs', ls_len = distinct_n\<rparr>, c1))
             (Option.bind (wr_block cs 0 (replicate (unat distinct_n) 0)) (\<lambda>cs.
              Option.bind (for_loop 0 (list_len vals) (\<lambda>i (cs, counts).
                Option.bind (rd (ls_cells group_index) i) (\<lambda>g.
                Option.bind (rd cs (nat g)) (\<lambda>acc.
                Option.bind (rd (ls_cells vals) i) (\<lambda>x.
                Option.bind (wr cs (nat g) (fp_add fp acc (elem_to_f64 T x))) (\<lambda>cs'.
                Option.bind (rd counts (nat g)) (\<lambda>k.
                map_option (\<lambda>counts'. (cs', counts')) (wr counts (nat g) (k + 1))))))))
                (cs, replicate (unat distinct_n) (Some (0 :: u32)))) (\<lambda>(cs, counts).
              for_loop 0 (unat distinct_n) (\<lambda>g cs.
                Option.bind (rd cs g) (\<lambda>s. Option.bind (rd counts g) (\<lambda>k.
                  wr cs g (fp_div fp s (fp_of_int fp (uint k)))))) cs)))))"

section \<open>Numbers in the order of first occurrence\<close>

definition index_in :: "'k list \<Rightarrow> 'k \<Rightarrow> nat" where
  "index_in ys k = length (takeWhile (\<lambda>y. y \<noteq> k) ys)"

definition group_ids :: "'k list \<Rightarrow> int list" where
  "group_ids ks = map (\<lambda>k. int (index_in (hash_set (=) ks) k)) ks"

lemma hash_set_snoc: "hash_set (=) (ks @ [k]) = (if k \<in> set ks then hash_set (=) ks else hash_set (=) ks @ [k])"
proof -
  have "list_ex ((=) k) (hash_set (=) ks) \<longleftrightarrow> k \<in> set ks"
    using hash_set_distinct(2) [of ks] by (auto simp: list_ex_iff)
  then show ?thesis by (simp add: hash_set_def)
qed

lemma hash_set_prefix: "\<exists>zs. hash_set (=) (ks @ ls) = hash_set (=) ks @ zs"
proof (induction ls rule: rev_induct)
  case (snoc l ls)
  then show ?case using hash_set_snoc [of "ks @ ls" l] by auto
qed simp

lemma index_in_less: "k \<in> set ys \<Longrightarrow> index_in ys k < length ys"
  by (induction ys) (auto simp: index_in_def)

lemma nth_index_in: "k \<in> set ys \<Longrightarrow> ys ! index_in ys k = k"
  using nth_length_takeWhile [of "\<lambda>y. y \<noteq> k" ys] index_in_less [of k ys] by (simp add: index_in_def)

lemma index_in_append: "k \<in> set ys \<Longrightarrow> index_in (ys @ zs) k = index_in ys k"
  by (auto simp: index_in_def takeWhile_append)

lemma index_in_new: "k \<notin> set ys \<Longrightarrow> index_in (ys @ [k]) k = length ys"
  by (auto simp: index_in_def takeWhile_append)

lemma index_in_nth: "distinct ys \<Longrightarrow> i < length ys \<Longrightarrow> index_in ys (ys ! i) = i"
  by (metis index_in_less nth_eq_iff_index_eq nth_index_in nth_mem)

lemma group_ids_step:
  assumes "i < length ks"
  shows "group_ids ks ! i = int (index_in (hash_set (=) (take (Suc i) ks)) (ks ! i))"
proof -
  obtain zs where z: "hash_set (=) (take (Suc i) ks @ drop (Suc i) ks) = hash_set (=) (take (Suc i) ks) @ zs"
    using hash_set_prefix by blast
  have "ks ! i \<in> set (take (Suc i) ks)" using assms by (simp add: take_Suc_conv_app_nth)
  then have m: "ks ! i \<in> set (hash_set (=) (take (Suc i) ks))" by (simp add: hash_set_distinct)
  from z have "hash_set (=) ks = hash_set (=) (take (Suc i) ks) @ zs" by simp
  then show ?thesis using assms index_in_append [OF m] by (simp add: group_ids_def)
qed

lemma length_hash_set_le: "length (hash_set (=) ks) \<le> length ks"
  by (metis length_hash_set card_length)

lemma group_ids_bound: "g \<in> set (group_ids ks) \<Longrightarrow> 0 \<le> g \<and> nat g < length (hash_set (=) ks)"
  by (auto simp: group_ids_def hash_set_distinct intro!: index_in_less)

text \<open>The table after \<open>i\<close> keys: the distinct ones, numbered.\<close>

definition table_of :: "'k list \<Rightarrow> ('k \<times> u32) list" where
  "table_of ks = map (\<lambda>j. (hash_set (=) ks ! j, of_nat j)) [0..<length (hash_set (=) ks)]"

lemma table_find_of: "table_find (=) (table_of ks) k =
    (if k \<in> set ks then Some (of_nat (index_in (hash_set (=) ks) k)) else None)"
proof (cases "k \<in> set ks")
  case True
  let ?h = "hash_set (=) ks"
  have m: "k \<in> set ?h" using True by (simp add: hash_set_distinct)
  have "find (\<lambda>(k', _). k' = k) (table_of ks) = Some (k, of_nat (index_in ?h k) :: u32)"
    unfolding find_Some_iff
  proof (intro exI [of _ "index_in ?h k"] conjI allI impI)
    show "index_in ?h k < length (table_of ks)" using index_in_less [OF m] by (simp add: table_of_def)
    show "case table_of ks ! index_in ?h k of (k', _) \<Rightarrow> k' = k"
      "(k, of_nat (index_in ?h k) :: u32) = table_of ks ! index_in ?h k"
      using index_in_less [OF m] nth_index_in [OF m] by (simp_all add: table_of_def)
    fix j assume "j < index_in ?h k"
    then show "\<not> (case table_of ks ! j of (k', _) \<Rightarrow> k' = k)"
      using index_in_less [OF m] nth_mem [of j "takeWhile (\<lambda>y. y \<noteq> k) ?h"]
      by (auto simp: table_of_def index_in_def takeWhile_nth dest: set_takeWhileD)
  qed
  with True show ?thesis by (simp add: table_find_def)
next
  case False
  have "find (\<lambda>(k', _). k' = k) (table_of ks) = None"
    unfolding find_None_iff using False by (auto simp: table_of_def) (metis hash_set_distinct(2) nth_mem)
  with False show ?thesis by (simp add: table_find_def)
qed

lemma table_of_snoc:
  "table_of (ks @ [k]) = (if k \<in> set ks then table_of ks else table_of ks @ [(k, of_nat (length (hash_set (=) ks)))])"
proof (cases "k \<in> set ks")
  case False
  have "map (\<lambda>j. ((hash_set (=) ks @ [k]) ! j, of_nat j :: u32)) [0..<length (hash_set (=) ks)]
    = map (\<lambda>j. (hash_set (=) ks ! j, of_nat j)) [0..<length (hash_set (=) ks)]"
    by (intro map_cong) (simp_all add: nth_append)
  with False show ?thesis by (simp add: table_of_def hash_set_snoc)
qed (simp add: table_of_def hash_set_snoc)

lemma group_index_spec:
  assumes k: "\<And>i. i < length ks \<Longrightarrow> key_at i = Some (ks ! i)" and n: "unat n = length ks"
    and can: "can_allocate malloc c (4 * ucast n)"
  shows "group_index_loop (=) key_at malloc n c
    = Some (lst (arena_ptr malloc c (4 * ucast n)) (group_ids ks), after_alloc malloc c (4 * ucast n))"
proof -
  let ?cs = "replicate (length ks) (None :: int option)"
  let ?f = "\<lambda>i (cs, table, next_id :: u32). Option.bind (key_at i) (\<lambda>k.
      case try_emplace (=) k next_id table of ((gid, inserted), table') \<Rightarrow>
        map_option (\<lambda>cs'. (cs', table', if inserted then next_id + 1 else next_id)) (wr cs i (uint gid)))"
  let ?g = "\<lambda>i. (filled i (group_ids ks) ?cs, table_of (take i ks), of_nat (length (hash_set (=) (take i ks))) :: u32)"
  have lb: "length ks < 2 ^ 32" using unsigned_less [of n, where ?'a = nat] n by simp
  have lg: "length (group_ids ks) = length ks" by (simp add: group_ids_def)
  have small: "uint (of_nat m :: u32) = int m" if "m \<le> length ks" for m
    using that lb by (simp add: uint_nat unat_of_nat)
  have "for_loop 0 (length ks) ?f (?g 0) = Some (?g (length ks))"
  proof (rule for_loop_trace)
    fix i assume i: "i < length ks"
    let ?h = "hash_set (=) (take i ks)"
    have t: "take (Suc i) ks = take i ks @ [ks ! i]" using i by (rule take_Suc_conv_app_nth)
    have hl: "length ?h \<le> length ks" using length_hash_set_le [of "take i ks"] by simp
    have w: "wr (filled i (group_ids ks) ?cs) i (group_ids ks ! i) = Some (filled (Suc i) (group_ids ks) ?cs)"
      using i lg by (intro wr_filled) simp_all
    show "?f i (?g i) = Some (?g (Suc i))"
    proof (cases "ks ! i \<in> set (take i ks)")
      case True
      then have m: "ks ! i \<in> set ?h" by (simp add: hash_set_distinct)
      have "group_ids ks ! i = int (index_in ?h (ks ! i))"
        using group_ids_step [OF i] True by (simp add: t hash_set_snoc)
      moreover have "uint (of_nat (index_in ?h (ks ! i)) :: u32) = int (index_in ?h (ks ! i))"
        by (rule small) (use index_in_less [OF m] hl in simp)
      ultimately show ?thesis
        using True w k [OF i] by (simp add: try_emplace_def table_find_of t hash_set_snoc table_of_snoc)
    next
      case False
      then have m: "ks ! i \<notin> set ?h" by (simp add: hash_set_distinct)
      have "group_ids ks ! i = int (length ?h)"
        using group_ids_step [OF i] False by (simp add: t hash_set_snoc index_in_new [OF m])
      moreover have "uint (of_nat (length ?h) :: u32) = int (length ?h)" using hl by (rule small)
      ultimately show ?thesis
        using False w k [OF i] by (simp add: try_emplace_def table_find_of t hash_set_snoc table_of_snoc)
    qed
  qed simp
  moreover have "?g 0 = (?cs, [], 0)" by (simp add: table_of_def hash_set_def)
  moreover have "fst (?g (length ks)) = map Some (group_ids ks)" using filled_all [of "group_ids ks" ?cs] lg by simp
  moreover have "alloc_cells malloc 4 (4 * ucast n) c
    = (arena_ptr malloc c (4 * ucast n), ?cs, after_alloc malloc c (4 * ucast n))"
    using alloc_cells_eq [OF can, of 4] unat_bytes [of 4 n] n by (simp add: mult.commute)
  ultimately show ?thesis using n lg by (simp add: group_index_loop_def lst_def) (metis of_nat_unat ucast_id)
qed

section \<open>Counting and the keys\<close>

lemma set_group_ids: "set (group_ids ks) = int ` {0..<length (hash_set (=) ks)}"
proof
  show "set (group_ids ks) \<subseteq> int ` {0..<length (hash_set (=) ks)}"
    by (auto simp: group_ids_def hash_set_distinct intro!: imageI index_in_less)
  show "int ` {0..<length (hash_set (=) ks)} \<subseteq> set (group_ids ks)"
  proof clarify
    fix j assume j: "j \<in> {0..<length (hash_set (=) ks)}"
    then have "hash_set (=) ks ! j \<in> set ks" using nth_mem [of j "hash_set (=) ks"] by (simp add: hash_set_distinct)
    moreover have "index_in (hash_set (=) ks) (hash_set (=) ks ! j) = j"
      using j by (intro index_in_nth) (simp_all add: hash_set_distinct)
    ultimately show "int j \<in> set (group_ids ks)" by (force simp: group_ids_def)
  qed
qed

lemma fold_max_ids:
  assumes "ks \<noteq> []"
  shows "fold max (group_ids ks) 0 = int (length (hash_set (=) ks)) - 1"
proof -
  let ?m = "length (hash_set (=) ks)"
  have "hash_set (=) ks \<noteq> []" using assms hash_set_distinct(2) [of ks] by auto
  then obtain m where m: "?m = Suc m" by (cases "hash_set (=) ks") auto
  have "fold max (group_ids ks) 0 = Max (insert 0 (set (group_ids ks)))"
    using Max.set_eq_fold [of 0 "group_ids ks"] by simp
  also have "\<dots> = int ?m - 1"
    using m by (intro Max_eqI) (auto simp: set_group_ids intro!: image_eqI [of _ _ m])
  finally show ?thesis .
qed

lemma GroupCount_ids:
  assumes g: "holds gi (group_ids ks)"
  shows "GroupCount gi = Some (of_nat (length (hash_set (=) ks)))"
proof (cases "ks = []")
  case True
  then have "ls_len gi = 0" using g holds_len_0 [OF g] by (simp add: group_ids_def)
  with True show ?thesis by (simp add: GroupCount_def hash_set_def)
next
  case False
  have n: "ls_len gi \<noteq> 0" using False holds_len_0 [OF g] by (simp add: group_ids_def)
  have "for_loop 0 (length (group_ids ks)) (\<lambda>i acc. Option.bind (rd (ls_cells gi) i) (\<lambda>x. Some (max x acc))) 0
    = Some (fold max (drop 0 (group_ids ks)) 0)"
    by (rule fold_loop [OF g, where P = "\<lambda>_. True"]) simp_all
  then show ?thesis
    using n fold_max_ids [OF False] holds_len [OF g]
    by (simp add: GroupCount_def map_conv_bind_option o_def)
qed

text \<open>The elements at the first occurrences of the keys.\<close>

definition first_of :: "'a list \<Rightarrow> 'k list \<Rightarrow> 'a list" where
  "first_of xs ks = map (\<lambda>k. xs ! index_in ks k) (hash_set (=) ks)"

lemma first_of_same: "first_of ks ks = hash_set (=) ks"
proof -
  have "map (\<lambda>k. ks ! index_in ks k) (hash_set (=) ks) = map (\<lambda>k. k) (hash_set (=) ks)"
    by (intro map_cong) (simp_all add: hash_set_distinct nth_index_in)
  then show ?thesis by (simp add: first_of_def)
qed

lemma first_of_take:
  assumes "i < length ks" "length xs = length ks"
  shows "first_of xs (take (Suc i) ks)
    = (if ks ! i \<in> set (take i ks) then first_of xs (take i ks) else first_of xs (take i ks) @ [xs ! i])"
proof -
  have t: "take (Suc i) ks = take i ks @ [ks ! i]" using assms(1) by (rule take_Suc_conv_app_nth)
  have same: "map (\<lambda>k. xs ! index_in (take i ks @ [ks ! i]) k) (hash_set (=) (take i ks))
    = map (\<lambda>k. xs ! index_in (take i ks) k) (hash_set (=) (take i ks))"
    by (intro map_cong) (simp_all add: hash_set_distinct index_in_append)
  then show ?thesis
    using assms by (simp add: first_of_def t hash_set_snoc index_in_new)
qed

lemma GroupKeys_spec:
  fixes keys :: "'a list_struct" and ks :: "'k list"
  assumes a: "holds keys xs" and g: "holds gi (group_ids ks)" and len: "length xs = length ks"
    and d: "unat d = length (hash_set (=) ks)" and T: "elem_ok T" and can: "can_allocate malloc c (list_bytes T d)"
  shows "GroupKeys T malloc keys gi d c
    = Some (lst (arena_ptr malloc c (list_bytes T d)) (first_of xs ks), after_alloc malloc c (list_bytes T d))"
proof -
  let ?n = "length ks" let ?m = "length (hash_set (=) ks)"
  let ?cs = "replicate ?m None :: 'a option list"
  have lg: "length (group_ids ks) = ?n" by (simp add: group_ids_def)
  have lens: "ls_len keys = ls_len gi" using holds_len_eq [OF a] holds_len_eq [OF g] len lg by simp
  let ?g = "\<lambda>i. (map Some (first_of xs (take i ks)) @ drop (length (hash_set (=) (take i ks))) ?cs,
      length (hash_set (=) (take i ks)))"
  let ?f = "\<lambda>i (cs, filled_n). Option.bind (rd (ls_cells gi) i) (\<lambda>g. if g = int filled_n
      then Option.bind (rd (ls_cells keys) i) (\<lambda>k. map_option (\<lambda>cs'. (cs', filled_n + 1)) (wr cs filled_n k))
      else Some (cs, filled_n))"
  have "for_loop 0 ?n ?f (?g 0) = Some (?g ?n)"
  proof (rule for_loop_trace)
    fix i assume i: "i < ?n"
    let ?h = "hash_set (=) (take i ks)"
    have t: "take (Suc i) ks = take i ks @ [ks ! i]" using i by (rule take_Suc_conv_app_nth)
    have id: "group_ids ks ! i = int (index_in (hash_set (=) (take (Suc i) ks)) (ks ! i))" using i by (rule group_ids_step)
    have lf: "length (first_of xs (take i ks)) = length ?h" by (simp add: first_of_def)
    show "?f i (?g i) = Some (?g (Suc i))"
    proof (cases "ks ! i \<in> set (take i ks)")
      case True
      then have "ks ! i \<in> set ?h" by (simp add: hash_set_distinct)
      then have "group_ids ks ! i \<noteq> int (length ?h)"
        using id True index_in_less [of "ks ! i" ?h] by (simp add: t hash_set_snoc)
      with True i lg len show ?thesis by (simp add: holds_rd [OF g] t hash_set_snoc first_of_take [OF i len, unfolded t])
    next
      case False
      then have "ks ! i \<notin> set ?h" by (simp add: hash_set_distinct)
      then have e: "group_ids ks ! i = int (length ?h)" using id False by (simp add: t hash_set_snoc index_in_new)
      obtain zs where "hash_set (=) (take (Suc i) ks @ drop (Suc i) ks) = hash_set (=) (take (Suc i) ks) @ zs"
        using hash_set_prefix by blast
      then have "length (hash_set (=) (take (Suc i) ks)) \<le> ?m" by simp
      then have room: "length ?h < ?m" using False by (simp add: t hash_set_snoc)
      then have dr: "drop (length ?h) ?cs = None # drop (Suc (length ?h)) ?cs"
        by (metis Cons_nth_drop_Suc length_replicate nth_replicate)
      have "(map Some (first_of xs (take i ks)) @ drop (length ?h) ?cs)[length ?h := Some (xs ! i)]
        = map Some (first_of xs (take i ks) @ [xs ! i]) @ drop (Suc (length ?h)) ?cs"
        unfolding dr using lf by (simp add: list_update_append)
      with room have "wr (map Some (first_of xs (take i ks)) @ drop (length ?h) ?cs) (length ?h) (xs ! i)
        = Some (map Some (first_of xs (take i ks) @ [xs ! i]) @ drop (Suc (length ?h)) ?cs)"
        using lf by (simp add: wr_def)
      with False e i lg len show ?thesis
        by (simp add: holds_rd [OF g] holds_rd [OF a] t hash_set_snoc first_of_take [OF i len, unfolded t])
    qed
  qed simp
  moreover have "?g 0 = (?cs, 0)" by (simp add: first_of_def hash_set_def)
  moreover have "of_nat ?m = d" using d by (metis of_nat_unat ucast_id)
  ultimately show ?thesis
    unfolding GroupKeys_def alloc_cells_elem [OF can T] prod.case d
    using lens len holds_len [OF a] by (simp add: lst_def first_of_def)
qed

section \<open>The kernels\<close>

text \<open>The values of one group, in their order.\<close>

definition members :: "int list \<Rightarrow> 'a list \<Rightarrow> nat \<Rightarrow> 'a list" where
  "members gs xs g = map snd (filter (\<lambda>(h, _). h = int g) (zip gs xs))"

lemma members_take:
  assumes "i < length gs" "length xs = length gs" "0 \<le> gs ! i"
  shows "members (take (Suc i) gs) (take (Suc i) xs) g
    = members (take i gs) (take i xs) g @ (if g = nat (gs ! i) then [xs ! i] else [])"
  using assms by (auto simp: members_def take_Suc_conv_app_nth)

lemma group_update_spec:
  assumes a: "holds vals xs" and g: "holds gi gs" and len: "length xs = length gs"
    and ids: "\<forall>g\<in>set gs. 0 \<le> g \<and> nat g < N" and upd: "\<And>acc x. upd acc x = Some (f acc x)"
  shows "group_update upd vals gi (replicate N (Some seed))
    = Some (map Some (map (\<lambda>g. fold (\<lambda>x acc. f acc x) (members gs xs g) seed) [0..<N]))"
proof -
  let ?acc = "\<lambda>i g. fold (\<lambda>x acc. f acc x) (members (take i gs) (take i xs) g) seed"
  let ?g = "\<lambda>i. map Some (map (?acc i) [0..<N])"
  let ?f = "\<lambda>i cs. Option.bind (rd (ls_cells gi) i) (\<lambda>g. Option.bind (rd cs (nat g)) (\<lambda>acc.
      Option.bind (rd (ls_cells vals) i) (\<lambda>x. Option.bind (upd acc x) (wr cs (nat g)))))"
  have "for_loop 0 (length gs) ?f (?g 0) = Some (?g (length gs))"
  proof (rule for_loop_trace)
    fix i assume i: "i < length gs"
    then have gi: "0 \<le> gs ! i" "nat (gs ! i) < N" using ids by auto
    have "(map (?acc i) [0..<N])[nat (gs ! i) := f (?acc i (nat (gs ! i))) (xs ! i)] = map (?acc (Suc i)) [0..<N]"
      by (rule nth_equalityI) (use gi in \<open>auto simp: nth_list_update members_take [OF i len]\<close>)
    with i gi len show "?f i (?g i) = Some (?g (Suc i))"
      by (simp add: holds_rd [OF g] holds_rd [OF a] upd rd_map_Some wr_map_Some del: map_map)
  qed simp
  moreover have "?g 0 = replicate N (Some seed)" by (simp add: members_def map_replicate_trivial)
  ultimately show ?thesis using len holds_len [OF a] by (simp add: group_update_def)
qed

text \<open>A group number outside of the buffer: the kernel accesses memory that is not its own.\<close>

lemma group_update_outside:
  assumes a: "holds vals xs" and g: "holds gi gs" and len: "length xs = length gs"
    and cs: "length cs = N" and out: "i < length gs" "N \<le> nat (gs ! i)"
  shows "group_update upd vals gi cs = None"
  unfolding group_update_def
  by (rule for_loop_fails [where I = "\<lambda>_ cs. length cs = N" and j = i])
    (use out cs len holds_len [OF a] holds_rd [OF g] in
      \<open>auto simp: rd_def bind_eq_Some_conv dest: length_wr split: if_splits\<close>)

lemma group_kernel_spec:
  assumes a: "holds vals xs" and g: "holds gi gs" and len: "length xs = length gs"
    and ids: "\<forall>g\<in>set gs. 0 \<le> g \<and> nat g < unat d" and upd: "\<And>acc x. upd acc x = Some (f acc x)"
    and R: "elem_ok R" and can: "can_allocate malloc c (list_bytes R d)"
  shows "group_kernel fname R seed upd malloc vals gi d c
    = Some (lst (arena_ptr malloc c (list_bytes R d))
          (map (\<lambda>g. fold (\<lambda>x acc. f acc x) (members gs xs g) seed) [0..<unat d]), after_alloc malloc c (list_bytes R d))"
proof -
  have lens: "ls_len vals = ls_len gi" using holds_len_eq [OF a] holds_len_eq [OF g] len by simp
  have "wr_block (replicate (unat d) None) 0 (replicate (unat d) seed) = Some (replicate (unat d) (Some seed))"
    by (simp add: wr_block_def)
  then show ?thesis
    unfolding group_kernel_def alloc_cells_elem [OF can R] prod.case
    using lens group_update_spec [OF a g len ids upd] by (simp add: lst_def)
qed

lemma group_kernel_outside:
  assumes a: "holds vals xs" and g: "holds gi gs" and len: "length xs = length gs"
    and out: "i < length gs" "unat d \<le> nat (gs ! i)"
    and R: "elem_ok R" and can: "can_allocate malloc c (list_bytes R d)"
  shows "group_kernel fname R seed upd malloc vals gi d c = None"
proof -
  have lens: "ls_len vals = ls_len gi" using holds_len_eq [OF a] holds_len_eq [OF g] len by simp
  have "wr_block (replicate (unat d) None) 0 (replicate (unat d) seed) = Some (replicate (unat d) (Some seed))"
    by (simp add: wr_block_def)
  moreover have "group_update upd vals gi (replicate (unat d) (Some seed)) = None"
    by (rule group_update_outside [OF a g len _ out]) simp
  ultimately show ?thesis
    unfolding group_kernel_def alloc_cells_elem [OF can R] prod.case using lens by simp
qed

end
