(* ===== verification/ListIndexing.thy ===== *)
theory ListIndexing
  imports ListGroup
begin

text \<open>
  Model of src/function/list_indexing.cc: lookup tables from a list to the first index of each key,
  linear and binary search, compaction of lookup results, gathering, and bucket numbers.
\<close>

definition kLookupMiss :: int where "kLookupMiss = 0xFFFFFFFF"

section \<open>Lookup tables\<close>

text \<open>The table lives in the arena as an object with a destructor: \<open>create\<close> is the call of
  \<open>arena.Create\<close> for its type. A null table has no entries to search, its use has no result.\<close>

type_synonym 'k lookup_table = "addr \<times> ('k \<times> u32) list"

definition build_table :: "('k \<Rightarrow> 'k \<Rightarrow> bool) \<Rightarrow> (nat \<Rightarrow> 'k option) \<Rightarrow> nat \<Rightarrow> ('k \<times> u32) list option" where
  "build_table eq key_at n =
     for_loop 0 n (\<lambda>j table. map_option (\<lambda>k. snd (try_emplace eq k (of_nat j) table)) (key_at j)) []"

definition create_table :: "malloc_fun \<Rightarrow> u64 \<Rightarrow> nat \<Rightarrow> ('k \<times> u32) list \<Rightarrow> exec_ctx \<Rightarrow> 'k lookup_table \<times> exec_ctx" where
  "create_table malloc obj_size dtor table c =
     (case Create malloc obj_size kDefaultAlignment (Some dtor) (ctx_arena c) of (p, ah) \<Rightarrow>
        ((p, table), c\<lparr>ctx_arena := ah\<rparr>))"

definition BuildLookupTableInt where
  "BuildLookupTableInt T malloc obj_size dtor b c =
     map_option (\<lambda>seed. create_table malloc obj_size dtor seed c)
       (build_table (elem_eq T) (rd (ls_cells b)) (list_len b))"

definition BuildLookupTableString :: "malloc_fun \<Rightarrow> u64 \<Rightarrow> nat \<Rightarrow> string_list_struct \<Rightarrow> exec_ctx
     \<Rightarrow> (string lookup_table \<times> exec_ctx) option" where
  "BuildLookupTableString malloc obj_size dtor b c =
     map_option (\<lambda>seed. create_table malloc obj_size dtor seed c)
       (build_table (=) (\<lambda>i. Option.bind (rd (ls_cells b) i) string_view) (list_len b))"

definition lookup_loop :: "('k \<Rightarrow> 'k \<Rightarrow> bool) \<Rightarrow> (nat \<Rightarrow> 'k option) \<Rightarrow> malloc_fun \<Rightarrow> u32 \<Rightarrow> 'k lookup_table \<Rightarrow> exec_ctx
     \<Rightarrow> (int list_struct \<times> exec_ctx) option" where
  "lookup_loop eq key_at malloc n table c =
     (case alloc_cells malloc 4 (4 * ucast n) c of (p, cs, c1) \<Rightarrow>
        map_option (\<lambda>cs'. (\<lparr>ls_data = p, ls_cells = cs', ls_len = n\<rparr>, c1))
          (for_loop 0 (unat n) (\<lambda>i cs.
             Option.bind
               (Option.bind (key_at i) (\<lambda>k.
                  if fst table = 0 then None
                  else Some (case table_find eq (snd table) k of None \<Rightarrow> kLookupMiss | Some j \<Rightarrow> uint j)))
               (wr cs i)) cs))"

definition LookupTableInt where
  "LookupTableInt T malloc a table c = lookup_loop (elem_eq T) (rd (ls_cells a)) malloc (ls_len a) table c"

definition LookupTableString :: "malloc_fun \<Rightarrow> string_list_struct \<Rightarrow> string lookup_table \<Rightarrow> exec_ctx
     \<Rightarrow> (int list_struct \<times> exec_ctx) option" where
  "LookupTableString malloc a table c =
     lookup_loop (=) (\<lambda>i. Option.bind (rd (ls_cells a) i) string_view) malloc (ls_len a) table c"

section \<open>Search\<close>

text \<open>A loop that returns from inside: the first index whose element matches.\<close>

function find_first :: "(nat \<Rightarrow> bool option) \<Rightarrow> nat \<Rightarrow> nat \<Rightarrow> nat option option" where
  "find_first p i n =
     (if i < n then Option.bind (p i) (\<lambda>b. if b then Some (Some i) else find_first p (Suc i) n) else Some None)"
  by auto
termination by (relation "measure (\<lambda>(p, i, n). n - i)") auto

declare find_first.simps [simp del]

definition index_or_miss :: "nat option \<Rightarrow> int" where
  "index_or_miss r = (case r of None \<Rightarrow> kLookupMiss | Some i \<Rightarrow> int i)"

definition Find_f :: "'a elem \<Rightarrow> 'a list_struct \<Rightarrow> 'a \<Rightarrow> int option" where
  "Find_f T a v =
     map_option index_or_miss (find_first (\<lambda>i. map_option (\<lambda>x. elem_eq T x v) (rd (ls_cells a) i)) 0 (list_len a))"

definition FindString :: "string_list_struct \<Rightarrow> string_struct \<Rightarrow> int option" where
  "FindString a v =
     Option.bind (string_view v) (\<lambda>needle.
       map_option index_or_miss
         (find_first (\<lambda>i. map_option (\<lambda>x. x = needle) (Option.bind (rd (ls_cells a) i) string_view)) 0 (list_len a)))"

definition find_sorted :: "('k \<Rightarrow> 'k \<Rightarrow> bool) \<Rightarrow> ('k \<Rightarrow> 'k \<Rightarrow> bool) \<Rightarrow> 'k list \<Rightarrow> 'k \<Rightarrow> int" where
  "find_sorted lt eq xs v =
     (let it = bisect (\<lambda>j. lt (xs ! j) v) 0 (length xs) in
      if it = length xs \<or> \<not> eq (xs ! it) v then kLookupMiss else int it)"

definition FindSorted :: "'a elem \<Rightarrow> 'a list_struct \<Rightarrow> 'a \<Rightarrow> int option" where
  "FindSorted T a v =
     map_option (\<lambda>xs. find_sorted (elem_less T) (elem_eq T) xs v) (rd_block (ls_cells a) 0 (list_len a))"

definition FindSortedString :: "string_list_struct \<Rightarrow> string_struct \<Rightarrow> int option" where
  "FindSortedString a v =
     Option.bind (string_view v) (\<lambda>needle.
     Option.bind (rd_block (ls_cells a) 0 (list_len a)) (\<lambda>ss.
       map_option (\<lambda>xs. find_sorted string_less (=) xs needle) (those (map string_view ss))))"

section \<open>Compaction, gathering and buckets\<close>

definition compact_loop :: "(nat \<Rightarrow> int \<Rightarrow> int) \<Rightarrow> malloc_fun \<Rightarrow> int list_struct \<Rightarrow> exec_ctx
     \<Rightarrow> (int list_struct \<times> exec_ctx) option" where
  "compact_loop value malloc raw c =
     Option.bind
       (for_loop 0 (list_len raw) (\<lambda>i hits.
          map_option (\<lambda>x. hits + (if x \<noteq> kLookupMiss then 1 else 0)) (rd (ls_cells raw) i)) (0 :: u32)) (\<lambda>hits.
     case alloc_cells malloc 4 (4 * ucast hits) c of (p, cs, c1) \<Rightarrow>
       map_option (\<lambda>(cs', _). (\<lparr>ls_data = p, ls_cells = cs', ls_len = hits\<rparr>, c1))
         (for_loop 0 (list_len raw) (\<lambda>i (cs, out).
            Option.bind (rd (ls_cells raw) i) (\<lambda>x.
              if x \<noteq> kLookupMiss then map_option (\<lambda>cs'. (cs', Suc out)) (wr cs out (value i x)) else Some (cs, out)))
            (cs, 0)))"

definition ListCompactPositions where
  "ListCompactPositions malloc raw c = compact_loop (\<lambda>i _. int i) malloc raw c"

definition ListCompactIndex where
  "ListCompactIndex malloc raw c = compact_loop (\<lambda>_ x. x) malloc raw c"

definition ListGather :: "'a elem \<Rightarrow> malloc_fun \<Rightarrow> 'a list_struct \<Rightarrow> int list_struct \<Rightarrow> 'a \<Rightarrow> exec_ctx
     \<Rightarrow> ('a list_struct \<times> exec_ctx) option" where
  "ListGather T malloc vals idx default_value c =
     (case alloc_cells malloc (elem_size T) (elem_size T * ucast (ls_len idx)) c of (p, cs, c1) \<Rightarrow>
        map_option (\<lambda>cs'. (\<lparr>ls_data = p, ls_cells = cs', ls_len = ls_len idx\<rparr>, c1))
          (for_loop 0 (list_len idx) (\<lambda>k cs.
             Option.bind
               (Option.bind (rd (ls_cells idx) k) (\<lambda>j.
                  if j < int (list_len vals) then rd (ls_cells vals) (nat j) else Some default_value))
               (wr cs k)) cs))"

definition kBucketizeLinearThreshold :: nat where "kBucketizeLinearThreshold = 16"

text \<open>The number of the bucket of \<open>v\<close>: up to 16 boundaries are scanned, more are bisected.\<close>

definition bucket_of :: "('a \<Rightarrow> 'a \<Rightarrow> bool) \<Rightarrow> 'a list \<Rightarrow> 'a \<Rightarrow> nat" where
  "bucket_of lt bs v =
     (if length bs \<le> kBucketizeLinearThreshold then scan (\<lambda>j. lt v (bs ! j)) 0 (length bs)
      else bisect (\<lambda>j. \<not> lt v (bs ! j)) 0 (length bs))"

definition Bucketize :: "'a elem \<Rightarrow> malloc_fun \<Rightarrow> 'a list_struct \<Rightarrow> 'a list_struct \<Rightarrow> exec_ctx
     \<Rightarrow> (int list_struct \<times> exec_ctx) option" where
  "Bucketize T malloc vals boundaries c =
     (case alloc_cells malloc 4 (4 * ucast (ls_len vals)) c of (p, cs, c1) \<Rightarrow>
        map_option (\<lambda>cs'. (\<lparr>ls_data = p, ls_cells = cs', ls_len = ls_len vals\<rparr>, c1))
          (for_loop 0 (list_len vals) (\<lambda>i cs.
             Option.bind
               (Option.bind (rd (ls_cells vals) i) (\<lambda>v.
                  map_option (\<lambda>bs. int (bucket_of (elem_less T) bs v))
                    (rd_block (ls_cells boundaries) 0 (list_len boundaries))))
               (wr cs i)) cs))"

section \<open>What lookups return\<close>

text \<open>The index of the first occurrence.\<close>

definition first_index :: "'k list \<Rightarrow> 'k \<Rightarrow> int" where
  "first_index bs k = (if k \<in> set bs then int (index_in bs k) else kLookupMiss)"

definition index_table :: "'k list \<Rightarrow> ('k \<times> u32) list" where
  "index_table bs = map (\<lambda>k. (k, of_nat (index_in bs k))) (hash_set (=) bs)"

lemma find_key: "find (\<lambda>(k', _). k' = k) (map (\<lambda>x. (x, f x)) xs) = (if k \<in> set xs then Some (k, f k) else None)"
  by (induction xs) auto

lemma table_find_index:
  "table_find (=) (index_table bs) k = (if k \<in> set bs then Some (of_nat (index_in bs k)) else None)"
  by (simp add: table_find_def index_table_def find_key hash_set_distinct)

lemma index_table_snoc:
  "index_table (bs @ [k]) = snd (try_emplace (=) k (of_nat (length bs)) (index_table bs))"
proof -
  have same: "map (\<lambda>x. (x, of_nat (index_in (bs @ [k]) x) :: u32)) (hash_set (=) bs) = index_table bs"
    unfolding index_table_def by (intro map_cong) (simp_all add: hash_set_distinct index_in_append)
  show ?thesis
  proof (cases "k \<in> set bs")
    case True
    with same show ?thesis
      by (simp add: try_emplace_def table_find_index) (simp add: index_table_def hash_set_snoc)
  next
    case False
    have "index_table (bs @ [k]) = index_table bs @ [(k, of_nat (length bs))]"
      using False same by (simp add: index_table_def [of "bs @ [k]"] hash_set_snoc index_in_new)
    with False show ?thesis by (simp add: try_emplace_def table_find_index)
  qed
qed

lemma build_table_spec:
  assumes "\<And>j. j < length bs \<Longrightarrow> key_at j = Some (bs ! j)"
  shows "build_table (=) key_at (length bs) = Some (index_table bs)"
proof -
  have "for_loop 0 (length bs) (\<lambda>j table. map_option (\<lambda>k. snd (try_emplace (=) k (of_nat j) table)) (key_at j))
      (index_table (take 0 bs)) = Some (index_table (take (length bs) bs))"
  proof (rule for_loop_trace [where g = "\<lambda>j. index_table (take j bs)"])
    fix j assume j: "j < length bs"
    then have "take (Suc j) bs = take j bs @ [bs ! j]" by (rule take_Suc_conv_app_nth)
    with j show "map_option (\<lambda>k. snd (try_emplace (=) k (of_nat j) (index_table (take j bs)))) (key_at j)
      = Some (index_table (take (Suc j) bs))"
      using index_table_snoc [of "take j bs" "bs ! j"] by (simp add: assms)
  qed simp
  then show ?thesis by (simp add: build_table_def index_table_def hash_set_def)
qed

lemma unat_bytes4: "unat (4 * ucast (n :: u32) :: u64) div 4 = unat n"
  using unat_bytes [of 4 n] by (simp add: mult.commute)

lemma alloc_cells_u32:
  "can_allocate malloc c (4 * ucast (n :: u32)) \<Longrightarrow> alloc_cells malloc 4 (4 * ucast n) c
    = (arena_ptr malloc c (4 * ucast n), replicate (unat n) None, after_alloc malloc c (4 * ucast n))"
  by (simp add: alloc_cells_eq unat_bytes4)

lemma lookup_loop_spec:
  assumes k: "\<And>i. i < length ks \<Longrightarrow> key_at i = Some (ks ! i)" and n: "unat n = length ks"
    and b: "length bs < 2 ^ 32" and t: "fst table \<noteq> 0" "snd table = index_table bs"
    and can: "can_allocate malloc c (4 * ucast n)"
  shows "lookup_loop (=) key_at malloc n table c
    = Some (lst (arena_ptr malloc c (4 * ucast n)) (map (first_index bs) ks), after_alloc malloc c (4 * ucast n))"
proof -
  let ?f = "\<lambda>i. Option.bind (key_at i) (\<lambda>k. if fst table = 0 then None
      else Some (case table_find (=) (snd table) k of None \<Rightarrow> kLookupMiss | Some j \<Rightarrow> uint j))"
  have "?f i = Some (map (first_index bs) ks ! i)" if "i < length ks" for i
  proof (cases "ks ! i \<in> set bs")
    case True
    then have "index_in bs (ks ! i) < 2 ^ 32" using index_in_less b by (metis less_trans)
    then have "uint (of_nat (index_in bs (ks ! i)) :: u32) = int (index_in bs (ks ! i))"
      by (simp add: uint_nat unat_of_nat)
    with True that t show ?thesis by (simp add: k table_find_index first_index_def)
  qed (use that t in \<open>simp add: k table_find_index first_index_def\<close>)
  then have "map ?f [0..<length ks] = map Some (map (first_index bs) ks)" by (intro nth_equalityI) simp_all
  then have "for_loop 0 (length ks) (\<lambda>i cs. Option.bind (?f i) (wr cs i)) (replicate (length ks) None)
    = Some (map Some (map (first_index bs) ks))"
    using fill_loop [of "length ks" "replicate (length ks) None" ?f] by (simp del: map_map)
  then show ?thesis
    unfolding lookup_loop_def alloc_cells_u32 [OF can] prod.case n by (simp add: lst_def n [symmetric])
qed

section \<open>What searches return\<close>

lemma find_first_spec:
  "(\<And>j. i \<le> j \<Longrightarrow> j < n \<Longrightarrow> p j = Some (q j)) \<Longrightarrow> i \<le> n
    \<Longrightarrow> find_first p i n = Some (if scan q i n < n then Some (scan q i n) else None)"
proof (induction "n - i" arbitrary: i)
  case 0
  then show ?case by (subst find_first.simps) (simp add: scan_here)
next
  case (Suc d)
  then have i: "i < n" "d = n - Suc i" "p i = Some (q i)" by auto
  have "\<not> q i \<Longrightarrow> find_first p (Suc i) n = Some (if scan q (Suc i) n < n then Some (scan q (Suc i) n) else None)"
    using Suc i by simp
  with i show ?case by (subst find_first.simps) (auto simp: scan_next scan_here)
qed

lemma Find_spec:
  assumes a: "holds a xs"
  shows "Find_f T a v = Some (let i = scan (\<lambda>j. elem_eq T (xs ! j) v) 0 (length xs) in if i < length xs then int i else kLookupMiss)"
proof -
  have "find_first (\<lambda>i. map_option (\<lambda>x. elem_eq T x v) (rd (ls_cells a) i)) 0 (length xs)
    = Some (if scan (\<lambda>j. elem_eq T (xs ! j) v) 0 (length xs) < length xs
            then Some (scan (\<lambda>j. elem_eq T (xs ! j) v) 0 (length xs)) else None)"
    by (rule find_first_spec) (simp_all add: holds_rd [OF a])
  then show ?thesis by (simp add: Find_f_def holds_len [OF a] index_or_miss_def Let_def)
qed

context elem_order
begin

text \<open>On a sorted list the binary search finds what the linear search finds.\<close>

lemma find_sorted_is_find:
  assumes "sorted (map key xs)" "list_all valid xs" "valid v"
  shows "find_sorted less eq xs v
    = (let i = scan (\<lambda>j. eq (xs ! j) v) 0 (length xs) in if i < length xs then int i else kLookupMiss)"
proof -
  let ?m = "length (filter (\<lambda>x. key x < key v) xs)"
  have "?m \<le> length xs" by simp
  then consider "?m < length xs" | "?m = length xs" by linarith
  then show ?thesis
  proof cases
    case 1
    then show ?thesis using lower_bound_find [OF assms]
      by (cases "eq (xs ! ?m) v") (simp_all add: find_sorted_def lower_bound [OF assms] Let_def)
  next
    case 2
    then show ?thesis using lower_bound_find [OF assms] by (simp add: find_sorted_def lower_bound [OF assms] Let_def)
  qed
qed

text \<open>Both ways to compute a bucket agree; a value that is below no boundary gets the last bucket.\<close>

lemma bucket_counts:
  assumes "sorted (map key bs)" "list_all valid bs" "valid v"
  shows "bucket_of less bs v = length (filter (\<lambda>b. key b \<le> key v) bs)"
proof -
  let ?m = "length (filter (\<lambda>b. key b \<le> key v) bs)"
  have lv: "less v (bs ! j) \<longleftrightarrow> \<not> j < ?m" if "j < length bs" for j
    using sorted_split(2) [OF assms(1,2) that, of "key v"] assms(2,3) that
    by (auto simp: less_key list_all_length linorder_not_less)
  have le: "?m \<le> length bs" by simp
  have below: "\<not> less v (bs ! j)" if "j < ?m" for j
  proof -
    have "j < length bs" using that le by (rule less_le_trans)
    with that show ?thesis by (simp add: lv)
  qed
  have "scan (\<lambda>j. less v (bs ! j)) 0 (length bs) = ?m"
    by (rule scan_split) (use below lv [of ?m] le in simp_all)
  then show ?thesis using upper_bound [OF assms] by (simp add: bucket_of_def)
qed

end

lemma bucket_of_unordered:
  assumes "\<And>b. b \<in> set bs \<Longrightarrow> \<not> lt v b"
  shows "bucket_of lt bs v = length bs"
proof -
  have "scan (\<lambda>j. lt v (bs ! j)) 0 (length bs) = length bs" by (rule scan_split) (use assms in auto)
  moreover have "bisect (\<lambda>j. \<not> lt v (bs ! j)) 0 (length bs) = length bs" by (rule bisect_split) (use assms in auto)
  ultimately show ?thesis by (simp add: bucket_of_def)
qed

lemma Bucketize_spec:
  assumes a: "holds vals xs" and b: "holds boundaries bs" and can: "can_allocate malloc c (4 * ucast (ls_len vals))"
  shows "Bucketize T malloc vals boundaries c
    = Some (lst (arena_ptr malloc c (4 * ucast (ls_len vals))) (map (\<lambda>v. int (bucket_of (elem_less T) bs v)) xs),
        after_alloc malloc c (4 * ucast (ls_len vals)))"
proof -
  let ?f = "\<lambda>v. map_option (\<lambda>bs. int (bucket_of (elem_less T) bs v)) (rd_block (ls_cells boundaries) 0 (list_len boundaries))"
  have "map ?f xs = map Some (map (\<lambda>v. int (bucket_of (elem_less T) bs v)) xs)" by (simp add: rd_block_all [OF b])
  then have "for_loop 0 (length xs) (\<lambda>i cs. Option.bind (Option.bind (rd (ls_cells vals) i) ?f) (wr cs i)) (replicate (length xs) None)
    = Some (map Some (map (\<lambda>v. int (bucket_of (elem_less T) bs v)) xs))"
    using fill_loop [of "length xs" "replicate (length xs) None" "\<lambda>i. Option.bind (rd (ls_cells vals) i) ?f"]
    by (simp only: those_map_holds [OF a] those_map_Some) simp
  then show ?thesis
    unfolding Bucketize_def alloc_cells_u32 [OF can] prod.case holds_len [OF a]
    using holds_len_eq [OF a] by (simp add: lst_def)
qed

section \<open>What is gathered\<close>

definition gather :: "'a list \<Rightarrow> 'a \<Rightarrow> int \<Rightarrow> 'a" where
  "gather xs d j = (if nat j < length xs then xs ! nat j else d)"

lemma ListGather_spec:
  assumes a: "holds vals xs" and i: "holds idx js" and pos: "\<forall>j\<in>set js. 0 \<le> j"
    and T: "elem_ok T" and can: "can_allocate malloc c (list_bytes T (ls_len idx))"
  shows "ListGather T malloc vals idx d c
    = Some (lst (arena_ptr malloc c (list_bytes T (ls_len idx))) (map (gather xs d) js),
        after_alloc malloc c (list_bytes T (ls_len idx)))"
proof -
  let ?f = "\<lambda>j. if j < int (list_len vals) then rd (ls_cells vals) (nat j) else Some d"
  have "map ?f js = map Some (map (gather xs d) js)"
    using pos by (auto simp: gather_def holds_len [OF a] holds_rd [OF a])
  then have "for_loop 0 (length js) (\<lambda>k cs. Option.bind (Option.bind (rd (ls_cells idx) k) ?f) (wr cs k)) (replicate (length js) None)
    = Some (map Some (map (gather xs d) js))"
    using fill_loop [of "length js" "replicate (length js) None" "\<lambda>k. Option.bind (rd (ls_cells idx) k) ?f"]
    by (simp only: those_map_holds [OF i] those_map_Some) simp
  then show ?thesis
    unfolding ListGather_def mult.commute [of "elem_size T"] alloc_cells_elem [OF can T] prod.case holds_len [OF i]
    using holds_len_eq [OF i] by (simp add: lst_def)
qed

text \<open>The indices that are not misses, or their positions, in order.\<close>

lemma compact_loop_spec:
  fixes val :: "nat \<Rightarrow> int \<Rightarrow> int"
  assumes r: "holds raw xs"
  defines "ys \<equiv> map (\<lambda>(i, x). val i x) (filter (\<lambda>(i, x). x \<noteq> kLookupMiss) (zip [0..<length xs] xs))"
  defines "n \<equiv> of_nat (length ys) :: u32"
  assumes can: "can_allocate malloc c (4 * ucast n)"
  shows "compact_loop val malloc raw c
    = Some (lst (arena_ptr malloc c (4 * ucast n)) ys, after_alloc malloc c (4 * ucast n))"
proof -
  let ?hit = "\<lambda>(i :: nat, x). x \<noteq> kLookupMiss"
  let ?pre = "\<lambda>i. filter ?hit (zip [0..<i] (take i xs))"
  let ?ys = "\<lambda>i. map (\<lambda>(i, x). val i x) (?pre i)"
  have step: "?pre (Suc i) = ?pre i @ (if xs ! i \<noteq> kLookupMiss then [(i, xs ! i)] else [])" if "i < length xs" for i
    using that by (simp add: take_Suc_conv_app_nth)
  have mono: "length (?pre i) \<le> length (?pre (length xs))" if "i \<le> length xs" for i
    using that
  proof (induction "length xs - i" arbitrary: i)
    case (Suc d)
    have "length (?pre (Suc i)) \<le> length (?pre (length xs))" by (rule Suc.hyps(1)) (use Suc in simp_all)
    moreover have "i < length xs" using Suc by simp
    then have "length (?pre i) \<le> length (?pre (Suc i))" by (simp add: step del: upt_Suc)
    ultimately show ?case by (rule order.trans [rotated])
  qed simp
  have full: "?ys (length xs) = ys" by (simp add: ys_def)
  have nl: "unat n = length ys"
  proof -
    have "length ys \<le> length xs" unfolding ys_def using length_filter_le [of ?hit "zip [0..<length xs] xs"] by simp
    then show ?thesis using holds_bound [OF r] by (simp add: n_def unat_of_nat)
  qed
  have "for_loop 0 (length xs) (\<lambda>i hits. map_option (\<lambda>x. hits + (if x \<noteq> kLookupMiss then 1 else 0)) (rd (ls_cells raw) i))
      (of_nat (length (?pre 0)) :: u32) = Some (of_nat (length (?pre (length xs))))"
    by (rule for_loop_trace [where g = "\<lambda>i. of_nat (length (?pre i))"]) (simp_all add: holds_rd [OF r] step del: upt_Suc)
  then have count: "for_loop 0 (length xs) (\<lambda>i hits. map_option (\<lambda>x. hits + (if x \<noteq> kLookupMiss then 1 else 0)) (rd (ls_cells raw) i)) 0
    = Some n"
    by (simp add: n_def ys_def)
  let ?cs = "replicate (length ys) None"
  let ?body = "\<lambda>i (cs, out). Option.bind (rd (ls_cells raw) i) (\<lambda>x.
      if x \<noteq> kLookupMiss then map_option (\<lambda>cs'. (cs', Suc out)) (wr cs out (val i x)) else Some (cs, out))"
  have "for_loop 0 (length xs) ?body (filled (length (?pre 0)) ys ?cs, length (?pre 0))
    = Some (filled (length (?pre (length xs))) ys ?cs, length (?pre (length xs)))"
  proof (rule for_loop_trace [where g = "\<lambda>i. (filled (length (?pre i)) ys ?cs, length (?pre i))"])
    fix i assume i: "i < length xs"
    show "?body i (filled (length (?pre i)) ys ?cs, length (?pre i)) = Some (filled (length (?pre (Suc i))) ys ?cs, length (?pre (Suc i)))"
    proof (cases "xs ! i = kLookupMiss")
      case True
      with i show ?thesis by (simp add: holds_rd [OF r] step del: upt_Suc)
    next
      case False
      have ls: "length (?pre (Suc i)) = Suc (length (?pre i))" using False i by (simp add: step del: upt_Suc)
      then have room: "length (?pre i) < length ys" using mono [of "Suc i"] i by (simp add: ys_def)
      have "ys ! length (?pre i) = val i (xs ! i)"
      proof -
        have "zip [0..<length xs] xs = zip [0..<Suc i] (take (Suc i) xs) @ drop (Suc i) (zip [0..<length xs] xs)"
          using i by (metis append_take_drop_id less_eq_Suc_le min_absorb1 take_upt add_0 take_zip)
        then have "ys = map (\<lambda>(i, x). val i x) (?pre (Suc i) @ filter ?hit (drop (Suc i) (zip [0..<length xs] xs)))"
          unfolding ys_def by (metis filter_append)
        then show ?thesis using False i by (simp add: step nth_append del: upt_Suc)
      qed
      then show ?thesis
        using False i ls wr_filled [of "length (?pre i)" ys ?cs] room by (simp add: holds_rd [OF r] del: upt_Suc)
    qed
  qed simp
  then have "for_loop 0 (length xs) ?body (?cs, 0) = Some (map Some ys, length ys)"
    using filled_all [of ys ?cs] full by (simp add: ys_def)
  then show ?thesis
    using count nl holds_len [OF r] unfolding compact_loop_def
    by (simp add: alloc_cells_u32 [OF can] lst_def n_def [symmetric])
qed

end
