(* ===== verification/ListBasic.thy ===== *)
theory ListBasic
  imports ListIndexing
begin

text \<open>
  Model of src/function/list\_basic.cc and of the C functions of src/function/string\_function\_init.cc:
  concatenation, membership, sorting, distinct elements, casts between numbers and strings, and the
  joins of string lists, whose strings point into one buffer that a cursor fills.
\<close>

section \<open>Concatenation\<close>

text \<open>The length of the result is a 32-bit sum.\<close>

definition concat_cells :: "u64 \<Rightarrow> malloc_fun \<Rightarrow> 'a list_struct \<Rightarrow> 'a list_struct \<Rightarrow> exec_ctx
     \<Rightarrow> ('a list_struct \<times> exec_ctx) option" where
  "concat_cells esz malloc a b c =
     (let n = ls_len a + ls_len b in
      case alloc_cells malloc esz (ucast n * esz) c of (p, cs, c1) \<Rightarrow>
        map_option (\<lambda>cs'. (\<lparr>ls_data = p, ls_cells = cs', ls_len = n\<rparr>, c1))
          (Option.bind (memcpy cs 0 (ls_cells a) 0 (list_len a)) (\<lambda>cs1.
             memcpy cs1 (list_len a) (ls_cells b) 0 (list_len b))))"

definition ListConcat where "ListConcat T malloc a b c = concat_cells (elem_size T) malloc a b c"

definition StringConcat :: "malloc_fun \<Rightarrow> string_struct \<Rightarrow> string_struct \<Rightarrow> exec_ctx \<Rightarrow> (string_struct \<times> exec_ctx) option" where
  "StringConcat malloc a b c = concat_cells 1 malloc a b c"

section \<open>Membership and comparison\<close>

definition IsInList :: "'a elem \<Rightarrow> 'a \<Rightarrow> 'a list_struct \<Rightarrow> int option" where
  "IsInList T v b =
     map_option (\<lambda>r. if r = None then 0 else 1)
       (find_first (\<lambda>i. map_option (\<lambda>x. elem_eq T v x) (rd (ls_cells b) i)) 0 (list_len b))"

definition IsInStringList :: "string_struct \<Rightarrow> string_list_struct \<Rightarrow> int option" where
  "IsInStringList a b =
     Option.bind (string_view a) (\<lambda>v.
       map_option (\<lambda>r. if r = None then 0 else 1)
         (find_first (\<lambda>i. map_option (\<lambda>x. v = x) (Option.bind (rd (ls_cells b) i) string_view)) 0 (list_len b)))"

text \<open>\<open>string_view::compare\<close>: only the sign of the number is specified.\<close>

definition StringCmp :: "string_struct \<Rightarrow> string_struct \<Rightarrow> int option" where
  "StringCmp a b =
     Option.bind (string_view a) (\<lambda>x. map_option (\<lambda>y.
       if string_less x y then -1 else if string_less y x then 1 else 0) (string_view b))"

definition StringContains :: "string_struct \<Rightarrow> string_struct \<Rightarrow> int option" where
  "StringContains haystack needle =
     Option.bind (string_view haystack) (\<lambda>h. map_option (\<lambda>n.
       if list_ex (\<lambda>i. take (length n) (drop i h) = n \<and> i + length n \<le> length h) [0..<Suc (length h)] then 1 else 0)
         (string_view needle))"

section \<open>Sorting and distinct elements\<close>

definition sort_cells :: "('a \<Rightarrow> 'a \<Rightarrow> bool) \<Rightarrow> u64 \<Rightarrow> malloc_fun \<Rightarrow> 'a list_struct \<Rightarrow> exec_ctx
     \<Rightarrow> ('a list_struct \<times> exec_ctx) option" where
  "sort_cells lt esz malloc a c =
     (case alloc_cells malloc esz (ucast (ls_len a) * esz) c of (p, cs, c1) \<Rightarrow>
        Option.bind (memcpy cs 0 (ls_cells a) 0 (list_len a)) (\<lambda>cs1.
        Option.bind (rd_block cs1 0 (list_len a)) (\<lambda>xs.
        Option.bind (std_sort lt xs) (\<lambda>ys.
        map_option (\<lambda>cs2. (\<lparr>ls_data = p, ls_cells = cs2, ls_len = ls_len a\<rparr>, c1)) (wr_block cs1 0 ys)))))"

definition SortAsc where "SortAsc T malloc a c = sort_cells (elem_less T) (elem_size T) malloc a c"
definition SortDesc where "SortDesc T malloc a c = sort_cells (\<lambda>x y. elem_less T y x) (elem_size T) malloc a c"

definition unique_loop :: "('k \<Rightarrow> 'k \<Rightarrow> bool) \<Rightarrow> ('a \<Rightarrow> 'k option) \<Rightarrow> u64 \<Rightarrow> malloc_fun \<Rightarrow> 'a list_struct \<Rightarrow> exec_ctx
     \<Rightarrow> ('a list_struct \<times> exec_ctx) option" where
  "unique_loop eq key_of esz malloc a c =
     (case alloc_cells malloc esz (ucast (ls_len a) * esz) c of (p, cs, c1) \<Rightarrow>
        map_option (\<lambda>(cs', seen, idx). (\<lparr>ls_data = p, ls_cells = cs', ls_len = of_nat idx\<rparr>, c1))
          (for_loop 0 (list_len a) (\<lambda>i (cs, seen, idx).
             Option.bind (rd (ls_cells a) i) (\<lambda>x. Option.bind (key_of x) (\<lambda>k.
               if list_ex (eq k) seen then Some (cs, seen, idx)
               else map_option (\<lambda>cs'. (cs', seen @ [k], Suc idx)) (wr cs idx x)))) (cs, [], 0)))"

definition Unique where "Unique T malloc a c = unique_loop (elem_eq T) Some (elem_size T) malloc a c"

definition UniqueString :: "malloc_fun \<Rightarrow> string_list_struct \<Rightarrow> exec_ctx \<Rightarrow> (string_list_struct \<times> exec_ctx) option" where
  "UniqueString malloc a c = unique_loop (=) string_view 16 malloc a c"

section \<open>Casts\<close>

text \<open>static\_cast between element types; a floating-point value that the target cannot represent
  has no defined result.\<close>

definition ListCastNumericToNumeric where
  "ListCastNumericToNumeric R cast malloc a c = list_scalar (elem_size R) cast malloc a c"

text \<open>std::from\_chars in base 10: an optional minus sign for a signed type and the longest run of
  digits. The value keeps its initial 0 if there is no digit or the number is out of range.\<close>

definition is_digit :: "char \<Rightarrow> bool" where
  "is_digit ch \<longleftrightarrow> 48 \<le> (of_char ch :: nat) \<and> (of_char ch :: nat) \<le> 57"

definition from_chars :: "nat \<Rightarrow> bool \<Rightarrow> string \<Rightarrow> int" where
  "from_chars w s str =
     (let neg = s \<and> str \<noteq> [] \<and> hd str = CHR ''-''; rest = (if neg then tl str else str);
          ds = takeWhile is_digit rest; v = int (parse_nat ds); x = (if neg then - v else v)
      in if ds = [] \<or> \<not> in_range w s x then 0 else x)"

definition CastStringToNumeric :: "nat \<Rightarrow> bool \<Rightarrow> string_struct \<Rightarrow> int option" where
  "CastStringToNumeric w s a = map_option (from_chars w s) (string_view a)"

text \<open>The length of the printed number, its allocation and the copy from the local buffer.\<close>

definition new_string :: "malloc_fun \<Rightarrow> string \<Rightarrow> exec_ctx \<Rightarrow> (string_struct \<times> exec_ctx) option" where
  "new_string malloc buf c =
     (case alloc_cells malloc 1 (of_nat (length buf)) c of (p, cs, c1) \<Rightarrow>
        map_option (\<lambda>cs'. (\<lparr>ls_data = p, ls_cells = cs', ls_len = of_nat (length buf)\<rparr>, c1)) (wr_block cs 0 buf))"

definition CastNumericToString where
  "CastNumericToString to_chars malloc v c = new_string malloc (to_chars v) c"

definition ListCastNumericToString :: "('a \<Rightarrow> string) \<Rightarrow> malloc_fun \<Rightarrow> 'a list_struct \<Rightarrow> exec_ctx
     \<Rightarrow> (string_list_struct \<times> exec_ctx) option" where
  "ListCastNumericToString to_chars malloc a c =
     (case alloc_cells malloc 16 (ucast (ls_len a) * 16) c of (p, cs, c1) \<Rightarrow>
        map_option (\<lambda>(cs', c2). (\<lparr>ls_data = p, ls_cells = cs', ls_len = ls_len a\<rparr>, c2))
          (for_loop 0 (list_len a) (\<lambda>i (cs, ctx).
             Option.bind (rd (ls_cells a) i) (\<lambda>x.
             Option.bind (new_string malloc (to_chars x) ctx) (\<lambda>(str, ctx').
             map_option (\<lambda>cs'. (cs', ctx')) (wr cs i str)))) (cs, c1)))"

definition ListCastStringToNumeric :: "u64 \<Rightarrow> nat \<Rightarrow> bool \<Rightarrow> malloc_fun \<Rightarrow> string_list_struct \<Rightarrow> exec_ctx
     \<Rightarrow> (int list_struct \<times> exec_ctx) option" where
  "ListCastStringToNumeric esz w s malloc a c =
     list_scalar esz (\<lambda>str. map_option (from_chars w s) (string_view str)) malloc a c"

section \<open>Joins of string lists\<close>

text \<open>The state of the joins: the buffer, the cursor as an offset in it, the array of the result as
  pairs of a start offset and a length, and the next index of that array.\<close>

type_synonym join_state = "char option list \<times> nat \<times> (nat \<times> u32) option list \<times> u32"

definition copy_string :: "string_struct \<Rightarrow> char option list \<times> nat \<Rightarrow> (char option list \<times> nat) option" where
  "copy_string s st =
     (case st of (buf, cursor) \<Rightarrow>
        if ls_len s > 0
        then map_option (\<lambda>buf'. (buf', cursor + list_len s)) (memcpy buf cursor (ls_cells s) 0 (list_len s))
        else Some (buf, cursor))"

definition emit_joined :: "string_struct \<Rightarrow> string_struct \<Rightarrow> string_struct \<Rightarrow> join_state \<Rightarrow> join_state option" where
  "emit_joined av sep bv st =
     (case st of (buf, start, arr, out_idx) \<Rightarrow>
        Option.bind (copy_string av (buf, start)) (\<lambda>s1.
        Option.bind (copy_string sep s1) (\<lambda>s2.
        Option.bind (copy_string bv s2) (\<lambda>(buf', cursor).
        map_option (\<lambda>arr'. (buf', cursor, arr', out_idx + 1)) (wr arr (unat out_idx) (start, of_nat (cursor - start)))))))"

definition string_at :: "addr \<Rightarrow> char option list \<Rightarrow> nat \<times> u32 \<Rightarrow> string_struct" where
  "string_at p buf e = \<lparr>ls_data = p + of_nat (fst e), ls_cells = drop (fst e) buf, ls_len = snd e\<rparr>"

text \<open>The sum of the lengths, in 64 bits.\<close>

definition sum_lens :: "string_list_struct \<Rightarrow> u64 option" where
  "sum_lens a = for_loop 0 (list_len a) (\<lambda>i acc. map_option (\<lambda>s. acc + ucast (ls_len s)) (rd (ls_cells a) i)) 0"

text \<open>Both joins end with these allocations, the array first, and the loop that fills them.\<close>

definition join_into :: "malloc_fun \<Rightarrow> u64 \<Rightarrow> u64 \<Rightarrow> u32 \<Rightarrow> (join_state \<Rightarrow> join_state option) \<Rightarrow> exec_ctx
     \<Rightarrow> (string_list_struct \<times> exec_ctx) option" where
  "join_into malloc arr_bytes byte_count n fill c =
     (case alloc_cells malloc 16 arr_bytes c of (p, arr, c1) \<Rightarrow>
      case (if byte_count = 0 then (0, [], c1) else alloc_cells malloc 1 byte_count c1) of (q, buf, c2) \<Rightarrow>
        map_option (\<lambda>(buf', _, arr', _).
             (\<lparr>ls_data = p, ls_cells = map (map_option (string_at q buf')) arr', ls_len = n\<rparr>, c2))
          (fill (buf, 0, arr, 0)))"

definition CrossJoinString :: "malloc_fun \<Rightarrow> string_list_struct \<Rightarrow> string_list_struct \<Rightarrow> string_struct \<Rightarrow> exec_ctx
     \<Rightarrow> (string_list_struct \<times> exec_ctx) option" where
  "CrossJoinString malloc a b sep c =
     (let total_elems = ucast (ls_len a) * ucast (ls_len b) :: u64 in
      if total_elems = 0 then Some (\<lparr>ls_data = 0, ls_cells = [], ls_len = ucast total_elems\<rparr>, c)
      else Option.bind (sum_lens a) (\<lambda>a_bytes. Option.bind (sum_lens b) (\<lambda>b_bytes.
        join_into malloc (total_elems * 16)
          (a_bytes * ucast (ls_len b) + b_bytes * ucast (ls_len a) + total_elems * ucast (ls_len sep)) (ucast total_elems)
          (for_loop 0 (list_len a) (\<lambda>i st. Option.bind (rd (ls_cells a) i) (\<lambda>av.
             for_loop 0 (list_len b) (\<lambda>j st. Option.bind (rd (ls_cells b) j) (\<lambda>bv. emit_joined av sep bv st)) st))) c)))"

definition ZipConcatString :: "malloc_fun \<Rightarrow> string_list_struct \<Rightarrow> string_list_struct \<Rightarrow> string_struct \<Rightarrow> exec_ctx
     \<Rightarrow> (string_list_struct \<times> exec_ctx) option" where
  "ZipConcatString malloc a b sep c =
     (if ls_len a \<noteq> ls_len b then Some (null_list, AddError (mismatch ''ZipConcat'' (ls_len a) (ls_len b)) c)
      else if ls_len a = 0 then Some (\<lparr>ls_data = 0, ls_cells = [], ls_len = 0\<rparr>, c)
      else Option.bind
        (for_loop 0 (list_len a) (\<lambda>i acc. Option.bind (rd (ls_cells a) i) (\<lambda>s.
           map_option (\<lambda>t. acc + ucast (ls_len s) + ucast (ls_len t)) (rd (ls_cells b) i))) 0) (\<lambda>sum.
        join_into malloc (ucast (ls_len a) * 16) (sum + ucast (ls_len a) * ucast (ls_len sep)) (ls_len a)
          (for_loop 0 (list_len a) (\<lambda>i st. Option.bind (rd (ls_cells a) i) (\<lambda>av.
             Option.bind (rd (ls_cells b) i) (\<lambda>bv. emit_joined av sep bv st)))) c))"

section \<open>Concatenation computes the append\<close>

lemma memcpy_holds:
  "holds a xs \<Longrightarrow> i + length xs \<le> length cs
    \<Longrightarrow> memcpy cs i (ls_cells a) 0 (length xs) = Some (take i cs @ map Some xs @ drop (i + length xs) cs)"
  by (simp add: memcpy_def holds_def)

lemma concat_cells_spec:
  assumes a: "holds a xs" and b: "holds b ys" and n: "length xs + length ys < 2 ^ 32"
    and e: "unat esz \<le> 16" "esz \<noteq> 0" and can: "can_allocate malloc c (ucast (ls_len a + ls_len b) * esz)"
  shows "concat_cells esz malloc a b c
    = Some (lst (arena_ptr malloc c (ucast (ls_len a + ls_len b) * esz)) (xs @ ys),
        after_alloc malloc c (ucast (ls_len a + ls_len b) * esz))"
proof -
  have u: "unat (ls_len a + ls_len b) = length xs + length ys"
    using n unat_add_lem [of "ls_len a" "ls_len b"] holds_len [OF a] holds_len [OF b] by simp
  then have l: "ls_len a + ls_len b = of_nat (length (xs @ ys))"
    using holds_len_eq [OF a] holds_len_eq [OF b] by simp
  have m1: "memcpy (replicate (length xs + length ys) None) 0 (ls_cells a) 0 (length xs)
    = Some (map Some xs @ replicate (length ys) None)"
    using memcpy_holds [OF a, of 0 "replicate (length xs + length ys) None"] by simp
  have m2: "memcpy (map Some xs @ replicate (length ys) None) (length xs) (ls_cells b) 0 (length ys) = Some (map Some (xs @ ys))"
    using memcpy_holds [OF b, of "length xs" "map Some xs @ replicate (length ys) None"] by simp
  show ?thesis
    unfolding concat_cells_def Let_def alloc_cells_eq [OF can] prod.case unat_bytes [OF e] u holds_len [OF a] holds_len [OF b]
    using l by (simp add: m1 m2 lst_def)
qed

text \<open>A length of at least \<open>2^32\<close> wraps, and the first copy leaves the buffer.\<close>

lemma concat_cells_overflow:
  assumes a: "holds a xs" and b: "holds b ys" and n: "2 ^ 32 \<le> length xs + length ys"
    and e: "unat esz \<le> 16" "esz \<noteq> 0" and can: "can_allocate malloc c (ucast (ls_len a + ls_len b) * esz)"
  shows "concat_cells esz malloc a b c = None"
proof -
  have "unat (ls_len a + ls_len b) = (length xs + length ys) mod 2 ^ 32"
    using unat_word_ariths(1) [of "ls_len a" "ls_len b"] holds_len [OF a] holds_len [OF b] by simp
  also have "\<dots> = length xs + length ys - 2 ^ 32"
    using n holds_bound [OF a] holds_bound [OF b] by (simp add: le_mod_geq)
  also have "\<dots> < length xs" using n holds_bound [OF b] by simp
  finally have u: "unat (ls_len a + ls_len b) < length xs" .
  have "memcpy (replicate (unat (ls_len a + ls_len b)) None) 0 (ls_cells a) 0 (length xs) = None"
    using u by (simp add: memcpy_def)
  then show ?thesis
    unfolding concat_cells_def Let_def alloc_cells_eq [OF can] prod.case unat_bytes [OF e] holds_len [OF a] by simp
qed

section \<open>Membership\<close>

lemma scan_ex: "scan p 0 n < n \<longleftrightarrow> (\<exists>i<n. p i)"
proof
  assume "scan p 0 n < n"
  then show "\<exists>i<n. p i" using scan_stop by blast
next
  assume "\<exists>i<n. p i"
  then obtain i where i: "i < n" "p i" by blast
  show "scan p 0 n < n"
  proof (rule ccontr)
    assume "\<not> scan p 0 n < n"
    then have "i < scan p 0 n" using i(1) by simp
    then show False using scan_before [of 0 i p n] i(2) by simp
  qed
qed

lemma IsInList_spec:
  "holds b xs \<Longrightarrow> IsInList T v b = Some (if list_ex (elem_eq T v) xs then 1 else 0)"
proof -
  assume b: "holds b xs"
  have "find_first (\<lambda>i. map_option (\<lambda>x. elem_eq T v x) (rd (ls_cells b) i)) 0 (length xs)
    = Some (if scan (\<lambda>j. elem_eq T v (xs ! j)) 0 (length xs) < length xs
            then Some (scan (\<lambda>j. elem_eq T v (xs ! j)) 0 (length xs)) else None)"
    by (rule find_first_spec) (simp_all add: holds_rd [OF b])
  moreover have "list_ex (elem_eq T v) xs \<longleftrightarrow> (\<exists>i<length xs. elem_eq T v (xs ! i))" by (simp add: list_ex_length)
  ultimately show ?thesis by (simp add: IsInList_def holds_len [OF b] scan_ex)
qed

section \<open>Sorting\<close>

lemma sort_cells_spec:
  assumes a: "holds a xs" and e: "unat esz \<le> 16" "esz \<noteq> 0"
    and can: "can_allocate malloc c (ucast (ls_len a) * esz)"
  shows "sort_cells lt esz malloc a c
    = (if strict_weak_order lt xs
       then Some (lst (arena_ptr malloc c (ucast (ls_len a) * esz)) (sort_by lt xs),
                  after_alloc malloc c (ucast (ls_len a) * esz)) else None)"
proof -
  have m: "memcpy (replicate (length xs) None) 0 (ls_cells a) 0 (length xs) = Some (map Some xs)"
    using memcpy_holds [OF a, of 0 "replicate (length xs) None"] by simp
  have r: "rd_block (map Some xs) 0 (length xs) = Some xs" by (simp add: rd_block_def)
  have len: "length (insert_by lt x ys) = Suc (length ys)" for x ys by (induction ys) simp_all
  have ls: "length (sort_by lt zs) = length zs" for zs by (induction zs) (simp_all add: len)
  have "wr_block (map Some xs) 0 (sort_by lt xs) = Some (map Some (sort_by lt xs))" by (simp add: wr_block_def ls)
  then show ?thesis
    unfolding sort_cells_def alloc_cells_eq [OF can] prod.case unat_bytes [OF e] holds_len [OF a]
    using holds_len_eq [OF a] by (simp add: m r std_sort_def lst_def ls)
qed

section \<open>Distinct elements\<close>

lemma first_of_map:
  "length xs = length ks \<Longrightarrow> map f (first_of xs ks) = first_of (map f xs) ks"
proof -
  assume len: "length xs = length ks"
  have "index_in ks k < length xs" if "k \<in> set (hash_set (=) ks)" for k
    using that len index_in_less [of k ks] by (simp add: hash_set_distinct)
  then show ?thesis by (simp add: first_of_def)
qed

lemma unique_loop_spec:
  assumes a: "holds a xs" and ks: "map key_of xs = map Some ks" and e: "unat esz \<le> 16" "esz \<noteq> 0"
    and can: "can_allocate malloc c (ucast (ls_len a) * esz)"
  shows "\<exists>r. unique_loop (=) key_of esz malloc a c = Some (r, after_alloc malloc c (ucast (ls_len a) * esz))
    \<and> holds r (first_of xs ks) \<and> ls_data r = arena_ptr malloc c (ucast (ls_len a) * esz)"
proof -
  let ?n = "length xs"
  have len: "?n = length ks" using arg_cong [OF ks, of length] by simp
  have key: "key_of (xs ! i) = Some (ks ! i)" if "i < ?n" for i
    using arg_cong [OF ks, of "\<lambda>l. l ! i"] that len by simp
  let ?I = "\<lambda>i (cs, seen, idx). length cs = ?n \<and> seen = hash_set (=) (take i ks) \<and> idx = length seen
      \<and> take idx cs = map Some (first_of xs (take i ks))"
  let ?f = "\<lambda>i (cs, seen, idx).
             Option.bind (rd (ls_cells a) i) (\<lambda>x. Option.bind (key_of x) (\<lambda>k.
               if list_ex ((=) k) seen then Some (cs, seen, idx)
               else map_option (\<lambda>cs'. (cs', seen @ [k], Suc idx)) (wr cs idx x)))"
  have "\<exists>s. for_loop 0 ?n ?f (replicate ?n None, [], 0) = Some s \<and> ?I ?n s"
  proof (rule for_loop_inv [where I = ?I and f = ?f])
    fix i s assume i: "i < ?n" and I: "?I i s"
    obtain cs seen idx where s: "s = (cs, seen, idx)" by (cases s)
    have ik: "i < length ks" using i len by simp
    have t: "take (Suc i) ks = take i ks @ [ks ! i]" using ik by (rule take_Suc_conv_app_nth)
    have mem: "list_ex ((=) (ks ! i)) (hash_set (=) (take i ks)) \<longleftrightarrow> ks ! i \<in> set (take i ks)"
      using hash_set_distinct(2) [of "take i ks"] by (auto simp: list_ex_iff)
    have I': "length cs = ?n" "seen = hash_set (=) (take i ks)" "idx = length seen"
      "take idx cs = map Some (first_of xs (take i ks))" using I by (auto simp: s)
    have idx: "idx < ?n" using I'(2,3) length_hash_set_le [of "take i ks"] i by simp
    have tk: "take (Suc idx) (cs[idx := Some (xs ! i)]) = map Some (first_of xs (take i ks)) @ [Some (xs ! i)]"
      using idx I'(1,4) by (simp add: take_Suc_conv_app_nth)
    show "\<exists>s'. ?f i s = Some s' \<and> ?I (Suc i) s'"
    proof (cases "ks ! i \<in> set (take i ks)")
      case True
      with I' mem i show ?thesis
        by (simp add: s holds_rd [OF a] key t hash_set_snoc first_of_take [OF ik len, unfolded t])
    next
      case False
      with I'(1-3) mem i idx tk show ?thesis
        by (simp add: s holds_rd [OF a] key t hash_set_snoc first_of_take [OF ik len, unfolded t] wr_def)
    qed
  qed (simp_all add: hash_set_def first_of_def)
  then obtain cs where l: "for_loop 0 ?n ?f (replicate ?n None, [], 0)
      = Some (cs, hash_set (=) ks, length (hash_set (=) ks))"
    and cs: "length cs = ?n" "take (length (hash_set (=) ks)) cs = map Some (first_of xs ks)"
    using len by auto
  have small: "length (hash_set (=) ks) < 2 ^ 32" using length_hash_set_le [of ks] holds_bound [OF a] len by simp
  let ?r = "\<lparr>ls_data = arena_ptr malloc c (ucast (ls_len a) * esz), ls_cells = cs, ls_len = of_nat (length (hash_set (=) ks))\<rparr>"
  have "holds ?r (first_of xs ks)"
    using small cs length_hash_set_le [of ks] len by (simp add: holds_def first_of_def unat_of_nat)
  moreover have "unique_loop (=) key_of esz malloc a c = Some (?r, after_alloc malloc c (ucast (ls_len a) * esz))"
    unfolding unique_loop_def alloc_cells_eq [OF can] prod.case unat_bytes [OF e] holds_len [OF a] l by simp
  ultimately show ?thesis by auto
qed

section \<open>Numbers as strings\<close>

lemma is_digit_digit_char: "d < 10 \<Longrightarrow> is_digit (digit_char d)"
  by (simp add: is_digit_def)

lemma digits_are_digits: "list_all is_digit (nat_to_string n)"
  unfolding list_all_iff using nat_to_string_digits is_digit_digit_char by blast

lemma takeWhile_digits:
  "rest = [] \<or> \<not> is_digit (hd rest) \<Longrightarrow> takeWhile is_digit (nat_to_string n @ rest) = nat_to_string n"
  using digits_are_digits [of n] by (cases rest) (auto simp: takeWhile_append list_all_iff)

lemma hd_digits: "hd (nat_to_string n @ rest) \<noteq> CHR ''-''"
proof -
  have "is_digit (hd (nat_to_string n))"
    using digits_are_digits [of n] nat_to_string_nonempty [of n] by (cases "nat_to_string n") auto
  moreover have "\<not> is_digit (CHR ''-'')" by (simp add: is_digit_def)
  ultimately show ?thesis by (metis hd_append2 nat_to_string_nonempty)
qed

lemma from_chars_to_string:
  assumes "in_range w s x" "rest = [] \<or> \<not> is_digit (hd rest)" "0 < w"
  shows "from_chars w s (int_to_string x @ rest) = x"
proof (cases "x < 0")
  case True
  then have "s" using assms(1) by (auto simp: in_range_def split: if_splits)
  with True assms show ?thesis
    by (simp add: from_chars_def int_to_string_def takeWhile_digits Let_def)
next
  case False
  have neg: "(s \<and> nat_to_string (nat x) @ rest \<noteq> [] \<and> hd (nat_to_string (nat x) @ rest) = CHR ''-'') = False"
    using hd_digits by simp
  show ?thesis
    unfolding from_chars_def int_to_string_def Let_def if_not_P [OF False] neg if_False takeWhile_digits [OF assms(2)]
    using False assms by simp
qed

lemma string_view_holds: "string_view s = Some x \<longleftrightarrow> holds s x"
proof
  assume "string_view s = Some x"
  then have v: "list_len s \<le> length (ls_cells s)" "take (list_len s) (ls_cells s) = map Some x"
    by (auto simp: string_view_def rd_block_def those_Some split: if_splits)
  then have "list_len s = length x" by (metis length_map length_take min_absorb2)
  with v show "holds s x" by (simp add: holds_def)
next
  assume "holds s x"
  then show "string_view s = Some x" by (simp add: string_view_def rd_block_all)
qed

lemma new_string_spec:
  assumes "length buf < 2 ^ 32" "can_allocate malloc c (of_nat (length buf))"
  shows "new_string malloc buf c
    = Some (lst (arena_ptr malloc c (of_nat (length buf))) buf, after_alloc malloc c (of_nat (length buf)))"
proof -
  have "unat (of_nat (length buf) :: u64) = length buf" using assms(1) by (simp add: unat_of_nat)
  then show ?thesis using assms(2) by (simp add: new_string_def alloc_cells_eq wr_block_def lst_def)
qed

text \<open>A list of strings, wherever their characters are.\<close>

definition holds_strings :: "string_list_struct \<Rightarrow> string list \<Rightarrow> bool" where
  "holds_strings r zs \<longleftrightarrow> (\<exists>ss. holds r ss \<and> map string_view ss = map Some zs)"

lemma holds_strings_key:
  "holds_strings r zs \<Longrightarrow> i < length zs \<Longrightarrow> Option.bind (rd (ls_cells r) i) string_view = Some (zs ! i)"
proof -
  assume "holds_strings r zs" and i: "i < length zs"
  then obtain ss where ss: "holds r ss" "map string_view ss = map Some zs" by (auto simp: holds_strings_def)
  have "length ss = length zs" using arg_cong [OF ss(2), of length] by simp
  moreover have "string_view (ss ! i) = Some (zs ! i)"
    using arg_cong [OF ss(2), of "\<lambda>l. l ! i"] i \<open>length ss = length zs\<close> by simp
  ultimately show ?thesis using i holds_rd [OF ss(1)] by simp
qed

lemma holds_strings_len: "holds_strings r zs \<Longrightarrow> list_len r = length zs"
  by (auto simp: holds_strings_def dest!: holds_len arg_cong [of _ _ length])

section \<open>What the joins build\<close>

definition entries :: "string list \<Rightarrow> (nat \<times> u32) list" where
  "entries zs = map (\<lambda>k. (length (concat (take k zs)), of_nat (length (zs ! k)))) [0..<length zs]"

lemma entries_snoc: "entries (zs @ [z]) = entries zs @ [(length (concat zs), of_nat (length z))]"
proof -
  have "map (\<lambda>k. (length (concat (take k (zs @ [z]))), of_nat (length ((zs @ [z]) ! k)) :: u32)) [0..<length zs]
    = map (\<lambda>k. (length (concat (take k zs)), of_nat (length (zs ! k)))) [0..<length zs]"
    by (intro map_cong) (simp_all add: nth_append)
  then show ?thesis by (simp add: entries_def)
qed

definition joined_state :: "char option list \<Rightarrow> (nat \<times> u32) option list \<Rightarrow> string list \<Rightarrow> join_state" where
  "joined_state buf arr zs =
     (map Some (concat zs) @ drop (length (concat zs)) buf, length (concat zs),
      map Some (entries zs) @ drop (length zs) arr, of_nat (length zs))"

lemma copy_string_step:
  assumes s: "string_view s = Some x" and room: "length ws + length x \<le> length buf"
  shows "copy_string s (map Some ws @ drop (length ws) buf, length ws)
    = Some (map Some (ws @ x) @ drop (length (ws @ x)) buf, length (ws @ x))"
proof -
  have h: "holds s x" using s by (simp add: string_view_holds)
  show ?thesis
  proof (cases "ls_len s > 0")
    case True
    have "memcpy (map Some ws @ drop (length ws) buf) (length ws) (ls_cells s) 0 (length x)
      = Some (map Some ws @ map Some x @ drop (length ws + length x) buf)"
      using memcpy_holds [OF h, of "length ws" "map Some ws @ drop (length ws) buf"] room by (simp add: add.commute)
    with True show ?thesis by (simp add: copy_string_def holds_len [OF h])
  next
    case False
    then have "x = []" using holds_len_0 [OF h] by (simp add: word_gt_0)
    with False show ?thesis by (simp add: copy_string_def)
  qed
qed

lemma emit_joined_step:
  assumes v: "string_view av = Some x" "string_view sep = Some sp" "string_view bv = Some y"
    and room: "length (concat zs) + length (x @ sp @ y) \<le> length buf" "length zs < length arr" "length arr < 2 ^ 32"
  shows "emit_joined av sep bv (joined_state buf arr zs) = Some (joined_state buf arr (zs @ [x @ sp @ y]))"
proof -
  have c1: "copy_string av (map Some (concat zs) @ drop (length (concat zs)) buf, length (concat zs))
    = Some (map Some (concat zs @ x) @ drop (length (concat zs @ x)) buf, length (concat zs @ x))"
    by (rule copy_string_step [OF v(1)]) (use room in simp)
  have c2: "copy_string sep (map Some (concat zs @ x) @ drop (length (concat zs @ x)) buf, length (concat zs @ x))
    = Some (map Some ((concat zs @ x) @ sp) @ drop (length ((concat zs @ x) @ sp)) buf, length ((concat zs @ x) @ sp))"
    by (rule copy_string_step [OF v(2)]) (use room in simp)
  have c3: "copy_string bv (map Some ((concat zs @ x) @ sp) @ drop (length ((concat zs @ x) @ sp)) buf, length ((concat zs @ x) @ sp))
    = Some (map Some (((concat zs @ x) @ sp) @ y) @ drop (length (((concat zs @ x) @ sp) @ y)) buf, length (((concat zs @ x) @ sp) @ y))"
    by (rule copy_string_step [OF v(3)]) (use room in simp)
  have le: "length (entries zs) = length zs" by (simp add: entries_def)
  have u: "unat (of_nat (length zs) :: u32) = length zs" using room(2,3) by (simp add: unat_of_nat)
  have dr: "drop (length zs) arr = arr ! length zs # drop (Suc (length zs)) arr" using room(2) by (rule Cons_nth_drop_Suc [symmetric])
  have "wr (map Some (entries zs) @ drop (length zs) arr) (length zs) (length (concat zs), of_nat (length (x @ sp @ y)))
    = Some (map Some (entries (zs @ [x @ sp @ y])) @ drop (length (zs @ [x @ sp @ y])) arr)"
    using room(2) le unfolding dr by (simp add: wr_def list_update_append entries_snoc)
  moreover have e: "length (((concat zs @ x) @ sp) @ y) - length (concat zs) = length (x @ sp @ y)" by simp
  ultimately show ?thesis
    unfolding emit_joined_def joined_state_def prod.case
    by (simp only: c1 c2 c3 Option.bind.bind_lunit prod.case e u option.map) (simp add: add.commute)
qed

lemma concat_slice:
  "k < length zs \<Longrightarrow> take (length (zs ! k)) (drop (length (concat (take k zs))) (concat zs)) = zs ! k"
proof -
  assume k: "k < length zs"
  have "concat zs = concat (take k zs @ zs ! k # drop (Suc k) zs)" using id_take_nth_drop [OF k] by simp
  then have "concat zs = concat (take k zs) @ zs ! k @ concat (drop (Suc k) zs)" by simp
  then show ?thesis by simp
qed

lemma alloc_cells_0: "alloc_cells malloc esz 0 c = (0, [], c)"
  by (simp add: alloc_cells_def Allocate_def split: prod.splits)

lemma after_alloc_0: "after_alloc malloc c 0 = c"
  by (simp add: after_alloc_def Allocate_def split: prod.splits)

lemma join_into_spec:
  fixes arr_bytes byte_count :: u64
  assumes fill: "\<And>buf arr. length buf = length (concat zs) \<Longrightarrow> length arr = length zs
      \<Longrightarrow> fill (joined_state buf arr []) = Some (joined_state buf arr zs)"
    and n: "arr_bytes = of_nat (length zs * 16)" "byte_count = of_nat (length (concat zs))" "n = of_nat (length zs)"
    and small: "length zs < 2 ^ 32" "length (concat zs) < 2 ^ 64" "\<forall>z\<in>set zs. length z < 2 ^ 32"
    and can: "can_allocate malloc c arr_bytes" "can_allocate malloc (after_alloc malloc c arr_bytes) byte_count"
  shows "\<exists>r c'. join_into malloc arr_bytes byte_count n fill c = Some (r, c') \<and> holds_strings r zs \<and> errors c' = errors c"
proof -
  let ?c1 = "after_alloc malloc c arr_bytes" let ?c2 = "after_alloc malloc ?c1 byte_count"
  let ?p = "arena_ptr malloc c arr_bytes" let ?q = "arena_ptr malloc ?c1 byte_count"
  let ?buf = "replicate (length (concat zs)) (None :: char option)"
  let ?arr = "replicate (length zs) (None :: (nat \<times> u32) option)"
  have u: "unat arr_bytes div 16 = length zs" "unat byte_count = length (concat zs)"
    using small(1,2) by (simp only: n unat_of_nat; simp)+
  have a1: "alloc_cells malloc 16 arr_bytes c = (?p, ?arr, ?c1)" using alloc_cells_eq [OF can(1), of 16] u by simp
  have a2: "\<exists>q. (if byte_count = 0 then (0, [], ?c1) else alloc_cells malloc 1 byte_count ?c1) = (q, ?buf, ?c2)"
  proof (cases "byte_count = 0")
    case True
    then have "alloc_cells malloc 1 byte_count ?c1 = (0, [] :: char option list, ?c1)" by (simp add: alloc_cells_0)
    with u True show ?thesis by (simp add: after_alloc_0)
  next
    case False
    then show ?thesis by (simp add: alloc_cells_eq [OF can(2)] u)
  qed
  then obtain q where a2: "(if byte_count = 0 then (0, [], ?c1) else alloc_cells malloc 1 byte_count ?c1) = (q, ?buf, ?c2)" by blast
  have f: "fill (?buf, 0, ?arr, 0) = Some (map Some (concat zs), length (concat zs), map Some (entries zs), of_nat (length zs))"
    using fill [of ?buf ?arr] by (simp add: joined_state_def entries_def)
  let ?ss = "map (string_at q (map Some (concat zs))) (entries zs)"
  let ?r = "\<lparr>ls_data = ?p, ls_cells = map Some ?ss, ls_len = n\<rparr>"
  have "holds ?r ?ss" using small(1) n(3) by (simp add: holds_def entries_def unat_of_nat)
  moreover have "map string_view ?ss = map Some zs"
  proof (rule nth_equalityI)
    fix k assume "k < length (map string_view ?ss)"
    then have k: "k < length zs" by (simp add: entries_def)
    have "zs ! k \<in> set zs" using k by simp
    then have l: "unat (of_nat (length (zs ! k)) :: u32) = length (zs ! k)" using small(3) by (simp add: unat_of_nat)
    have "length (concat (take k zs)) + length (zs ! k) \<le> length (concat zs)"
    proof -
      have "concat zs = concat (take k zs @ zs ! k # drop (Suc k) zs)" using id_take_nth_drop [OF k] by simp
      then show ?thesis by simp
    qed
    with k l concat_slice [OF k] show "map string_view ?ss ! k = map Some zs ! k"
      by (simp add: entries_def string_at_def string_view_def rd_block_def drop_map take_map)
  qed (simp add: entries_def)
  ultimately have "holds_strings ?r zs" by (auto simp: holds_strings_def)
  moreover have "join_into malloc arr_bytes byte_count n fill c = Some (?r, ?c2)"
    unfolding join_into_def a1 prod.case a2 f by simp
  ultimately show ?thesis by auto
qed

lemma sum_lens_spec: "holds_strings r zs \<Longrightarrow> sum_lens r = Some (of_nat (length (concat zs)))"
proof -
  assume "holds_strings r zs"
  then obtain ss where ss: "holds r ss" "map string_view ss = map Some zs" by (auto simp: holds_strings_def)
  have len: "length ss = length zs" using arg_cong [OF ss(2), of length] by simp
  have l: "ucast (ls_len (ss ! i)) = (of_nat (length (zs ! i)) :: u64)" if "i < length zs" for i
  proof -
    have "string_view (ss ! i) = Some (zs ! i)" using arg_cong [OF ss(2), of "\<lambda>l. l ! i"] that len by simp
    then have h: "holds (ss ! i) (zs ! i)" by (simp add: string_view_holds)
    then have "unat (ucast (ls_len (ss ! i)) :: u64) = unat (of_nat (length (zs ! i)) :: u64)"
      using holds_len [OF h] holds_bound [OF h] by (simp add: unat_of_nat)
    then show ?thesis by (simp add: word_unat_eq_iff)
  qed
  have "for_loop 0 (length zs) (\<lambda>i acc. map_option (\<lambda>s. acc + ucast (ls_len s)) (rd (ls_cells r) i))
      (of_nat (length (concat (take 0 zs))) :: u64) = Some (of_nat (length (concat (take (length zs) zs))))"
    by (rule for_loop_trace [where g = "\<lambda>i. of_nat (length (concat (take i zs)))"])
      (use len in \<open>simp_all add: holds_rd [OF ss(1)] l take_Suc_conv_app_nth\<close>)
  then show ?thesis using holds_len [OF ss(1)] len by (simp add: sum_lens_def)
qed

definition cross :: "string list \<Rightarrow> string \<Rightarrow> string list \<Rightarrow> string list" where
  "cross as sp bs = concat (map (\<lambda>x. map (\<lambda>y. x @ sp @ y) bs) as)"

lemma length_cross: "length (cross as sp bs) = length as * length bs"
  by (induction as) (simp_all add: cross_def)

lemma length_row: "length (concat (map (\<lambda>y. x @ sp @ y) bs)) = length x * length bs + length (concat bs) + length bs * length sp"
  by (induction bs) simp_all

lemma length_cross_bytes:
  "length (concat (cross as sp bs)) = length (concat as) * length bs + length (concat bs) * length as + length as * length bs * length sp"
  by (induction as) (simp_all add: cross_def length_row algebra_simps)

lemma cross_prefix:
  fixes sp :: string
  assumes "i < length as" "j \<le> length bs"
  defines "zs \<equiv> cross (take i as) sp bs @ map (\<lambda>y. as ! i @ sp @ y) (take j bs)"
  shows "length zs \<le> length (cross as sp bs)" "length (concat zs) \<le> length (concat (cross as sp bs))"
proof -
  have "cross as sp bs = cross (take i as @ as ! i # drop (Suc i) as) sp bs"
    by (rule arg_cong [where f = "\<lambda>l. cross l sp bs"]) (rule id_take_nth_drop [OF assms(1)])
  then have "cross as sp bs = cross (take i as) sp bs @ map (\<lambda>y. as ! i @ sp @ y) bs @ cross (drop (Suc i) as) sp bs"
    by (simp add: cross_def)
  moreover have "map (\<lambda>y. as ! i @ sp @ y) bs = map (\<lambda>y. as ! i @ sp @ y) (take j bs) @ map (\<lambda>y. as ! i @ sp @ y) (drop j bs)"
    by (metis append_take_drop_id map_append)
  ultimately have "cross as sp bs = zs @ map (\<lambda>y. as ! i @ sp @ y) (drop j bs) @ cross (drop (Suc i) as) sp bs"
    by (simp add: zs_def)
  then show "length zs \<le> length (cross as sp bs)" "length (concat zs) \<le> length (concat (cross as sp bs))" by simp_all
qed

lemma cross_take: "i < length as \<Longrightarrow> cross (take (Suc i) as) sp bs = cross (take i as) sp bs @ map (\<lambda>y. as ! i @ sp @ y) bs"
  by (simp add: cross_def take_Suc_conv_app_nth)

lemma CrossJoinString_spec:
  assumes a: "holds_strings a as" and b: "holds_strings b bs" and sep: "string_view sep = Some sp"
    and ne: "as \<noteq> []" "bs \<noteq> []" and small: "length as * length bs < 2 ^ 32"
      "length (concat (cross as sp bs)) < 2 ^ 64" "\<forall>z\<in>set (cross as sp bs). length z < 2 ^ 32"
    and can: "can_allocate malloc c (of_nat (length as * length bs * 16))"
      "can_allocate malloc (after_alloc malloc c (of_nat (length as * length bs * 16))) (of_nat (length (concat (cross as sp bs))))"
  shows "\<exists>r c'. CrossJoinString malloc a b sep c = Some (r, c') \<and> holds_strings r (cross as sp bs) \<and> errors c' = errors c"
proof -
  let ?zs = "cross as sp bs"
  have h: "holds sep sp" using sep by (simp add: string_view_holds)
  have la: "list_len a = length as" "list_len b = length bs" using a b by (simp_all add: holds_strings_len)
  have ua: "ucast (ls_len a) = (of_nat (length as) :: u64)" "ucast (ls_len b) = (of_nat (length bs) :: u64)"
    "ucast (ls_len sep) = (of_nat (length sp) :: u64)"
    using la holds_len [OF h] unsigned_less [of "ls_len a", where ?'a = nat] unsigned_less [of "ls_len b", where ?'a = nat]
      unsigned_less [of "ls_len sep", where ?'a = nat]
    by (simp_all add: word_unat_eq_iff unat_of_nat)
  let ?t = "of_nat (length as) * of_nat (length bs) :: u64"
  have t: "unat ?t = length as * length bs"
    using small(1) by (simp add: unat_of_nat flip: of_nat_mult)
  have nz: "?t \<noteq> 0" using t ne by (metis length_0_conv mult_is_0 unat_eq_0)
  have n: "ucast ?t = (of_nat (length ?zs) :: u32)"
  proof (rule word_unat_eq_iff [THEN iffD2])
    have "unat (ucast ?t :: u32) = length as * length bs"
      unfolding unsigned_ucast_eq t using small(1) by (simp add: take_bit_nat_eq_self)
    then show "unat (ucast ?t :: u32) = unat (of_nat (length ?zs) :: u32)"
      unfolding length_cross unat_of_nat using small(1) by simp
  qed
  let ?fill = "for_loop 0 (length as) (\<lambda>i st. Option.bind (rd (ls_cells a) i) (\<lambda>av.
      for_loop 0 (length bs) (\<lambda>j st. Option.bind (rd (ls_cells b) j) (\<lambda>bv. emit_joined av sep bv st)) st))"
  have fill: "?fill (joined_state buf arr []) = Some (joined_state buf arr ?zs)"
    if l: "length buf = length (concat ?zs)" "length arr = length ?zs" for buf arr
  proof -
    obtain sa where sa: "holds a sa" "map string_view sa = map Some as" using a by (auto simp: holds_strings_def)
    obtain sb where sb: "holds b sb" "map string_view sb = map Some bs" using b by (auto simp: holds_strings_def)
    have lens: "length sa = length as" "length sb = length bs"
      using arg_cong [OF sa(2), of length] arg_cong [OF sb(2), of length] by simp_all
    have va: "string_view (sa ! i) = Some (as ! i)" if "i < length as" for i
      using arg_cong [OF sa(2), of "\<lambda>l. l ! i"] that lens by simp
    have vb: "string_view (sb ! i) = Some (bs ! i)" if "i < length bs" for i
      using arg_cong [OF sb(2), of "\<lambda>l. l ! i"] that lens by simp
    have "?fill (joined_state buf arr (cross (take 0 as) sp bs)) = Some (joined_state buf arr (cross (take (length as) as) sp bs))"
    proof (rule for_loop_trace [where g = "\<lambda>i. joined_state buf arr (cross (take i as) sp bs)"])
      fix i assume i: "i < length as"
      let ?g = "\<lambda>j. joined_state buf arr (cross (take i as) sp bs @ map (\<lambda>y. as ! i @ sp @ y) (take j bs))"
      have "for_loop 0 (length bs) (\<lambda>j st. Option.bind (rd (ls_cells b) j) (\<lambda>bv. emit_joined (sa ! i) sep bv st)) (?g 0)
        = Some (?g (length bs))"
      proof (rule for_loop_trace [where g = ?g])
        fix j assume j: "j < length bs"
        let ?ws = "cross (take i as) sp bs @ map (\<lambda>y. as ! i @ sp @ y) (take j bs)"
        have next_ws: "cross (take i as) sp bs @ map (\<lambda>y. as ! i @ sp @ y) (take (Suc j) bs) = ?ws @ [as ! i @ sp @ bs ! j]"
          using j by (simp add: take_Suc_conv_app_nth)
        have "length (?ws @ [as ! i @ sp @ bs ! j]) \<le> length ?zs" "length (concat (?ws @ [as ! i @ sp @ bs ! j])) \<le> length (concat ?zs)"
          using cross_prefix [OF i, of "Suc j" bs sp] j unfolding next_ws by simp_all
        then have "emit_joined (sa ! i) sep (sb ! j) (joined_state buf arr ?ws) = Some (joined_state buf arr (?ws @ [as ! i @ sp @ bs ! j]))"
          by (intro emit_joined_step [OF va [OF i] sep vb [OF j]]) (use l small(1) in \<open>simp_all add: length_cross\<close>)
        then show "Option.bind (rd (ls_cells b) j) (\<lambda>bv. emit_joined (sa ! i) sep bv (?g j)) = Some (?g (Suc j))"
          using j lens by (simp only: holds_rd [OF sb(1)] next_ws Option.bind.bind_lunit)
      qed simp
      then show "Option.bind (rd (ls_cells a) i) (\<lambda>av. for_loop 0 (length bs)
          (\<lambda>j st. Option.bind (rd (ls_cells b) j) (\<lambda>bv. emit_joined av sep bv st)) (joined_state buf arr (cross (take i as) sp bs)))
        = Some (joined_state buf arr (cross (take (Suc i) as) sp bs))"
        using i lens by (simp add: holds_rd [OF sa(1)] cross_take)
    qed simp
    then show ?thesis by (simp add: cross_def)
  qed
  have bytes: "of_nat (length (concat as)) * of_nat (length bs) + of_nat (length (concat bs)) * of_nat (length as)
      + ?t * of_nat (length sp) = (of_nat (length (concat ?zs)) :: u64)"
    by (simp add: length_cross_bytes)
  have arr: "?t * 16 = of_nat (length ?zs * 16)" by (simp add: length_cross)
  have "\<exists>r c'. join_into malloc (?t * 16) (of_nat (length (concat as)) * of_nat (length bs)
      + of_nat (length (concat bs)) * of_nat (length as) + ?t * of_nat (length sp)) (ucast ?t) ?fill c = Some (r, c')
    \<and> holds_strings r ?zs \<and> errors c' = errors c"
    unfolding bytes arr
    by (rule join_into_spec) (use fill n small can in \<open>simp_all add: length_cross\<close>)
  then show ?thesis
    using nz by (simp add: CrossJoinString_def Let_def ua la sum_lens_spec [OF a] sum_lens_spec [OF b])
qed

definition zip_concat :: "string list \<Rightarrow> string \<Rightarrow> string list \<Rightarrow> string list" where
  "zip_concat as sp bs = map2 (\<lambda>x y. x @ sp @ y) as bs"

lemma zip_concat_bytes:
  "length as = length bs \<Longrightarrow> length (concat (zip_concat as sp bs))
    = length (concat as) + length (concat bs) + length as * length sp"
  by (induction as bs rule: list_induct2) (simp_all add: zip_concat_def)

lemma ZipConcatString_spec:
  assumes a: "holds_strings a as" and b: "holds_strings b bs" and sep: "string_view sep = Some sp"
    and eq: "length as = length bs" and ne: "as \<noteq> []"
    and small: "length (concat (zip_concat as sp bs)) < 2 ^ 64" "\<forall>z\<in>set (zip_concat as sp bs). length z < 2 ^ 32"
    and can: "can_allocate malloc c (of_nat (length as * 16))"
      "can_allocate malloc (after_alloc malloc c (of_nat (length as * 16))) (of_nat (length (concat (zip_concat as sp bs))))"
  shows "\<exists>r c'. ZipConcatString malloc a b sep c = Some (r, c') \<and> holds_strings r (zip_concat as sp bs) \<and> errors c' = errors c"
proof -
  let ?zs = "zip_concat as sp bs" let ?n = "length as"
  have lz: "length ?zs = ?n" using eq by (simp add: zip_concat_def)
  have h: "holds sep sp" using sep by (simp add: string_view_holds)
  have la: "list_len a = ?n" "list_len b = ?n" using a b eq by (simp_all add: holds_strings_len)
  have lt: "?n < 2 ^ 32" using la unsigned_less [of "ls_len a", where ?'a = nat] by simp
  have lab: "ls_len a = ls_len b" using la by (simp add: word_unat_eq_iff)
  have nz: "ls_len b \<noteq> 0" using la(2) ne by auto
  have ua: "ucast (ls_len b) = (of_nat ?n :: u64)" "ucast (ls_len sep) = (of_nat (length sp) :: u64)"
    using la lt holds_len [OF h] holds_bound [OF h] by (simp_all add: word_unat_eq_iff unat_of_nat)
  obtain sa where sa: "holds a sa" "map string_view sa = map Some as" using a by (auto simp: holds_strings_def)
  obtain sb where sb: "holds b sb" "map string_view sb = map Some bs" using b by (auto simp: holds_strings_def)
  have lens: "length sa = ?n" "length sb = ?n"
    using arg_cong [OF sa(2), of length] arg_cong [OF sb(2), of length] eq by simp_all
  have va: "string_view (sa ! i) = Some (as ! i)" if "i < ?n" for i
    using arg_cong [OF sa(2), of "\<lambda>l. l ! i"] that lens by simp
  have vb: "string_view (sb ! i) = Some (bs ! i)" if "i < ?n" for i
    using arg_cong [OF sb(2), of "\<lambda>l. l ! i"] that lens eq by simp
  have len64: "ucast (ls_len s) = (of_nat (length x) :: u64)" if "string_view s = Some x" for s x
    using that holds_len [of s x] holds_bound [of s x] by (simp add: string_view_holds word_unat_eq_iff unat_of_nat)
  let ?sum = "\<lambda>i. of_nat (length (concat (take i as)) + length (concat (take i bs))) :: u64"
  have "for_loop 0 ?n (\<lambda>i acc. Option.bind (rd (ls_cells a) i) (\<lambda>s.
      map_option (\<lambda>t. acc + ucast (ls_len s) + ucast (ls_len t)) (rd (ls_cells b) i))) (?sum 0) = Some (?sum ?n)"
    by (rule for_loop_trace [where g = ?sum])
      (use lens eq in \<open>simp_all add: holds_rd [OF sa(1)] holds_rd [OF sb(1)] len64 [OF va] len64 [OF vb] take_Suc_conv_app_nth\<close>)
  then have sum: "for_loop 0 ?n (\<lambda>i acc. Option.bind (rd (ls_cells a) i) (\<lambda>s.
      map_option (\<lambda>t. acc + ucast (ls_len s) + ucast (ls_len t)) (rd (ls_cells b) i))) 0
    = Some (of_nat (length (concat as) + length (concat bs)) :: u64)"
    using eq by simp
  let ?fill = "for_loop 0 ?n (\<lambda>i st. Option.bind (rd (ls_cells a) i) (\<lambda>av.
      Option.bind (rd (ls_cells b) i) (\<lambda>bv. emit_joined av sep bv st)))"
  have fill: "?fill (joined_state buf arr []) = Some (joined_state buf arr ?zs)"
    if l: "length buf = length (concat ?zs)" "length arr = length ?zs" for buf arr
  proof -
    have "?fill (joined_state buf arr (take 0 ?zs)) = Some (joined_state buf arr (take ?n ?zs))"
    proof (rule for_loop_trace [where g = "\<lambda>i. joined_state buf arr (take i ?zs)"])
      fix i assume i: "i < ?n"
      have t: "take (Suc i) ?zs = take i ?zs @ [as ! i @ sp @ bs ! i]"
        using i lz eq by (simp add: take_Suc_conv_app_nth zip_concat_def)
      have "?zs = take (Suc i) ?zs @ drop (Suc i) ?zs" by simp
      then have "length (concat ?zs) = length (concat (take (Suc i) ?zs)) + length (concat (drop (Suc i) ?zs))"
        by (metis concat_append length_append)
      then have "length (concat (take i ?zs)) + length (as ! i @ sp @ bs ! i) \<le> length (concat ?zs)" by (simp add: t)
      then have "emit_joined (sa ! i) sep (sb ! i) (joined_state buf arr (take i ?zs))
        = Some (joined_state buf arr (take i ?zs @ [as ! i @ sp @ bs ! i]))"
        by (intro emit_joined_step [OF va [OF i] sep vb [OF i]]) (use l lz lt i in simp_all)
      then show "Option.bind (rd (ls_cells a) i) (\<lambda>av. Option.bind (rd (ls_cells b) i)
          (\<lambda>bv. emit_joined av sep bv (joined_state buf arr (take i ?zs)))) = Some (joined_state buf arr (take (Suc i) ?zs))"
        using i lens by (simp only: holds_rd [OF sa(1)] holds_rd [OF sb(1)] t Option.bind.bind_lunit)
    qed simp
    then show ?thesis using lz by simp
  qed
  have bytes: "of_nat (length (concat as) + length (concat bs)) + of_nat ?n * of_nat (length sp)
    = (of_nat (length (concat ?zs)) :: u64)"
    by (simp add: zip_concat_bytes [OF eq])
  have n16: "of_nat ?n * 16 = (of_nat (?n * 16) :: u64)" by simp
  have nb: "ls_len b = of_nat (length ?zs)" using la(2) lz lt by (simp add: word_unat_eq_iff unat_of_nat)
  have e: "ZipConcatString malloc a b sep c
    = join_into malloc (of_nat (?n * 16)) (of_nat (length (concat ?zs))) (of_nat (length ?zs)) ?fill c"
    unfolding ZipConcatString_def la lab ua sum n16 [symmetric] bytes [symmetric] nb [symmetric]
    by (simp only: nz if_False simp_thms Option.bind.bind_lunit)
  show ?thesis
    unfolding e by (rule join_into_spec) (use fill lt small can lz in simp_all)
qed

end
