(* ===== verification/Murmur.thy ===== *)
theory Murmur
  imports Buffer
begin

text \<open>
  Model of MurmurHash3\_x86\_32 of src/function/murmurhash3.cc and of its use on lists in
  src/function/list\_basic.cc. The key is the bytes behind the data pointer; a read outside of them
  has no result. The steps of the hash are bijections of 32-bit words, so keys of one length that
  differ in a single block have different hashes.
\<close>

section \<open>The hash\<close>

definition rotl32 :: "u32 \<Rightarrow> nat \<Rightarrow> u32" where
  "rotl32 x r = push_bit r x OR drop_bit (32 - r) x"

definition fmix32 :: "u32 \<Rightarrow> u32" where
  "fmix32 h0 =
     (let h1 = h0 XOR drop_bit 16 h0; h2 = h1 * 0x85ebca6b; h3 = h2 XOR drop_bit 13 h2;
          h4 = h3 * 0xc2b2ae35
      in h4 XOR drop_bit 16 h4)"

text \<open>A little-endian read of four bytes at an offset.\<close>

definition getblock32 :: "u8 list \<Rightarrow> nat \<Rightarrow> u32 option" where
  "getblock32 key i =
     (if i * 4 + 4 \<le> length key
      then Some (ucast (key ! (i * 4)) + push_bit 8 (ucast (key ! (i * 4 + 1)))
             + push_bit 16 (ucast (key ! (i * 4 + 2))) + push_bit 24 (ucast (key ! (i * 4 + 3))))
      else None)"

definition murmur_c1 :: u32 where "murmur_c1 = 0xcc9e2d51"
definition murmur_c2 :: u32 where "murmur_c2 = 0x1b873593"

definition mix_k1 :: "u32 \<Rightarrow> u32" where
  "mix_k1 k1 = rotl32 (k1 * murmur_c1) 15 * murmur_c2"

definition mix_block :: "u32 \<Rightarrow> u32 \<Rightarrow> u32" where
  "mix_block h1 k1 = rotl32 (h1 XOR mix_k1 k1) 13 * 5 + 0xe6546b64"

text \<open>The switch falls through: the bytes behind the blocks, the last one first.\<close>

definition tail_k1 :: "u8 list \<Rightarrow> nat \<Rightarrow> nat \<Rightarrow> u32 option" where
  "tail_k1 key off n =
     (if off + n \<le> length key
      then Some ((if n = 3 then push_bit 16 (ucast (key ! (off + 2))) else 0)
             XOR (if n \<ge> 2 then push_bit 8 (ucast (key ! (off + 1))) else 0)
             XOR (if n \<ge> 1 then ucast (key ! off) else 0))
      else None)"

text \<open>A negative length, as an \<open>int\<close> gets from a size of at least \<open>2^31\<close>, makes the counter of the
  loop start above 0 and count away from it.\<close>

definition MurmurHash3_x86_32 :: "u8 list \<Rightarrow> int \<Rightarrow> u32 \<Rightarrow> u32 option" where
  "MurmurHash3_x86_32 key n seed =
     (if n sdiv 4 < 0 then None
      else let nblocks = nat (n sdiv 4); t = nat (n AND 3) in
        Option.bind (for_loop 0 nblocks (\<lambda>i h1. map_option (mix_block h1) (getblock32 key i)) seed) (\<lambda>h1.
        map_option (\<lambda>k1. fmix32 ((if t = 0 then h1 else h1 XOR mix_k1 k1) XOR word_of_int n))
          (tail_k1 key (nblocks * 4) t)))"

text \<open>The hash of a list: the size in bytes is passed as an \<open>int\<close>.\<close>

definition MurmurHash3X8632 :: "u64 \<Rightarrow> ('a list \<Rightarrow> u8 list) \<Rightarrow> 'a list_struct \<Rightarrow> u32 option" where
  "MurmurHash3X8632 esz to_bytes a =
     Option.bind (rd_block (ls_cells a) 0 (list_len a)) (\<lambda>xs.
       MurmurHash3_x86_32 (to_bytes xs) (convert_int 32 True (uint (ucast (ls_len a) * esz :: u64))) 0x9747b28c)"

section \<open>Bijections\<close>

lemma xorshift_inj: "0 < k \<Longrightarrow> inj (\<lambda>h :: u32. h XOR drop_bit k h)"
proof (rule injI)
  fix x y :: u32 assume k: "0 < k" and eq: "x XOR drop_bit k x = y XOR drop_bit k y"
  have "\<forall>i. 32 - m \<le> i \<longrightarrow> bit x i = bit y i" if "m \<le> 32" for m
    using that
  proof (induction m)
    case 0
    have "\<not> bit z i" if "32 \<le> i" for z :: u32 and i using that bit_imp_le_length [of z i] by auto
    then show ?case by simp
  next
    case (Suc m)
    show ?case
    proof clarify
      fix i assume i: "32 - Suc m \<le> i"
      have "bit (x XOR drop_bit k x) i = bit (y XOR drop_bit k y) i" using eq by simp
      moreover have "bit x (k + i) = bit y (k + i)"
        using Suc i k by (intro Suc.IH [rule_format]) simp_all
      ultimately show "bit x i = bit y i" by (auto simp: bit_xor_iff bit_drop_bit_eq)
    qed
  qed
  from this [of 32] show "x = y" by (intro bit_word_eqI) simp
qed

lemma mult_inj:
  fixes c d :: u32
  assumes "c * d = 1"
  shows "inj (\<lambda>h. h * c)"
proof (rule injI)
  fix x y :: u32 assume "x * c = y * c"
  then have "x * c * d = y * c * d" by simp
  then show "x = y" by (simp add: mult.assoc assms)
qed

lemma rotl32_inj: "r < 32 \<Longrightarrow> inj (\<lambda>x. rotl32 x r)"
proof (rule injI)
  fix x y assume r: "r < 32" and eq: "rotl32 x r = rotl32 y r"
  have lo: "bit (rotl32 z r) (i + r) = bit z i" if "i + r < 32" for z i
    using that by (auto simp: rotl32_def bit_or_iff bit_push_bit_iff bit_drop_bit_eq dest: bit_imp_le_length)
  have hi: "bit (rotl32 z r) (i - (32 - r)) = bit z i" if "32 - r \<le> i" "i < 32" for z i
    using that r by (auto simp: rotl32_def bit_or_iff bit_push_bit_iff bit_drop_bit_eq)
  show "x = y"
  proof (rule bit_word_eqI)
    fix i assume i: "i < LENGTH(32)"
    show "bit x i = bit y i"
    proof (cases "i + r < 32")
      case True
      then show ?thesis using lo [of i x] lo [of i y] eq by simp
    next
      case False
      then show ?thesis using hi [of i x] hi [of i y] eq i by simp
    qed
  qed
qed

lemma fmix32_comp:
  "fmix32 = (\<lambda>h. h XOR drop_bit 16 h) \<circ> ((\<lambda>h. h * 0xc2b2ae35) \<circ> ((\<lambda>h. h XOR drop_bit 13 h)
    \<circ> ((\<lambda>h. h * 0x85ebca6b) \<circ> (\<lambda>h. h XOR drop_bit 16 h))))"
  by (simp add: fun_eq_iff fmix32_def Let_def)

lemma fmix32_inj: "inj fmix32"
  unfolding fmix32_comp
  by (intro inj_compose xorshift_inj mult_inj [of "0xc2b2ae35" "0x7ed1b41d"]
      mult_inj [of "0x85ebca6b" "0xa5cb9243"]) simp_all

lemma mix_k1_consts: "murmur_c2 * 0x56ed309b = 1" "murmur_c1 * 0xdee13bb1 = 1" "(15 :: nat) < 32"
  by (simp_all add: murmur_c1_def murmur_c2_def)

lemma mix_k1_inj: "inj mix_k1"
proof -
  have "mix_k1 = (\<lambda>h. h * murmur_c2) \<circ> ((\<lambda>h. rotl32 h 15) \<circ> (\<lambda>h. h * murmur_c1))"
    by (simp add: fun_eq_iff mix_k1_def)
  then show ?thesis
    by (metis inj_compose [OF mult_inj [of murmur_c2 "0x56ed309b"] inj_compose [OF rotl32_inj [of 15]
          mult_inj [of murmur_c1 "0xdee13bb1"]]] mix_k1_consts)
qed

lemma xor_inj: "inj (\<lambda>h :: u32. a XOR h)" "inj (\<lambda>h :: u32. h XOR a)"
  by (rule injI, metis bit.xor_left_self, rule injI, metis bit.xor_left_self xor.commute)

lemma mix_13: "(13 :: nat) < 32"
  by simp

lemma mix_block_inj: "inj (mix_block h1)" "inj (\<lambda>h1. mix_block h1 k1)"
proof -
  have step: "inj (\<lambda>x. rotl32 x 13 * 5 + 0xe6546b64)"
  proof -
    have "(\<lambda>x. rotl32 x 13 * 5 + 0xe6546b64) = (\<lambda>x. x + 0xe6546b64) \<circ> ((\<lambda>x. x * 5) \<circ> (\<lambda>x. rotl32 x 13))"
      by (simp add: fun_eq_iff)
    moreover have "inj (\<lambda>x :: u32. x * 5)" by (rule mult_inj [of 5 "0xcccccccd"]) simp
    moreover have "inj (\<lambda>x :: u32. x + 0xe6546b64)" by (simp add: inj_def)
    ultimately show ?thesis by (metis inj_compose rotl32_inj [of 13] mix_13)
  qed
  have "mix_block h1 = (\<lambda>x. rotl32 x 13 * 5 + 0xe6546b64) \<circ> ((\<lambda>k. h1 XOR k) \<circ> mix_k1)"
    "(\<lambda>h1. mix_block h1 k1) = (\<lambda>x. rotl32 x 13 * 5 + 0xe6546b64) \<circ> (\<lambda>h. h XOR mix_k1 k1)"
    by (simp_all add: fun_eq_iff mix_block_def)
  then show "inj (mix_block h1)" "inj (\<lambda>h1. mix_block h1 k1)"
    by (metis inj_compose [OF step inj_compose [OF xor_inj(1) mix_k1_inj]],
        metis inj_compose [OF step xor_inj(2)])
qed

section \<open>Keys that differ in one block\<close>

definition key_block :: "u8 list \<Rightarrow> nat \<Rightarrow> u32" where
  "key_block key i = ucast (key ! (i * 4)) + push_bit 8 (ucast (key ! (i * 4 + 1)))
     + push_bit 16 (ucast (key ! (i * 4 + 2))) + push_bit 24 (ucast (key ! (i * 4 + 3)))"

definition key_body :: "u8 list \<Rightarrow> nat \<Rightarrow> nat \<Rightarrow> u32 \<Rightarrow> u32" where
  "key_body key i n = fold (\<lambda>j h1. mix_block h1 (key_block key j)) [i..<n]"

lemma body_loop:
  "n * 4 \<le> length key \<Longrightarrow>
    for_loop i n (\<lambda>i h1. map_option (mix_block h1) (getblock32 key i)) h = Some (key_body key i n h)"
proof (induction "n - i" arbitrary: i h)
  case 0
  then show ?case by (simp add: key_body_def)
next
  case (Suc d)
  then have i: "i < n" and d: "d = n - Suc i" by auto
  with Suc.prems have "getblock32 key i = Some (key_block key i)"
    by (auto simp: getblock32_def key_block_def)
  with Suc.hyps(1) [OF d Suc.prems] i show ?case by (simp add: for_loop_Suc key_body_def upt_conv_Cons)
qed

lemma body_inj: "inj (key_body key i n)"
proof (induction "n - i" arbitrary: i)
  case 0
  then show ?case by (simp add: key_body_def inj_def)
next
  case (Suc d)
  then have i: "i < n" and d: "d = n - Suc i" by auto
  have "key_body key i n = key_body key (Suc i) n \<circ> (\<lambda>h1. mix_block h1 (key_block key i))"
    using i by (simp add: key_body_def upt_conv_Cons fun_eq_iff)
  then show ?case using Suc.hyps(1) [OF d] inj_compose mix_block_inj(2) by metis
qed

lemma body_split: "i \<le> m \<Longrightarrow> m < n \<Longrightarrow>
    key_body key i n h = key_body key (Suc m) n (mix_block (key_body key i m h) (key_block key m))"
  using upt_add_eq_append [of i m "n - m"] by (simp add: key_body_def upt_conv_Cons)

lemma body_cong: "(\<And>j. i \<le> j \<Longrightarrow> j < n \<Longrightarrow> key_block key j = key_block key' j) \<Longrightarrow> key_body key i n h = key_body key' i n h"
  unfolding key_body_def by (rule fold_cong) auto

lemma block_bytes:
  fixes b0 b1 b2 b3 :: u8
  shows "(ucast b0 :: u32) + push_bit 8 (ucast b1) + push_bit 16 (ucast b2) + push_bit 24 (ucast b3)
    = word_of_nat (unat b0 + unat b1 * 256 + unat b2 * 65536 + unat b3 * 16777216)"
  by (simp add: push_bit_eq_mult word_unat_eq_iff unat_word_ariths unsigned_ucast_eq take_bit_eq_mod
      unat_of_nat mod_simps)

lemma digit: "(a :: nat) + 256 * r = a' + 256 * r' \<Longrightarrow> a < 256 \<Longrightarrow> a' < 256 \<Longrightarrow> a = a' \<and> r = r'"
  using mod_mult_self2 [of a 256 r] mod_mult_self2 [of a' 256 r'] by (metis add_left_cancel mod_less
      mult_cancel1 zero_neq_numeral)

lemma digits4:
  fixes a0 a1 a2 a3 :: nat
  assumes eq: "a0 + 256 * a1 + 65536 * a2 + 16777216 * a3 = b0 + 256 * b1 + 65536 * b2 + 16777216 * b3"
    and a: "a0 < 256" "a1 < 256" "a2 < 256" and b: "b0 < 256" "b1 < 256" "b2 < 256"
  shows "a0 = b0 \<and> a1 = b1 \<and> a2 = b2 \<and> a3 = b3"
proof -
  have 0: "a0 = b0 \<and> a1 + 256 * (a2 + 256 * a3) = b1 + 256 * (b2 + 256 * b3)"
    by (rule digit) (use eq a b in simp_all)
  have 1: "a1 = b1 \<and> a2 + 256 * a3 = b2 + 256 * b3" by (rule digit) (use 0 a b in simp_all)
  have "a2 = b2 \<and> a3 = b3" by (rule digit) (use 1 a b in simp_all)
  with 0 1 show ?thesis by simp
qed

lemma block_inj:
  assumes "length w = 4" "length w' = 4" "key_block w 0 = key_block w' 0"
  shows "w = w'"
proof -
  have bound: "unat b < 256" for b :: u8 using unsigned_less [of b, where ?'a = nat] by simp
  have "unat (key_block v 0) = unat (v ! 0) + 256 * unat (v ! 1) + 65536 * unat (v ! 2) + 16777216 * unat (v ! 3)" for v
  proof -
    have "unat (v ! 0) + 256 * unat (v ! 1) + 65536 * unat (v ! 2) + 16777216 * unat (v ! 3) < 4294967296"
      using bound [of "v ! 0"] bound [of "v ! 1"] bound [of "v ! 2"] bound [of "v ! 3"] by linarith
    then show ?thesis
      unfolding key_block_def mult_zero_left add_0 block_bytes
      by (intro trans [OF unat_of_nat]) (simp add: mult.commute)
  qed
  from this [of w] this [of w'] assms(3)
  have "unat (w ! 0) + 256 * unat (w ! 1) + 65536 * unat (w ! 2) + 16777216 * unat (w ! 3)
      = unat (w' ! 0) + 256 * unat (w' ! 1) + 65536 * unat (w' ! 2) + 16777216 * unat (w' ! 3)" by simp
  then have "unat (w ! 0) = unat (w' ! 0) \<and> unat (w ! 1) = unat (w' ! 1)
      \<and> unat (w ! 2) = unat (w' ! 2) \<and> unat (w ! 3) = unat (w' ! 3)"
    by (rule digits4) (rule bound)+
  then have "w ! i = w' ! i" if "i < 4" for i
    using that by (auto simp: word_unat_eq_iff less_Suc_eq numeral_eq_Suc)
  with assms(1,2) show ?thesis by (intro nth_equalityI) simp_all
qed

lemma block_middle:
  assumes p: "length p = 4 * b" and w: "length w = 4"
  shows "key_block (p @ w @ s) i = (if i < b then key_block p i else if i = b then key_block w 0 else key_block s (i - Suc b))"
proof -
  have k: "(p @ w @ s) ! (i * 4 + j)
      = (if i < b then p ! (i * 4 + j) else if i = b then w ! (0 * 4 + j) else s ! ((i - Suc b) * 4 + j))"
    if j: "j < 4" for j
  proof -
    have "i * 4 + j - 4 * b - 4 = (i - Suc b) * 4 + j" if "b < i" using that by auto
    with j show ?thesis using w by (auto simp: nth_append p)
  qed
  show ?thesis using k [of 0] k [of 1] k [of 2] k [of 3] by (simp add: key_block_def)
qed

definition murmur :: "u8 list \<Rightarrow> u32 \<Rightarrow> u32" where
  "murmur key seed =
     (let t = length key mod 4; h1 = key_body key 0 (length key div 4) seed
      in fmix32 ((if t = 0 then h1 else h1 XOR mix_k1 (the (tail_k1 key (length key div 4 * 4) t)))
           XOR word_of_nat (length key)))"

lemma MurmurHash3_murmur:
  "MurmurHash3_x86_32 key (int (length key)) seed = Some (murmur key seed)"
proof -
  have q: "nat (int (length key) sdiv 4) = length key div 4"
    by (simp add: signed_divide_int_def nat_div_distrib)
  have t: "nat (int (length key) AND 3) = length key mod 4"
  proof -
    have "int (length key) AND 3 = int (length key) mod 4"
      using take_bit_eq_mask [of 2 "int (length key)"] by (simp add: mask_eq_exp_minus_1 take_bit_eq_mod)
    then show ?thesis by (simp add: nat_mod_distrib)
  qed
  have "\<not> int (length key) sdiv 4 < 0" by (simp add: signed_divide_int_def not_less)
  moreover have "length key div 4 * 4 + length key mod 4 \<le> length key" by simp
  ultimately show ?thesis
    unfolding MurmurHash3_x86_32_def murmur_def
    by (simp add: q t body_loop Let_def tail_k1_def)
qed

lemma tail_middle:
  assumes "length p = 4 * b" "length w = 4"
  shows "tail_k1 (p @ w @ s) (length (p @ w @ s) div 4 * 4) (length (p @ w @ s) mod 4)
    = tail_k1 s (length s div 4 * 4) (length s mod 4)"
proof -
  have "length (p @ w @ s) div 4 = Suc b + length s div 4" "length (p @ w @ s) mod 4 = length s mod 4"
    using assms by auto
  then show ?thesis using assms by (simp add: tail_k1_def nth_append algebra_simps)
qed

lemma murmur_one_block:
  assumes p: "length p = 4 * b" and w: "length w = 4" "length w' = 4" and ne: "w \<noteq> w'"
  shows "murmur (p @ w @ s) seed \<noteq> murmur (p @ w' @ s) seed"
proof -
  let ?n = "length (p @ w @ s)"
  have n: "length (p @ w' @ s) = ?n" and b: "b < ?n div 4" using p w by auto
  define g where "g = (\<lambda>h1. fmix32 ((if ?n mod 4 = 0 then h1
      else h1 XOR mix_k1 (the (tail_k1 s (length s div 4 * 4) (length s mod 4)))) XOR word_of_nat ?n))"
  have g: "inj g"
    unfolding g_def using inj_compose [OF fmix32_inj inj_compose [OF xor_inj(2) xor_inj(2)]]
      inj_compose [OF fmix32_inj xor_inj(2)] by (cases "?n mod 4 = 0") (simp_all only: o_def simp_thms if_True if_False)
  have m: "murmur (p @ v @ s) seed
      = g (key_body (p @ v @ s) (Suc b) (?n div 4) (mix_block (key_body (p @ v @ s) 0 b seed) (key_block v 0)))"
    if v: "length v = 4" for v
  proof -
    have "length (p @ v @ s) = ?n" using v w by simp
    moreover have "key_block (p @ v @ s) b = key_block v 0" using block_middle [OF p v] by simp
    ultimately show ?thesis
      using body_split [OF _ b, of 0 "p @ v @ s" seed] tail_middle [OF p v, of s]
      by (simp add: murmur_def g_def Let_def)
  qed
  have "key_body (p @ w @ s) (Suc b) (?n div 4) h = key_body (p @ w' @ s) (Suc b) (?n div 4) h"
    "key_body (p @ w @ s) 0 b h = key_body (p @ w' @ s) 0 b h" for h
    by (rule body_cong; simp add: block_middle [OF p w(1)] block_middle [OF p w(2)])+
  moreover have "key_block w 0 \<noteq> key_block w' 0" using block_inj w ne by blast
  ultimately show ?thesis
    unfolding m [OF w(1)] m [OF w(2)]
    by (simp add: inj_eq [OF g] inj_eq [OF body_inj] inj_eq [OF mix_block_inj(1)])
qed

end
