(* ===== verification/ListProperties.thy ===== *)
theory ListProperties
  imports ListComparison ListBasic Murmur
begin

text \<open>
  The properties of the built-in list, string and hash functions (src/function/). Lists are given by
  the values they hold, and the arena by the assumption that it can provide the bytes asked for; the
  result of a function is the list it returns and the context it leaves, \<open>None\<close> where the code has
  undefined behaviour.
\<close>

section \<open>A concrete context\<close>

definition page_malloc :: malloc_fun where
  "page_malloc live n = (if live = [] then 65536 else 131072)"

definition page_ctx :: exec_ctx where
  "page_ctx = NewContext 4096"

lemma page_alloc:
  assumes "k < 64"
  shows "can_allocate page_malloc page_ctx (of_nat k)"
proof -
  have "list_all (\<lambda>k. can_allocate page_malloc page_ctx (of_nat k)) [0..<64]" by code_simp
  with assms show ?thesis by (simp add: list_all_iff)
qed

abbreviation i32_elem :: "int elem" where
  "i32_elem \<equiv> int_elem (\<lambda>_. 0) 32 True"

text \<open>A vector library of four lanes that computes lane by lane.\<close>

definition lanes4 :: "'a elem \<Rightarrow> 'a simd" where
  "lanes4 T = (let lift = (\<lambda>op xs ys. those (map2 op xs ys)) in
     \<lparr>kBatchSize = 4, simd_add = lift (elem_add T), simd_sub = lift (elem_sub T), simd_mul = lift (elem_mul T),
      simd_div = lift (elem_div T), simd_mod = lift (elem_mod T), simd_and = lift (elem_and T),
      simd_or = lift (elem_or T), simd_xor = lift (elem_xor T),
      simd_min = lift (\<lambda>x y. Some (std_min T x y)), simd_max = lift (\<lambda>x y. Some (std_max T x y)),
      simd_positive = map (elem_less T (elem_zero T)),
      simd_select = (\<lambda>cs xs ys. map (\<lambda>(t, x, y). if t then x else y) (zip cs (zip xs ys)))\<rparr>)"

lemma lanes4_lanewise: "lanewise 4 (\<lambda>xs ys. those (map2 op xs ys)) op"
  by (simp add: lanewise_def)

section \<open>Elementwise arithmetic\<close>

text \<open>C24: the functions of two lists of one length return the list of the elementwise results in a
  fresh buffer, however many elements the vector library takes at a time.\<close>

theorem list_functions_are_pointwise:
  assumes "holds a xs" "holds b ys" "length xs = length ys" "elem_ok T"
    and "can_allocate malloc c (list_bytes T (ls_len a))"
  shows "\<forall>(r, vop, op) \<in> set
     [(ListAddList T v malloc a b c, simd_add v, elem_add T), (ListSubList T v malloc a b c, simd_sub v, elem_sub T),
      (ListMulList T v malloc a b c, simd_mul v, elem_mul T), (ListDivList T v malloc a b c, simd_div v, elem_div T),
      (ListModList T v malloc a b c, simd_mod v, elem_mod T),
      (ListBitwiseAndList T v malloc a b c, simd_and v, elem_and T),
      (ListBitwiseOrList T v malloc a b c, simd_or v, elem_or T),
      (ListBitwiseXorList T v malloc a b c, simd_xor v, elem_xor T)].
    lanewise (kBatchSize v) vop op \<longrightarrow> (\<forall>zs. map2 op xs ys = map Some zs \<longrightarrow>
      r = Some (lst (arena_ptr malloc c (list_bytes T (ls_len a))) zs, after_alloc malloc c (list_bytes T (ls_len a))))"
  unfolding ListAddList_def ListSubList_def ListMulList_def ListDivList_def ListModList_def
    ListBitwiseAndList_def ListBitwiseOrList_def ListBitwiseXorList_def
  using list_list_spec [OF assms] by simp

lemma list_functions_are_pointwise_witness:
  "\<exists>p c. ListAddList i32_elem (lanes4 i32_elem) page_malloc (lst 8 [1, 2, 3, 4, 5]) (lst 40 [10, -20, 30, 40, 50]) page_ctx
    = Some (lst p [11, -18, 33, 44, 55], c)"
proof -
  let ?T = "i32_elem" and ?a = "lst 8 [1, 2, 3, 4, 5 :: int]" and ?b = "lst 40 [10, -20, 30, 40, 50 :: int]"
  have can: "can_allocate page_malloc page_ctx (list_bytes ?T (ls_len ?a))"
    using page_alloc [of 20] by (simp add: int_elem_def lst_def)
  have h: "holds ?a [1, 2, 3, 4, 5]" "holds ?b [10, -20, 30, 40, 50]" and ok: "elem_ok ?T"
    by (simp_all add: elem_ok_int)
  have "case (ListAddList ?T (lanes4 ?T) page_malloc ?a ?b page_ctx, simd_add (lanes4 ?T), elem_add ?T) of
      (r, vop, op) \<Rightarrow> lanewise (kBatchSize (lanes4 ?T)) vop op \<longrightarrow>
        (\<forall>zs. map2 op [1, 2, 3, 4, 5] [10, -20, 30, 40, 50] = map Some zs \<longrightarrow>
          r = Some (lst (arena_ptr page_malloc page_ctx (list_bytes ?T (ls_len ?a))) zs,
            after_alloc page_malloc page_ctx (list_bytes ?T (ls_len ?a))))"
    by (rule bspec [OF list_functions_are_pointwise [OF h _ ok can]]) (simp, simp only: list.set insertI1)
  moreover have "lanewise (kBatchSize (lanes4 ?T)) (simd_add (lanes4 ?T)) (elem_add ?T)"
    by (simp add: lanes4_def lanes4_lanewise)
  moreover have "map2 (elem_add ?T) [1, 2, 3, 4, 5] [10, -20, 30, 40, 50] = map Some [11, -18, 33, 44, 55]"
    by (simp add: int_elem_def store_result_in_range in_range_def)
  ultimately show ?thesis unfolding prod.case by blast
qed

text \<open>Lists of different lengths are an error of the context, which names both lengths; the result
  is the null list and nothing is allocated.\<close>

lemma list_functions_reject_lengths:
  assumes "ls_len a \<noteq> ls_len b"
  shows "\<forall>(f, r) \<in> set
     [(''ListAddList'', ListAddList T v malloc a b c), (''ListSubList'', ListSubList T v malloc a b c),
      (''ListMulList'', ListMulList T v malloc a b c), (''ListDivList'', ListDivList T v malloc a b c),
      (''ListModList'', ListModList T v malloc a b c), (''ListBitwiseAndList'', ListBitwiseAndList T v malloc a b c),
      (''ListBitwiseOrList'', ListBitwiseOrList T v malloc a b c),
      (''ListBitwiseXorList'', ListBitwiseXorList T v malloc a b c)].
    r = Some (null_list, AddError (mismatch f (ls_len a) (ls_len b)) c)"
  using list_list_mismatch [OF assms]
  by (simp add: ListAddList_def ListSubList_def ListMulList_def ListDivList_def ListModList_def
    ListBitwiseAndList_def ListBitwiseOrList_def ListBitwiseXorList_def)

text \<open>C25: a list of 16-bit unsigned elements is multiplied in \<open>int\<close>: the products are taken modulo 2^16
  if they all are below 2^31, and one that is not is a signed overflow, which is undefined.\<close>

theorem list_mul_u16:
  assumes "holds a xs" "\<forall>x\<in>set xs. in_range 16 False x" "in_range 16 False b"
    and "can_allocate malloc c (ucast (ls_len a) * 2)"
  shows "ListMul (int_elem f 16 False) malloc a b c =
    (if \<exists>x\<in>set xs. 2 ^ 31 \<le> x * b then None
     else Some (lst (arena_ptr malloc c (ucast (ls_len a) * 2)) (map (\<lambda>x. x * b mod 2 ^ 16) xs),
            after_alloc malloc c (ucast (ls_len a) * 2)))"
proof -
  have s: "store_result 16 False (x * b) = (if 2 ^ 31 \<le> x * b then None else Some (x * b mod 2 ^ 16))"
    if "x \<in> set xs" for x
  proof -
    have "0 \<le> x * b" using assms(2,3) that by (simp add: in_range_def)
    then show ?thesis by (simp add: store_result_def promoted_def in_range_def convert_int_def)
  qed
  have m: "those (map (\<lambda>x. store_result 16 False (x * b)) xs)
      = (if \<exists>x\<in>set xs. 2 ^ 31 \<le> x * b then None else Some (map (\<lambda>x. x * b mod 2 ^ 16) xs))"
    using s by (induction xs) auto
  have "elem_size (int_elem f 16 False) = 2" by (simp add: int_elem_def)
  moreover have "elem_ok (int_elem f 16 False)" by (rule elem_ok_int) simp
  ultimately show ?thesis
    using list_scalar_spec [OF assms(1), of "int_elem f 16 False" malloc c "\<lambda>x. elem_mul (int_elem f 16 False) x b"] assms(4)
    by (simp add: ListMul_def) (simp add: int_elem_def m)
qed

lemma list_mul_u16_witness:
  "ListMul (int_elem (\<lambda>_. 0) 16 False) page_malloc (lst 8 [65535, 1]) 65535 page_ctx = None
   \<and> (\<exists>p c. ListMul (int_elem (\<lambda>_. 0) 16 False) page_malloc (lst 8 [65535, 1]) 32767 page_ctx = Some (lst p [32769, 32767], c))"
proof -
  have h: "holds (lst 8 [65535, 1]) [65535, 1 :: int]" by simp
  have c: "can_allocate page_malloc page_ctx (ucast (ls_len (lst 8 [65535, 1 :: int])) * 2)"
    using page_alloc [of 4] by (simp add: lst_def)
  show ?thesis
    using list_mul_u16 [OF h _ _ c, of 65535 "\<lambda>_. 0"] list_mul_u16 [OF h _ _ c, of 32767 "\<lambda>_. 0"]
    by (auto simp: in_range_def)
qed

section \<open>Aggregation\<close>

text \<open>CountBits, which loads eight bytes at a time, counts the set bits of the bytes.\<close>

lemma count_bits_counts:
  assumes "holds a xs" "bytes_ok xs"
  shows "CountBits_f a = Some (of_nat (sum_list (map (popcount 8) xs)))"
  using assms by (rule CountBits_counts)

text \<open>A list of integers of at most 32 bits is summed in 64 bits without any overflow, signed or
  unsigned.\<close>

lemma sum_is_exact:
  assumes "holds a xs" "w \<le> 32" "0 < w" "\<forall>x\<in>set xs. in_range w s x"
  shows "Sum_f (int_elem f 64 s) (\<lambda>x. x) a = Some (sum_list xs)"
proof -
  have p: "(2 :: int) ^ w \<le> 2 ^ 32" "(2 :: int) ^ (w - 1) \<le> 2 ^ 31"
    by (rule power_increasing; use assms(2) in simp)+
  show ?thesis
  proof (cases s)
    case True
    then have "\<forall>x\<in>set xs. \<bar>x\<bar> \<le> 2 ^ 31" using assms(4) p(2) by (force simp: in_range_def)
    with True show ?thesis using Sum_signed [OF assms(1)] by simp
  next
    case False
    then have "\<forall>x\<in>set xs. 0 \<le> x \<and> x < 2 ^ 32" using assms(4) p(1) by (force simp: in_range_def)
    with False show ?thesis using Sum_unsigned_exact [OF assms(1)] by simp
  qed
qed

section \<open>Sorting\<close>

text \<open>C26: SortAsc returns a sorted permutation of an integer list, in a buffer of its own, and the
  functions that expect a sorted list agree on it with those for any list: SortedMedian with Median
  as well as FindSorted with Find.\<close>

theorem sort_then_search:
  assumes "holds a xs" "T = int_elem f w s" "w \<in> {8, 16, 32, 64}" "can_allocate malloc c (list_bytes T (ls_len a))"
  shows "\<exists>r ys. SortAsc T malloc a c = Some (r, after_alloc malloc c (list_bytes T (ls_len a)))
    \<and> holds r ys \<and> sorted ys \<and> mset ys = mset xs
    \<and> SortedMedian_f T fp r = Median_f T fp a \<and> FindSorted T r v = Find_f T r v"
proof -
  let ?ys = "sort_by (<) xs"
  have T: "elem_ok T" "elem_less T = (<)" "elem_eq T = (=)"
    using elem_ok_int [OF assms(3)] assms(2) by (simp_all add: int_elem_def)
  have len: "length ?ys = length xs" by (rule int_order.length_sort_by)
  then have r: "holds (lst p ?ys) ?ys" for p using holds_bound [OF assms(1)] by simp
  have w: "strict_weak_order (<) xs" by (rule int_order.weak_order) (simp add: list_all_iff)
  have sorted: "sorted ?ys" using int_order.sorted_sort_by [of xs] by (simp add: list_all_iff)
  have "SortAsc T malloc a c = Some (lst (arena_ptr malloc c (list_bytes T (ls_len a))) ?ys,
      after_alloc malloc c (list_bytes T (ls_len a)))"
    using sort_cells_spec [OF assms(1), of "elem_size T" malloc c "(<)"] T assms(4) w
    by (simp add: SortAsc_def elem_ok_def)
  moreover have "SortedMedian_f T fp (lst p ?ys) = Median_f T fp a" for p
    using int_order.median_of_sorted [OF T(2) _ assms(1) _ r] by (simp add: list_all_iff)
  moreover have "FindSorted T (lst p ?ys) v = Find_f T (lst p ?ys) v" for p
    using int_order.find_sorted_is_find [of ?ys v] sorted holds_rd_block [OF r, of 0 "length ?ys"] holds_len [OF r]
    by (simp add: FindSorted_def Find_spec [OF r] T list_all_iff)
  moreover have "mset ?ys = mset xs" by (rule int_order.mset_sort_by)
  ultimately show ?thesis using r sorted by blast
qed

lemma sort_then_search_witness:
  "\<exists>r c. SortAsc i32_elem page_malloc (lst 8 [5, -1, 3]) page_ctx = Some (r, c) \<and> holds r [-1, 3, 5]"
proof -
  have can: "can_allocate page_malloc page_ctx (list_bytes i32_elem (ls_len (lst 8 [5 :: int, -1, 3])))"
    using page_alloc [of 12] by (simp add: int_elem_def lst_def)
  have h: "holds (lst 8 [5, -1, 3 :: int]) [5, -1, 3]" by simp
  obtain r ys where r: "SortAsc i32_elem page_malloc (lst 8 [5, -1, 3]) page_ctx
      = Some (r, after_alloc page_malloc page_ctx (list_bytes i32_elem (ls_len (lst 8 [5 :: int, -1, 3]))))"
    "holds r ys" "sorted ys" "mset ys = mset [5, -1, 3]"
    using sort_then_search [OF h refl _ can] by blast
  have "ys = [-1, 3, 5]"
    by (intro trans [OF properties_for_sort [symmetric, OF r(4,3)] properties_for_sort]) simp_all
  with r(1,2) show ?thesis by blast
qed

text \<open>The sort of a float list without NaN is a sorted permutation; a NaN beside two ordered numbers
  makes \<open>operator<\<close> no strict weak order, and then the behaviour of \<open>std::sort\<close> is undefined.\<close>

lemma float_sort:
  assumes "holds a xs" "can_allocate malloc c (list_bytes (f64_elem fp) (ls_len a))"
  shows "(list_all (\<lambda>x. \<not> is_nan64 x) xs \<longrightarrow>
      (\<exists>r ys. SortDesc (f64_elem fp) malloc a c = Some (r, after_alloc malloc c (list_bytes (f64_elem fp) (ls_len a)))
        \<and> holds r ys \<and> mset ys = mset xs \<and> sorted (map (\<lambda>x. - key64 x) ys)))
    \<and> (\<forall>x\<in>set xs. \<forall>y\<in>set xs. \<forall>z\<in>set xs. is_nan64 z \<and> f64_less x y \<longrightarrow> SortDesc (f64_elem fp) malloc a c = None)"
proof (intro conjI impI ballI)
  let ?less = "\<lambda>x y. elem_less (f64_elem fp) y x"
  have eq: "?less = (\<lambda>x y. f64_less y x)" by (simp add: f64_elem_def fp_elem_def)
  have e: "unat (elem_size (f64_elem fp)) \<le> 16" "elem_size (f64_elem fp) \<noteq> 0"
    using elem_ok_float(2) [of fp] by (simp_all add: elem_ok_def)
  note spec = sort_cells_spec [OF assms(1) e assms(2), of ?less, folded SortDesc_def]
  show "\<exists>r ys. SortDesc (f64_elem fp) malloc a c = Some (r, after_alloc malloc c (list_bytes (f64_elem fp) (ls_len a)))
        \<and> holds r ys \<and> mset ys = mset xs \<and> sorted (map (\<lambda>x. - key64 x) ys)"
    if v: "list_all (\<lambda>x. \<not> is_nan64 x) xs"
  proof -
    let ?ys = "sort_by (\<lambda>x y. f64_less y x) xs"
    have "holds (lst p ?ys) ?ys" for p
      using f64_desc.length_sort_by [of xs] holds_bound [OF assms(1)] by simp
    then show ?thesis
      using spec f64_desc.weak_order [OF v] f64_desc.sorted_sort_by [OF v] f64_desc.mset_sort_by [of xs]
      unfolding eq by auto
  qed
  fix x y z assume "x \<in> set xs" "y \<in> set xs" "z \<in> set xs" "is_nan64 z \<and> f64_less x y"
  then have "\<not> strict_weak_order ?less xs"
    unfolding eq strict_weak_order_def list_all_iff f64_less_def by blast
  with spec show "SortDesc (f64_elem fp) malloc a c = None" by simp
qed

section \<open>Bitmaps\<close>

text \<open>C27: IfByBitmap takes the element of the left list where the bit is set and that of the right list
  elsewhere, through a mask of elements that the vector library compares with 0.\<close>

theorem if_by_bitmap_selects:
  assumes "mask_elem_ok T" "elem_ok T" "select_ok T v" "holds bitmap bs" "holds lhs xs" "holds rhs ys"
    and "length ys = length xs" "length xs + 7 < 2 ^ 32" "(length xs + 7) div 8 \<le> length bs"
    and "can_allocate malloc c (list_bytes T (ls_len lhs))"
  shows "IfByBitmapLLRL T v malloc bitmap lhs rhs c =
    Some (lst (arena_ptr malloc c (list_bytes T (ls_len lhs))) (map (\<lambda>i. if flag bs i then xs ! i else ys ! i) [0..<length xs]),
      after_alloc malloc c (list_bytes T (ls_len lhs)))"
proof -
  have len: "ls_len lhs = ls_len rhs" "list_len lhs = length xs"
    using holds_len_eq [OF assms(5)] holds_len_eq [OF assms(6)] holds_len [OF assms(5)] assms(7) by simp_all
  have "select_by_bitmap f T v malloc bitmap (ls_len lhs)
       (\<lambda>i. rd_block (ls_cells lhs) i (kBatchSize v)) (\<lambda>i. rd_block (ls_cells rhs) i (kBatchSize v))
       (rd (ls_cells lhs)) (rd (ls_cells rhs)) c
    = Some (lst (arena_ptr malloc c (list_bytes T (ls_len lhs))) (map (\<lambda>i. if flag bs i then xs ! i else ys ! i) [0..<list_len lhs]),
      after_alloc malloc c (list_bytes T (ls_len lhs)))" for f
    by (rule select_by_bitmap_spec [OF assms(1-4)])
      (use assms(7-10) len(2) in \<open>simp_all add: holds_rd_block [OF assms(5)] holds_rd_block [OF assms(6)]
         holds_rd [OF assms(5)] holds_rd [OF assms(6)]\<close>)
  with len show ?thesis by (simp add: IfByBitmapLLRL_def)
qed

lemma lanes4_select: "select_ok T (lanes4 T)"
  by (simp add: select_ok_def lanes4_def Let_def)

lemma if_by_bitmap_selects_witness:
  "\<exists>p c. IfByBitmapLLRL i32_elem (lanes4 i32_elem) page_malloc (lst 8 [13]) (lst 16 [1, 2, 3, 4, 5]) (lst 36 [-1, -2, -3, -4, -5])
     page_ctx = Some (lst p [1, -2, 3, 4, -5], c)"
proof -
  have "can_allocate page_malloc page_ctx (list_bytes i32_elem (ls_len (lst 16 [1 :: int, 2, 3, 4, 5])))"
    using page_alloc [of 20] by (simp add: int_elem_def lst_def)
  moreover have "mask_elem_ok i32_elem" by (simp add: mask_elem_ok_def int_elem_def convert_int_def)
  moreover have "map (\<lambda>i. if flag [13] i then [1, 2, 3, 4, 5] ! i else [-1, -2, -3, -4, -5] ! i) [0..<length [1, 2, 3, 4, 5 :: int]]
      = [1, -2, 3, 4, -5 :: int]" by code_simp
  ultimately show ?thesis
    using if_by_bitmap_selects [OF _ _ lanes4_select holds_lst holds_lst holds_lst, of i32_elem "[13]" "[1, 2, 3, 4, 5]"
        "[-1, -2, -3, -4, -5]" page_malloc page_ctx 16 8 36] elem_ok_int [of 32] by auto
qed

text \<open>C28: GenBitmap sets the bit of every element that satisfies the comparison, unless the number of
  elements is a positive multiple of 8: then it stores a byte behind the buffer it has allocated.\<close>

theorem gen_bitmap_or_overrun:
  assumes "holds a xs" "map (\<lambda>x. compare_elem cmp T x b) xs = map Some fs" "length xs + 7 < 2 ^ 32"
    and "can_allocate malloc c (ucast ((ls_len a + 7) div 8))"
  shows "GenBitmap T cmp malloc a b c =
    (if xs \<noteq> [] \<and> length xs mod 8 = 0 then None
     else Some (lst (arena_ptr malloc c (ucast ((ls_len a + 7) div 8))) (bitmap_of fs),
            after_alloc malloc c (ucast ((ls_len a + 7) div 8))))"
proof -
  have len: "length fs = length xs" using arg_cong [OF assms(2), of length] by simp
  have "compare_elem cmp T (xs ! i) b = Some (fs ! i)" if "i < length xs" for i
    using arg_cong [OF assms(2), of "\<lambda>l. l ! i"] that len by simp
  then have "gen_bitmap malloc (ls_len a) (\<lambda>i. Option.bind (rd (ls_cells a) i) (\<lambda>x. compare_elem cmp T x b)) c
    = (if fs \<noteq> [] \<and> length fs mod 8 = 0 then None
       else Some (lst (arena_ptr malloc c (ucast ((ls_len a + 7) div 8))) (bitmap_of fs),
            after_alloc malloc c (ucast ((ls_len a + 7) div 8))))"
    using assms(3) len holds_len [OF assms(1)]
    by (intro gen_bitmap_spec [OF _ _ _ assms(4)]) (simp_all add: holds_rd [OF assms(1)])
  moreover have "fs \<noteq> [] \<longleftrightarrow> xs \<noteq> []" using len by auto
  ultimately show ?thesis using len by (simp add: GenBitmap_def)
qed

lemma gen_bitmap_or_overrun_witness:
  "GenBitmap i32_elem kLarge page_malloc (lst 8 [1, 2, 3, 4, 5, 6, 7, 8]) 4 page_ctx = None
   \<and> (\<exists>p c. GenBitmap i32_elem kLarge page_malloc (lst 8 [9, 2, 7]) 4 page_ctx = Some (lst p [5], c))"
proof -
  have "bitmap_of [True, False, True] = [5]" by code_simp
  moreover have "can_allocate page_malloc page_ctx (ucast ((ls_len (lst 8 xs) + 7) div 8))"
    if "xs = [1, 2, 3, 4, 5, 6, 7, 8] \<or> xs = [9, 2, 7]" for xs :: "int list"
    using page_alloc [of 1] that by (auto simp: lst_def)
  ultimately show ?thesis
    using gen_bitmap_or_overrun [of "lst 8 [1, 2, 3, 4, 5, 6, 7, 8]" "[1, 2, 3, 4, 5, 6, 7, 8]" kLarge i32_elem 4
        "[False, False, False, False, True, True, True, True]" page_malloc page_ctx]
      gen_bitmap_or_overrun [of "lst 8 [9, 2, 7]" "[9, 2, 7]" kLarge i32_elem 4 "[True, False, True]" page_malloc page_ctx]
    by (auto simp: int_elem_def)
qed

text \<open>C29: FilterByBitmap with the bitmap of a condition and the count of CountBits returns the elements
  that satisfy it, in their order; CountBits returns their number.\<close>

theorem bitmap_then_filter:
  assumes "holds a xs" "length fs = length xs" "holds bitmap (bitmap_of fs)" "length xs + 7 < 2 ^ 32" "elem_ok T"
    and "cnt = of_nat (length (filter (\<lambda>t. t) fs))" "can_allocate malloc c (list_bytes T (cnt + 1))"
  shows "CountBits_f bitmap = Some cnt \<and> (\<exists>r. FilterByBitmap T malloc a bitmap cnt c
      = Some (r, after_alloc malloc c (list_bytes T (cnt + 1))) \<and> holds r (map fst (filter snd (zip xs fs))))"
proof -
  let ?bs = "bitmap_of fs"
  have lb: "length ?bs = (length xs + 7) div 8" using assms(2) by (simp add: bitmap_of_def)
  have clean: "clean_tail ?bs (length xs)" using clean_bitmap_of [of fs] assms(2) by simp
  have k: "kept xs ?bs (length xs) = map fst (filter snd (zip xs fs))" using assms(2) by (rule kept_bitmap_of)
  have n: "length (map fst (filter snd (zip xs fs))) = length (filter (\<lambda>t. t) fs)"
  proof -
    have "map snd (filter snd (zip xs fs)) = filter (\<lambda>t. t) fs"
      using assms(2) by (induction xs fs rule: list_induct2') auto
    then show ?thesis by (metis length_map)
  qed
  have le: "length (filter (\<lambda>t. t) fs) \<le> length xs" using assms(2) length_filter_le [of "\<lambda>t. t" fs] by simp
  then have cnt: "unat cnt = length (filter (\<lambda>t. t) fs)" using assms(4,6) by (simp add: unat_of_nat)
  have "CountBits_f bitmap = Some (of_nat (sum_list (map (popcount 8) ?bs)))"
    by (rule CountBits_counts [OF assms(3)]) (rule bytes_ok_bitmap_of)
  then have "CountBits_f bitmap = Some cnt"
    using kept_eq_count [OF lb clean] k n assms(6) by simp
  moreover have "\<exists>r. FilterByBitmap T malloc a bitmap cnt c = Some (r, after_alloc malloc c (list_bytes T (cnt + 1)))
      \<and> holds r (map fst (filter snd (zip xs fs)))"
    using FilterByBitmap_spec [OF assms(1,3) lb assms(4) _ _ assms(5,7)] clean cnt k n le assms(4) by auto
  ultimately show ?thesis by blast
qed

lemma bitmap_then_filter_witness:
  "\<exists>r c. FilterByBitmap i32_elem page_malloc (lst 8 [9, 2, 7]) (lst 20 [5]) 2 page_ctx = Some (r, c) \<and> holds r [9, 7]"
proof -
  have "bitmap_of [True, False, True] = [5]" by code_simp
  moreover have "can_allocate page_malloc page_ctx (list_bytes i32_elem (2 + 1))"
    using page_alloc [of 12] by (simp add: int_elem_def)
  ultimately show ?thesis
    using bitmap_then_filter [of "lst 8 [9, 2, 7]" "[9, 2, 7]" "[True, False, True]" "lst 20 [5]" i32_elem 2 page_malloc page_ctx]
      elem_ok_int [of 32] by auto
qed

section \<open>Groups and lookups\<close>

text \<open>C30: GroupIndex, GroupCount and GroupKeys factor a list: the keys are distinct, their number is the
  count, and gathering them by the group of each position gives the list back.\<close>

theorem group_round_trip:
  assumes "holds keys xs" "elem_eq T = (=)" "elem_ok T"
    and "b1 = 4 * ucast (ls_len keys)" "can_allocate malloc c b1" "c1 = after_alloc malloc c b1"
    and "b2 = list_bytes T (of_nat (card (set xs)))" "can_allocate malloc c1 b2" "c2 = after_alloc malloc c1 b2"
    and "b3 = list_bytes T (ls_len keys)" "can_allocate malloc c2 b3"
  shows "\<exists>gi d ks r. GroupIndex T malloc keys c = Some (gi, c1) \<and> GroupCount gi = Some d
    \<and> GroupKeys T malloc keys gi d c1 = Some (ks, c2)
    \<and> (\<exists>us. holds ks us \<and> distinct us \<and> set us = set xs \<and> unat d = length us)
    \<and> ListGather T malloc ks gi dflt c2 = Some (r, after_alloc malloc c2 b3) \<and> holds r xs"
proof -
  let ?us = "hash_set (=) xs" and ?gi = "lst (arena_ptr malloc c b1) (group_ids xs)"
  let ?d = "of_nat (card (set xs)) :: u32" and ?ks = "lst (arena_ptr malloc c1 b2) (hash_set (=) xs)"
  have n: "length xs < 2 ^ 32" "card (set xs) \<le> length xs"
    using holds_bound [OF assms(1)] card_length [of xs] by simp_all
  then have d: "unat ?d = length ?us" by (simp add: length_hash_set unat_of_nat)
  have gi: "holds ?gi (group_ids xs)" and ks: "holds ?ks ?us"
    using n by (simp_all add: group_ids_def length_hash_set)
  have 1: "GroupIndex T malloc keys c = Some (?gi, c1)"
    unfolding GroupIndex_def assms(2,4,6)
    by (rule group_index_spec) (use assms in \<open>simp_all add: holds_rd [OF assms(1)] holds_len [OF assms(1)]\<close>)
  have 2: "GroupCount ?gi = Some ?d" using GroupCount_ids [OF gi] by (simp add: length_hash_set)
  have 3: "GroupKeys T malloc keys ?gi ?d c1 = Some (?ks, c2)"
    using GroupKeys_spec [OF assms(1) gi refl d assms(3)] assms(7-9) by (simp add: first_of_same)
  have len: "ls_len ?gi = ls_len keys" using holds_len_eq [OF assms(1)] by (simp add: lst_def group_ids_def)
  have "map (gather ?us dflt) (group_ids xs) = xs"
    unfolding group_ids_def map_map
    by (rule map_idI) (simp add: gather_def hash_set_distinct index_in_less nth_index_in)
  then have 4: "ListGather T malloc ?ks ?gi dflt c2 = Some (lst (arena_ptr malloc c2 b3) xs, after_alloc malloc c2 b3)"
    using ListGather_spec [OF ks gi _ assms(3), of malloc c2 dflt] assms(10,11) unfolding len by (simp add: group_ids_def)
  have "holds ?ks ?us \<and> distinct ?us \<and> set ?us = set xs \<and> unat ?d = length ?us"
    using ks d hash_set_distinct [of xs] by simp
  with 1 2 3 4 n show ?thesis by (meson holds_lst)
qed

lemma group_round_trip_witness:
  "\<exists>gi c. GroupIndex i32_elem page_malloc (lst 8 [7, 3, 7]) page_ctx = Some (gi, c) \<and> GroupCount gi = Some 2"
proof -
  let ?k = "lst 8 [7, 3, 7 :: int]"
  let ?c1 = "after_alloc page_malloc page_ctx 12" let ?c2 = "after_alloc page_malloc ?c1 8"
  have can: "can_allocate page_malloc page_ctx 12" "can_allocate page_malloc ?c1 8" "can_allocate page_malloc ?c2 12"
    by code_simp+
  have T: "elem_eq i32_elem = (=)" "elem_ok i32_elem" by (simp add: int_elem_def, rule elem_ok_int, simp)
  have h: "holds ?k [7, 3, 7]" by simp
  have card: "card (set [7, 3, 7 :: int]) = 2" by (simp add: card_insert_if)
  have b: "12 = 4 * ucast (ls_len ?k)" "8 = list_bytes i32_elem (of_nat (card (set [7, 3, 7 :: int])))"
    "12 = list_bytes i32_elem (ls_len ?k)"
    unfolding card by (simp_all add: lst_def int_elem_def)
  obtain gi d us where g: "GroupIndex i32_elem page_malloc ?k page_ctx = Some (gi, ?c1)"
      "GroupCount gi = Some d" "distinct us" "set us = set [7, 3, 7 :: int]" "unat d = length us"
    using group_round_trip [OF h T b(1) can(1) refl b(2) can(2) refl b(3) can(3)] by blast
  have "length us = 2" using distinct_card [OF g(3)] g(4) card by simp
  with g(5) have "d = 2" by (simp add: word_unat_eq_iff)
  with g(1,2) show ?thesis by blast
qed

text \<open>C31: GroupSum returns for every group the sum of its values modulo 2^64; a group number that is
  not below the number of groups makes it access memory outside of its buffer.\<close>

theorem group_sum_per_group:
  assumes "holds vals xs" "holds gi gs" "length xs = length gs" "\<forall>g\<in>set gs. 0 \<le> g"
    and "T = int_elem f 64 False" "can_allocate malloc c (list_bytes T d)"
  shows "GroupSum T (\<lambda>x. x) malloc vals gi d c =
    (if \<forall>g\<in>set gs. nat g < unat d
     then Some (lst (arena_ptr malloc c (list_bytes T d)) (map (\<lambda>g. sum_list (members gs xs g) mod 2 ^ 64) [0..<unat d]),
           after_alloc malloc c (list_bytes T d))
     else None)"
proof (cases "\<forall>g\<in>set gs. nat g < unat d")
  case True
  have T: "elem_ok T" "elem_zero T = 0" "\<And>acc x. elem_add T acc x = Some ((acc + x) mod 2 ^ 64)"
    using elem_ok_int [of 64 f False] assms(5) by (simp, simp_all add: int_elem_def store_result_unsigned convert_int_def)
  have sum: "fold (\<lambda>x acc. (acc + x) mod 2 ^ 64) ys (0 :: int) = sum_list ys mod 2 ^ 64" for ys
    by (induction ys rule: rev_induct) (simp_all add: mod_simps)
  have "\<forall>g\<in>set gs. 0 \<le> g \<and> nat g < unat d" using True assms(4) by blast
  from group_kernel_spec [OF assms(1-3) this, of "\<lambda>acc x. elem_add T acc x" "\<lambda>acc x. (acc + x) mod 2 ^ 64", OF T(3,1) assms(6)]
  show ?thesis using True T(2) using sum by (simp add: GroupSum_def)
next
  case False
  then obtain i where i: "i < length gs" "unat d \<le> nat (gs ! i)" by (auto simp: in_set_conv_nth not_less)
  have "elem_ok T" using elem_ok_int [of 64] assms(5) by simp
  then show ?thesis
    unfolding if_not_P [OF False] GroupSum_def by (rule group_kernel_outside [OF assms(1-3) i _ assms(6)])
qed

lemma group_sum_per_group_witness:
  "GroupSum (int_elem (\<lambda>_. 0) 64 False) (\<lambda>x. x) page_malloc (lst 8 [1, 2, 4]) (lst 40 [0, 1, 0]) 1 page_ctx = None
   \<and> (\<exists>p c. GroupSum (int_elem (\<lambda>_. 0) 64 False) (\<lambda>x. x) page_malloc (lst 8 [1, 2, 4]) (lst 40 [0, 1, 0]) 2 page_ctx
        = Some (lst p [5, 2], c))"
proof -
  let ?T = "int_elem (\<lambda>_. 0) 64 False"
  have h: "holds (lst 8 [1, 2, 4 :: int]) [1, 2, 4]" "holds (lst 40 [0, 1, 0 :: int]) [0, 1, 0]" by simp_all
  have can: "can_allocate page_malloc page_ctx (list_bytes ?T 1)" "can_allocate page_malloc page_ctx (list_bytes ?T 2)"
    using page_alloc [of 8] page_alloc [of 16] by (simp_all add: int_elem_def)
  have "map (\<lambda>g. sum_list (members [0, 1, 0] [1, 2, 4 :: int] g) mod 2 ^ 64) [0..<unat (2 :: u32)] = [5, 2]" by code_simp
  then show ?thesis
    using group_sum_per_group [OF h _ _ refl can(1)] group_sum_per_group [OF h _ _ refl can(2)] by auto
qed

text \<open>C32: BuildLookupTable on one list, LookupTable with another and ListGather join the lists: each key
  gets the value at the first position of the table where it occurs, and a missing one the default.\<close>

theorem lookup_join:
  assumes "holds a ks" "holds b bs" "holds vals vs" "length vs = length bs" "length bs < 2 ^ 32 - 1"
    and "elem_eq K = (=)" "elem_ok T"
    and "create_table malloc obj dtor (index_table bs) c = (tbl, c1)" "fst tbl \<noteq> 0"
    and "b1 = 4 * ucast (ls_len a)" "can_allocate malloc c1 b1" "c2 = after_alloc malloc c1 b1"
    and "b2 = list_bytes T (ls_len a)" "can_allocate malloc c2 b2"
  shows "BuildLookupTableInt K malloc obj dtor b c = Some (tbl, c1)
    \<and> (\<exists>idx r. LookupTableInt K malloc a tbl c1 = Some (idx, c2)
         \<and> ListGather T malloc vals idx dflt c2 = Some (r, after_alloc malloc c2 b2)
         \<and> holds r (map (\<lambda>k. if k \<in> set bs then vs ! index_in bs k else dflt) ks))"
proof -
  let ?is = "map (first_index bs) ks"
  have b: "build_table (=) (rd (ls_cells b)) (length bs) = Some (index_table bs)"
    by (rule build_table_spec) (simp add: holds_rd [OF assms(2)])
  then have 1: "BuildLookupTableInt K malloc obj dtor b c = Some (tbl, c1)"
    using assms(6,8) holds_len [OF assms(2)] by (simp add: BuildLookupTableInt_def)
  have "snd tbl = index_table bs" using assms(8) by (auto simp: create_table_def split: prod.splits)
  then have 2: "LookupTableInt K malloc a tbl c1 = Some (lst (arena_ptr malloc c1 b1) ?is, c2)"
    unfolding LookupTableInt_def assms(6,10,12)
    by (intro lookup_loop_spec) (use assms in \<open>simp_all add: holds_rd [OF assms(1)] holds_len [OF assms(1)]\<close>)
  have idx: "holds (lst (arena_ptr malloc c1 b1) ?is) ?is" using holds_bound [OF assms(1)] by simp
  have len: "ls_len (lst (arena_ptr malloc c1 b1) ?is) = ls_len a" using holds_len_eq [OF assms(1)] by (simp add: lst_def)
  have g: "gather vs dflt (first_index bs k) = (if k \<in> set bs then vs ! index_in bs k else dflt)" for k
    using assms(4,5) by (simp add: gather_def first_index_def kLookupMiss_def index_in_less)
  have "\<forall>j\<in>set ?is. 0 \<le> j" by (auto simp: first_index_def kLookupMiss_def)
  from ListGather_spec [OF assms(3) idx this assms(7)] assms(13,14)
  have "ListGather T malloc vals (lst (arena_ptr malloc c1 b1) ?is) dflt c2
      = Some (lst (arena_ptr malloc c2 b2) (map (gather vs dflt) ?is), after_alloc malloc c2 b2)" unfolding len by simp
  moreover have "holds (lst (arena_ptr malloc c2 b2) (map (gather vs dflt) ?is))
      (map (\<lambda>k. if k \<in> set bs then vs ! index_in bs k else dflt) ks)"
    using holds_bound [OF assms(1)] by (simp add: g o_def)
  ultimately show ?thesis using 1 2 by blast
qed

lemma lookup_join_witness:
  "\<exists>tbl c1 idx c r c'. BuildLookupTableInt i32_elem page_malloc 56 1 (lst 16 [6, 7, 6]) page_ctx = Some (tbl, c1)
    \<and> LookupTableInt i32_elem page_malloc (lst 8 [5, 6]) tbl c1 = Some (idx, c)
    \<and> ListGather i32_elem page_malloc (lst 40 [60, 70, 66]) idx (-1) c = Some (r, c') \<and> holds r [-1, 60]"
proof -
  let ?a = "lst 8 [5, 6 :: int]" and ?b = "lst 16 [6, 7, 6 :: int]" and ?v = "lst 40 [60, 70, 66 :: int]"
  define t where "t = create_table page_malloc 56 1 (index_table [6, 7, 6 :: int]) page_ctx"
  have tbl: "create_table page_malloc 56 1 (index_table [6, 7, 6 :: int]) page_ctx = (fst t, snd t)" by (simp add: t_def)
  have can: "fst (fst t) \<noteq> 0" "can_allocate page_malloc (snd t) 8"
    "can_allocate page_malloc (after_alloc page_malloc (snd t) 8) 8" unfolding t_def by code_simp+
  have T: "elem_eq i32_elem = (=)" "elem_ok i32_elem" by (simp add: int_elem_def, rule elem_ok_int, simp)
  have h: "holds ?a [5, 6]" "holds ?b [6, 7, 6]" "holds ?v [60, 70, 66]" by simp_all
  have b: "8 = 4 * ucast (ls_len ?a)" "8 = list_bytes i32_elem (ls_len ?a)" by (simp_all add: lst_def int_elem_def)
  have "map (\<lambda>k. if k \<in> set [6, 7, 6] then [60, 70, 66] ! index_in [6, 7, 6] k else -1) [5, 6 :: int] = [-1, 60 :: int]"
    by code_simp
  with lookup_join [OF h _ _ T tbl can(1) b(1) can(2) refl b(2) can(3), of "-1"] show ?thesis
    by (intro exI [of _ "fst t"] exI [of _ "snd t"]) auto
qed

text \<open>C33: Bucketize, which scans at most 16 boundaries and bisects more, returns for every value the
  number of sorted boundaries that are not above it, and the number of all boundaries for a NaN.\<close>

theorem bucketize_counts:
  assumes "holds vals xs" "holds boundaries bs" "can_allocate malloc c (4 * ucast (ls_len vals))"
    and "sorted (map key64 bs)" "list_all (\<lambda>x. \<not> is_nan64 x) bs"
  shows "\<exists>r. Bucketize (f64_elem fp) malloc vals boundaries c = Some (r, after_alloc malloc c (4 * ucast (ls_len vals)))
    \<and> holds r (map (\<lambda>v. int (if is_nan64 v then length bs else length (filter (\<lambda>b. key64 b \<le> key64 v) bs))) xs)"
proof -
  have "bucket_of (elem_less (f64_elem fp)) bs v
      = (if is_nan64 v then length bs else length (filter (\<lambda>b. key64 b \<le> key64 v) bs))" for v
  proof (cases "is_nan64 v")
    case True
    then show ?thesis using bucket_of_unordered [of bs f64_less v] by (simp add: f64_elem_def fp_elem_def f64_less_def)
  next
    case False
    then show ?thesis using f64_order.bucket_counts [OF assms(4,5)] by (simp add: f64_elem_def fp_elem_def)
  qed
  then show ?thesis
    using Bucketize_spec [OF assms(1-3), of "f64_elem fp"] holds_bound [OF assms(1)] by (auto simp del: of_nat_eq_iff)
qed

definition first_arith :: "u64 fp_arith" where
  "first_arith = \<lparr>fp_add = (\<lambda>x _. x), fp_sub = (\<lambda>x _. x), fp_mul = (\<lambda>x _. x), fp_div = (\<lambda>x _. x),
     fp_of_int = of_int, fp_to_f64 = (\<lambda>x. x)\<rparr>"

lemma bucketize_counts_witness:
  "\<exists>r c. Bucketize (f64_elem first_arith) page_malloc (lst 8 [0x3ff8000000000000, 0x7ff8000000000000])
     (lst 24 [0x3ff0000000000000, 0x4000000000000000]) page_ctx = Some (r, c) \<and> holds r [1, 2]"
proof -
  let ?v = "lst 8 [0x3ff8000000000000, 0x7ff8000000000000 :: u64]" and ?b = "lst 24 [0x3ff0000000000000, 0x4000000000000000 :: u64]"
  have h: "holds ?v [0x3ff8000000000000, 0x7ff8000000000000]" "holds ?b [0x3ff0000000000000, 0x4000000000000000]" by simp_all
  have can: "can_allocate page_malloc page_ctx (4 * ucast (ls_len ?v))" using page_alloc [of 8] by (simp add: lst_def)
  have "sorted (map key64 [0x3ff0000000000000, 0x4000000000000000])"
    "list_all (\<lambda>x. \<not> is_nan64 x) [0x3ff0000000000000, 0x4000000000000000]"
    "map (\<lambda>v. int (if is_nan64 v then length [0x3ff0000000000000, 0x4000000000000000 :: u64]
        else length (filter (\<lambda>b. key64 b \<le> key64 v) [0x3ff0000000000000, 0x4000000000000000])))
      [0x3ff8000000000000, 0x7ff8000000000000] = [1, 2]"
    by (simp_all add: is_nan64_def fp_is_nan_def key64_def fp_key_def)
  with bucketize_counts [OF h can, of first_arith] show ?thesis by auto
qed

section \<open>Strings\<close>

lemma nat_to_string_length: "n < 10 ^ Suc k \<Longrightarrow> length (nat_to_string n) \<le> Suc k"
proof (induction k arbitrary: n)
  case 0
  then show ?case by (subst nat_to_string.simps) simp
next
  case (Suc k)
  then have "n div 10 < 10 ^ Suc k" by (simp add: div_less_iff_less_mult mult.commute)
  from Suc.IH [OF this] show ?case by (subst nat_to_string.simps) simp
qed

lemma int_to_string_short:
  assumes "\<bar>x\<bar> < 2 ^ 64"
  shows "length (int_to_string x) < 2 ^ 32"
proof -
  have "nat \<bar>x\<bar> < 10 ^ Suc 19" using assms by simp
  from nat_to_string_length [OF this] have "length (int_to_string x) \<le> 21"
    by (auto simp: int_to_string_def)
  then show ?thesis by simp
qed

text \<open>C34: printing an integer of any width and parsing the result gives the integer back; only the digits
  and the sign are written, whatever follows them in memory.\<close>

theorem integer_string_round_trip:
  assumes "in_range w s x" "0 < w" "w \<le> 64" "can_allocate malloc c (of_nat (length (int_to_string x)))"
  shows "\<exists>r c'. CastNumericToString int_to_string malloc x c = Some (r, c') \<and> errors c' = errors c
    \<and> CastStringToNumeric w s r = Some x"
proof -
  let ?str = "int_to_string x"
  have "\<bar>x\<bar> < 2 ^ w" using assms(1,2) by (cases w) (auto simp: in_range_def split: if_splits)
  also have "(2 :: int) ^ w \<le> 2 ^ 64" using assms(3) by (rule power_increasing) simp
  finally have "length ?str < 2 ^ 32" by (rule int_to_string_short)
  then have r: "holds (lst p ?str) ?str" for p by simp
  have "CastStringToNumeric w s (lst p ?str) = Some x" for p
    using string_view_holds [of "lst p ?str" ?str] r from_chars_to_string [OF assms(1) _ assms(2), of "[]"]
    by (simp add: CastStringToNumeric_def)
  moreover have "CastNumericToString int_to_string malloc x c
      = Some (lst (arena_ptr malloc c (of_nat (length ?str))) ?str, after_alloc malloc c (of_nat (length ?str)))"
    unfolding CastNumericToString_def using \<open>length ?str < 2 ^ 32\<close> assms(4) by (rule new_string_spec)
  ultimately show ?thesis by simp
qed

lemma integer_string_round_trip_witness:
  "\<exists>r c. CastNumericToString int_to_string page_malloc (-120) page_ctx = Some (r, c) \<and> CastStringToNumeric 8 True r = Some (-120)"
proof -
  have "length (int_to_string (-120)) = 4" by code_simp
  with page_alloc [of 4] integer_string_round_trip [of 8 True "-120" page_malloc page_ctx] show ?thesis
    by (auto simp: in_range_def)
qed

text \<open>C35: CrossJoin returns, for every string of the first list and every one of the second, both joined
  with the separator, all in one buffer of exactly the bytes needed.\<close>

theorem cross_join_strings:
  assumes "holds_strings a as" "holds_strings b bs" "string_view sep = Some sp" "as \<noteq> []" "bs \<noteq> []"
    and "length as * length bs < 2 ^ 32" "length (concat (cross as sp bs)) < 2 ^ 64"
    and "\<forall>z\<in>set (cross as sp bs). length z < 2 ^ 32"
    and "can_allocate malloc c (of_nat (length as * length bs * 16))"
    and "can_allocate malloc (after_alloc malloc c (of_nat (length as * length bs * 16))) (of_nat (length (concat (cross as sp bs))))"
  shows "\<exists>r c'. CrossJoinString malloc a b sep c = Some (r, c') \<and> errors c' = errors c
    \<and> holds_strings r (concat (map (\<lambda>x. map (\<lambda>y. x @ sp @ y) bs) as))"
  using CrossJoinString_spec [OF assms] unfolding cross_def by blast

lemma cross_join_strings_witness:
  "\<exists>r c. CrossJoinString page_malloc (lst 8 [lst 100 ''a'', lst 101 ''b'']) (lst 40 [lst 102 ''xy'']) (lst 104 ''-'') page_ctx
     = Some (r, c) \<and> holds_strings r [''a-xy'', ''b-xy'']"
proof -
  let ?a = "lst 8 [lst 100 ''a'', lst 101 ''b'']" and ?b = "lst 40 [lst 102 ''xy'']" and ?s = "lst 104 ''-''"
  have h: "holds_strings ?a [''a'', ''b'']" "holds_strings ?b [''xy'']" "string_view ?s = Some ''-''"
    unfolding holds_strings_def
    by (intro exI [of _ "[lst 100 ''a'', lst 101 ''b'']"], simp add: string_view_holds,
        intro exI [of _ "[lst 102 ''xy'']"], simp add: string_view_holds, simp add: string_view_holds)
  have can: "can_allocate page_malloc page_ctx (of_nat 32)"
    "can_allocate page_malloc (after_alloc page_malloc page_ctx (of_nat 32)) (of_nat 8)" by code_simp+
  from cross_join_strings [OF h, of page_malloc page_ctx] can show ?thesis by (auto simp: cross_def)
qed

text \<open>C36: ListConcat appends two lists; when the sum of the lengths does not fit 32 bits it copies behind
  the end of the buffer that it allocates for the wrapped length.\<close>

theorem list_concat:
  assumes "holds a xs" "holds b ys" "elem_ok T" "can_allocate malloc c (list_bytes T (ls_len a + ls_len b))"
  shows "ListConcat T malloc a b c =
    (if length xs + length ys < 2 ^ 32
     then Some (lst (arena_ptr malloc c (list_bytes T (ls_len a + ls_len b))) (xs @ ys),
            after_alloc malloc c (list_bytes T (ls_len a + ls_len b)))
     else None)"
proof -
  have e: "unat (elem_size T) \<le> 16" "elem_size T \<noteq> 0" using assms(3) by (simp_all add: elem_ok_def)
  show ?thesis
    using concat_cells_spec [OF assms(1,2) _ e assms(4)] concat_cells_overflow [OF assms(1,2) _ e assms(4)]
    by (simp add: ListConcat_def not_less)
qed

lemma list_concat_witness:
  "\<exists>p c. ListConcat i32_elem page_malloc (lst 8 [1, 2]) (lst 16 [3 :: int]) page_ctx = Some (lst p [1, 2, 3], c)"
proof -
  have "can_allocate page_malloc page_ctx (list_bytes i32_elem (ls_len (lst 8 [1, 2 :: int]) + ls_len (lst 16 [3 :: int])))"
    using page_alloc [of 12] by (simp add: int_elem_def lst_def)
  from list_concat [OF holds_lst holds_lst _ this] elem_ok_int [of 32] show ?thesis by auto
qed

section \<open>Hashing\<close>

text \<open>C37: MurmurHash3 returns for every key, and two keys of one length that differ in exactly one block
  of four bytes never collide, whatever the seed.\<close>

theorem murmur_single_block_change:
  assumes "length p = 4 * b" "length w = 4" "length w' = 4" "w \<noteq> w'"
  shows "\<exists>h h'. MurmurHash3_x86_32 (p @ w @ s) (int (length (p @ w @ s))) seed = Some h
    \<and> MurmurHash3_x86_32 (p @ w' @ s) (int (length (p @ w' @ s))) seed = Some h' \<and> h \<noteq> h'"
  using murmur_one_block [OF assms] MurmurHash3_murmur by blast

lemma murmur_single_block_change_witness:
  "MurmurHash3_x86_32 [1, 2, 3, 4, 5] 5 0 \<noteq> MurmurHash3_x86_32 [9, 2, 3, 4, 5] 5 0"
  using murmur_single_block_change [of "[]" 0 "[1, 2, 3, 4]" "[9, 2, 3, 4]" "[5]" 0] by auto

end
