(* ===== verification/AstBuilder.thy ===== *)
theory AstBuilder
  imports ExecNode
begin

text \<open>
  Model of athena/ast_builder.h, athena/ast_builder.cc and of the semantic actions of the parser
  (the cases of the switch in athena/parser.cc, generated from athena/parser.yy): how the program
  text becomes an expression tree. The LALR automaton and the scanner are a parameter: for a text
  they give the reductions they perform, and the error that ended them, if any. A semantic action
  works on the builder and on the stack of semantic values.

  A \<open>std::unique_ptr<ExecNode>\<close> is an option. \<open>None\<close> stands for a tree with a null pointer at its
  root or further down: all that is done with such a tree is to build it into other trees and to
  clone it, which dereferences the null pointer. A run that does is \<open>None\<close>.
\<close>

section \<open>State\<close>

type_synonym node_ptr = "exec_node option"

record statement =
  var_name :: string
  expression :: node_ptr
  const_var :: bool

datatype build_mode = kExpression | kPipeline

type_synonym block_context = "statement list \<times> (string \<times> u32) list"

text \<open>The block stack is kept with its last element first.\<close>

record builder =
  statements :: "statement list"
  var2index :: "(string \<times> u32) list"
  parser_error_message :: string
  custom_error_message :: string
  builder_source :: string
  builder_mode :: build_mode
  block_stack :: "block_context list"

definition NewBuilder :: builder where
  "NewBuilder = \<lparr>statements = [], var2index = [], parser_error_message = [], custom_error_message = [],
     builder_source = [], builder_mode = kExpression, block_stack = []\<rparr>"

definition IsExpressionMode :: "builder \<Rightarrow> bool" where
  "IsExpressionMode b \<longleftrightarrow> builder_mode b = kExpression"

section \<open>Operations of the builder\<close>

text \<open>A span is the location of bison: first line and column, last line and column.\<close>

type_synonym span = "int \<times> int \<times> int \<times> int"

definition span_location :: "string \<Rightarrow> span \<Rightarrow> source_location" where
  "span_location src sp = (case sp of (bl, bc, el, ec) \<Rightarrow>
     \<lparr>source_code = src, begin_line = bl, begin_col = bc, end_line = el, end_col = ec\<rparr>)"

definition undefined_variable :: "string \<Rightarrow> string \<Rightarrow> span \<Rightarrow> string" where
  "undefined_variable src x sp =
     Render (MakeDiagnostic kError (''variable '' @ [CHR 0x27] @ x @ [CHR 0x27] @ '' is not defined'')
       (span_location src sp))"

text \<open>The two lookups of MakeRefNode: the current statements, then the enclosing blocks inside out.\<close>

fun find_var :: "string \<Rightarrow> block_context list \<Rightarrow> (statement list \<times> u32) option" where
  "find_var x [] = None"
| "find_var x ((ss, m) # cs) = (case map_of m x of Some i \<Rightarrow> Some (ss, i) | None \<Rightarrow> find_var x cs)"

definition contexts :: "builder \<Rightarrow> block_context list" where
  "contexts b = (statements b, var2index b) # block_stack b"

definition MakeRefNode :: "string \<Rightarrow> span \<Rightarrow> builder \<Rightarrow> (node_ptr \<times> builder) option" where
  "MakeRefNode x sp b =
     (case find_var x (contexts b) of
        Some (ss, i) \<Rightarrow>
          if builder_mode b = kPipeline then Some (Some (RefNode new_info x), b)
          else if unat i < length ss then
            (case expression (ss ! unat i) of None \<Rightarrow> None | Some e \<Rightarrow> Some (Some (Clone e), b))
          else None
      | None \<Rightarrow> Some (None, b\<lparr>custom_error_message := undefined_variable (builder_source b) x sp\<rparr>))"

definition AddStatement :: "statement \<Rightarrow> builder \<Rightarrow> builder" where
  "AddStatement s b =
     (let b1 = b\<lparr>statements := statements b @ [s]\<rparr> in
      if var_name s = [] then b1
      else b1\<lparr>var2index := AList.update (var_name s) (of_nat (length (statements b1) - 1)) (var2index b1)\<rparr>)"

definition EnterBlock :: "builder \<Rightarrow> builder" where
  "EnterBlock b = b\<lparr>block_stack := (statements b, var2index b) # block_stack b, statements := [], var2index := []\<rparr>"

text \<open>The loop over the statements that LeaveBlock and BuildPipeline share, and the node it fills.\<close>

definition block_node :: "statement list \<Rightarrow> node_ptr" where
  "block_node ss = map_option (\<lambda>es. NoOPNode new_info
     (zip (map (\<lambda>s. \<lparr>name = var_name s, is_const = const_var s\<rparr>) ss) es) False) (those (map expression ss))"

definition LeaveBlock :: "builder \<Rightarrow> (node_ptr \<times> builder) option" where
  "LeaveBlock b = (case block_stack b of
     [] \<Rightarrow> None
   | (ss, m) # rest \<Rightarrow>
       Some (block_node (statements b), b\<lparr>statements := ss, var2index := m, block_stack := rest\<rparr>))"

definition WithLoc :: "string \<Rightarrow> span \<Rightarrow> node_ptr \<Rightarrow> node_ptr" where
  "WithLoc src sp node = map_option (SetLocation (span_location src sp)) node"

text \<open>\<open>Parser::error\<close> prints the location and the message; both ends of a location have the text
  as the file name, with which BuildExpression and BuildPipeline initialize it.\<close>

definition show_location :: "string \<Rightarrow> span \<Rightarrow> string" where
  "show_location file sp = (case sp of (bl, bc, el, ec) \<Rightarrow>
     let stop_col = (if 0 < ec then ec - 1 else 0) in
     file @ '':'' @ int_to_string bl @ ''.'' @ int_to_string bc @
     (if bl < el then ''-'' @ int_to_string el @ ''.'' @ int_to_string stop_col
      else if bc < stop_col then ''-'' @ int_to_string stop_col else []))"

definition Parser_error :: "span \<Rightarrow> string \<Rightarrow> builder \<Rightarrow> builder" where
  "Parser_error sp m b = b\<lparr>parser_error_message := show_location (builder_source b) sp @ '': '' @ m\<rparr>"

section \<open>Semantic actions\<close>

text \<open>The rules with an action that does more than to hand \<open>$1\<close> on, with the values of their
  terminals and the location of the left side (for the when block also that of \<open>when\<close>).\<close>

datatype op_token =
    TMinus | TPlus | TStar | TSlash | TModolo | TBitwiseOr | TBitwiseXor | TBitwiseAnd | TBitwiseNot
  | TBitwiseLeft | TBitwiseRight | TEqual | TNotEqual | TLessThan | TLessThanOrEqualTo | TGreaterThan
  | TGreaterThanOrEqualTo | TNot | TAnd | TOr

datatype reduction =
    RProgram
  | RAssign string | RLet string | RExprStatement | RWhenStatement
  | RName string span | REntryArg span | RExecCtx span | ROutput span
  | RLiteral const_value span | RTrue span | RFalse span
  | RListStart const_value | RListMore const_value | RList span
  | RPrefix op_token span | RInfix op_token span
  | RIf span | RCall string span | RCallEmpty string span | RIn span | RSwitch span
  | RWhen span span
  | RNoElif | RElif | RElse
  | REnterBlock | RLeaveBlock
  | RArg | RMoreArg

datatype sem_value = VNode node_ptr | VNodes "node_ptr list" | VList const_list | VStatement statement

datatype action_result = Reduced builder "sem_value list" | Aborted builder

text \<open>The values of the right side are on top of the stack, the last one first. A stack of another
  shape has no result: the automaton never offers one.\<close>

definition push_node :: "builder \<Rightarrow> span \<Rightarrow> node_ptr \<Rightarrow> sem_value list \<Rightarrow> action_result option" where
  "push_node b sp n st = Some (Reduced b (VNode (WithLoc (builder_source b) sp n) # st))"

fun program_action :: "builder \<Rightarrow> sem_value list \<Rightarrow> action_result option" where
  "program_action b (VStatement s # st) = Some (Reduced (AddStatement s b) st)"
| "program_action _ _ = None"

text \<open>The four rules of a statement: the name, empty for the last two, and whether it is a let.\<close>

fun statement_action :: "string \<Rightarrow> bool \<Rightarrow> builder \<Rightarrow> sem_value list \<Rightarrow> action_result option" where
  "statement_action x c b (VNode e # st) =
     Some (Reduced b (VStatement \<lparr>var_name = x, expression = e, const_var = c\<rparr> # st))"
| "statement_action _ _ _ _ = None"

definition name_action :: "string \<Rightarrow> span \<Rightarrow> builder \<Rightarrow> sem_value list \<Rightarrow> action_result option" where
  "name_action x sp b st = (case MakeRefNode x sp b of None \<Rightarrow> None | Some (n, b1) \<Rightarrow> push_node b1 sp n st)"

definition literal_action :: "const_value \<Rightarrow> span \<Rightarrow> builder \<Rightarrow> sem_value list \<Rightarrow> action_result option" where
  "literal_action v sp b st = push_node b sp (Some (ConstantValueNode new_info v)) st"

fun list_start :: "const_value \<Rightarrow> const_list" where
  "list_start (CI8 x) = LI8 [x]" | "list_start (CI16 x) = LI16 [x]"
| "list_start (CI32 x) = LI32 [x]" | "list_start (CI64 x) = LI64 [x]"
| "list_start (CU8 x) = LU8 [x]" | "list_start (CU16 x) = LU16 [x]"
| "list_start (CU32 x) = LU32 [x]" | "list_start (CU64 x) = LU64 [x]"
| "list_start (CF32 x) = LF32 [x]" | "list_start (CF64 x) = LF64 [x]"
| "list_start (CString x) = LString [x]"

text \<open>The grammar has a list rule per type, so that a list never gets an element of another type.\<close>

definition list_more :: "const_list \<Rightarrow> const_value \<Rightarrow> const_list option" where
  "list_more vs v = (case vs of
     LI8 xs \<Rightarrow> (case v of CI8 x \<Rightarrow> Some (LI8 (xs @ [x])) | _ \<Rightarrow> None)
   | LI16 xs \<Rightarrow> (case v of CI16 x \<Rightarrow> Some (LI16 (xs @ [x])) | _ \<Rightarrow> None)
   | LI32 xs \<Rightarrow> (case v of CI32 x \<Rightarrow> Some (LI32 (xs @ [x])) | _ \<Rightarrow> None)
   | LI64 xs \<Rightarrow> (case v of CI64 x \<Rightarrow> Some (LI64 (xs @ [x])) | _ \<Rightarrow> None)
   | LU8 xs \<Rightarrow> (case v of CU8 x \<Rightarrow> Some (LU8 (xs @ [x])) | _ \<Rightarrow> None)
   | LU16 xs \<Rightarrow> (case v of CU16 x \<Rightarrow> Some (LU16 (xs @ [x])) | _ \<Rightarrow> None)
   | LU32 xs \<Rightarrow> (case v of CU32 x \<Rightarrow> Some (LU32 (xs @ [x])) | _ \<Rightarrow> None)
   | LU64 xs \<Rightarrow> (case v of CU64 x \<Rightarrow> Some (LU64 (xs @ [x])) | _ \<Rightarrow> None)
   | LF32 xs \<Rightarrow> (case v of CF32 x \<Rightarrow> Some (LF32 (xs @ [x])) | _ \<Rightarrow> None)
   | LF64 xs \<Rightarrow> (case v of CF64 x \<Rightarrow> Some (LF64 (xs @ [x])) | _ \<Rightarrow> None)
   | LString xs \<Rightarrow> (case v of CString x \<Rightarrow> Some (LString (xs @ [x])) | _ \<Rightarrow> None))"

fun list_more_action :: "const_value \<Rightarrow> builder \<Rightarrow> sem_value list \<Rightarrow> action_result option" where
  "list_more_action v b (VList vs # st) = map_option (\<lambda>ws. Reduced b (VList ws # st)) (list_more vs v)"
| "list_more_action _ _ _ = None"

fun list_action :: "span \<Rightarrow> builder \<Rightarrow> sem_value list \<Rightarrow> action_result option" where
  "list_action sp b (VList vs # st) = push_node b sp (Some (ConstantListValueNode new_info vs)) st"
| "list_action _ _ _ = None"

fun prefix_op :: "op_token \<Rightarrow> unary_op option" where
  "prefix_op TMinus = Some kMinus" | "prefix_op TNot = Some kNot"
| "prefix_op TPlus = Some kPlus" | "prefix_op TBitwiseNot = Some kBitwiseNot"
| "prefix_op _ = None"

fun infix_op :: "op_token \<Rightarrow> binary_op option" where
  "infix_op TPlus = Some kAdd" | "infix_op TMinus = Some kSub" | "infix_op TStar = Some kMul"
| "infix_op TSlash = Some kDiv" | "infix_op TModolo = Some kMod" | "infix_op TBitwiseAnd = Some kBitwiseAnd"
| "infix_op TBitwiseOr = Some kBitwiseOr" | "infix_op TBitwiseXor = Some kBitwiseXor"
| "infix_op TEqual = Some kEqual" | "infix_op TNotEqual = Some kNotEqual" | "infix_op TGreaterThan = Some kLarge"
| "infix_op TGreaterThanOrEqualTo = Some kLargeEqual" | "infix_op TLessThan = Some kLess"
| "infix_op TLessThanOrEqualTo = Some kLessEqual" | "infix_op TBitwiseLeft = Some kBitwiseShiftLeft"
| "infix_op TBitwiseRight = Some kBitwiseShiftRight" | "infix_op TAnd = Some kAnd" | "infix_op TOr = Some kOr"
| "infix_op TBitwiseNot = None" | "infix_op TNot = None"

text \<open>Nodes whose children may be null pointers.\<close>

definition node2 :: "(exec_node \<Rightarrow> exec_node \<Rightarrow> exec_node) \<Rightarrow> node_ptr \<Rightarrow> node_ptr \<Rightarrow> node_ptr" where
  "node2 f l r = (case l of None \<Rightarrow> None | Some x \<Rightarrow> map_option (f x) r)"

definition node_of :: "(exec_node list \<Rightarrow> exec_node) \<Rightarrow> node_ptr list \<Rightarrow> node_ptr" where
  "node_of f ps = map_option f (those ps)"

fun prefix_action :: "op_token \<Rightarrow> span \<Rightarrow> builder \<Rightarrow> sem_value list \<Rightarrow> action_result option" where
  "prefix_action t sp b (VNode e # st) =
     (case prefix_op t of None \<Rightarrow> None | Some op \<Rightarrow> push_node b sp (map_option (UnaryOPNode new_info op) e) st)"
| "prefix_action _ _ _ _ = None"

fun infix_action :: "op_token \<Rightarrow> span \<Rightarrow> builder \<Rightarrow> sem_value list \<Rightarrow> action_result option" where
  "infix_action t sp b (VNode r # VNode l # st) =
     (case infix_op t of None \<Rightarrow> None | Some op \<Rightarrow> push_node b sp (node2 (BinaryOPNode new_info op) l r) st)"
| "infix_action _ _ _ _ = None"

text \<open>The rules \<open>if (args)\<close>, \<open>f (args)\<close> and \<open>switch (args)\<close>.\<close>

fun call_action :: "(exec_node list \<Rightarrow> exec_node) \<Rightarrow> span \<Rightarrow> builder \<Rightarrow> sem_value list \<Rightarrow> action_result option" where
  "call_action f sp b (VNodes es # st) = push_node b sp (node_of f es) st"
| "call_action _ _ _ _ = None"

definition in_node :: "exec_node \<Rightarrow> exec_node \<Rightarrow> exec_node" where
  "in_node l r = AppendArgs r (AppendArgs l (FunctionNode new_info ''in'' []))"

fun in_action :: "span \<Rightarrow> builder \<Rightarrow> sem_value list \<Rightarrow> action_result option" where
  "in_action sp b (VNode r # VNode l # st) = push_node b sp (node2 in_node l r) st"
| "in_action _ _ _ = None"

definition when_message :: string where
  "when_message = ''when block is not allowed in expression mode''"

fun when_action :: "span \<Rightarrow> span \<Rightarrow> builder \<Rightarrow> sem_value list \<Rightarrow> action_result option" where
  "when_action sp sp1 b (VNodes chain # VNode blk # VNode cond # st) =
     (if IsExpressionMode b then Some (Aborted (Parser_error sp1 when_message b))
      else push_node b sp (node_of (IfBlockNode new_info) (cond # blk # chain)) st)"
| "when_action _ _ _ _ = None"

fun elif_action :: "builder \<Rightarrow> sem_value list \<Rightarrow> action_result option" where
  "elif_action b (VNode blk # VNode cond # VNodes chain # st) = Some (Reduced b (VNodes (chain @ [cond, blk]) # st))"
| "elif_action _ _ = None"

fun else_action :: "builder \<Rightarrow> sem_value list \<Rightarrow> action_result option" where
  "else_action b (VNode blk # VNodes chain # st) = Some (Reduced b (VNodes (chain @ [blk]) # st))"
| "else_action _ _ = None"

definition leave_action :: "builder \<Rightarrow> sem_value list \<Rightarrow> action_result option" where
  "leave_action b st = (case LeaveBlock b of None \<Rightarrow> None | Some (n, b1) \<Rightarrow> Some (Reduced b1 (VNode n # st)))"

fun arg_action :: "builder \<Rightarrow> sem_value list \<Rightarrow> action_result option" where
  "arg_action b (VNode e # st) = Some (Reduced b (VNodes [e] # st))"
| "arg_action _ _ = None"

fun more_arg_action :: "builder \<Rightarrow> sem_value list \<Rightarrow> action_result option" where
  "more_arg_action b (VNode e # VNodes es # st) = Some (Reduced b (VNodes (es @ [e]) # st))"
| "more_arg_action _ _ = None"

fun semantic_action :: "reduction \<Rightarrow> builder \<Rightarrow> sem_value list \<Rightarrow> action_result option" where
  "semantic_action RProgram b st = program_action b st"
| "semantic_action (RAssign x) b st = statement_action x False b st"
| "semantic_action (RLet x) b st = statement_action x True b st"
| "semantic_action RExprStatement b st = statement_action [] False b st"
| "semantic_action RWhenStatement b st = statement_action [] False b st"
| "semantic_action (RName x sp) b st = name_action x sp b st"
| "semantic_action (REntryArg sp) b st = push_node b sp (Some (EntryArgumentNode new_info)) st"
| "semantic_action (RExecCtx sp) b st = push_node b sp (Some (ExecContextNode new_info)) st"
| "semantic_action (ROutput sp) b st = push_node b sp (Some (OutputNode new_info)) st"
| "semantic_action (RLiteral v sp) b st = literal_action v sp b st"
| "semantic_action (RTrue sp) b st = literal_action (CU8 1) sp b st"
| "semantic_action (RFalse sp) b st = literal_action (CU8 0) sp b st"
| "semantic_action (RListStart v) b st = Some (Reduced b (VList (list_start v) # st))"
| "semantic_action (RListMore v) b st = list_more_action v b st"
| "semantic_action (RList sp) b st = list_action sp b st"
| "semantic_action (RPrefix t sp) b st = prefix_action t sp b st"
| "semantic_action (RInfix t sp) b st = infix_action t sp b st"
| "semantic_action (RIf sp) b st = call_action (IfNode new_info) sp b st"
| "semantic_action (RCall f sp) b st = call_action (FunctionNode new_info f) sp b st"
| "semantic_action (RCallEmpty f sp) b st = push_node b sp (Some (FunctionNode new_info f [])) st"
| "semantic_action (RIn sp) b st = in_action sp b st"
| "semantic_action (RSwitch sp) b st = call_action (SwitchNode new_info) sp b st"
| "semantic_action (RWhen sp sp1) b st = when_action sp sp1 b st"
| "semantic_action RNoElif b st = Some (Reduced b (VNodes [] # st))"
| "semantic_action RElif b st = elif_action b st"
| "semantic_action RElse b st = else_action b st"
| "semantic_action REnterBlock b st = Some (Reduced (EnterBlock b) st)"
| "semantic_action RLeaveBlock b st = leave_action b st"
| "semantic_action RArg b st = arg_action b st"
| "semantic_action RMoreArg b st = more_arg_action b st"

fun run_actions :: "reduction list \<Rightarrow> builder \<Rightarrow> sem_value list \<Rightarrow> action_result option" where
  "run_actions [] b st = Some (Reduced b st)"
| "run_actions (r # rs) b st = (case semantic_action r b st of
     None \<Rightarrow> None
   | Some (Aborted b1) \<Rightarrow> Some (Aborted b1)
   | Some (Reduced b1 st1) \<Rightarrow> run_actions rs b1 st1)"

section \<open>Building\<close>

text \<open>What scanner and parser do on a text: the reductions in their order, then acceptance or an
  error at a location. There is no error recovery in the grammar.\<close>

type_synonym parser = "string \<Rightarrow> reduction list \<times> (span \<times> string) option"

text \<open>The scanner reads a C string, which ends at the first NUL.\<close>

definition c_str :: "string \<Rightarrow> string" where
  "c_str s = takeWhile (\<lambda>c. c \<noteq> CHR 0x00) s"

definition Scan :: "parser \<Rightarrow> string \<Rightarrow> builder \<Rightarrow> (status \<times> builder) option" where
  "Scan parse code b = (case parse (c_str code) of (rs, err) \<Rightarrow>
     (case run_actions rs b [] of
        None \<Rightarrow> None
      | Some (Aborted b1) \<Rightarrow> Some (ParseError (parser_error_message b1), b1)
      | Some (Reduced b1 st) \<Rightarrow>
          (case err of
             None \<Rightarrow> Some (OK, b1)
           | Some (sp, m) \<Rightarrow>
               let b2 = Parser_error sp m b1 in Some (ParseError (parser_error_message b2), b2))))"

definition StartBuild :: "build_mode \<Rightarrow> string \<Rightarrow> builder \<Rightarrow> builder" where
  "StartBuild m code b = b\<lparr>statements := [], var2index := [], parser_error_message := [],
     custom_error_message := [], builder_source := code, builder_mode := m\<rparr>"

text \<open>The result is \<open>None\<close> where \<open>*result\<close> is not assigned. A string or pointer that is moved
  from is left empty.\<close>

definition BuildExpression :: "parser \<Rightarrow> string \<Rightarrow> builder \<Rightarrow> (status \<times> node_ptr \<times> builder) option" where
  "BuildExpression parse code b =
     (case Scan parse code (StartBuild kExpression code b) of
        None \<Rightarrow> None
      | Some (st, b1) \<Rightarrow>
          if \<not> ok st then Some (st, None, b1)
          else if custom_error_message b1 \<noteq> [] then Some (ParseError (custom_error_message b1), None, b1)
          else if statements b1 = [] then None
          else let s = last (statements b1) in
            Some (OK, expression s, b1\<lparr>statements := butlast (statements b1) @ [s\<lparr>expression := None\<rparr>]\<rparr>))"

definition moved_from :: "statement \<Rightarrow> statement" where
  "moved_from s = s\<lparr>var_name := [], expression := None\<rparr>"

definition BuildPipeline :: "parser \<Rightarrow> string \<Rightarrow> builder \<Rightarrow> (status \<times> node_ptr \<times> builder) option" where
  "BuildPipeline parse code b =
     (case Scan parse code (StartBuild kPipeline code b) of
        None \<Rightarrow> None
      | Some (st, b1) \<Rightarrow>
          if \<not> ok st then Some (st, None, b1)
          else if custom_error_message b1 \<noteq> [] then Some (ParseError (custom_error_message b1), None, b1)
          else Some (OK, block_node (statements b1), b1\<lparr>statements := map moved_from (statements b1)\<rparr>))"

end
