(* ===== verification/AstCorrect.thy ===== *)
theory AstCorrect
  imports AstBuilder
begin

text \<open>
  What the builder makes of a text that the parser accepts. A syntax tree is a derivation of the
  grammar of athena/parser.yy, \<open>program_reductions\<close> its reductions in the order of a bottom-up
  parser. \<open>translate\<close> is the tree that the actions build for an expression, given what an identifier
  becomes; \<open>stmt_uses\<close> lists the identifiers that are used where they are not visible.
\<close>

section \<open>Syntax\<close>

datatype expr_syn =
    Literal const_value span | TrueLit span | FalseLit span
  | ListLit const_value "const_value list" span
  | Ident string span | EntryArg span | ExecCtxArg span | OutputArg span
  | Prefix op_token expr_syn span
  | Infix op_token expr_syn expr_syn span
  | InExpr expr_syn expr_syn span
  | IfExpr expr_syn "expr_syn list" span
  | SwitchExpr expr_syn "expr_syn list" span
  | CallExpr string "expr_syn list" span

datatype stmt_syn =
    AssignStmt string expr_syn | LetStmt string expr_syn | ExprStmt expr_syn
  | WhenStmt expr_syn "stmt_syn list" "arm_syn list" span span
and arm_syn = ElifArm expr_syn "stmt_syn list" | ElseArm "stmt_syn list"

fun expr_reductions :: "expr_syn \<Rightarrow> reduction list" and more_reductions :: "expr_syn list \<Rightarrow> reduction list" where
  "expr_reductions (Literal v sp) = [RLiteral v sp]"
| "expr_reductions (TrueLit sp) = [RTrue sp]"
| "expr_reductions (FalseLit sp) = [RFalse sp]"
| "expr_reductions (ListLit v vs sp) = RListStart v # map RListMore vs @ [RList sp]"
| "expr_reductions (Ident x sp) = [RName x sp]"
| "expr_reductions (EntryArg sp) = [REntryArg sp]"
| "expr_reductions (ExecCtxArg sp) = [RExecCtx sp]"
| "expr_reductions (OutputArg sp) = [ROutput sp]"
| "expr_reductions (Prefix t e sp) = expr_reductions e @ [RPrefix t sp]"
| "expr_reductions (Infix t l r sp) = expr_reductions l @ expr_reductions r @ [RInfix t sp]"
| "expr_reductions (InExpr l r sp) = expr_reductions l @ expr_reductions r @ [RIn sp]"
| "expr_reductions (IfExpr e es sp) = expr_reductions e @ [RArg] @ more_reductions es @ [RIf sp]"
| "expr_reductions (SwitchExpr e es sp) = expr_reductions e @ [RArg] @ more_reductions es @ [RSwitch sp]"
| "expr_reductions (CallExpr f [] sp) = [RCallEmpty f sp]"
| "expr_reductions (CallExpr f (e # es) sp) = expr_reductions e @ [RArg] @ more_reductions es @ [RCall f sp]"
| "more_reductions [] = []"
| "more_reductions (e # es) = expr_reductions e @ [RMoreArg] @ more_reductions es"

fun stmt_reductions :: "stmt_syn \<Rightarrow> reduction list" and program_reductions :: "stmt_syn list \<Rightarrow> reduction list"
  and arms_reductions :: "arm_syn list \<Rightarrow> reduction list" where
  "stmt_reductions (AssignStmt x e) = expr_reductions e @ [RAssign x]"
| "stmt_reductions (LetStmt x e) = expr_reductions e @ [RLet x]"
| "stmt_reductions (ExprStmt e) = expr_reductions e @ [RExprStatement]"
| "stmt_reductions (WhenStmt e ss arms sp sp1) =
     expr_reductions e @ [REnterBlock] @ program_reductions ss @ [RLeaveBlock, RNoElif]
       @ arms_reductions arms @ [RWhen sp sp1, RWhenStatement]"
| "program_reductions [] = []"
| "program_reductions (s # ss) = stmt_reductions s @ [RProgram] @ program_reductions ss"
| "arms_reductions [] = []"
| "arms_reductions (ElifArm e ss # arms) =
     expr_reductions e @ [REnterBlock] @ program_reductions ss @ [RLeaveBlock, RElif] @ arms_reductions arms"
| "arms_reductions (ElseArm ss # arms) =
     [REnterBlock] @ program_reductions ss @ [RLeaveBlock, RElse] @ arms_reductions arms"

text \<open>What the grammar guarantees of a derivation: prefix and infix tokens in their places, the
  elements of a list literal of one type, named assignments.\<close>

fun literals_ok :: "const_list \<Rightarrow> const_value list \<Rightarrow> const_list option" where
  "literals_ok l [] = Some l"
| "literals_ok l (v # vs) = (case list_more l v of None \<Rightarrow> None | Some l1 \<Rightarrow> literals_ok l1 vs)"

fun wf_expr :: "expr_syn \<Rightarrow> bool" where
  "wf_expr (ListLit v vs sp) \<longleftrightarrow> literals_ok (list_start v) vs \<noteq> None"
| "wf_expr (Prefix t e sp) \<longleftrightarrow> prefix_op t \<noteq> None \<and> wf_expr e"
| "wf_expr (Infix t l r sp) \<longleftrightarrow> infix_op t \<noteq> None \<and> wf_expr l \<and> wf_expr r"
| "wf_expr (InExpr l r sp) \<longleftrightarrow> wf_expr l \<and> wf_expr r"
| "wf_expr (IfExpr e es sp) \<longleftrightarrow> wf_expr e \<and> list_all wf_expr es"
| "wf_expr (SwitchExpr e es sp) \<longleftrightarrow> wf_expr e \<and> list_all wf_expr es"
| "wf_expr (CallExpr f es sp) \<longleftrightarrow> list_all wf_expr es"
| "wf_expr _ \<longleftrightarrow> True"

fun wf_stmt :: "stmt_syn \<Rightarrow> bool" and wf_arm :: "arm_syn \<Rightarrow> bool" where
  "wf_stmt (AssignStmt x e) \<longleftrightarrow> x \<noteq> [] \<and> wf_expr e"
| "wf_stmt (LetStmt x e) \<longleftrightarrow> x \<noteq> [] \<and> wf_expr e"
| "wf_stmt (ExprStmt e) \<longleftrightarrow> wf_expr e"
| "wf_stmt (WhenStmt e ss arms sp sp1) \<longleftrightarrow> wf_expr e \<and> list_all wf_stmt ss \<and> list_all wf_arm arms"
| "wf_arm (ElifArm e ss) \<longleftrightarrow> wf_expr e \<and> list_all wf_stmt ss"
| "wf_arm (ElseArm ss) \<longleftrightarrow> list_all wf_stmt ss"

section \<open>Translation of expressions\<close>

text \<open>\<open>resolve x\<close> is what the identifier \<open>x\<close> becomes: \<open>None\<close> when the null pointer of an undefined
  variable is cloned, \<open>Some None\<close> when it is undefined.\<close>

type_synonym resolver = "string \<Rightarrow> node_ptr option"

fun translate :: "string \<Rightarrow> resolver \<Rightarrow> expr_syn \<Rightarrow> node_ptr option"
  and translates :: "string \<Rightarrow> resolver \<Rightarrow> expr_syn list \<Rightarrow> node_ptr list option" where
  "translate src res (Literal v sp) = Some (WithLoc src sp (Some (ConstantValueNode new_info v)))"
| "translate src res (TrueLit sp) = Some (WithLoc src sp (Some (ConstantValueNode new_info (CU8 1))))"
| "translate src res (FalseLit sp) = Some (WithLoc src sp (Some (ConstantValueNode new_info (CU8 0))))"
| "translate src res (ListLit v vs sp) =
     Some (WithLoc src sp (map_option (ConstantListValueNode new_info) (literals_ok (list_start v) vs)))"
| "translate src res (Ident x sp) = map_option (WithLoc src sp) (res x)"
| "translate src res (EntryArg sp) = Some (WithLoc src sp (Some (EntryArgumentNode new_info)))"
| "translate src res (ExecCtxArg sp) = Some (WithLoc src sp (Some (ExecContextNode new_info)))"
| "translate src res (OutputArg sp) = Some (WithLoc src sp (Some (OutputNode new_info)))"
| "translate src res (Prefix t e sp) =
     (case translate src res e of None \<Rightarrow> None
      | Some p \<Rightarrow> Some (WithLoc src sp (map_option (UnaryOPNode new_info (the (prefix_op t))) p)))"
| "translate src res (Infix t l r sp) =
     (case translate src res l of None \<Rightarrow> None
      | Some p \<Rightarrow> (case translate src res r of None \<Rightarrow> None
      | Some q \<Rightarrow> Some (WithLoc src sp (node2 (BinaryOPNode new_info (the (infix_op t))) p q))))"
| "translate src res (InExpr l r sp) =
     (case translate src res l of None \<Rightarrow> None
      | Some p \<Rightarrow> (case translate src res r of None \<Rightarrow> None
      | Some q \<Rightarrow> Some (WithLoc src sp (node2 in_node p q))))"
| "translate src res (IfExpr e es sp) =
     (case translate src res e of None \<Rightarrow> None
      | Some p \<Rightarrow> map_option (\<lambda>ps. WithLoc src sp (node_of (IfNode new_info) (p # ps))) (translates src res es))"
| "translate src res (SwitchExpr e es sp) =
     (case translate src res e of None \<Rightarrow> None
      | Some p \<Rightarrow> map_option (\<lambda>ps. WithLoc src sp (node_of (SwitchNode new_info) (p # ps))) (translates src res es))"
| "translate src res (CallExpr f es sp) =
     map_option (\<lambda>ps. WithLoc src sp (node_of (FunctionNode new_info f) ps)) (translates src res es)"
| "translates src res [] = Some []"
| "translates src res (e # es) =
     (case translate src res e of None \<Rightarrow> None | Some p \<Rightarrow> map_option (\<lambda>ps. p # ps) (translates src res es))"

text \<open>The identifiers of an expression in the order of reading.\<close>

fun idents :: "expr_syn \<Rightarrow> (string \<times> span) list" where
  "idents (Ident x sp) = [(x, sp)]"
| "idents (Prefix t e sp) = idents e"
| "idents (Infix t l r sp) = idents l @ idents r"
| "idents (InExpr l r sp) = idents l @ idents r"
| "idents (IfExpr e es sp) = idents e @ concat (map idents es)"
| "idents (SwitchExpr e es sp) = idents e @ concat (map idents es)"
| "idents (CallExpr f es sp) = concat (map idents es)"
| "idents _ = []"

text \<open>The uses of identifiers outside of the set \<open>V\<close>, and what they leave in the builder.\<close>

definition expr_uses :: "string set \<Rightarrow> expr_syn \<Rightarrow> (string \<times> span) list" where
  "expr_uses V e = filter (\<lambda>(x, sp). x \<notin> V) (idents e)"

definition report :: "(string \<times> span) list \<Rightarrow> builder \<Rightarrow> builder" where
  "report us b = (if us = [] then b
     else b\<lparr>custom_error_message := undefined_variable (builder_source b) (fst (last us)) (snd (last us))\<rparr>)"

definition resolve_in :: "builder \<Rightarrow> resolver" where
  "resolve_in b x = map_option fst (MakeRefNode x (0, 0, 0, 0) b)"

definition visible :: "builder \<Rightarrow> string set" where
  "visible b = {x. find_var x (contexts b) \<noteq> None}"

lemma report_Nil [simp]: "report [] b = b"
  by (simp add: report_def)

lemma report_report [simp]: "report vs (report us b) = report (us @ vs) b"
  by (simp add: report_def)

lemma report_fields [simp]:
  "statements (report us b) = statements b" "var2index (report us b) = var2index b"
  "block_stack (report us b) = block_stack b" "builder_mode (report us b) = builder_mode b"
  "builder_source (report us b) = builder_source b" "parser_error_message (report us b) = parser_error_message b"
  by (simp_all add: report_def)

lemma contexts_report [simp]: "contexts (report us b) = contexts b"
  by (simp add: contexts_def)

lemma visible_report [simp]: "visible (report us b) = visible b"
  by (simp add: visible_def)

lemma MakeRefNode_report: "resolve_in (report us b) = resolve_in b"
  by (rule ext) (simp add: resolve_in_def MakeRefNode_def split: option.splits prod.splits)

lemmas [simp] = MakeRefNode_report

lemma MakeRefNode_visible:
  "MakeRefNode x sp b = (case resolve_in b x of None \<Rightarrow> None
     | Some p \<Rightarrow> Some (p, report (if x \<in> visible b then [] else [(x, sp)]) b))"
  by (auto simp: MakeRefNode_def resolve_in_def visible_def report_def split: option.splits)

lemma run_actions_append:
  "run_actions (rs @ ts) b st = (case run_actions rs b st of
     Some (Reduced b1 st1) \<Rightarrow> run_actions ts b1 st1 | r \<Rightarrow> r)"
  by (induction rs arbitrary: b st) (auto split: option.splits action_result.splits)

lemma run_list_more:
  "literals_ok l vs = Some l1 \<Longrightarrow>
     run_actions (map RListMore vs @ rs) b (VList l # st) = run_actions rs b (VList l1 # st)"
  by (induction vs arbitrary: l) (auto split: option.splits)

lemma node_of_Nil [simp]: "node_of f [] = Some (f [])"
  by (simp add: node_of_def)

lemma node_of_Some [simp]: "node_of f (map Some ns) = Some (f ns)"
  by (simp add: node_of_def)

lemma expr_uses_simps [simp]:
  "expr_uses V (Literal v sp) = []" "expr_uses V (TrueLit sp) = []" "expr_uses V (FalseLit sp) = []"
  "expr_uses V (ListLit v vs sp) = []" "expr_uses V (Ident x sp) = (if x \<in> V then [] else [(x, sp)])"
  "expr_uses V (EntryArg sp) = []" "expr_uses V (ExecCtxArg sp) = []" "expr_uses V (OutputArg sp) = []"
  "expr_uses V (Prefix t e sp) = expr_uses V e" "expr_uses V (Infix t l r sp) = expr_uses V l @ expr_uses V r"
  "expr_uses V (InExpr l r sp) = expr_uses V l @ expr_uses V r"
  "expr_uses V (IfExpr e es sp) = expr_uses V e @ concat (map (expr_uses V) es)"
  "expr_uses V (SwitchExpr e es sp) = expr_uses V e @ concat (map (expr_uses V) es)"
  "expr_uses V (CallExpr f es sp) = concat (map (expr_uses V) es)"
  by (simp_all add: expr_uses_def [abs_def] filter_concat comp_def)

lemma run_expr_aux:
  "wf_expr e \<Longrightarrow> run_actions (expr_reductions e @ rs) b st =
     (case translate (builder_source b) (resolve_in b) e of None \<Rightarrow> None
      | Some p \<Rightarrow> run_actions rs (report (expr_uses (visible b) e) b) (VNode p # st))"
  "list_all wf_expr es \<Longrightarrow> run_actions (more_reductions es @ rs) b (VNodes ps # st) =
     (case translates (builder_source b) (resolve_in b) es of None \<Rightarrow> None
      | Some qs \<Rightarrow> run_actions rs (report (concat (map (expr_uses (visible b)) es)) b) (VNodes (ps @ qs) # st))"
proof (induction e and es arbitrary: rs b st and rs b st ps rule: expr_reductions_more_reductions.induct)
  case (4 v vs sp)
  then show ?case
    by (auto simp: run_list_more push_node_def)
qed (auto simp: name_action_def literal_action_def push_node_def MakeRefNode_visible
       split: option.splits)

lemmas run_expr = run_expr_aux(1)


section \<open>Pipelines\<close>

text \<open>The tree of an expression whose identifiers are all visible; \<open>ref x\<close> is put for \<open>x\<close>. In a
  pipeline an identifier stays a reference, so that the tree depends on the text only.\<close>

fun tree_of :: "string \<Rightarrow> (string \<Rightarrow> exec_node) \<Rightarrow> expr_syn \<Rightarrow> exec_node" where
  "tree_of src ref (Literal v sp) = SetLocation (span_location src sp) (ConstantValueNode new_info v)"
| "tree_of src ref (TrueLit sp) = SetLocation (span_location src sp) (ConstantValueNode new_info (CU8 1))"
| "tree_of src ref (FalseLit sp) = SetLocation (span_location src sp) (ConstantValueNode new_info (CU8 0))"
| "tree_of src ref (ListLit v vs sp) =
     SetLocation (span_location src sp) (ConstantListValueNode new_info (the (literals_ok (list_start v) vs)))"
| "tree_of src ref (Ident x sp) = SetLocation (span_location src sp) (ref x)"
| "tree_of src ref (EntryArg sp) = SetLocation (span_location src sp) (EntryArgumentNode new_info)"
| "tree_of src ref (ExecCtxArg sp) = SetLocation (span_location src sp) (ExecContextNode new_info)"
| "tree_of src ref (OutputArg sp) = SetLocation (span_location src sp) (OutputNode new_info)"
| "tree_of src ref (Prefix t e sp) =
     SetLocation (span_location src sp) (UnaryOPNode new_info (the (prefix_op t)) (tree_of src ref e))"
| "tree_of src ref (Infix t l r sp) =
     SetLocation (span_location src sp) (BinaryOPNode new_info (the (infix_op t)) (tree_of src ref l) (tree_of src ref r))"
| "tree_of src ref (InExpr l r sp) =
     SetLocation (span_location src sp) (FunctionNode new_info ''in'' [tree_of src ref l, tree_of src ref r])"
| "tree_of src ref (IfExpr e es sp) =
     SetLocation (span_location src sp) (IfNode new_info (tree_of src ref e # map (tree_of src ref) es))"
| "tree_of src ref (SwitchExpr e es sp) =
     SetLocation (span_location src sp) (SwitchNode new_info (tree_of src ref e # map (tree_of src ref) es))"
| "tree_of src ref (CallExpr f es sp) =
     SetLocation (span_location src sp) (FunctionNode new_info f (map (tree_of src ref) es))"

fun stmt_name :: "stmt_syn \<Rightarrow> string" where
  "stmt_name (AssignStmt x e) = x" | "stmt_name (LetStmt x e) = x" | "stmt_name _ = []"

fun stmt_const :: "stmt_syn \<Rightarrow> bool" where
  "stmt_const (LetStmt x e) = True" | "stmt_const _ = False"

definition stmt_info :: "stmt_syn \<Rightarrow> var_info" where
  "stmt_info s = \<lparr>name = stmt_name s, is_const = stmt_const s\<rparr>"

fun stmt_tree :: "string \<Rightarrow> stmt_syn \<Rightarrow> exec_node" and arm_trees :: "string \<Rightarrow> arm_syn \<Rightarrow> exec_node list" where
  "stmt_tree src (AssignStmt x e) = tree_of src (RefNode new_info) e"
| "stmt_tree src (LetStmt x e) = tree_of src (RefNode new_info) e"
| "stmt_tree src (ExprStmt e) = tree_of src (RefNode new_info) e"
| "stmt_tree src (WhenStmt e ss arms sp sp1) = SetLocation (span_location src sp) (IfBlockNode new_info
     (tree_of src (RefNode new_info) e # NoOPNode new_info (map (\<lambda>s. (stmt_info s, stmt_tree src s)) ss) False
        # concat (map (arm_trees src) arms)))"
| "arm_trees src (ElifArm e ss) =
     [tree_of src (RefNode new_info) e, NoOPNode new_info (map (\<lambda>s. (stmt_info s, stmt_tree src s)) ss) False]"
| "arm_trees src (ElseArm ss) = [NoOPNode new_info (map (\<lambda>s. (stmt_info s, stmt_tree src s)) ss) False]"

definition program_tree :: "string \<Rightarrow> stmt_syn list \<Rightarrow> exec_node" where
  "program_tree src ss = NoOPNode new_info (map (\<lambda>s. (stmt_info s, stmt_tree src s)) ss) False"

definition binds :: "stmt_syn \<Rightarrow> string set \<Rightarrow> string set" where
  "binds s V = (if stmt_name s = [] then V else insert (stmt_name s) V)"

text \<open>A name is visible after its statement, in the rest of its block and in the blocks nested there.\<close>

fun stmt_uses :: "string set \<Rightarrow> stmt_syn \<Rightarrow> (string \<times> span) list"
  and program_uses :: "string set \<Rightarrow> stmt_syn list \<Rightarrow> (string \<times> span) list"
  and arms_uses :: "string set \<Rightarrow> arm_syn list \<Rightarrow> (string \<times> span) list" where
  "stmt_uses V (AssignStmt x e) = expr_uses V e"
| "stmt_uses V (LetStmt x e) = expr_uses V e"
| "stmt_uses V (ExprStmt e) = expr_uses V e"
| "stmt_uses V (WhenStmt e ss arms sp sp1) = expr_uses V e @ program_uses V ss @ arms_uses V arms"
| "program_uses V [] = []"
| "program_uses V (s # ss) = stmt_uses V s @ program_uses (binds s V) ss"
| "arms_uses V [] = []"
| "arms_uses V (ElifArm e ss # arms) = expr_uses V e @ program_uses V ss @ arms_uses V arms"
| "arms_uses V (ElseArm ss # arms) = program_uses V ss @ arms_uses V arms"

definition ptr_if :: "bool \<Rightarrow> exec_node \<Rightarrow> node_ptr" where
  "ptr_if c n = (if c then Some n else None)"

lemma ptr_if_True [simp]: "ptr_if True n = Some n"
  by (simp add: ptr_if_def)

lemma ptr_if_False [simp]: "ptr_if False n = None"
  by (simp add: ptr_if_def)

definition ref_resolver :: "(string \<Rightarrow> exec_node) \<Rightarrow> string set \<Rightarrow> resolver" where
  "ref_resolver ref V x = Some (ptr_if (x \<in> V) (ref x))"

lemma resolve_in_pipeline: "builder_mode b = kPipeline \<Longrightarrow> resolve_in b = ref_resolver (RefNode new_info) (visible b)"
  by (rule ext) (auto simp: resolve_in_def MakeRefNode_def ref_resolver_def visible_def split: option.splits)

lemma WithLoc_ptr_if [simp]: "WithLoc src sp (ptr_if c n) = ptr_if c (SetLocation (span_location src sp) n)"
  by (simp add: WithLoc_def ptr_if_def)

lemma WithLoc_Some [simp]: "WithLoc src sp (Some n) = Some (SetLocation (span_location src sp) n)"
  by (simp add: WithLoc_def)

lemma node2_ptr_if [simp]: "node2 f (ptr_if c m) (ptr_if d n) = ptr_if (c \<and> d) (f m n)"
  by (simp add: node2_def ptr_if_def)

lemma map_ptr_if [simp]: "map_option f (ptr_if c n) = ptr_if c (f n)"
  by (simp add: ptr_if_def)

lemma those_ptr_if: "those (map (\<lambda>x. ptr_if (c x) (f x)) xs) = (if \<forall>x\<in>set xs. c x then Some (map f xs) else None)"
  by (induction xs) (auto simp: ptr_if_def)

lemma node_of_ptr_if [simp]:
  "node_of g (map (\<lambda>x. ptr_if (c x) (f x)) xs) = ptr_if (\<forall>x\<in>set xs. c x) (g (map f xs))"
  by (simp add: node_of_def those_ptr_if ptr_if_def [of "\<forall>x\<in>set xs. c x"])

lemma node_of_Cons_ptr_if [simp]:
  "node_of g (ptr_if d n # map (\<lambda>x. ptr_if (c x) (f x)) xs) = ptr_if (d \<and> (\<forall>x\<in>set xs. c x)) (g (n # map f xs))"
  by (cases d) (simp_all add: node_of_def those_ptr_if ptr_if_def [of "\<forall>x\<in>set xs. c x"])

lemma translate_refs_aux:
  "wf_expr e \<Longrightarrow> translate src (ref_resolver ref V) e = Some (ptr_if (expr_uses V e = []) (tree_of src ref e))"
  "list_all wf_expr es \<Longrightarrow> translates src (ref_resolver ref V) es =
     Some (map (\<lambda>e. ptr_if (expr_uses V e = []) (tree_of src ref e)) es)"
  by (induction e and es rule: expr_reductions_more_reductions.induct)
     (auto simp: ref_resolver_def in_node_def conj_ac)

lemmas translate_refs = translate_refs_aux(1)

text \<open>Only the visible identifiers of an expression matter.\<close>

lemma translate_cong_aux:
  "\<forall>p\<in>set (idents e). res (fst p) = res' (fst p) \<Longrightarrow> translate src res e = translate src res' e"
  "\<forall>e\<in>set es. \<forall>p\<in>set (idents e). res (fst p) = res' (fst p) \<Longrightarrow> translates src res es = translates src res' es"
  by (induction e and es rule: expr_reductions_more_reductions.induct) (auto simp: ball_Un cong: option.case_cong)

lemmas translate_cong = translate_cong_aux(1)

lemma fold_AddStatement:
  "\<exists>m. fold AddStatement vs b = b\<lparr>statements := statements b @ vs, var2index := m\<rparr>"
proof (induction vs arbitrary: b)
  case Nil
  have "b = b\<lparr>statements := statements b, var2index := var2index b\<rparr>" by simp
  then show ?case by (metis append_Nil2 fold_simps(1))
next
  case (Cons v vs)
  obtain m where m: "fold AddStatement vs (AddStatement v b) =
      (AddStatement v b)\<lparr>statements := statements (AddStatement v b) @ vs, var2index := m\<rparr>"
    using Cons by blast
  have "(AddStatement v b)\<lparr>statements := statements (AddStatement v b) @ vs, var2index := m\<rparr> =
      b\<lparr>statements := statements b @ v # vs, var2index := m\<rparr>"
    by (simp add: AddStatement_def Let_def)
  with m show ?case by (metis fold_simps(2))
qed

lemma fold_AddStatement_fields [simp]:
  "statements (fold AddStatement vs b) = statements b @ vs" "block_stack (fold AddStatement vs b) = block_stack b"
  "builder_mode (fold AddStatement vs b) = builder_mode b" "builder_source (fold AddStatement vs b) = builder_source b"
  "custom_error_message (fold AddStatement vs b) = custom_error_message b"
  using fold_AddStatement [of vs b] by auto

lemma AddStatement_report: "AddStatement s (report us b) = report us (AddStatement s b)"
  by (simp add: AddStatement_def report_def Let_def)

lemma fold_AddStatement_report: "fold AddStatement vs (report us b) = report us (fold AddStatement vs b)"
  by (induction vs arbitrary: b) (simp_all add: AddStatement_report)

lemma AddStatement_fields [simp]:
  "block_stack (AddStatement s b) = block_stack b" "builder_mode (AddStatement s b) = builder_mode b"
  "builder_source (AddStatement s b) = builder_source b" "statements (AddStatement s b) = statements b @ [s]"
  by (simp_all add: AddStatement_def Let_def)

lemma EnterBlock_fields [simp]:
  "block_stack (EnterBlock b) = (statements b, var2index b) # block_stack b"
  "builder_mode (EnterBlock b) = builder_mode b" "builder_source (EnterBlock b) = builder_source b"
  "statements (EnterBlock b) = []"
  by (simp_all add: EnterBlock_def)

lemma find_var_context: "find_var x ((ss, m) # cs) = None \<longleftrightarrow> map_of m x = None \<and> find_var x cs = None"
  by (auto split: option.splits)

lemma visible_AddStatement [simp]:
  "visible (AddStatement s b) = (if var_name s = [] then visible b else insert (var_name s) (visible b))"
  by (auto simp: visible_def contexts_def AddStatement_def Let_def find_var_context update_conv simp del: find_var.simps)

lemma visible_EnterBlock [simp]: "visible (EnterBlock b) = visible b"
  by (simp add: visible_def contexts_def EnterBlock_def)

definition stmt_value :: "string \<Rightarrow> string set \<Rightarrow> stmt_syn \<Rightarrow> statement" where
  "stmt_value src V s = \<lparr>var_name = stmt_name s, expression = ptr_if (stmt_uses V s = []) (stmt_tree src s),
     const_var = stmt_const s\<rparr>"

fun program_values :: "string \<Rightarrow> string set \<Rightarrow> stmt_syn list \<Rightarrow> statement list" where
  "program_values src V [] = []"
| "program_values src V (s # ss) = stmt_value src V s # program_values src (binds s V) ss"

fun arm_ptrs :: "string \<Rightarrow> string set \<Rightarrow> arm_syn \<Rightarrow> node_ptr list" where
  "arm_ptrs src V (ElifArm e ss) =
     [ptr_if (expr_uses V e = []) (tree_of src (RefNode new_info) e), ptr_if (program_uses V ss = []) (program_tree src ss)]"
| "arm_ptrs src V (ElseArm ss) = [ptr_if (program_uses V ss = []) (program_tree src ss)]"

lemma those_program_values:
  "those (map expression (program_values src V ss)) =
     (if program_uses V ss = [] then Some (map (stmt_tree src) ss) else None)"
  by (induction ss arbitrary: V) (auto simp: stmt_value_def ptr_if_def)

lemma infos_program_values:
  "map (\<lambda>s. \<lparr>name = var_name s, is_const = const_var s\<rparr>) (program_values src V ss) = map stmt_info ss"
  by (induction ss arbitrary: V) (simp_all add: stmt_value_def stmt_info_def)

lemma block_node_program_values:
  "block_node (program_values src V ss) = ptr_if (program_uses V ss = []) (program_tree src ss)"
  by (simp add: block_node_def those_program_values infos_program_values ptr_if_def program_tree_def zip_map_map
    zip_same_conv_map)

lemma LeaveBlock_program:
  "LeaveBlock (report us (fold AddStatement (program_values src V ss) (EnterBlock b))) =
     Some (ptr_if (program_uses V ss = []) (program_tree src ss), report us b)"
proof -
  obtain m where "fold AddStatement (program_values src V ss) (EnterBlock b) =
      (EnterBlock b)\<lparr>statements := statements (EnterBlock b) @ program_values src V ss, var2index := m\<rparr>"
    using fold_AddStatement by blast
  then show ?thesis
    by (simp add: LeaveBlock_def block_node_program_values report_def EnterBlock_def)
qed

lemma those_arm_ptrs:
  "those (concat (map (arm_ptrs src V) arms)) =
     (if arms_uses V arms = [] then Some (concat (map (arm_trees src) arms)) else None)"
proof (induction arms)
  case (Cons a arms)
  then show ?case by (cases a) (auto simp: ptr_if_def program_tree_def)
qed simp

lemma node_of_when:
  "node_of f (ptr_if c n # ptr_if d m # concat (map (arm_ptrs src V) arms)) =
     ptr_if (c \<and> d \<and> arms_uses V arms = []) (f (n # m # concat (map (arm_trees src) arms)))"
  by (auto simp: node_of_def those_arm_ptrs ptr_if_def)

lemma run_pipeline_aux:
  "wf_stmt s \<Longrightarrow> builder_mode b = kPipeline \<Longrightarrow> run_actions (stmt_reductions s @ rs) b st =
     run_actions rs (report (stmt_uses (visible b) s) b) (VStatement (stmt_value (builder_source b) (visible b) s) # st)"
  "list_all wf_stmt ss \<Longrightarrow> builder_mode b = kPipeline \<Longrightarrow> run_actions (program_reductions ss @ rs) b st =
     run_actions rs (report (program_uses (visible b) ss)
       (fold AddStatement (program_values (builder_source b) (visible b) ss) b)) st"
  "list_all wf_arm arms \<Longrightarrow> builder_mode b = kPipeline \<Longrightarrow> run_actions (arms_reductions arms @ rs) b (VNodes ps # st) =
     run_actions rs (report (arms_uses (visible b) arms) b)
       (VNodes (ps @ concat (map (arm_ptrs (builder_source b) (visible b)) arms)) # st)"
proof (induction s and ss and arms arbitrary: rs b st and rs b st and rs b st ps
    rule: stmt_reductions_program_reductions_arms_reductions.induct)
qed (auto simp: run_expr resolve_in_pipeline translate_refs stmt_value_def LeaveBlock_program leave_action_def
    AddStatement_report fold_AddStatement_report binds_def node_of_when push_node_def IsExpressionMode_def program_tree_def)

section \<open>Building a pipeline\<close>

definition accepts :: "parser \<Rightarrow> string \<Rightarrow> stmt_syn list \<Rightarrow> bool" where
  "accepts parse code ss \<longleftrightarrow> list_all wf_stmt ss \<and> ss \<noteq> [] \<and> parse (c_str code) = (program_reductions ss, None)"

lemma undefined_variable_nonempty [simp]: "undefined_variable src x sp \<noteq> []"
  by (simp add: undefined_variable_def Render_def MakeDiagnostic_def Let_def)

lemma custom_error_report:
  "custom_error_message (report us b) = (if us = [] then custom_error_message b
     else undefined_variable (builder_source b) (fst (last us)) (snd (last us)))"
  by (simp add: report_def)

lemma StartBuild_fields [simp]:
  "statements (StartBuild m code b) = []" "custom_error_message (StartBuild m code b) = []"
  "builder_source (StartBuild m code b) = code" "builder_mode (StartBuild m code b) = m"
  "block_stack (StartBuild m code b) = block_stack b" "parser_error_message (StartBuild m code b) = []"
  by (simp_all add: StartBuild_def)

lemma visible_StartBuild: "block_stack b = [] \<Longrightarrow> visible (StartBuild m code b) = {}"
  by (simp add: visible_def contexts_def StartBuild_def)

definition pipeline_outcome :: "string \<Rightarrow> stmt_syn list \<Rightarrow> status \<times> node_ptr" where
  "pipeline_outcome code ss = (case program_uses {} ss of
     [] \<Rightarrow> (OK, Some (program_tree code ss))
   | us \<Rightarrow> (ParseError (undefined_variable code (fst (last us)) (snd (last us))), None))"

lemma BuildPipeline_accepted:
  assumes "accepts parse code ss" "block_stack b = []"
  shows "\<exists>b1. block_stack b1 = [] \<and>
    BuildPipeline parse code b = Some (fst (pipeline_outcome code ss), snd (pipeline_outcome code ss), b1)"
  using assms run_pipeline_aux(2) [of ss "StartBuild kPipeline code b" "[]" "[]"]
  by (cases "program_uses {} ss")
     (auto simp: accepts_def BuildPipeline_def Scan_def visible_StartBuild custom_error_report
       pipeline_outcome_def block_node_program_values)

section \<open>Expressions\<close>

text \<open>In an expression an identifier becomes a clone of the tree it is defined by.\<close>

fun is_when :: "stmt_syn \<Rightarrow> bool" where
  "is_when (WhenStmt e ss arms sp sp1) = True" | "is_when _ = False"

fun stmt_expr :: "stmt_syn \<Rightarrow> expr_syn" where
  "stmt_expr (AssignStmt x e) = e" | "stmt_expr (LetStmt x e) = e" | "stmt_expr (ExprStmt e) = e"
| "stmt_expr (WhenStmt e ss arms sp sp1) = e"

definition bind_name :: "string \<Rightarrow> 'a \<Rightarrow> (string \<Rightarrow> 'a) \<Rightarrow> string \<Rightarrow> 'a" where
  "bind_name x v f = (if x = [] then f else f(x := v))"

definition clone_ptr :: "node_ptr \<Rightarrow> node_ptr option" where
  "clone_ptr p = map_option (\<lambda>n. Some (Clone n)) p"

fun expression_values :: "string \<Rightarrow> resolver \<Rightarrow> stmt_syn list \<Rightarrow> statement list option" where
  "expression_values src res [] = Some []"
| "expression_values src res (s # ss) =
     (case translate src res (stmt_expr s) of None \<Rightarrow> None
      | Some p \<Rightarrow> map_option (\<lambda>vs. \<lparr>var_name = stmt_name s, expression = p, const_var = stmt_const s\<rparr> # vs)
           (expression_values src (bind_name (stmt_name s) (clone_ptr p) res) ss))"

text \<open>The tree of a program whose names are defined by \<open>def\<close>: that of its last statement.\<close>

fun inline_program :: "string \<Rightarrow> (string \<Rightarrow> exec_node) \<Rightarrow> stmt_syn list \<Rightarrow> exec_node" where
  "inline_program src ref [] = ref []"
| "inline_program src ref [s] = tree_of src ref (stmt_expr s)"
| "inline_program src ref (s # ss) =
     inline_program src (bind_name (stmt_name s) (Clone (tree_of src ref (stmt_expr s))) ref) ss"

definition indices_ok :: "builder \<Rightarrow> bool" where
  "indices_ok b \<longleftrightarrow> (\<forall>x i. map_of (var2index b) x = Some i \<longrightarrow> unat i < length (statements b))"

lemma indices_ok_report [simp]: "indices_ok (report us b) = indices_ok b"
  by (simp add: indices_ok_def)

lemma run_stmt_flat:
  assumes "\<not> is_when s" "wf_stmt s"
  shows "run_actions (stmt_reductions s @ rs) b st =
    (case translate (builder_source b) (resolve_in b) (stmt_expr s) of None \<Rightarrow> None
     | Some p \<Rightarrow> run_actions rs (report (stmt_uses (visible b) s) b)
         (VStatement \<lparr>var_name = stmt_name s, expression = p, const_var = stmt_const s\<rparr> # st))"
  using assms by (cases s) (auto simp: run_expr split: option.splits)

lemma resolve_in_flat:
  "block_stack b = [] \<Longrightarrow> builder_mode b = kExpression \<Longrightarrow> indices_ok b \<Longrightarrow>
     resolve_in b x = (case map_of (var2index b) x of None \<Rightarrow> Some None
       | Some i \<Rightarrow> clone_ptr (expression (statements b ! unat i)))"
  by (auto simp: resolve_in_def MakeRefNode_def contexts_def clone_ptr_def indices_ok_def split: option.splits)

lemma index_fits: "n < 2 ^ 32 \<Longrightarrow> unat (of_nat n :: u32) = n"
  by (simp add: unat_of_nat take_bit_eq_mod)

lemma AddStatement_flat:
  assumes b: "block_stack b = []" "builder_mode b = kExpression" "indices_ok b" "length (statements b) < 2 ^ 32"
  shows "indices_ok (AddStatement s b)"
    and "resolve_in (AddStatement s b) = bind_name (var_name s) (clone_ptr (expression s)) (resolve_in b)"
proof -
  show ok: "indices_ok (AddStatement s b)"
    using b(3) by (auto simp: indices_ok_def AddStatement_def Let_def update_conv index_fits [OF b(4)] less_SucI
      split: if_splits)
  have lt: "map_of (var2index b) y = Some i \<Longrightarrow> unat i < length (statements b)" for y i
    using b(3) by (simp add: indices_ok_def)
  show "resolve_in (AddStatement s b) = bind_name (var_name s) (clone_ptr (expression s)) (resolve_in b)"
  proof
    fix x
    show "resolve_in (AddStatement s b) x = bind_name (var_name s) (clone_ptr (expression s)) (resolve_in b) x"
      using ok b(1,2)
      by (auto simp: resolve_in_flat b bind_name_def AddStatement_def Let_def update_conv index_fits [OF b(4)]
        nth_append split: option.splits dest: lt)
  qed
qed

lemma run_expression:
  "list_all wf_stmt ss \<Longrightarrow> \<not> list_ex is_when ss \<Longrightarrow> builder_mode b = kExpression \<Longrightarrow> block_stack b = [] \<Longrightarrow>
     indices_ok b \<Longrightarrow> length (statements b) + length ss \<le> 2 ^ 32 \<Longrightarrow>
   run_actions (program_reductions ss @ rs) b st =
     (case expression_values (builder_source b) (resolve_in b) ss of None \<Rightarrow> None
      | Some vs \<Rightarrow> run_actions rs (report (program_uses (visible b) ss) (fold AddStatement vs b)) st)"
proof (induction ss arbitrary: b)
  case (Cons s ss)
  show ?case
  proof (cases "translate (builder_source b) (resolve_in b) (stmt_expr s)")
    case None
    with Cons.prems show ?thesis by (simp add: run_stmt_flat)
  next
    case (Some p)
    let ?v = "\<lparr>var_name = stmt_name s, expression = p, const_var = stmt_const s\<rparr>"
    have add: "indices_ok (AddStatement ?v b)"
      "resolve_in (AddStatement ?v b) = bind_name (stmt_name s) (clone_ptr p) (resolve_in b)"
      using AddStatement_flat [of b ?v] Cons.prems by simp_all
    have "run_actions (program_reductions (s # ss) @ rs) b st =
        run_actions (program_reductions ss @ rs) (report (stmt_uses (visible b) s) (AddStatement ?v b)) st"
      using Cons.prems Some by (simp add: run_stmt_flat AddStatement_report)
    also have "\<dots> = (case expression_values (builder_source b) (bind_name (stmt_name s) (clone_ptr p) (resolve_in b)) ss of
        None \<Rightarrow> None
      | Some vs \<Rightarrow> run_actions rs (report (program_uses (visible b) (s # ss)) (fold AddStatement (?v # vs) b)) st)"
      using Cons.prems add
      by (subst Cons.IH) (auto simp: fold_AddStatement_report binds_def split: option.splits)
    finally show ?thesis using Some by (simp split: option.splits)
  qed
qed simp

lemma expression_values_refs:
  "list_all wf_stmt ss \<Longrightarrow> program_uses V ss = [] \<Longrightarrow> (\<And>x. x \<in> V \<Longrightarrow> res x = Some (Some (ref x))) \<Longrightarrow>
     \<not> list_ex is_when ss \<Longrightarrow> ss \<noteq> [] \<Longrightarrow>
   \<exists>vs. expression_values src res ss = Some vs \<and> vs \<noteq> [] \<and> expression (last vs) = Some (inline_program src ref ss)"
proof (induction ss arbitrary: V res ref)
  case (Cons s ss)
  have e: "wf_expr (stmt_expr s)" "expr_uses V (stmt_expr s) = []" "program_uses (binds s V) ss = []"
    using Cons.prems(1,2,4) by (cases s; auto)+
  have "translate src res (stmt_expr s) = translate src (ref_resolver ref V) (stmt_expr s)"
    using e(2) Cons.prems(3) by (intro translate_cong) (auto simp: expr_uses_def ref_resolver_def filter_empty_conv)
  then have t: "translate src res (stmt_expr s) = Some (Some (tree_of src ref (stmt_expr s)))"
    using e(1,2) by (simp add: translate_refs)
  let ?n = "tree_of src ref (stmt_expr s)"
  show ?case
  proof (cases ss)
    case Nil
    with t show ?thesis by simp
  next
    case (Cons s2 ss2)
    have "\<exists>vs. expression_values src (bind_name (stmt_name s) (clone_ptr (Some ?n)) res) ss = Some vs \<and> vs \<noteq> [] \<and>
        expression (last vs) = Some (inline_program src (bind_name (stmt_name s) (Clone ?n) ref) ss)"
      using Cons.prems e(3) Cons
      by (intro Cons.IH [of "binds s V"]) (auto simp: binds_def bind_name_def clone_ptr_def split: if_splits)
    with t Cons show ?thesis by auto
  qed
qed simp

text \<open>The action of a when block ends the parse of an expression.\<close>

definition is_when_reduction :: "reduction \<Rightarrow> bool" where
  "is_when_reduction r = (case r of RWhen sp sp1 \<Rightarrow> True | _ \<Rightarrow> False)"

lemma MakeRefNode_mode: "MakeRefNode x sp b = Some (p, b1) \<Longrightarrow> builder_mode b1 = builder_mode b"
  by (auto simp: MakeRefNode_def split: option.splits if_splits)

lemma LeaveBlock_mode: "LeaveBlock b = Some (p, b1) \<Longrightarrow> builder_mode b1 = builder_mode b"
  by (auto simp: LeaveBlock_def split: list.splits)

lemma semantic_action_mode:
  assumes "semantic_action r b st = Some (Reduced b1 st1)"
  shows "builder_mode b1 = builder_mode b \<and> (is_when_reduction r \<longrightarrow> builder_mode b = kPipeline)"
proof -
  note defs = is_when_reduction_def push_node_def name_action_def literal_action_def leave_action_def
  show ?thesis
  proof (cases r)
    case RProgram
    with assms show ?thesis by (auto simp: defs elim!: program_action.elims)
  next
    case (RName x sp)
    with assms show ?thesis by (auto simp: defs dest: MakeRefNode_mode split: option.splits)
  next
    case (RListMore v)
    with assms show ?thesis by (auto simp: defs map_option_case elim!: list_more_action.elims split: option.splits)
  next
    case (RWhen sp sp1)
    with assms show ?thesis
      by (cases "builder_mode b") (auto simp: defs IsExpressionMode_def elim!: when_action.elims split: if_splits)
  next
    case RLeaveBlock
    with assms show ?thesis by (auto simp: defs dest: LeaveBlock_mode split: option.splits)
  qed (use assms in \<open>auto simp: defs split: option.splits elim!: statement_action.elims list_action.elims
    prefix_action.elims infix_action.elims call_action.elims in_action.elims elif_action.elims else_action.elims
    arg_action.elims more_arg_action.elims\<close>)
qed

lemma run_actions_when:
  "run_actions rs b st = Some (Reduced b1 st1) \<Longrightarrow> builder_mode b = kExpression \<Longrightarrow> \<not> list_ex is_when_reduction rs"
proof (induction rs arbitrary: b st)
  case (Cons r rs)
  then obtain b2 st2 where r: "semantic_action r b st = Some (Reduced b2 st2)" "run_actions rs b2 st2 = Some (Reduced b1 st1)"
    by (auto split: option.splits action_result.splits)
  then have "builder_mode b2 = kExpression" "\<not> is_when_reduction r"
    using Cons.prems(2) semantic_action_mode [OF r(1)] by auto
  then show ?case using Cons.IH r(2) by auto
qed simp

lemma program_reductions_when: "list_ex is_when ss \<Longrightarrow> list_ex is_when_reduction (program_reductions ss)"
proof (induction ss)
  case (Cons s ss)
  then show ?case by (cases s) (auto simp: is_when_reduction_def)
qed simp

lemma resolve_in_StartBuild: "block_stack b = [] \<Longrightarrow> resolve_in (StartBuild m code b) = (\<lambda>x. Some None)"
  by (rule ext) (simp add: resolve_in_def MakeRefNode_def contexts_def StartBuild_def)

definition inlines :: "stmt_syn list \<Rightarrow> bool" where
  "inlines ss \<longleftrightarrow> \<not> list_ex is_when ss \<and> program_uses {} ss = []"

lemma BuildExpression_inlines:
  assumes "accepts parse code ss" "block_stack b = []" "length ss \<le> 2 ^ 32" "inlines ss"
  shows "\<exists>b1. block_stack b1 = [] \<and>
    BuildExpression parse code b = Some (OK, Some (inline_program code (RefNode new_info) ss), b1)"
proof -
  let ?b = "StartBuild kExpression code b"
  have "indices_ok ?b" by (simp add: indices_ok_def StartBuild_def)
  moreover obtain vs where vs: "expression_values code (\<lambda>x. Some None) ss = Some vs" "vs \<noteq> []"
      "expression (last vs) = Some (inline_program code (RefNode new_info) ss)"
    using expression_values_refs [of ss "{}" "\<lambda>x. Some None" "RefNode new_info" code] assms
    by (auto simp: accepts_def inlines_def)
  ultimately have "run_actions (program_reductions ss @ []) ?b [] = Some (Reduced (fold AddStatement vs ?b) [])"
    using assms by (subst run_expression)
      (auto simp: accepts_def inlines_def resolve_in_StartBuild visible_StartBuild)
  with vs assms show ?thesis by (auto simp: BuildExpression_def Scan_def accepts_def)
qed

lemma BuildExpression_refuses:
  assumes "accepts parse code ss" "block_stack b = []" "length ss \<le> 2 ^ 32" "\<not> inlines ss"
    "BuildExpression parse code b = Some (st, r, b1)"
  shows "\<not> ok st \<and> r = None"
proof -
  let ?b = "StartBuild kExpression code b"
  have Scan: "parse (c_str code) = (program_reductions ss, None)" "list_all wf_stmt ss"
    using assms(1) by (simp_all add: accepts_def)
  show ?thesis
  proof (cases "list_ex is_when ss")
    case True
    then have "list_ex is_when_reduction (program_reductions ss)" by (rule program_reductions_when)
    then have "run_actions (program_reductions ss) ?b [] \<noteq> Some (Reduced b2 st2)" for b2 st2
      using run_actions_when [of "program_reductions ss" ?b "[]"] by auto
    then show ?thesis using assms(5) Scan
      by (auto simp: BuildExpression_def Scan_def split: option.splits action_result.splits if_splits)
  next
    case False
    have "indices_ok ?b" by (simp add: indices_ok_def StartBuild_def)
    then have run: "run_actions (program_reductions ss @ []) ?b [] =
        (case expression_values code (\<lambda>x. Some None) ss of None \<Rightarrow> None
         | Some vs \<Rightarrow> Some (Reduced (report (program_uses {} ss) (fold AddStatement vs ?b)) []))"
      using assms Scan False by (subst run_expression) (auto simp: resolve_in_StartBuild visible_StartBuild split: option.splits)
    moreover have "program_uses {} ss \<noteq> []" using assms(4) False by (simp add: inlines_def)
    ultimately show ?thesis using assms(5) Scan
      by (auto simp: BuildExpression_def Scan_def custom_error_report split: option.splits)
  qed
qed

end
