(* ===== verification/Athena.thy ===== *)
theory Athena
  imports AstCorrect Execution Grouper
begin

text \<open>
  Model of athena/athena.h and athena/athena.cc: the two front ends build trees from text and hand
  them to an engine, a pipeline after grouping. Their Execute overloads are those of the engine.
\<close>

definition AthenaExpressionCompile :: "parser \<Rightarrow> llvm \<Rightarrow> cg_env \<Rightarrow> string \<Rightarrow> exec_engine
     \<Rightarrow> (cg_error option \<times> exec_engine) option" where
  "AthenaExpressionCompile parse ll env code eng =
     (case BuildExpression parse code NewBuilder of
        None \<Rightarrow> None
      | Some (st, r, b) \<Rightarrow>
          if \<not> ok st then Some (Some (CgStatus st), eng)
          else (case r of None \<Rightarrow> None | Some n \<Rightarrow> Some (Compile ll env n eng)))"

text \<open>The loop over the texts, with one builder for all of them.\<close>

fun build_pipelines :: "parser \<Rightarrow> string list \<Rightarrow> builder \<Rightarrow> (status + node_ptr list) option" where
  "build_pipelines parse [] b = Some (Inr [])"
| "build_pipelines parse (code # codes) b =
     (case BuildPipeline parse code b of
        None \<Rightarrow> None
      | Some (st, r, b1) \<Rightarrow>
          if \<not> ok st then Some (Inl st)
          else map_option (\<lambda>x. bind_result x (\<lambda>rs. Inr (r # rs))) (build_pipelines parse codes b1))"

text \<open>A null pointer among the trees is dereferenced by the grouper, which is a new one in every call.\<close>

definition AthenaPipelineCompile :: "parser \<Rightarrow> ((64 word \<times> exec_node list) list \<Rightarrow> (64 word \<times> exec_node list) list)
     \<Rightarrow> llvm \<Rightarrow> cg_env \<Rightarrow> string list \<Rightarrow> batch_engine \<Rightarrow> (cg_error option \<times> batch_engine) option" where
  "AthenaPipelineCompile parse map_order ll env codes eng =
     (case build_pipelines parse codes NewBuilder of
        None \<Rightarrow> None
      | Some (Inl st) \<Rightarrow> Some (Some (CgStatus st), eng)
      | Some (Inr rs) \<Rightarrow>
          (case those rs of None \<Rightarrow> None
           | Some ns \<Rightarrow> map_option (\<lambda>(gs, _). BatchCompile ll env gs eng) (Group map_order ns DsuInit)))"

lemma NewBuilder_blocks [simp]: "block_stack NewBuilder = []"
  by (simp add: NewBuilder_def)

section \<open>Pipelines\<close>

lemma pipeline_outcome_undefined:
  "program_uses {} ss = us @ [(x, sp)] \<Longrightarrow> pipeline_outcome code ss = (ParseError (undefined_variable code x sp), None)"
  by (cases us) (auto simp: pipeline_outcome_def)

lemma build_pipelines_ok:
  "list_all2 (accepts parse) codes progs \<Longrightarrow> block_stack b = [] \<Longrightarrow> list_all (\<lambda>ss. program_uses {} ss = []) progs \<Longrightarrow>
     build_pipelines parse codes b = Some (Inr (map Some (map2 program_tree codes progs)))"
proof (induction codes arbitrary: progs b)
  case (Cons code codes)
  then obtain ss rest where p: "progs = ss # rest" "accepts parse code ss" "list_all2 (accepts parse) codes rest"
    by (auto simp: list_all2_Cons1)
  obtain b1 where b1: "block_stack b1 = []"
      "BuildPipeline parse code b = Some (fst (pipeline_outcome code ss), snd (pipeline_outcome code ss), b1)"
    using BuildPipeline_accepted [OF p(2) Cons.prems(2)] by blast
  with Cons.prems(3) p Cons.IH [OF p(3) b1(1)] show ?case by (simp add: pipeline_outcome_def)
qed simp

lemma build_pipelines_bad:
  "list_all2 (accepts parse) codes progs \<Longrightarrow> block_stack b = [] \<Longrightarrow> k < length codes \<Longrightarrow>
     (\<And>j. j < k \<Longrightarrow> program_uses {} (progs ! j) = []) \<Longrightarrow> program_uses {} (progs ! k) \<noteq> [] \<Longrightarrow>
     build_pipelines parse codes b = Some (Inl (fst (pipeline_outcome (codes ! k) (progs ! k))))"
proof (induction codes arbitrary: progs b k)
  case (Cons code codes)
  then obtain ss rest where p: "progs = ss # rest" "accepts parse code ss" "list_all2 (accepts parse) codes rest"
    by (auto simp: list_all2_Cons1)
  obtain b1 where b1: "block_stack b1 = []"
      "BuildPipeline parse code b = Some (fst (pipeline_outcome code ss), snd (pipeline_outcome code ss), b1)"
    using BuildPipeline_accepted [OF p(2) Cons.prems(2)] by blast
  show ?case
  proof (cases k)
    case 0
    with Cons.prems(5) b1(2) p(1) show ?thesis by (simp add: pipeline_outcome_def split: list.splits)
  next
    case (Suc k1)
    have "program_uses {} ss = []" using Cons.prems(4) [of 0] Suc p(1) by simp
    moreover have "build_pipelines parse codes b1 = Some (Inl (fst (pipeline_outcome (codes ! k1) (rest ! k1))))"
      using Cons.prems(3-5) Suc p(1) by (intro Cons.IH [OF p(3) b1(1)]) fastforce+
    ultimately show ?thesis using b1(2) Suc p(1) by (simp add: pipeline_outcome_def)
  qed
qed simp

text \<open>Splitting a list by the value of a function keeps its elements.\<close>

lemma mset_filter_classes:
  "distinct us \<Longrightarrow> (\<And>x. x \<in> set xs \<Longrightarrow> f x \<in> set us) \<Longrightarrow>
     mset (concat (map (\<lambda>u. filter (\<lambda>x. f x = u) xs) us)) = mset xs"
proof (induction xs)
  case (Cons x xs)
  have split: "mset (concat (map (\<lambda>u. filter (\<lambda>y. f y = u) (x # xs)) vs)) =
      mset (concat (map (\<lambda>u. filter (\<lambda>y. f y = u) xs) vs)) + (if f x \<in> set vs then {#x#} else {#})"
    if "distinct vs" for vs
    using that by (induction vs) auto
  show ?case using Cons split [OF Cons.prems(1)] by simp
qed (induction us, auto)

lemma Group_keeps_trees:
  assumes "\<And>g. mset (map_order g) = mset g" "ns \<noteq> []"
  shows "\<exists>groups d. Group map_order ns DsuInit = Some (map (\<lambda>g. NoOPOfNodes g True) groups, d)
    \<and> mset (concat groups) = mset ns \<and> groups \<noteq> []"
proof -
  obtain rep :: "64 word \<Rightarrow> 64 word" and us d where u: "distinct us" "set us = (\<lambda>i. rep (root_id i)) ` {..<length ns}"
    "Group map_order ns DsuInit = Some (map (\<lambda>u. NoOPOfNodes
       (map (\<lambda>i. ns ! i) (filter (\<lambda>i. rep (root_id i) = u) [0..<length ns])) True) us, d)"
    using Group_ok [OF assms] by blast
  let ?is = "map (\<lambda>u. filter (\<lambda>i. rep (root_id i) = u) [0..<length ns]) us"
  let ?groups = "map (map (\<lambda>i. ns ! i)) ?is"
  have "mset (concat ?is) = mset [0..<length ns]"
    by (rule mset_filter_classes [OF u(1)]) (simp add: u(2))
  then have "mset (map ((!) ns) (concat ?is)) = mset ns"
    by (metis map_nth mset_map)
  moreover have "map ((!) ns) (concat ?is) = concat ?groups" by (simp add: map_concat)
  ultimately have "mset (concat ?groups) = mset ns" by metis
  moreover from this assms(2) have "?groups \<noteq> []" by (metis concat.simps(1) mset_zero_iff mset.simps(1))
  moreover have "Group map_order ns DsuInit = Some (map (\<lambda>g. NoOPOfNodes g True) ?groups, d)" using u(3) by (simp add: comp_def)
  ultimately show ?thesis by blast
qed

lemma PipelineCompile_ok:
  assumes "list_all2 (accepts parse) codes progs" "codes \<noteq> []" "\<And>g. mset (map_order g) = mset g"
    "list_all (\<lambda>ss. program_uses {} ss = []) progs"
  shows "\<exists>groups. mset (concat groups) = mset (map2 program_tree codes progs) \<and> groups \<noteq> []
    \<and> AthenaPipelineCompile parse map_order ll env codes eng =
        Some (BatchCompile ll env (map (\<lambda>g. NoOPOfNodes g True) groups) eng)"
proof -
  have "map2 program_tree codes progs \<noteq> []"
    using assms(1,2) by (cases codes; cases progs) auto
  then obtain groups d where g: "Group map_order (map2 program_tree codes progs) DsuInit = Some (map (\<lambda>g. NoOPOfNodes g True) groups, d)"
      "mset (concat groups) = mset (map2 program_tree codes progs)" "groups \<noteq> []"
    using Group_keeps_trees [of map_order, OF assms(3)] by blast
  have "AthenaPipelineCompile parse map_order ll env codes eng =
      Some (BatchCompile ll env (map (\<lambda>g. NoOPOfNodes g True) groups) eng)"
    using build_pipelines_ok [OF assms(1) NewBuilder_blocks assms(4)] g(1)
    by (simp add: AthenaPipelineCompile_def del: map_map)
  with g show ?thesis by blast
qed

lemma PipelineCompile_bad:
  assumes "list_all2 (accepts parse) codes progs" "k < length codes"
    "\<And>j. j < k \<Longrightarrow> program_uses {} (progs ! j) = []" "program_uses {} (progs ! k) = us @ [(x, sp)]"
  shows "AthenaPipelineCompile parse map_order ll env codes eng =
    Some (Some (CgStatus (ParseError (undefined_variable (codes ! k) x sp))), eng)"
  using build_pipelines_bad [OF assms(1) NewBuilder_blocks assms(2,3)] assms(4)
  by (simp add: AthenaPipelineCompile_def pipeline_outcome_undefined)

lemma first_undefined:
  assumes "\<not> list_all (\<lambda>ss. program_uses {} ss = []) progs"
  shows "\<exists>k us x sp. k < length progs \<and> (\<forall>j<k. program_uses {} (progs ! j) = [])
    \<and> program_uses {} (progs ! k) = us @ [(x, sp)]"
  using assms
proof (induction progs)
  case (Cons ss progs)
  show ?case
  proof (cases "program_uses {} ss" rule: rev_cases)
    case Nil
    with Cons obtain k us x sp where "k < length progs" "\<forall>j<k. program_uses {} (progs ! j) = []"
        "program_uses {} (progs ! k) = us @ [(x, sp)]" by auto
    with Nil show ?thesis
      by (intro exI [of _ "Suc k"] exI [of _ us] exI [of _ x] exI [of _ sp]) (auto simp: nth_Cons split: nat.splits)
  next
    case (snoc us u)
    then show ?thesis by (cases u) force
  qed
qed simp

section \<open>Expressions\<close>

lemma ExpressionCompile_ok:
  assumes "accepts parse code ss" "length ss \<le> 2 ^ 32" "inlines ss"
  shows "AthenaExpressionCompile parse ll env code eng =
    Some (Compile ll env (inline_program code (RefNode new_info) ss) eng)"
  using BuildExpression_inlines [OF assms(1) NewBuilder_blocks assms(2,3)] by (auto simp: AthenaExpressionCompile_def)

lemma ExpressionCompile_bad:
  assumes "accepts parse code ss" "length ss \<le> 2 ^ 32" "\<not> inlines ss"
    "AthenaExpressionCompile parse ll env code eng = Some (err, eng1)"
  shows "\<exists>st. err = Some (CgStatus st) \<and> \<not> ok st \<and> eng1 = eng"
  using BuildExpression_refuses [OF assms(1) NewBuilder_blocks assms(2,3)] assms(4)
  by (auto simp: AthenaExpressionCompile_def split: option.splits if_splits)

end
