(* ===== verification/AthenaProperties.thy ===== *)
theory AthenaProperties
  imports Athena
begin

text \<open>
  The properties of the athena front end, from program text to engine, and two behaviours of the
  builder at its limits: a null tree that is cloned, and blocks that a syntax error leaves open.
\<close>

section \<open>Samples\<close>

definition sum_text :: string where
  "sum_text = ''x = 2; y = x + x; y;''"

definition sum_program :: "stmt_syn list" where
  "sum_program = [AssignStmt ''x'' (Literal (CI32 2) (1, 5, 1, 6)),
     AssignStmt ''y'' (Infix TPlus (Ident ''x'' (1, 12, 1, 13)) (Ident ''x'' (1, 16, 1, 17)) (1, 12, 1, 17)),
     ExprStmt (Ident ''y'' (1, 19, 1, 20))]"

definition when_text :: string where
  "when_text = ''a = 1; when a { b = a; } else { f(b); }''"

definition when_program :: "stmt_syn list" where
  "when_program = [AssignStmt ''a'' (Literal (CI32 1) (1, 5, 1, 6)),
     WhenStmt (Ident ''a'' (1, 13, 1, 14)) [AssignStmt ''b'' (Ident ''a'' (1, 21, 1, 22))]
       [ElseArm [ExprStmt (CallExpr ''f'' [Ident ''b'' (1, 34, 1, 35)] (1, 32, 1, 36))]] (1, 8, 1, 39) (1, 8, 1, 12)]"

definition null_text :: string where
  "null_text = ''x = y; x;''"

definition null_program :: "stmt_syn list" where
  "null_program = [AssignStmt ''x'' (Ident ''y'' (1, 5, 1, 6)), ExprStmt (Ident ''x'' (1, 8, 1, 9))]"

text \<open>A text that breaks off in a block, and one that only uses the name defined there.\<close>

definition open_text :: string where
  "open_text = ''when 1 { z = 1; when 1 { )''"

definition open_reductions :: "reduction list" where
  "open_reductions = [RLiteral (CI32 1) (1, 6, 1, 7), REnterBlock, RLiteral (CI32 1) (1, 14, 1, 15), RAssign ''z'',
     RProgram, RLiteral (CI32 1) (1, 22, 1, 23), REnterBlock]"

definition sample_parser :: parser where
  "sample_parser code =
     (if code = sum_text then (program_reductions sum_program, None)
      else if code = when_text then (program_reductions when_program, None)
      else if code = null_text then (program_reductions null_program, None)
      else if code = ''z;'' then (program_reductions [ExprStmt (Ident ''z'' (1, 1, 1, 2))], None)
      else if code = open_text then (open_reductions, Some ((1, 26, 1, 27), ''syntax error''))
      else ([], Some ((1, 1, 1, 2), ''syntax error'')))"

lemma sum_accepted: "accepts sample_parser sum_text sum_program"
  by (simp add: accepts_def sample_parser_def c_str_def sum_text_def sum_program_def)

lemma when_accepted: "accepts sample_parser when_text when_program"
  by (simp add: accepts_def sample_parser_def c_str_def sum_text_def when_text_def when_program_def)

lemma null_accepted: "accepts sample_parser null_text null_program"
  by (simp add: accepts_def sample_parser_def c_str_def sum_text_def when_text_def null_text_def null_program_def)

lemma sum_uses: "program_uses {} sum_program = []"
  by (simp add: sum_program_def binds_def)

lemma when_uses: "program_uses {} when_program = [] @ [(''b'', (1, 34, 1, 35))]"
  by (simp add: when_program_def binds_def)

section \<open>Pipelines\<close>

text \<open>C38: AthenaPipeline::Compile compiles, in some grouping, exactly the trees of its texts, in which
  every identifier is a reference, if each identifier of each text is used after its definition in
  the same or an enclosing block. Otherwise it reports, for the first text where this fails, the
  last use that is not defined, and leaves the engine alone.\<close>

theorem pipeline_texts_compile:
  assumes "list_all2 (accepts parse) codes progs" "codes \<noteq> []" "\<And>g. mset (map_order g) = mset g"
  shows "if list_all (\<lambda>ss. program_uses {} ss = []) progs
    then \<exists>groups. mset (concat groups) = mset (map2 program_tree codes progs) \<and> groups \<noteq> []
      \<and> AthenaPipelineCompile parse map_order ll env codes eng =
          Some (BatchCompile ll env (map (\<lambda>g. NoOPOfNodes g True) groups) eng)
    else \<exists>k us x sp. k < length codes \<and> (\<forall>j<k. program_uses {} (progs ! j) = [])
      \<and> program_uses {} (progs ! k) = us @ [(x, sp)]
      \<and> AthenaPipelineCompile parse map_order ll env codes eng =
          Some (Some (CgStatus (ParseError (undefined_variable (codes ! k) x sp))), eng)"
proof (cases "list_all (\<lambda>ss. program_uses {} ss = []) progs")
  case True
  with PipelineCompile_ok [OF assms True, of ll env eng] show ?thesis by simp
next
  case False
  obtain k us x sp where k: "k < length progs" "\<forall>j<k. program_uses {} (progs ! j) = []"
      "program_uses {} (progs ! k) = us @ [(x, sp)]"
    using first_undefined [OF False] by blast
  have len: "k < length codes" using k(1) list_all2_lengthD [OF assms(1)] by simp
  have "AthenaPipelineCompile parse map_order ll env codes eng =
      Some (Some (CgStatus (ParseError (undefined_variable (codes ! k) x sp))), eng)"
    using k(2,3) by (intro PipelineCompile_bad [OF assms(1) len]) simp_all
  with len k(2,3) show ?thesis unfolding if_not_P [OF False] by (intro exI conjI)
qed

definition athena_llvm :: llvm where
  "athena_llvm = \<lparr>create_jit = Some ''no target'', verify_module = (\<lambda>m. None), add_image = (\<lambda>i. None),
     define_symbols = (\<lambda>s. None), lookup_symbol = (\<lambda>i s nm. Inr 4096), object_code = (\<lambda>m. []),
     ir_text = (\<lambda>m. []), host_llvm_version = [], host_triple = [], host_cpu = []\<rparr>"

definition athena_env :: cg_env where
  "athena_env = \<lparr>function_registry = [], codegen_callback = (\<lambda>h sg ops s. (None, s)), set_order = (\<lambda>ns. ns)\<rparr>"

definition athena_batch :: batch_engine where
  "athena_batch = NewBatch \<lparr>arena_min_chunk = 4096, dump_ir = False, opt_fp_math_mode = kStrict, enable_save_compiled = False\<rparr>"

lemma pipeline_texts_compile_witness:
  "(\<exists>groups. mset (concat groups) = {#program_tree sum_text sum_program#} \<and> groups \<noteq> []
      \<and> AthenaPipelineCompile sample_parser rev athena_llvm athena_env [sum_text] athena_batch =
          Some (BatchCompile athena_llvm athena_env (map (\<lambda>g. NoOPOfNodes g True) groups) athena_batch))
   \<and> AthenaPipelineCompile sample_parser rev athena_llvm athena_env [sum_text, when_text] athena_batch =
       Some (Some (CgStatus (ParseError (undefined_variable when_text ''b'' (1, 34, 1, 35)))), athena_batch)"
proof
  show "\<exists>groups. mset (concat groups) = {#program_tree sum_text sum_program#} \<and> groups \<noteq> []
      \<and> AthenaPipelineCompile sample_parser rev athena_llvm athena_env [sum_text] athena_batch =
          Some (BatchCompile athena_llvm athena_env (map (\<lambda>g. NoOPOfNodes g True) groups) athena_batch)"
    using pipeline_texts_compile [of sample_parser "[sum_text]" "[sum_program]" rev athena_llvm athena_env athena_batch]
    by (simp add: sum_accepted sum_uses)
  have "\<exists>k us x sp. k < 2 \<and> (\<forall>j<k. program_uses {} ([sum_program, when_program] ! j) = [])
      \<and> program_uses {} ([sum_program, when_program] ! k) = us @ [(x, sp)]
      \<and> AthenaPipelineCompile sample_parser rev athena_llvm athena_env [sum_text, when_text] athena_batch =
         Some (Some (CgStatus (ParseError (undefined_variable ([sum_text, when_text] ! k) x sp))), athena_batch)"
    using pipeline_texts_compile [of sample_parser "[sum_text, when_text]" "[sum_program, when_program]" rev
        athena_llvm athena_env athena_batch]
    by (simp add: sum_accepted when_accepted sum_uses when_uses numeral_2_eq_2)
  then obtain k us x sp where k: "k < 2" "\<forall>j<k. program_uses {} ([sum_program, when_program] ! j) = []"
      "program_uses {} ([sum_program, when_program] ! k) = us @ [(x, sp)]"
      "AthenaPipelineCompile sample_parser rev athena_llvm athena_env [sum_text, when_text] athena_batch =
         Some (Some (CgStatus (ParseError (undefined_variable ([sum_text, when_text] ! k) x sp))), athena_batch)"
    by blast
  from k(1,3) sum_uses have "k = 1" by (cases k) auto
  with k(3,4) show "AthenaPipelineCompile sample_parser rev athena_llvm athena_env [sum_text, when_text] athena_batch =
       Some (Some (CgStatus (ParseError (undefined_variable when_text ''b'' (1, 34, 1, 35)))), athena_batch)"
    by (simp add: when_uses)
qed

section \<open>Expressions\<close>

text \<open>C39: AthenaExpression::Compile compiles the tree of the last statement, with the tree of its
  definition put for every identifier, if there is no when block and every identifier is used after
  its definition. For every other text that the parser accepts, it either reports an error and
  leaves the engine alone or dereferences the null pointer of an undefined variable.\<close>

theorem expression_texts_compile:
  assumes "accepts parse code ss" "length ss \<le> 2 ^ 32"
  shows "if \<not> list_ex is_when ss \<and> program_uses {} ss = []
    then AthenaExpressionCompile parse ll env code eng =
      Some (Compile ll env (inline_program code (RefNode new_info) ss) eng)
    else AthenaExpressionCompile parse ll env code eng = None
      \<or> (\<exists>st. \<not> ok st \<and> AthenaExpressionCompile parse ll env code eng = Some (Some (CgStatus st), eng))"
  using ExpressionCompile_ok [OF assms, of ll env eng] ExpressionCompile_bad [OF assms, of ll env eng]
  unfolding inlines_def [symmetric] by (cases "AthenaExpressionCompile parse ll env code eng") auto

definition athena_engine :: exec_engine where
  "athena_engine = NewEngine \<lparr>arena_min_chunk = 4096, dump_ir = False, opt_fp_math_mode = kStrict, enable_save_compiled = False\<rparr>"

definition two_at :: "span \<Rightarrow> exec_node" where
  "two_at sp = SetLocation (span_location sum_text sp) (ConstantValueNode new_info (CI32 2))"

lemma sum_tree: "inline_program sum_text (RefNode new_info) sum_program =
  SetLocation (span_location sum_text (1, 19, 1, 20))
    (BinaryOPNode new_info kAdd (two_at (1, 12, 1, 13)) (two_at (1, 16, 1, 17)))"
  by (simp add: sum_program_def bind_name_def two_at_def SetLocation_def new_info_def)

lemma expression_texts_compile_witness:
  "AthenaExpressionCompile sample_parser athena_llvm athena_env sum_text athena_engine =
     Some (Compile athena_llvm athena_env (SetLocation (span_location sum_text (1, 19, 1, 20))
       (BinaryOPNode new_info kAdd (two_at (1, 12, 1, 13)) (two_at (1, 16, 1, 17)))) athena_engine)"
proof -
  have "\<not> list_ex is_when sum_program" "length sum_program \<le> 2 ^ 32" by (simp_all add: sum_program_def)
  with expression_texts_compile [OF sum_accepted, of athena_llvm athena_env athena_engine] sum_uses sum_tree
  show ?thesis by simp
qed

section \<open>Limits\<close>

text \<open>The first statement leaves a null pointer behind, the second clones it.\<close>

lemma null_tree_is_cloned: "BuildExpression sample_parser null_text NewBuilder = None"
  by (simp add: BuildExpression_def Scan_def sample_parser_def c_str_def null_text_def sum_text_def when_text_def
      null_program_def StartBuild_def NewBuilder_def name_action_def MakeRefNode_def contexts_def AddStatement_def
      push_node_def WithLoc_def)

text \<open>Neither BuildExpression nor BuildPipeline clears the block stack: after a syntax error inside of
  a block the builder resolves the names of that block in the next text.\<close>

definition stuck_builder :: builder where
  "stuck_builder = (case BuildPipeline sample_parser open_text NewBuilder of Some (st, r, b) \<Rightarrow> b)"

lemma stuck_builder_eq: "block_stack stuck_builder \<noteq> [] \<and>
  (case BuildPipeline sample_parser open_text NewBuilder of Some (st, r, b) \<Rightarrow> \<not> ok st)"
  by (simp add: stuck_builder_def BuildPipeline_def Scan_def sample_parser_def c_str_def null_text_def sum_text_def
      when_text_def open_text_def open_reductions_def StartBuild_def NewBuilder_def literal_action_def EnterBlock_def
      AddStatement_def push_node_def WithLoc_def Parser_error_def)

lemma open_block_survives:
  "(case BuildPipeline sample_parser ''z;'' NewBuilder of Some (st, r, b) \<Rightarrow> \<not> ok st)
   \<and> (case BuildPipeline sample_parser ''z;'' stuck_builder of Some (st, r, b) \<Rightarrow> ok st)"
  by (simp add: stuck_builder_def BuildPipeline_def Scan_def sample_parser_def c_str_def null_text_def sum_text_def
      when_text_def open_text_def open_reductions_def StartBuild_def NewBuilder_def literal_action_def EnterBlock_def
      AddStatement_def push_node_def WithLoc_def Parser_error_def name_action_def MakeRefNode_def contexts_def)

end
