(* ===== verification/Intrinsics.thy ===== *)
theory Intrinsics
  imports CodeGenCorrect ListIndexing
begin

text \<open>
  Model of the code generating callbacks of src/function/: the functions that emit the
  instructions of a built-in function in place of a call, and the rewritings of list functions
  into calls of helpers. A callback gets the signature with its registered return type and one
  operand per parameter; the types it is handed are those of the operands. The status that
  NumericTypeConvert and ValueTypeToLLVMType return is ignored by the source.
\<close>

type_synonym codegen = "signature \<Rightarrow> operand list \<Rightarrow> cg_state \<Rightarrow> operand option \<times> cg_state"

section \<open>Helpers\<close>

text \<open>\<open>(void)CodeGen::NumericTypeConvert(ctx, from, to, &value)\<close>: a failed conversion leaves the value.\<close>

definition convert_value :: "value_type \<Rightarrow> value_type \<Rightarrow> operand \<Rightarrow> cg_state \<Rightarrow> operand \<times> cg_state" where
  "convert_value from_t to_t x s = (case NumericTypeConvert from_t to_t (Some x) s of
     Inr (Some y, s1) \<Rightarrow> (y, s1) | _ \<Rightarrow> (x, s))"

text \<open>\<open>(void)CodeGen::ValueTypeToLLVMType(ctx, t, &type)\<close>; no callback is registered for kUnknown.\<close>

definition llvm_type_of :: "value_type \<Rightarrow> ll_type" where
  "llvm_type_of t = (case ValueTypeToLLVMType t of Inr l \<Rightarrow> l | Inl _ \<Rightarrow> LVoid)"

definition call_intrinsic :: "string \<Rightarrow> ll_type list \<Rightarrow> ll_type \<Rightarrow> operand list \<Rightarrow> cg_state \<Rightarrow> operand \<times> cg_state" where
  "call_intrinsic nm tys ret ops s = emit (\<lambda>n. IntrinsicCall n nm tys ops) ret s"

text \<open>A declaration of the symbol of a signature and a call of it.\<close>

definition call_symbol :: "string \<Rightarrow> value_type list \<Rightarrow> ll_type \<Rightarrow> operand list \<Rightarrow> cg_state \<Rightarrow> operand \<times> cg_state" where
  "call_symbol nm params ret ops s =
     (let symbol = SignatureToString (FunctionSignature nm params kUnknown) in
      emit (\<lambda>n. Call n symbol ret ops) ret (getOrInsertFunction symbol ret s))"

section \<open>Mathematical functions\<close>

text \<open>The value converted to the return type, then the intrinsic of that type.\<close>

definition converted_call :: "string \<Rightarrow> codegen" where
  "converted_call nm sign ops s =
     (case convert_value (hd (param_types sign)) (ret_type sign) (hd ops) s of (x, s1) \<Rightarrow>
      case call_intrinsic nm [llvm_type_of (ret_type sign)] (llvm_type_of (ret_type sign)) [x] s1 of (y, s2) \<Rightarrow>
        (Some y, s2))"

definition CallBuiltinExpFunction :: codegen where "CallBuiltinExpFunction = converted_call ''exp''"
definition CallBuiltinLogFunction :: codegen where "CallBuiltinLogFunction = converted_call ''log''"
definition CallBuiltinLog2Function :: codegen where "CallBuiltinLog2Function = converted_call ''log2''"
definition CallBuiltinLog10Function :: codegen where "CallBuiltinLog10Function = converted_call ''log10''"

definition CallBuiltinFracFunction :: codegen where
  "CallBuiltinFracFunction sign ops s =
     (let x = hd ops in
      case call_intrinsic ''trunc'' (map getType ops) (getType x) [x] s of (t, s1) \<Rightarrow>
      case emit (\<lambda>n. Bin n BFSub x t) (getType x) s1 of (y, s2) \<Rightarrow> (Some y, s2))"

text \<open>The intrinsic of the types of the arguments, called with the first one.\<close>

definition direct_call :: "string \<Rightarrow> codegen" where
  "direct_call nm sign ops s =
     (case call_intrinsic nm (map getType ops) (getType (hd ops)) [hd ops] s of (y, s1) \<Rightarrow> (Some y, s1))"

definition CallBuiltinTruncFunction :: codegen where "CallBuiltinTruncFunction = direct_call ''trunc''"
definition CallBuiltinSinFunction :: codegen where "CallBuiltinSinFunction = direct_call ''sin''"
definition CallBuiltinCosFunction :: codegen where "CallBuiltinCosFunction = direct_call ''cos''"
definition CallBuiltinTanFunction :: codegen where "CallBuiltinTanFunction = direct_call ''tan''"
definition CallBuiltinSqrtFunction :: codegen where "CallBuiltinSqrtFunction = direct_call ''sqrt''"
definition CallBuiltinCeilFunction :: codegen where "CallBuiltinCeilFunction = direct_call ''ceil''"
definition CallBuiltinFloorFunction :: codegen where "CallBuiltinFloorFunction = direct_call ''floor''"
definition CallBuiltinRoundFunction :: codegen where "CallBuiltinRoundFunction = direct_call ''round''"

definition is_integer_ty :: "ll_type \<Rightarrow> bool" where
  "is_integer_ty t = (case t of LInt _ \<Rightarrow> True | _ \<Rightarrow> False)"

text \<open>A 32-bit exponent is truncated to 16 bits when the base is a double.\<close>

definition CallBuiltinPowIFunction :: codegen where
  "CallBuiltinPowIFunction sign ops s =
     (case (if is_integer_ty (getType (ops ! 0))
            then convert_value (hd (param_types sign)) kF64 (ops ! 0) s else (ops ! 0, s)) of (x, s1) \<Rightarrow>
      case (if getType x = LDouble then convert_value kI32 kI16 (ops ! 1) s1 else (ops ! 1, s1)) of (p, s2) \<Rightarrow>
      case call_intrinsic ''powi'' [getType x, getType p] (getType x) [x, p] s2 of (y, s3) \<Rightarrow> (Some y, s3))"

definition CallBuiltinPowFunction :: codegen where
  "CallBuiltinPowFunction sign ops s =
     (case call_intrinsic ''pow'' [getType (ops ! 0)] (getType (ops ! 0)) [ops ! 0, ops ! 1] s of (y, s1) \<Rightarrow> (Some y, s1))"

definition CallBuiltinAbsFunction :: codegen where
  "CallBuiltinAbsFunction sign ops s =
     (if IsIntegerType (ret_type sign) then
        (case convert_value (hd (param_types sign)) (ret_type sign) (hd ops) s of (x, s1) \<Rightarrow>
         case call_intrinsic ''abs'' [llvm_type_of (ret_type sign)] (llvm_type_of (ret_type sign)) [x, ConstInt 1 1] s1
           of (y, s2) \<Rightarrow> (Some y, s2))
      else (case call_intrinsic ''fabs'' (map getType ops) (getType (hd ops)) ops s of (y, s1) \<Rightarrow> (Some y, s1)))"

text \<open>The comparison of CallBuiltinMinFunction and CallBuiltinMaxFunction.\<close>

definition greater_value :: "value_type \<Rightarrow> operand \<Rightarrow> operand \<Rightarrow> cg_state \<Rightarrow> operand \<times> cg_state" where
  "greater_value t x y s =
     emit (\<lambda>n. if IsIntegerType t then if IsSignedType t then ICmp n ICMP_SGT x y else ICmp n ICMP_UGT x y
               else FCmp n FCMP_OGT x y) (LInt 1) s"

definition CallBuiltinMinFunction :: codegen where
  "CallBuiltinMinFunction sign ops s =
     (case greater_value (ret_type sign) (ops ! 0) (ops ! 1) s of (c, s1) \<Rightarrow>
      case emit (\<lambda>n. Select n c (ops ! 1) (ops ! 0)) (getType (ops ! 1)) s1 of (y, s2) \<Rightarrow> (Some y, s2))"

definition CallBuiltinMaxFunction :: codegen where
  "CallBuiltinMaxFunction sign ops s =
     (case greater_value (ret_type sign) (ops ! 0) (ops ! 1) s of (c, s1) \<Rightarrow>
      case emit (\<lambda>n. Select n c (ops ! 0) (ops ! 1)) (getType (ops ! 0)) s1 of (y, s2) \<Rightarrow> (Some y, s2))"

definition CallBuiltinCastFunction :: codegen where
  "CallBuiltinCastFunction sign ops s =
     (case convert_value (last (param_types sign)) (ret_type sign) (last ops) s of (x, s1) \<Rightarrow> (Some x, s1))"

section \<open>Lengths and truncation\<close>

definition CallBuiltinLenFunction :: codegen where
  "CallBuiltinLenFunction sign ops s =
     (case emit (\<lambda>n. ExtractValue n (ops ! 0) 1) (LInt 32) s of (y, s1) \<Rightarrow> (Some y, s1))"

definition CallBuiltinStringLenFunction :: codegen where
  "CallBuiltinStringLenFunction sign ops s =
     (case emit (\<lambda>n. ExtractValue n (ops ! 0) 1) (LInt 32) s of (y, s1) \<Rightarrow> (Some y, s1))"

text \<open>The list is stored on the stack, its length replaced by the smaller one, and loaded again.\<close>

definition CallBuiltinTruncateFunction :: codegen where
  "CallBuiltinTruncateFunction sign ops s =
     (let t = getType (ops ! 0) in
      case emit (\<lambda>n. Alloca n t) LPtr s of (result_ptr, s1) \<Rightarrow>
      case emit (\<lambda>n. GEP n t result_ptr [ConstInt 32 0, ConstInt 32 1]) LPtr (append_instr (Store (ops ! 0) result_ptr) s1)
        of (len_ptr, s2) \<Rightarrow>
      case emit (\<lambda>n. Load n (LInt 32) len_ptr) (LInt 32) s2 of (old_len, s3) \<Rightarrow>
      case emit (\<lambda>n. ICmp n ICMP_ULT (ops ! 1) old_len) (LInt 1) s3 of (cmp, s4) \<Rightarrow>
      case emit (\<lambda>n. Select n cmp (ops ! 1) old_len) (LInt 32) s4 of (final_len, s5) \<Rightarrow>
      case emit (\<lambda>n. Load n t result_ptr) t (append_instr (Store final_len len_ptr) s5) of (y, s6) \<Rightarrow> (Some y, s6))"

definition CodegenFindMiss :: codegen where
  "CodegenFindMiss sign ops s = (Some (ConstInt 32 (nat kLookupMiss)), s)"

section \<open>Functions rewritten into calls\<close>

definition EmitFilterByBitmapSugar :: codegen where
  "EmitFilterByBitmapSugar sign ops s =
     (case call_symbol ''CountBits'' [kU8List] (LInt 32) [ops ! 1] s of (bits_cnt, s1) \<Rightarrow>
      case call_symbol ''FilterByBitmap'' [hd (param_types sign), kU8List, kU32, kPtr] (getType (ops ! 0))
             [ops ! 0, ops ! 1, bits_cnt, Arg 1] s1 of (y, s2) \<Rightarrow> (Some y, s2))"

text \<open>What the group rewritings share: the number of groups is counted, then the kernel is called.\<close>

definition group_kernel_call :: "string \<Rightarrow> ll_type \<Rightarrow> codegen" where
  "group_kernel_call kernel_name ret sign ops s =
     (case call_symbol ''GroupCount'' [kU32List] (LInt 32) [ops ! 1] s of (group_count, s1) \<Rightarrow>
      case call_symbol kernel_name [hd (param_types sign), kU32List, kU32, kPtr] ret
             [ops ! 0, ops ! 1, group_count, Arg 1] s1 of (y, s2) \<Rightarrow> (Some y, s2))"

definition EmitGroupKeysSugar :: codegen where
  "EmitGroupKeysSugar sign ops = group_kernel_call ''GroupKeys'' (getType (ops ! 0)) sign ops"

definition EmitGroupSumSugar :: codegen where
  "EmitGroupSumSugar sign ops = group_kernel_call ''GroupSum'' (llvm_type_of (ret_type sign)) sign ops"

definition EmitGroupExtremaSugar :: "string \<Rightarrow> codegen" where
  "EmitGroupExtremaSugar kernel_name sign ops = group_kernel_call kernel_name (getType (ops ! 0)) sign ops"

definition EmitGroupMaxSugar :: codegen where "EmitGroupMaxSugar = EmitGroupExtremaSugar ''GroupMax''"
definition EmitGroupMinSugar :: codegen where "EmitGroupMinSugar = EmitGroupExtremaSugar ''GroupMin''"

definition EmitGroupAvgSugar :: codegen where
  "EmitGroupAvgSugar sign ops = group_kernel_call ''GroupAvg'' (llvm_type_of (ret_type sign)) sign ops"

definition kBuildIntName :: string where "kBuildIntName = ''__BuildLookupTableInt''"
definition kBuildStringName :: string where "kBuildStringName = ''__BuildLookupTableString''"
definition kLookupIntName :: string where "kLookupIntName = ''__LookupTableInt''"
definition kLookupStringName :: string where "kLookupStringName = ''__LookupTableString''"

definition CodegenListLookupIndex :: codegen where
  "CodegenListLookupIndex sign ops s =
     (let list_vt = hd (param_types sign); is_string = (list_vt = kStringList);
          build_name = (if is_string then kBuildStringName else kBuildIntName);
          lookup_name = (if is_string then kLookupStringName else kLookupIntName) in
      case call_symbol build_name [list_vt, kPtr] LPtr [ops ! 1, Arg 1] s of (table_ptr, s1) \<Rightarrow>
      case call_symbol lookup_name [list_vt, kPtr, kPtr] (LStruct kU32List) [ops ! 0, table_ptr, Arg 1] s1 of
        (y, s2) \<Rightarrow> (Some y, s2))"

section \<open>The callbacks by name\<close>

definition builtin_callbacks :: "(string \<times> codegen) list" where
  "builtin_callbacks = [
     (''CallBuiltinExpFunction'', CallBuiltinExpFunction), (''CallBuiltinLogFunction'', CallBuiltinLogFunction),
     (''CallBuiltinLog2Function'', CallBuiltinLog2Function), (''CallBuiltinLog10Function'', CallBuiltinLog10Function),
     (''CallBuiltinFracFunction'', CallBuiltinFracFunction), (''CallBuiltinTruncFunction'', CallBuiltinTruncFunction),
     (''CallBuiltinPowIFunction'', CallBuiltinPowIFunction), (''CallBuiltinPowFunction'', CallBuiltinPowFunction),
     (''CallBuiltinSinFunction'', CallBuiltinSinFunction), (''CallBuiltinCosFunction'', CallBuiltinCosFunction),
     (''CallBuiltinTanFunction'', CallBuiltinTanFunction), (''CallBuiltinSqrtFunction'', CallBuiltinSqrtFunction),
     (''CallBuiltinAbsFunction'', CallBuiltinAbsFunction), (''CallBuiltinCeilFunction'', CallBuiltinCeilFunction),
     (''CallBuiltinFloorFunction'', CallBuiltinFloorFunction), (''CallBuiltinRoundFunction'', CallBuiltinRoundFunction),
     (''CallBuiltinMinFunction'', CallBuiltinMinFunction), (''CallBuiltinMaxFunction'', CallBuiltinMaxFunction),
     (''CallBuiltinCastFunction'', CallBuiltinCastFunction), (''CallBuiltinLenFunction'', CallBuiltinLenFunction),
     (''CallBuiltinStringLenFunction'', CallBuiltinStringLenFunction),
     (''CallBuiltinTruncateFunction'', CallBuiltinTruncateFunction), (''CodegenFindMiss'', CodegenFindMiss),
     (''EmitFilterByBitmapSugar'', EmitFilterByBitmapSugar), (''EmitGroupKeysSugar'', EmitGroupKeysSugar),
     (''EmitGroupSumSugar'', EmitGroupSumSugar), (''EmitGroupMaxSugar'', EmitGroupMaxSugar),
     (''EmitGroupMinSugar'', EmitGroupMinSugar), (''EmitGroupAvgSugar'', EmitGroupAvgSugar),
     (''CodegenListLookupIndex'', CodegenListLookupIndex)]"

definition builtin_codegen :: "string \<Rightarrow> codegen" where
  "builtin_codegen h = (case map_of builtin_callbacks h of Some f \<Rightarrow> f | None \<Rightarrow> (\<lambda>sign ops s. (None, s)))"

section \<open>Types of the emitted values\<close>

text \<open>A callback leaves the variables and the constant lists alone and declares symbols of \<open>L\<close> only;
  on operands of the parameter types it returns a value of the registered type.\<close>

definition same_but_code :: "string set \<Rightarrow> cg_state \<Rightarrow> cg_state \<Rightarrow> bool" where
  "same_but_code L s s' \<longleftrightarrow> vc s' = vc s \<and> fst ` set (callees s') \<subseteq> fst ` set (callees s) \<union> L"

definition codegen_ok :: "string set \<Rightarrow> codegen \<Rightarrow> signature \<Rightarrow> bool" where
  "codegen_ok L f sign \<longleftrightarrow>
     (\<forall>ops s. same_but_code L s (snd (f sign ops s))
        \<and> (list_all2 has_type (param_types sign) ops \<longrightarrow> val_ok (ret_type sign) (fst (f sign ops s))))"

lemma same_but_code_refl [simp]: "same_but_code L s s"
  by (simp add: same_but_code_def)

lemmas emitted = emit_def append_instr_def same_but_code_def vc_def has_type_def ValueTypeToLLVMType_def

lemma subset_chain: "A2 \<subseteq> A1 \<union> L \<Longrightarrow> A1 \<subseteq> A \<union> L \<Longrightarrow> A2 \<subseteq> A \<union> L"
  by blast

lemma same_but_code_trans: "same_but_code L s s1 \<Longrightarrow> same_but_code L s1 s2 \<Longrightarrow> same_but_code L s s2"
  using subset_chain [of "fst ` set (callees s2)" "fst ` set (callees s1)" L "fst ` set (callees s)"]
  by (simp add: same_but_code_def)

lemma codegen_okI:
  assumes "\<And>ops s. same_but_code L s (snd (f sign ops s))"
    and "\<And>ops s. list_all2 has_type (param_types sign) ops \<Longrightarrow> val_ok (ret_type sign) (fst (f sign ops s))"
  shows "codegen_ok L f sign"
  using assms by (simp add: codegen_ok_def)

lemma frame_bind:
  "same_but_code L s (snd m) \<Longrightarrow> (\<And>x s1. same_but_code L s1 (snd (f x s1))) \<Longrightarrow>
     same_but_code L s (snd (case m of (x, s1) \<Rightarrow> f x s1))"
  using same_but_code_trans by (cases m) auto

lemma frame_if: "same_but_code L s (snd m) \<Longrightarrow> same_but_code L s (snd m') \<Longrightarrow> same_but_code L s (snd (if b then m else m'))"
  by simp

lemma frame_emit: "same_but_code L s (snd (emit mk t s))"
  by (simp add: same_but_code_def emit_def append_instr_def vc_def)

lemma frame_store: "same_but_code L s (snd (emit mk t (append_instr i s)))"
  by (simp add: same_but_code_def emit_def append_instr_def vc_def)

lemma frame_done: "same_but_code L s (snd (v, s))"
  by simp

lemma frame_call_intrinsic: "same_but_code L s (snd (call_intrinsic nm tys ret ops s))"
  unfolding call_intrinsic_def by (rule frame_emit)

lemma frame_convert: "same_but_code L s (snd (convert_value f t x s))"
  by (simp add: convert_value_def NumericTypeConvert_def Let_def emit_def append_instr_def same_but_code_def vc_def
      deref_def split: sum.splits option.splits)

definition declared_as :: "string \<Rightarrow> value_type list \<Rightarrow> string" where
  "declared_as nm ps = SignatureToString (FunctionSignature nm ps kUnknown)"

lemma frame_call_symbol:
  "declared_as nm ps \<in> L \<Longrightarrow> same_but_code L s (snd (call_symbol nm ps ret ops s))"
  by (auto simp: call_symbol_def Let_def emit_def append_instr_def same_but_code_def vc_def getOrInsertFunction_def
      declared_as_def)

lemmas frames = frame_bind frame_if frame_emit frame_store frame_done frame_call_intrinsic frame_convert frame_call_symbol

lemma getType_emitted [simp]:
  "getType (fst (emit mk t s)) = t" "getType (fst (call_intrinsic nm tys t ops s)) = t"
  "getType (fst (call_symbol nm ps t ops s)) = t"
  by (simp_all add: emit_def call_intrinsic_def call_symbol_def Let_def)

lemma has_type_llvm: "has_type t x \<Longrightarrow> llvm_type_of t = getType x"
  by (simp add: has_type_def llvm_type_of_def)

lemma has_type_convert:
  assumes "has_type f x" "f = t \<or> IsNumericType f \<and> IsNumericType t"
  shows "has_type t (fst (convert_value f t x s))"
proof (cases "f = t")
  case True
  then show ?thesis using assms(1) by (simp add: convert_value_def NumericTypeConvert_def)
next
  case False
  then have "val_ok f (Some x)" "f \<noteq> kVoid" using assms by (auto simp: val_ok_def jf_enum)
  then obtain y s' where "NumericTypeConvert f t (Some x) s = Inr (Some y, s')" "has_type t y"
    using convert_ok [of f "Some x" t s] assms(2) by blast
  then show ?thesis by (simp add: convert_value_def)
qed

lemma llvm_type_known: "t \<noteq> kUnknown \<Longrightarrow> ValueTypeToLLVMType t = Inr (llvm_type_of t)"
  using known_llvm [of t] by (auto simp: llvm_type_of_def)

lemma numeric_known: "IsNumericType t \<Longrightarrow> t \<noteq> kUnknown"
  by (auto simp: jf_enum)

lemmas typed = case_prod_unfold FunctionSignature_def list_all2_Cons1 has_type_def val_ok_def

section \<open>Each callback at the signatures it is registered for\<close>

lemma converted_call_ok:
  assumes "IsNumericType p" "IsNumericType r"
  shows "codegen_ok L (converted_call nm) (FunctionSignature n [p] r)"
  by (rule codegen_okI; unfold converted_call_def; (intro frames)?)
    (use assms in \<open>auto simp: typed llvm_type_known numeric_known\<close>)

lemma direct_call_ok: "codegen_ok L (direct_call nm) (FunctionSignature n [t] t)"
  by (rule codegen_okI; unfold direct_call_def; (intro frames)?) (auto simp: typed)

lemma frac_ok: "codegen_ok L CallBuiltinFracFunction (FunctionSignature n [t] t)"
  by (rule codegen_okI; unfold CallBuiltinFracFunction_def Let_def; (intro frames)?) (auto simp: typed)

lemma pow_ok: "codegen_ok L CallBuiltinPowFunction (FunctionSignature n [t, t] t)"
  by (rule codegen_okI; unfold CallBuiltinPowFunction_def; (intro frames)?) (auto simp: typed)

lemma powi_base:
  assumes "IsFloatType p \<and> r = p \<or> IsIntegerType p \<and> r = kF64" "has_type p x"
  shows "has_type r (fst (if is_integer_ty (getType x) then convert_value p kF64 x s else (x, s)))"
proof (cases "IsIntegerType p")
  case True
  then have "getType x = int_ty p" using int_llvm [OF True] assms(2) by (simp add: has_type_def)
  moreover have "r = kF64" using assms(1) integer_not_float [OF True] True by auto
  ultimately show ?thesis using True has_type_convert [OF assms(2), of kF64 s]
    by (auto simp: int_ty_def is_integer_ty_def numeric_iff_integer_or_float jf_enum)
next
  case False
  then have p: "IsFloatType p" "r = p" using assms(1) by auto
  then have "getType x = fp_ty p" using float_llvm [of p] assms(2) by (simp add: has_type_def)
  then show ?thesis using p assms(2) by (simp add: fp_ty_def is_integer_ty_def)
qed

lemma powi_ok:
  assumes "IsFloatType p \<and> r = p \<or> IsIntegerType p \<and> r = kF64"
  shows "codegen_ok L CallBuiltinPowIFunction (FunctionSignature n [p, kI32] r)"
proof (rule codegen_okI)
  show "same_but_code L s (snd (CallBuiltinPowIFunction (FunctionSignature n [p, kI32] r) ops s))" for ops s
    unfolding CallBuiltinPowIFunction_def by (intro frames)
next
  fix ops s assume "list_all2 has_type (param_types (FunctionSignature n [p, kI32] r)) ops"
  then obtain x e where "ops = [x, e]" "has_type p x" by (auto simp: FunctionSignature_def list_all2_Cons1)
  then show "val_ok (ret_type (FunctionSignature n [p, kI32] r))
      (fst (CallBuiltinPowIFunction (FunctionSignature n [p, kI32] r) ops s))"
    using powi_base [OF assms, of x s]
    by (simp add: CallBuiltinPowIFunction_def typed split del: if_split cong: if_cong)
qed

lemma abs_int_ok:
  assumes "IsIntegerType p" "IsIntegerType r"
  shows "codegen_ok L CallBuiltinAbsFunction (FunctionSignature n [p] r)"
proof -
  have "r \<noteq> kUnknown" using assms by (auto simp: jf_enum)
  then show ?thesis
    by (intro codegen_okI; unfold CallBuiltinAbsFunction_def; (intro frames)?)
      (use assms in \<open>auto simp: typed llvm_type_known\<close>)
qed

lemma abs_float_ok: "IsFloatType t \<Longrightarrow> codegen_ok L CallBuiltinAbsFunction (FunctionSignature n [t] t)"
  by (rule codegen_okI; unfold CallBuiltinAbsFunction_def; (intro frames)?)
    (auto simp: typed dest: integer_not_float)

lemma min_ok: "codegen_ok L CallBuiltinMinFunction (FunctionSignature n [t, t] t)"
  by (rule codegen_okI; unfold CallBuiltinMinFunction_def greater_value_def; (intro frames)?) (auto simp: typed)

lemma max_ok: "codegen_ok L CallBuiltinMaxFunction (FunctionSignature n [t, t] t)"
  by (rule codegen_okI; unfold CallBuiltinMaxFunction_def greater_value_def; (intro frames)?) (auto simp: typed)

lemma cast_ok:
  assumes "IsNumericType p" "IsNumericType r"
  shows "codegen_ok L CallBuiltinCastFunction (FunctionSignature n [p] r)"
  by (rule codegen_okI; unfold CallBuiltinCastFunction_def; (intro frames)?)
    (use assms has_type_convert [of p _ r] in
      \<open>auto simp: case_prod_unfold FunctionSignature_def list_all2_Cons1 val_ok_def\<close>)

lemma len_ok: "codegen_ok L CallBuiltinLenFunction (FunctionSignature n [t] kU32)"
  by (rule codegen_okI; unfold CallBuiltinLenFunction_def; (intro frames)?) (auto simp: typed ValueTypeToLLVMType_def)

lemma string_len_ok: "codegen_ok L CallBuiltinStringLenFunction (FunctionSignature n [t] kU32)"
  by (rule codegen_okI; unfold CallBuiltinStringLenFunction_def; (intro frames)?)
    (auto simp: typed ValueTypeToLLVMType_def)

lemma truncate_ok: "codegen_ok L CallBuiltinTruncateFunction (FunctionSignature n [t, kU32] t)"
  by (rule codegen_okI; unfold CallBuiltinTruncateFunction_def Let_def; (intro frames)?) (auto simp: typed)

lemma find_miss_ok: "codegen_ok L CodegenFindMiss (FunctionSignature n [] kU32)"
  by (rule codegen_okI; unfold CodegenFindMiss_def; (intro frames)?) (auto simp: typed ValueTypeToLLVMType_def)

section \<open>The rewritings\<close>

lemma filter_sugar_ok:
  assumes "declared_as ''CountBits'' [kU8List] \<in> L" "declared_as ''FilterByBitmap'' [t, kU8List, kU32, kPtr] \<in> L"
  shows "codegen_ok L EmitFilterByBitmapSugar (FunctionSignature n [t, kU8List] t)"
  by (rule codegen_okI; unfold EmitFilterByBitmapSugar_def; (intro frames)?)
    (use assms in \<open>auto simp: typed\<close>)

lemma frame_group_call:
  assumes "declared_as ''GroupCount'' [kU32List] \<in> L" "declared_as kernel_name [p, kU32List, kU32, kPtr] \<in> L"
  shows "same_but_code L s (snd (group_kernel_call kernel_name ret (FunctionSignature n (p # ps) r) ops s))"
  using assms unfolding group_kernel_call_def by (intro frames) (simp_all add: FunctionSignature_def)

lemma getType_group_call: "\<exists>x. fst (group_kernel_call kernel_name ret sign ops s) = Some x \<and> getType x = ret"
  by (simp add: group_kernel_call_def case_prod_unfold)

text \<open>The result has the type of the keys, or that of the registered return type.\<close>

lemma group_kernel_ok:
  assumes "declared_as ''GroupCount'' [kU32List] \<in> L" "declared_as kernel_name [p, kU32List, kU32, kPtr] \<in> L"
    and "\<And>sign ops. f sign ops = group_kernel_call kernel_name (ret_of sign ops) sign ops"
    and "\<And>ops. has_type p (ops ! 0) \<Longrightarrow> ValueTypeToLLVMType r = Inr (ret_of (FunctionSignature n [p, kU32List] r) ops)"
  shows "codegen_ok L f (FunctionSignature n [p, kU32List] r)"
proof (rule codegen_okI)
  show "same_but_code L s (snd (f (FunctionSignature n [p, kU32List] r) ops s))" for ops s
    using frame_group_call [OF assms(1,2)] by (simp add: assms(3))
next
  fix ops s assume "list_all2 has_type (param_types (FunctionSignature n [p, kU32List] r)) ops"
  then have "has_type p (ops ! 0)" by (auto simp: FunctionSignature_def list_all2_Cons1)
  from assms(4) [OF this] show "val_ok (ret_type (FunctionSignature n [p, kU32List] r))
      (fst (f (FunctionSignature n [p, kU32List] r) ops s))"
    using getType_group_call by (fastforce simp: assms(3) val_ok_def has_type_def FunctionSignature_def)
qed

lemma group_keys_ok:
  assumes "declared_as ''GroupCount'' [kU32List] \<in> L"
  shows "declared_as ''GroupKeys'' [p, kU32List, kU32, kPtr] \<in> L \<Longrightarrow>
      codegen_ok L EmitGroupKeysSugar (FunctionSignature n [p, kU32List] p)"
    and "declared_as ''GroupMax'' [p, kU32List, kU32, kPtr] \<in> L \<Longrightarrow>
      codegen_ok L EmitGroupMaxSugar (FunctionSignature n [p, kU32List] p)"
    and "declared_as ''GroupMin'' [p, kU32List, kU32, kPtr] \<in> L \<Longrightarrow>
      codegen_ok L EmitGroupMinSugar (FunctionSignature n [p, kU32List] p)"
proof -
  note ok = group_kernel_ok [OF assms, where ret_of = "\<lambda>sign ops. getType (ops ! 0)" and p = p and r = p]
  show "declared_as ''GroupKeys'' [p, kU32List, kU32, kPtr] \<in> L \<Longrightarrow>
      codegen_ok L EmitGroupKeysSugar (FunctionSignature n [p, kU32List] p)"
    by (rule ok) (simp_all add: EmitGroupKeysSugar_def has_type_def)
  show "declared_as ''GroupMax'' [p, kU32List, kU32, kPtr] \<in> L \<Longrightarrow>
      codegen_ok L EmitGroupMaxSugar (FunctionSignature n [p, kU32List] p)"
    by (rule ok) (simp_all add: EmitGroupMaxSugar_def EmitGroupExtremaSugar_def has_type_def)
  show "declared_as ''GroupMin'' [p, kU32List, kU32, kPtr] \<in> L \<Longrightarrow>
      codegen_ok L EmitGroupMinSugar (FunctionSignature n [p, kU32List] p)"
    by (rule ok) (simp_all add: EmitGroupMinSugar_def EmitGroupExtremaSugar_def has_type_def)
qed

lemma group_sum_ok:
  assumes "declared_as ''GroupCount'' [kU32List] \<in> L" "r \<noteq> kUnknown"
  shows "declared_as ''GroupSum'' [p, kU32List, kU32, kPtr] \<in> L \<Longrightarrow>
      codegen_ok L EmitGroupSumSugar (FunctionSignature n [p, kU32List] r)"
    and "declared_as ''GroupAvg'' [p, kU32List, kU32, kPtr] \<in> L \<Longrightarrow>
      codegen_ok L EmitGroupAvgSugar (FunctionSignature n [p, kU32List] r)"
proof -
  note ok = group_kernel_ok [OF assms(1), where ret_of = "\<lambda>sign ops. llvm_type_of (ret_type sign)" and p = p and r = r]
  show "declared_as ''GroupSum'' [p, kU32List, kU32, kPtr] \<in> L \<Longrightarrow>
      codegen_ok L EmitGroupSumSugar (FunctionSignature n [p, kU32List] r)"
    by (rule ok) (simp_all add: EmitGroupSumSugar_def FunctionSignature_def llvm_type_known [OF assms(2)])
  show "declared_as ''GroupAvg'' [p, kU32List, kU32, kPtr] \<in> L \<Longrightarrow>
      codegen_ok L EmitGroupAvgSugar (FunctionSignature n [p, kU32List] r)"
    by (rule ok) (simp_all add: EmitGroupAvgSugar_def FunctionSignature_def llvm_type_known [OF assms(2)])
qed

lemma lookup_sugar_ok:
  assumes "declared_as (if t = kStringList then kBuildStringName else kBuildIntName) [t, kPtr] \<in> L"
    and "declared_as (if t = kStringList then kLookupStringName else kLookupIntName) [t, kPtr, kPtr] \<in> L"
  shows "codegen_ok L CodegenListLookupIndex (FunctionSignature n [t, t] kU32List)"
  using assms
  by (intro codegen_okI; unfold CodegenListLookupIndex_def Let_def; (intro frames)?)
    (auto simp: typed ValueTypeToLLVMType_def)

end
