(* ===== verification/BuiltinTables.thy ===== *)
theory BuiltinTables
  imports Intrinsics
begin

text \<open>
  Model of the registration tables of src/function/: what every Init function registers, in the
  order of the source, as the list of the Register calls it makes. A loop or a run of calls that
  differ in the element type only is a map over the element types in the order of the source; a
  C function is named by the function and its template arguments, and its address is a parameter.
  Running a list stops at the first call that fails, as JF_RETURN_NOT_OK does.
\<close>

section \<open>Register calls\<close>

datatype register_call =
    CallLLVMIntrinicFunc signature string
  | CallReadOnlyCFunc signature string
  | CallReadOnlyCFuncWithExecCtx signature string
  | CallCommutativeCFuncWithExecCtx signature string

definition perform_call :: "(string \<Rightarrow> u64) \<Rightarrow> register_call \<Rightarrow> registry \<Rightarrow> status \<times> registry" where
  "perform_call addr c reg = (case c of
     CallLLVMIntrinicFunc s h \<Rightarrow> RegisterLLVMIntrinicFunc s (Some h) False reg
   | CallReadOnlyCFunc s f \<Rightarrow> RegisterReadOnlyCFunc s (addr f) False reg
   | CallReadOnlyCFuncWithExecCtx s f \<Rightarrow> RegisterReadOnlyCFuncWithExecCtx s (addr f) False reg
   | CallCommutativeCFuncWithExecCtx s f \<Rightarrow> RegisterCommutativeCFuncWithExecCtx s (addr f) False reg)"

fun run_calls :: "(string \<Rightarrow> u64) \<Rightarrow> register_call list \<Rightarrow> registry \<Rightarrow> status \<times> registry" where
  "run_calls addr [] reg = (OK, reg)"
| "run_calls addr (c # cs) reg =
     (case perform_call addr c reg of (st, reg1) \<Rightarrow> if ok st then run_calls addr cs reg1 else (st, reg1))"

section \<open>Element types\<close>

definition all_types :: "value_type list" where
  "all_types = [kU8, kU16, kU32, kU64, kI8, kI16, kI32, kI64, kF32, kF64]"

definition pair_order :: "value_type list" where
  "pair_order = [kU8, kI8, kU16, kI16, kU32, kI32, kU64, kI64, kF32, kF64]"

definition integer_types :: "value_type list" where
  "integer_types = [kU8, kU16, kU32, kU64, kI8, kI16, kI32, kI64]"

definition element_types :: "value_type list" where
  "element_types = all_types @ [kString]"

definition list_type :: "value_type \<Rightarrow> value_type" where
  "list_type t = (case t of
     kU8 \<Rightarrow> kU8List | kI8 \<Rightarrow> kI8List | kU16 \<Rightarrow> kU16List | kI16 \<Rightarrow> kI16List | kU32 \<Rightarrow> kU32List | kI32 \<Rightarrow> kI32List
   | kU64 \<Rightarrow> kU64List | kI64 \<Rightarrow> kI64List | kF32 \<Rightarrow> kF32List | kF64 \<Rightarrow> kF64List | kString \<Rightarrow> kStringList | _ \<Rightarrow> kUnknown)"

definition c_name :: "value_type \<Rightarrow> string" where
  "c_name t = (case t of
     kU8 \<Rightarrow> ''uint8_t'' | kI8 \<Rightarrow> ''int8_t'' | kU16 \<Rightarrow> ''uint16_t'' | kI16 \<Rightarrow> ''int16_t'' | kU32 \<Rightarrow> ''uint32_t''
   | kI32 \<Rightarrow> ''int32_t'' | kU64 \<Rightarrow> ''uint64_t'' | kI64 \<Rightarrow> ''int64_t'' | kF32 \<Rightarrow> ''float'' | kF64 \<Rightarrow> ''double'' | _ \<Rightarrow> [])"

definition struct_name :: "value_type \<Rightarrow> string" where
  "struct_name t = (case t of
     kU8 \<Rightarrow> ''U8ListStruct'' | kI8 \<Rightarrow> ''I8ListStruct'' | kU16 \<Rightarrow> ''U16ListStruct'' | kI16 \<Rightarrow> ''I16ListStruct''
   | kU32 \<Rightarrow> ''U32ListStruct'' | kI32 \<Rightarrow> ''I32ListStruct'' | kU64 \<Rightarrow> ''U64ListStruct'' | kI64 \<Rightarrow> ''I64ListStruct''
   | kF32 \<Rightarrow> ''F32ListStruct'' | kF64 \<Rightarrow> ''F64ListStruct'' | kString \<Rightarrow> ''StringListStruct'' | _ \<Rightarrow> [])"

text \<open>The name of an instance of a template, as it is written in the source.\<close>

fun comma_separated :: "string list \<Rightarrow> string" where
  "comma_separated [] = []"
| "comma_separated [x] = x"
| "comma_separated (x # xs) = x @ '', '' @ comma_separated xs"

definition instance_of :: "string \<Rightarrow> string list \<Rightarrow> string" where
  "instance_of f args = f @ ''<'' @ comma_separated args @ ''>''"

section \<open>Mathematical functions\<close>

definition InitExpFunc :: "register_call list" where
  "InitExpFunc =
     map (\<lambda>t. CallLLVMIntrinicFunc
       (FunctionSignature ''exp'' [t] kF64) ''CallBuiltinExpFunction'') [kI32, kI64, kU32, kU64]
   @ map (\<lambda>t. CallLLVMIntrinicFunc
       (FunctionSignature ''exp'' [t] t) ''CallBuiltinExpFunction'') [kF32, kF64]"

definition InitLogFunc :: "register_call list" where
  "InitLogFunc =
     map (\<lambda>t. CallLLVMIntrinicFunc
       (FunctionSignature ''log'' [t] kF64) ''CallBuiltinLogFunction'') [kI32, kI64, kU32, kU64]
   @ map (\<lambda>t. CallLLVMIntrinicFunc
       (FunctionSignature ''log'' [t] t) ''CallBuiltinLogFunction'') [kF32, kF64]
   @ map (\<lambda>t. CallLLVMIntrinicFunc
       (FunctionSignature ''log2'' [t] kF64) ''CallBuiltinLog2Function'') [kI32, kI64, kU32, kU64]
   @ map (\<lambda>t. CallLLVMIntrinicFunc
       (FunctionSignature ''log2'' [t] t) ''CallBuiltinLog2Function'') [kF32, kF64]
   @ map (\<lambda>t. CallLLVMIntrinicFunc
       (FunctionSignature ''log10'' [t] kF64) ''CallBuiltinLog10Function'') [kI32, kI64, kU32, kU64]
   @ map (\<lambda>t. CallLLVMIntrinicFunc
       (FunctionSignature ''log10'' [t] t) ''CallBuiltinLog10Function'') [kF32, kF64]"

definition InitFracFunc :: "register_call list" where
  "InitFracFunc =
     map (\<lambda>t. CallLLVMIntrinicFunc
       (FunctionSignature ''frac'' [t] t) ''CallBuiltinFracFunction'') [kF32, kF64]"

definition InitTruncFunc :: "register_call list" where
  "InitTruncFunc =
     map (\<lambda>t. CallLLVMIntrinicFunc
       (FunctionSignature ''trunc'' [t] t) ''CallBuiltinTruncFunction'') [kF32, kF64]"

definition InitPowFunc :: "register_call list" where
  "InitPowFunc =
     map (\<lambda>t. CallLLVMIntrinicFunc
       (FunctionSignature ''pow'' [t, kI32] t) ''CallBuiltinPowIFunction'') [kF32, kF64]
   @ map (\<lambda>t. CallLLVMIntrinicFunc
       (FunctionSignature ''pow'' [t, kI32] kF64) ''CallBuiltinPowIFunction'') [kI32, kI64]
   @ map (\<lambda>t. CallLLVMIntrinicFunc
       (FunctionSignature ''pow'' [t, t] t) ''CallBuiltinPowFunction'') [kF32, kF64]"

definition InitTrigonometricFunc :: "register_call list" where
  "InitTrigonometricFunc =
     map (\<lambda>t. CallLLVMIntrinicFunc
       (FunctionSignature ''sin'' [t] t) ''CallBuiltinSinFunction'') [kF32, kF64]
   @ map (\<lambda>t. CallLLVMIntrinicFunc
       (FunctionSignature ''cos'' [t] t) ''CallBuiltinCosFunction'') [kF32, kF64]
   @ map (\<lambda>t. CallLLVMIntrinicFunc
       (FunctionSignature ''tan'' [t] t) ''CallBuiltinTanFunction'') [kF32, kF64]"

definition InitSqrtFunc :: "register_call list" where
  "InitSqrtFunc =
     map (\<lambda>t. CallLLVMIntrinicFunc
       (FunctionSignature ''sqrt'' [t] t) ''CallBuiltinSqrtFunction'') [kF32, kF64]"

definition InitAbsFunc :: "register_call list" where
  "InitAbsFunc =
     map (\<lambda>t. CallLLVMIntrinicFunc
       (FunctionSignature ''abs'' [t] kI32) ''CallBuiltinAbsFunction'') [kI8, kI16, kI32]
   @ map (\<lambda>t. CallLLVMIntrinicFunc
       (FunctionSignature ''abs'' [t] t) ''CallBuiltinAbsFunction'') [kI64, kF32, kF64]"

definition InitCeilFunc :: "register_call list" where
  "InitCeilFunc =
     map (\<lambda>t. CallLLVMIntrinicFunc
       (FunctionSignature ''ceil'' [t] t) ''CallBuiltinCeilFunction'') [kF32, kF64]"

definition InitFloorFunc :: "register_call list" where
  "InitFloorFunc =
     map (\<lambda>t. CallLLVMIntrinicFunc
       (FunctionSignature ''floor'' [t] t) ''CallBuiltinFloorFunction'') [kF32, kF64]"

definition InitRoundFunc :: "register_call list" where
  "InitRoundFunc =
     map (\<lambda>t. CallLLVMIntrinicFunc
       (FunctionSignature ''round'' [t] t) ''CallBuiltinRoundFunction'') [kF32, kF64]"

definition InitMinFunc :: "register_call list" where
  "InitMinFunc =
     map (\<lambda>t. CallLLVMIntrinicFunc
       (FunctionSignature ''min'' [t, t] t) ''CallBuiltinMinFunction'') all_types"

definition InitMaxFunc :: "register_call list" where
  "InitMaxFunc =
     map (\<lambda>t. CallLLVMIntrinicFunc
       (FunctionSignature ''max'' [t, t] t) ''CallBuiltinMaxFunction'') all_types"

definition InitCastFunc :: "register_call list" where
  "InitCastFunc =
     concat (map (\<lambda>(fname, ret). map (\<lambda>args_type.
       CallLLVMIntrinicFunc (FunctionSignature fname [args_type] ret) ''CallBuiltinCastFunction'') pair_order)
     [(''CastU8'', kU8), (''CastI8'', kI8), (''CastU16'', kU16), (''CastI16'', kI16), (''CastU32'', kU32),
      (''CastI32'', kI32), (''CastU64'', kU64), (''CastI64'', kI64), (''CastF32'', kF32), (''CastF64'', kF64)])"

definition InitMathInternalFunc :: "register_call list" where
  "InitMathInternalFunc =
     InitExpFunc @ InitLogFunc @ InitFracFunc @ InitTruncFunc @ InitPowFunc @ InitTrigonometricFunc
     @ InitSqrtFunc @ InitAbsFunc @ InitCeilFunc @ InitFloorFunc @ InitRoundFunc @ InitMinFunc @ InitMaxFunc
     @ InitCastFunc"

section \<open>String functions\<close>

definition InitStringInternalFunc :: "register_call list" where
  "InitStringInternalFunc =
     [CallReadOnlyCFuncWithExecCtx
       (FunctionSignature ''StringConcat'' [kString, kString] kString) ''StringConcat'']
   @ [CallReadOnlyCFunc (FunctionSignature ''StringCmp'' [kString, kString] kI32) ''StringCmp'']
   @ [CallLLVMIntrinicFunc (FunctionSignature ''StringLen'' [kString] kU32) ''CallBuiltinStringLenFunction'']
   @ [CallReadOnlyCFunc (FunctionSignature ''StringContains'' [kString, kString] kU8) ''StringContains'']
   @ map (\<lambda>t. CallReadOnlyCFuncWithExecCtx
       (FunctionSignature ''CastString'' [t] kString)
       (instance_of ''CastNumericToString'' [c_name t])) pair_order
   @ [CallReadOnlyCFunc
       (FunctionSignature ''CastU8'' [kString] kU8) (instance_of ''CastStringToNumeric'' [''uint8_t''])]
   @ [CallReadOnlyCFunc
       (FunctionSignature ''CastI8'' [kString] kI8) (instance_of ''CastStringToNumeric'' [''int8_t''])]
   @ [CallReadOnlyCFunc
       (FunctionSignature ''CastU16'' [kString] kU16)
       (instance_of ''CastStringToNumeric'' [''uint16_t''])]
   @ [CallReadOnlyCFunc
       (FunctionSignature ''CastI16'' [kString] kI16)
       (instance_of ''CastStringToNumeric'' [''int16_t''])]
   @ [CallReadOnlyCFunc
       (FunctionSignature ''CastU32'' [kString] kU32)
       (instance_of ''CastStringToNumeric'' [''uint32_t''])]
   @ [CallReadOnlyCFunc
       (FunctionSignature ''CastI32'' [kString] kI32)
       (instance_of ''CastStringToNumeric'' [''int32_t''])]
   @ [CallReadOnlyCFunc
       (FunctionSignature ''CastU64'' [kString] kU64)
       (instance_of ''CastStringToNumeric'' [''uint64_t''])]
   @ [CallReadOnlyCFunc
       (FunctionSignature ''CastI64'' [kString] kI64)
       (instance_of ''CastStringToNumeric'' [''int64_t''])]"

section \<open>Arithmetic on lists\<close>

definition InitListAddFunc :: "register_call list" where
  "InitListAddFunc =
     map (\<lambda>t. CallReadOnlyCFuncWithExecCtx
       (FunctionSignature ''ListAdd'' [list_type t, t] (list_type t))
       (instance_of ''ListAdd'' [struct_name t])) all_types
   @ map (\<lambda>t. CallCommutativeCFuncWithExecCtx
       (FunctionSignature ''ListAdd'' [list_type t, list_type t] (list_type t))
       (instance_of ''ListAddList'' [struct_name t])) all_types"

definition InitListSubFunc :: "register_call list" where
  "InitListSubFunc =
     map (\<lambda>t. CallReadOnlyCFuncWithExecCtx
       (FunctionSignature ''ListSub'' [list_type t, t] (list_type t))
       (instance_of ''ListSub'' [struct_name t])) all_types
   @ map (\<lambda>t. CallReadOnlyCFuncWithExecCtx
       (FunctionSignature ''ListSub'' [list_type t, list_type t] (list_type t))
       (instance_of ''ListSubList'' [struct_name t])) all_types"

definition InitListMulFunc :: "register_call list" where
  "InitListMulFunc =
     map (\<lambda>t. CallReadOnlyCFuncWithExecCtx
       (FunctionSignature ''ListMul'' [list_type t, t] (list_type t))
       (instance_of ''ListMul'' [struct_name t])) all_types
   @ map (\<lambda>t. CallCommutativeCFuncWithExecCtx
       (FunctionSignature ''ListMul'' [list_type t, list_type t] (list_type t))
       (instance_of ''ListMulList'' [struct_name t])) all_types"

definition InitListDivFunc :: "register_call list" where
  "InitListDivFunc =
     map (\<lambda>t. CallReadOnlyCFuncWithExecCtx
       (FunctionSignature ''ListDiv'' [list_type t, t] (list_type t))
       (instance_of ''ListDiv'' [struct_name t])) all_types
   @ map (\<lambda>t. CallReadOnlyCFuncWithExecCtx
       (FunctionSignature ''ListDiv'' [list_type t, list_type t] (list_type t))
       (instance_of ''ListDivList'' [struct_name t])) all_types"

definition InitListModFunc :: "register_call list" where
  "InitListModFunc =
     map (\<lambda>t. CallReadOnlyCFuncWithExecCtx
       (FunctionSignature ''ListMod'' [list_type t, t] (list_type t))
       (instance_of ''ListMod'' [struct_name t])) integer_types
   @ map (\<lambda>t. CallReadOnlyCFuncWithExecCtx
       (FunctionSignature ''ListMod'' [list_type t, list_type t] (list_type t))
       (instance_of ''ListModList'' [struct_name t])) integer_types"

definition InitListBitwiseAndFunc :: "register_call list" where
  "InitListBitwiseAndFunc =
     map (\<lambda>t. CallReadOnlyCFuncWithExecCtx
       (FunctionSignature ''ListBitwiseAnd'' [list_type t, t] (list_type t))
       (instance_of ''ListBitwiseAnd'' [struct_name t])) integer_types
   @ map (\<lambda>t. CallCommutativeCFuncWithExecCtx
       (FunctionSignature ''ListBitwiseAnd'' [list_type t, list_type t] (list_type t))
       (instance_of ''ListBitwiseAndList'' [struct_name t])) integer_types"

definition InitListBitwiseOrFunc :: "register_call list" where
  "InitListBitwiseOrFunc =
     map (\<lambda>t. CallReadOnlyCFuncWithExecCtx
       (FunctionSignature ''ListBitwiseOr'' [list_type t, t] (list_type t))
       (instance_of ''ListBitwiseOr'' [struct_name t])) integer_types
   @ map (\<lambda>t. CallCommutativeCFuncWithExecCtx
       (FunctionSignature ''ListBitwiseOr'' [list_type t, list_type t] (list_type t))
       (instance_of ''ListBitwiseOrList'' [struct_name t])) integer_types"

definition InitListBitwiseXorFunc :: "register_call list" where
  "InitListBitwiseXorFunc =
     map (\<lambda>t. CallReadOnlyCFuncWithExecCtx
       (FunctionSignature ''ListBitwiseXor'' [list_type t, t] (list_type t))
       (instance_of ''ListBitwiseXor'' [struct_name t])) integer_types
   @ map (\<lambda>t. CallCommutativeCFuncWithExecCtx
       (FunctionSignature ''ListBitwiseXor'' [list_type t, list_type t] (list_type t))
       (instance_of ''ListBitwiseXorList'' [struct_name t])) integer_types"

definition InitListExpFunc :: "register_call list" where
  "InitListExpFunc =
     map (\<lambda>t. CallReadOnlyCFuncWithExecCtx
       (FunctionSignature ''ListExp'' [list_type t] kF64List)
       (instance_of ''ListExp'' [struct_name t, ''F64ListStruct''])) integer_types
   @ map (\<lambda>t. CallReadOnlyCFuncWithExecCtx
       (FunctionSignature ''ListExp'' [list_type t] (list_type t))
       (instance_of ''ListExp'' [struct_name t, struct_name t])) [kF32, kF64]"

definition InitListLogFunc :: "register_call list" where
  "InitListLogFunc =
     map (\<lambda>t. CallReadOnlyCFuncWithExecCtx
       (FunctionSignature ''ListLog'' [list_type t] kF64List)
       (instance_of ''ListLog'' [struct_name t, ''F64ListStruct''])) integer_types
   @ map (\<lambda>t. CallReadOnlyCFuncWithExecCtx
       (FunctionSignature ''ListLog'' [list_type t] (list_type t))
       (instance_of ''ListLog'' [struct_name t, struct_name t])) [kF32, kF64]"

definition InitListLog2Func :: "register_call list" where
  "InitListLog2Func =
     map (\<lambda>t. CallReadOnlyCFuncWithExecCtx
       (FunctionSignature ''ListLog2'' [list_type t] kF64List)
       (instance_of ''ListLog2'' [struct_name t, ''F64ListStruct''])) integer_types
   @ map (\<lambda>t. CallReadOnlyCFuncWithExecCtx
       (FunctionSignature ''ListLog2'' [list_type t] (list_type t))
       (instance_of ''ListLog2'' [struct_name t, struct_name t])) [kF32, kF64]"

definition InitListLog10Func :: "register_call list" where
  "InitListLog10Func =
     map (\<lambda>t. CallReadOnlyCFuncWithExecCtx
       (FunctionSignature ''ListLog10'' [list_type t] kF64List)
       (instance_of ''ListLog10'' [struct_name t, ''F64ListStruct''])) integer_types
   @ map (\<lambda>t. CallReadOnlyCFuncWithExecCtx
       (FunctionSignature ''ListLog10'' [list_type t] (list_type t))
       (instance_of ''ListLog10'' [struct_name t, struct_name t])) [kF32, kF64]"

definition InitListCeilFunc :: "register_call list" where
  "InitListCeilFunc =
     map (\<lambda>t. CallReadOnlyCFuncWithExecCtx
       (FunctionSignature ''ListCeil'' [list_type t] (list_type t))
       (instance_of ''ListCeil'' [struct_name t])) [kF32, kF64]"

definition InitListFloorFunc :: "register_call list" where
  "InitListFloorFunc =
     map (\<lambda>t. CallReadOnlyCFuncWithExecCtx
       (FunctionSignature ''ListFloor'' [list_type t] (list_type t))
       (instance_of ''ListFloor'' [struct_name t])) [kF32, kF64]"

definition InitListRoundFunc :: "register_call list" where
  "InitListRoundFunc =
     map (\<lambda>t. CallReadOnlyCFuncWithExecCtx
       (FunctionSignature ''ListRound'' [list_type t] (list_type t))
       (instance_of ''ListRound'' [struct_name t])) [kF32, kF64]"

definition InitListMinFunc :: "register_call list" where
  "InitListMinFunc =
     map (\<lambda>t. CallReadOnlyCFuncWithExecCtx
       (FunctionSignature ''ListMin'' [list_type t, t] (list_type t))
       (instance_of ''ListMin'' [struct_name t])) all_types"

definition InitListMaxFunc :: "register_call list" where
  "InitListMaxFunc =
     map (\<lambda>t. CallReadOnlyCFuncWithExecCtx
       (FunctionSignature ''ListMax'' [list_type t, t] (list_type t))
       (instance_of ''ListMax'' [struct_name t])) all_types"

definition InitListArithmeticFunc :: "register_call list" where
  "InitListArithmeticFunc =
     InitListAddFunc @ InitListSubFunc @ InitListMulFunc @ InitListDivFunc @ InitListModFunc
     @ InitListBitwiseAndFunc @ InitListBitwiseOrFunc @ InitListBitwiseXorFunc @ InitListExpFunc
     @ InitListLogFunc @ InitListLog2Func @ InitListLog10Func @ InitListCeilFunc @ InitListFloorFunc
     @ InitListRoundFunc @ InitListMinFunc @ InitListMaxFunc"

section \<open>Comparisons and bitmaps\<close>

definition InitIfLargeFunc :: "register_call list" where
  "InitIfLargeFunc =
     map (\<lambda>t. CallReadOnlyCFuncWithExecCtx
       (FunctionSignature ''IfLarge'' [list_type t, t, t] (list_type t))
       (instance_of ''IfLarge'' [struct_name t])) all_types"

definition InitIfLargeEqualFunc :: "register_call list" where
  "InitIfLargeEqualFunc =
     map (\<lambda>t. CallReadOnlyCFuncWithExecCtx
       (FunctionSignature ''IfLargeEqual'' [list_type t, t, t] (list_type t))
       (instance_of ''IfLargeEqual'' [struct_name t])) all_types"

definition InitIfEqualFunc :: "register_call list" where
  "InitIfEqualFunc =
     map (\<lambda>t. CallReadOnlyCFuncWithExecCtx
       (FunctionSignature ''IfEqual'' [list_type t, t, t] (list_type t))
       (instance_of ''IfEqual'' [struct_name t])) all_types"

definition InitIfLessFunc :: "register_call list" where
  "InitIfLessFunc =
     map (\<lambda>t. CallReadOnlyCFuncWithExecCtx
       (FunctionSignature ''IfLess'' [list_type t, t, t] (list_type t))
       (instance_of ''IfLess'' [struct_name t])) all_types"

definition InitIfLessEqualFunc :: "register_call list" where
  "InitIfLessEqualFunc =
     map (\<lambda>t. CallReadOnlyCFuncWithExecCtx
       (FunctionSignature ''IfLessEqual'' [list_type t, t, t] (list_type t))
       (instance_of ''IfLessEqual'' [struct_name t])) all_types"

definition InitIfNotEqualFunc :: "register_call list" where
  "InitIfNotEqualFunc =
     map (\<lambda>t. CallReadOnlyCFuncWithExecCtx
       (FunctionSignature ''IfNotEqual'' [list_type t, t, t] (list_type t))
       (instance_of ''IfNotEqual'' [struct_name t])) all_types"

definition InitIfByBitmapLLRB :: "register_call list" where
  "InitIfByBitmapLLRB =
     map (\<lambda>t. CallReadOnlyCFuncWithExecCtx
       (FunctionSignature ''IfByBitmap'' [kU8List, list_type t, t] (list_type t))
       (instance_of ''IfByBitmapLLRB'' [struct_name t])) all_types"

definition InitIfByBitmapLBRL :: "register_call list" where
  "InitIfByBitmapLBRL =
     map (\<lambda>t. CallReadOnlyCFuncWithExecCtx
       (FunctionSignature ''IfByBitmap'' [kU8List, t, list_type t] (list_type t))
       (instance_of ''IfByBitmapLBRL'' [struct_name t])) all_types"

definition InitIfByBitmapLLRL :: "register_call list" where
  "InitIfByBitmapLLRL =
     map (\<lambda>t. CallReadOnlyCFuncWithExecCtx
       (FunctionSignature ''IfByBitmap'' [kU8List, list_type t, list_type t] (list_type t))
       (instance_of ''IfByBitmapLLRL'' [struct_name t])) all_types"

definition InitGenLargeBitmapFunc :: "register_call list" where
  "InitGenLargeBitmapFunc =
     map (\<lambda>t. CallReadOnlyCFuncWithExecCtx
       (FunctionSignature ''GenLargeBitmap'' [list_type t, t] kU8List)
       (instance_of ''GenBitmap'' [struct_name t, ''BinaryOPType::kLarge''])) all_types"

definition InitGenLargeBitmapListFunc :: "register_call list" where
  "InitGenLargeBitmapListFunc =
     map (\<lambda>t. CallReadOnlyCFuncWithExecCtx
       (FunctionSignature ''GenLargeBitmap'' [list_type t, list_type t] kU8List)
       (instance_of ''GenBitmapList'' [struct_name t, ''BinaryOPType::kLarge''])) all_types"

definition InitGenLargeEqualBitmapFunc :: "register_call list" where
  "InitGenLargeEqualBitmapFunc =
     map (\<lambda>t. CallReadOnlyCFuncWithExecCtx
       (FunctionSignature ''GenLargeEqualBitmap'' [list_type t, t] kU8List)
       (instance_of ''GenBitmap'' [struct_name t, ''BinaryOPType::kLargeEqual''])) all_types"

definition InitGenLargeEqualBitmapListFunc :: "register_call list" where
  "InitGenLargeEqualBitmapListFunc =
     map (\<lambda>t. CallReadOnlyCFuncWithExecCtx
       (FunctionSignature ''GenLargeEqualBitmap'' [list_type t, list_type t] kU8List)
       (instance_of ''GenBitmapList'' [struct_name t, ''BinaryOPType::kLargeEqual''])) all_types"

definition InitGenEqualBitmapFunc :: "register_call list" where
  "InitGenEqualBitmapFunc =
     map (\<lambda>t. CallReadOnlyCFuncWithExecCtx
       (FunctionSignature ''GenEqualBitmap'' [list_type t, t] kU8List)
       (instance_of ''GenBitmap'' [struct_name t, ''BinaryOPType::kEqual''])) all_types"

definition InitGenEqualBitmapListFunc :: "register_call list" where
  "InitGenEqualBitmapListFunc =
     map (\<lambda>t. CallCommutativeCFuncWithExecCtx
       (FunctionSignature ''GenEqualBitmap'' [list_type t, list_type t] kU8List)
       (instance_of ''GenBitmapList'' [struct_name t, ''BinaryOPType::kEqual''])) all_types"

definition InitGenLessBitmapFunc :: "register_call list" where
  "InitGenLessBitmapFunc =
     map (\<lambda>t. CallReadOnlyCFuncWithExecCtx
       (FunctionSignature ''GenLessBitmap'' [list_type t, t] kU8List)
       (instance_of ''GenBitmap'' [struct_name t, ''BinaryOPType::kLess''])) all_types"

definition InitGenLessBitmapListFunc :: "register_call list" where
  "InitGenLessBitmapListFunc =
     map (\<lambda>t. CallReadOnlyCFuncWithExecCtx
       (FunctionSignature ''GenLessBitmap'' [list_type t, list_type t] kU8List)
       (instance_of ''GenBitmapList'' [struct_name t, ''BinaryOPType::kLess''])) all_types"

definition InitGenLessEqualBitmapFunc :: "register_call list" where
  "InitGenLessEqualBitmapFunc =
     map (\<lambda>t. CallReadOnlyCFuncWithExecCtx
       (FunctionSignature ''GenLessEqualBitmap'' [list_type t, t] kU8List)
       (instance_of ''GenBitmap'' [struct_name t, ''BinaryOPType::kLessEqual''])) all_types"

definition InitGenLessEqualBitmapListFunc :: "register_call list" where
  "InitGenLessEqualBitmapListFunc =
     map (\<lambda>t. CallReadOnlyCFuncWithExecCtx
       (FunctionSignature ''GenLessEqualBitmap'' [list_type t, list_type t] kU8List)
       (instance_of ''GenBitmapList'' [struct_name t, ''BinaryOPType::kLessEqual''])) all_types"

definition InitGenNotEqualBitmapFunc :: "register_call list" where
  "InitGenNotEqualBitmapFunc =
     map (\<lambda>t. CallReadOnlyCFuncWithExecCtx
       (FunctionSignature ''GenNotEqualBitmap'' [list_type t, t] kU8List)
       (instance_of ''GenBitmap'' [struct_name t, ''BinaryOPType::kNotEqual''])) all_types"

definition InitGenNotEqualBitmapListFunc :: "register_call list" where
  "InitGenNotEqualBitmapListFunc =
     map (\<lambda>t. CallCommutativeCFuncWithExecCtx
       (FunctionSignature ''GenNotEqualBitmap'' [list_type t, list_type t] kU8List)
       (instance_of ''GenBitmapList'' [struct_name t, ''BinaryOPType::kNotEqual''])) all_types"

definition InitFilterByBitmapFunc :: "register_call list" where
  "InitFilterByBitmapFunc =
     map (\<lambda>t. CallReadOnlyCFuncWithExecCtx
       (FunctionSignature ''FilterByBitmap'' [list_type t, kU8List, kU32] (list_type t))
       (instance_of ''FilterByBitmap'' [struct_name t])) all_types"

definition InitFilterByBitmapSugarFunc :: "register_call list" where
  "InitFilterByBitmapSugarFunc =
     map (\<lambda>t. CallLLVMIntrinicFunc
       (FunctionSignature ''FilterByBitmap'' [list_type t, kU8List] (list_type t))
       ''EmitFilterByBitmapSugar'') all_types"

definition InitIfFunc :: "register_call list" where
  "InitIfFunc =
     InitIfLargeFunc @ InitIfLargeEqualFunc @ InitIfEqualFunc @ InitIfLessFunc @ InitIfLessEqualFunc
     @ InitIfNotEqualFunc @ InitIfByBitmapLLRB @ InitIfByBitmapLBRL @ InitIfByBitmapLLRL"

definition InitFilterFunc :: "register_call list" where
  "InitFilterFunc =
     InitGenLargeBitmapFunc @ InitGenLargeBitmapListFunc @ InitGenLargeEqualBitmapFunc
     @ InitGenLargeEqualBitmapListFunc @ InitGenEqualBitmapFunc @ InitGenEqualBitmapListFunc
     @ InitGenLessBitmapFunc @ InitGenLessBitmapListFunc @ InitGenLessEqualBitmapFunc
     @ InitGenLessEqualBitmapListFunc @ InitGenNotEqualBitmapFunc @ InitGenNotEqualBitmapListFunc
     @ InitFilterByBitmapFunc @ InitFilterByBitmapSugarFunc"

definition InitListComparisonFunc :: "register_call list" where
  "InitListComparisonFunc =
     InitIfFunc @ InitFilterFunc"

section \<open>Aggregations\<close>

definition InitSumFunc :: "register_call list" where
  "InitSumFunc =
     [CallReadOnlyCFunc
       (FunctionSignature ''Sum'' [kU8List] kU64) (instance_of ''Sum'' [''uint64_t'', ''U8ListStruct''])]
   @ [CallReadOnlyCFunc
       (FunctionSignature ''Sum'' [kI8List] kI64) (instance_of ''Sum'' [''int64_t'', ''I8ListStruct''])]
   @ [CallReadOnlyCFunc
       (FunctionSignature ''Sum'' [kU16List] kU64)
       (instance_of ''Sum'' [''uint64_t'', ''U16ListStruct''])]
   @ [CallReadOnlyCFunc
       (FunctionSignature ''Sum'' [kI16List] kI64)
       (instance_of ''Sum'' [''int64_t'', ''I16ListStruct''])]
   @ [CallReadOnlyCFunc
       (FunctionSignature ''Sum'' [kU32List] kU64)
       (instance_of ''Sum'' [''uint64_t'', ''U32ListStruct''])]
   @ [CallReadOnlyCFunc
       (FunctionSignature ''Sum'' [kI32List] kI64)
       (instance_of ''Sum'' [''int64_t'', ''I32ListStruct''])]
   @ map (\<lambda>t. CallReadOnlyCFunc
       (FunctionSignature ''Sum'' [list_type t] t)
       (instance_of ''Sum'' [c_name t, struct_name t])) [kU64, kI64]
   @ map (\<lambda>t. CallReadOnlyCFunc
       (FunctionSignature ''Sum'' [list_type t] kF64)
       (instance_of ''Sum'' [''double'', struct_name t])) [kF32, kF64]"

definition InitMaxAggregationFunc :: "register_call list" where
  "InitMaxAggregationFunc =
     map (\<lambda>t. CallReadOnlyCFunc
       (FunctionSignature ''Max'' [list_type t] t) (instance_of ''Max'' [struct_name t])) pair_order"

definition InitMinAggregationFunc :: "register_call list" where
  "InitMinAggregationFunc =
     map (\<lambda>t. CallReadOnlyCFunc
       (FunctionSignature ''Min'' [list_type t] t) (instance_of ''Min'' [struct_name t])) pair_order"

definition InitCountDistinctFunc :: "register_call list" where
  "InitCountDistinctFunc =
     map (\<lambda>t. CallReadOnlyCFunc
       (FunctionSignature ''CountDistinct'' [list_type t] kU32)
       (instance_of ''CountDistinct'' [struct_name t])) pair_order"

definition InitCountBitsFunc :: "register_call list" where
  "InitCountBitsFunc =
     [CallReadOnlyCFunc (FunctionSignature ''CountBits'' [kU8List] kU32) ''CountBits'']"

definition InitMedianFunc :: "register_call list" where
  "InitMedianFunc =
     map (\<lambda>t. CallReadOnlyCFunc
       (FunctionSignature ''Median'' [list_type t] kF64)
       (instance_of ''Median'' [struct_name t])) pair_order"

definition InitSortedMedianFunc :: "register_call list" where
  "InitSortedMedianFunc =
     map (\<lambda>t. CallReadOnlyCFunc
       (FunctionSignature ''SortedMedian'' [list_type t] kF64)
       (instance_of ''SortedMedian'' [struct_name t])) pair_order"

definition InitGetAtFunc :: "register_call list" where
  "InitGetAtFunc =
     map (\<lambda>t. CallReadOnlyCFunc
       (FunctionSignature ''GetAt'' [list_type t, kU32] t)
       (instance_of ''GetAt'' [struct_name t])) pair_order"

definition InitAvgFunc :: "register_call list" where
  "InitAvgFunc =
     map (\<lambda>t. CallReadOnlyCFunc
       (FunctionSignature ''Avg'' [list_type t] kF64) (instance_of ''Avg'' [struct_name t])) pair_order"

definition InitListAggregationFunc :: "register_call list" where
  "InitListAggregationFunc =
     InitSumFunc @ InitMaxAggregationFunc @ InitMinAggregationFunc @ InitCountDistinctFunc @ InitCountBitsFunc
     @ InitGetAtFunc @ InitAvgFunc @ InitMedianFunc @ InitSortedMedianFunc"

section \<open>Basic list functions\<close>

definition InitCrossJoinFunc :: "register_call list" where
  "InitCrossJoinFunc =
     [CallReadOnlyCFuncWithExecCtx
       (FunctionSignature ''CrossJoin'' [kStringList, kStringList, kString] kStringList) ''CrossJoinString'']"

definition InitZipConcatFunc :: "register_call list" where
  "InitZipConcatFunc =
     [CallReadOnlyCFuncWithExecCtx
       (FunctionSignature ''ZipConcat'' [kStringList, kStringList, kString] kStringList) ''ZipConcatString'']"

definition InitUniqueFunc :: "register_call list" where
  "InitUniqueFunc =
     map (\<lambda>t. CallReadOnlyCFuncWithExecCtx
       (FunctionSignature ''Unique'' [list_type t] (list_type t))
       (instance_of ''Unique'' [struct_name t])) all_types
   @ [CallReadOnlyCFuncWithExecCtx (FunctionSignature ''Unique'' [kStringList] kStringList) ''UniqueString'']"

definition InitListConcatFunc :: "register_call list" where
  "InitListConcatFunc =
     map (\<lambda>t. CallReadOnlyCFuncWithExecCtx
       (FunctionSignature ''ListConcat'' [list_type t, list_type t] (list_type t))
       (instance_of ''ListConcat'' [struct_name t])) element_types"

definition InitInFunc :: "register_call list" where
  "InitInFunc =
     map (\<lambda>t. CallReadOnlyCFunc
       (FunctionSignature ''in'' [t, list_type t] kU8)
       (instance_of ''IsInList'' [struct_name t])) all_types
   @ [CallReadOnlyCFunc (FunctionSignature ''in'' [kString, kStringList] kU8) ''IsInStringList'']"

definition InitLenFunc :: "register_call list" where
  "InitLenFunc =
     map (\<lambda>t. CallLLVMIntrinicFunc
       (FunctionSignature ''Len'' [list_type t] kU32) ''CallBuiltinLenFunction'') element_types"

definition InitSortFunc :: "register_call list" where
  "InitSortFunc =
     map (\<lambda>t. CallReadOnlyCFuncWithExecCtx
       (FunctionSignature ''SortAsc'' [list_type t] (list_type t))
       (instance_of ''SortAsc'' [struct_name t])) all_types
   @ map (\<lambda>t. CallReadOnlyCFuncWithExecCtx
       (FunctionSignature ''SortDesc'' [list_type t] (list_type t))
       (instance_of ''SortDesc'' [struct_name t])) all_types"

definition InitTruncateFunc :: "register_call list" where
  "InitTruncateFunc =
     map (\<lambda>t. CallLLVMIntrinicFunc
       (FunctionSignature ''Truncate'' [list_type t, kU32] (list_type t))
       ''CallBuiltinTruncateFunction'') element_types"

definition InitHashFunc :: "register_call list" where
  "InitHashFunc =
     map (\<lambda>t. CallReadOnlyCFunc
       (FunctionSignature ''MurmurHash3X8632'' [list_type t] kU32)
       (instance_of ''MurmurHash3X8632'' [struct_name t])) all_types"

definition RegisterNumericListCast :: "string \<Rightarrow> value_type \<Rightarrow> value_type \<Rightarrow> register_call list" where
  "RegisterNumericListCast fname in_t out_t =
     (if in_t = out_t then []
      else [CallReadOnlyCFuncWithExecCtx (FunctionSignature fname [list_type in_t] (list_type out_t))
              (instance_of ''ListCastNumericToNumeric'' [struct_name in_t, struct_name out_t])])"

definition RegisterAllInputsForNumericListCast :: "string \<Rightarrow> value_type \<Rightarrow> register_call list" where
  "RegisterAllInputsForNumericListCast fname out_t =
     concat (map (\<lambda>in_t. RegisterNumericListCast fname in_t out_t) pair_order)
     @ (if IsFloatType out_t then []
        else [CallReadOnlyCFuncWithExecCtx (FunctionSignature fname [kStringList] (list_type out_t))
                (instance_of ''ListCastStringToNumeric'' [struct_name out_t])])"

definition InitListCastFunc :: "register_call list" where
  "InitListCastFunc =
     concat (map (\<lambda>(fname, t). RegisterAllInputsForNumericListCast fname t)
     [(''CastU8List'', kU8), (''CastI8List'', kI8), (''CastU16List'', kU16), (''CastI16List'', kI16), (''CastU32List'', kU32),
      (''CastI32List'', kI32), (''CastU64List'', kU64), (''CastI64List'', kI64), (''CastF32List'', kF32), (''CastF64List'', kF64)])
   @ map (\<lambda>t. CallReadOnlyCFuncWithExecCtx (FunctionSignature ''CastStringList'' [list_type t] kStringList)
       (instance_of ''ListCastNumericToString'' [struct_name t])) pair_order"

definition InitListBasicFunc :: "register_call list" where
  "InitListBasicFunc =
     InitListConcatFunc @ InitInFunc @ InitLenFunc @ InitSortFunc @ InitTruncateFunc @ InitHashFunc
     @ InitListCastFunc @ InitUniqueFunc @ InitCrossJoinFunc @ InitZipConcatFunc"

section \<open>Group functions\<close>

definition InitGroupIndexFunc :: "register_call list" where
  "InitGroupIndexFunc =
     map (\<lambda>t. CallReadOnlyCFuncWithExecCtx
       (FunctionSignature ''GroupIndex'' [list_type t] kU32List)
       (instance_of ''GroupIndex'' [struct_name t])) pair_order
   @ [CallReadOnlyCFuncWithExecCtx
       (FunctionSignature ''GroupIndex'' [kStringList] kU32List) ''GroupIndexString'']"

definition InitGroupCountFunc :: "register_call list" where
  "InitGroupCountFunc =
     [CallReadOnlyCFunc (FunctionSignature ''GroupCount'' [kU32List] kU32) ''GroupCount'']"

definition InitGroupKeysFunc :: "register_call list" where
  "InitGroupKeysFunc =
     map (\<lambda>t. CallReadOnlyCFuncWithExecCtx
       (FunctionSignature ''GroupKeys'' [list_type t, kU32List, kU32] (list_type t))
       (instance_of ''GroupKeys'' [struct_name t])) (pair_order @ [kString])"

definition InitGroupKeysSugarFunc :: "register_call list" where
  "InitGroupKeysSugarFunc =
     map (\<lambda>t. CallLLVMIntrinicFunc
       (FunctionSignature ''GroupKeys'' [list_type t, kU32List] (list_type t))
       ''EmitGroupKeysSugar'') (pair_order @ [kString])"

definition InitGroupSumFunc :: "register_call list" where
  "InitGroupSumFunc =
     map (\<lambda>t. CallReadOnlyCFuncWithExecCtx
       (FunctionSignature ''GroupSum'' [list_type t, kU32List, kU32] kI64List)
       (instance_of ''GroupSum'' [''I64ListStruct'', struct_name t])) [kI8, kI16, kI32, kI64]
   @ map (\<lambda>t. CallReadOnlyCFuncWithExecCtx
       (FunctionSignature ''GroupSum'' [list_type t, kU32List, kU32] kU64List)
       (instance_of ''GroupSum'' [''U64ListStruct'', struct_name t])) [kU8, kU16, kU32, kU64]
   @ map (\<lambda>t. CallReadOnlyCFuncWithExecCtx
       (FunctionSignature ''GroupSum'' [list_type t, kU32List, kU32] kF64List)
       (instance_of ''GroupSum'' [''F64ListStruct'', struct_name t])) [kF32, kF64]"

definition InitGroupSumSugarFunc :: "register_call list" where
  "InitGroupSumSugarFunc =
     map (\<lambda>t. CallLLVMIntrinicFunc
       (FunctionSignature ''GroupSum'' [list_type t, kU32List] kI64List)
       ''EmitGroupSumSugar'') [kI8, kI16, kI32, kI64]
   @ map (\<lambda>t. CallLLVMIntrinicFunc
       (FunctionSignature ''GroupSum'' [list_type t, kU32List] kU64List)
       ''EmitGroupSumSugar'') [kU8, kU16, kU32, kU64]
   @ map (\<lambda>t. CallLLVMIntrinicFunc
       (FunctionSignature ''GroupSum'' [list_type t, kU32List] kF64List)
       ''EmitGroupSumSugar'') [kF32, kF64]"

definition InitGroupMaxFunc :: "register_call list" where
  "InitGroupMaxFunc =
     map (\<lambda>t. CallReadOnlyCFuncWithExecCtx
       (FunctionSignature ''GroupMax'' [list_type t, kU32List, kU32] (list_type t))
       (instance_of ''GroupMax'' [struct_name t])) pair_order"

definition InitGroupMinFunc :: "register_call list" where
  "InitGroupMinFunc =
     map (\<lambda>t. CallReadOnlyCFuncWithExecCtx
       (FunctionSignature ''GroupMin'' [list_type t, kU32List, kU32] (list_type t))
       (instance_of ''GroupMin'' [struct_name t])) pair_order"

definition InitGroupMaxSugarFunc :: "register_call list" where
  "InitGroupMaxSugarFunc =
     map (\<lambda>t. CallLLVMIntrinicFunc
       (FunctionSignature ''GroupMax'' [list_type t, kU32List] (list_type t))
       ''EmitGroupMaxSugar'') pair_order"

definition InitGroupMinSugarFunc :: "register_call list" where
  "InitGroupMinSugarFunc =
     map (\<lambda>t. CallLLVMIntrinicFunc
       (FunctionSignature ''GroupMin'' [list_type t, kU32List] (list_type t))
       ''EmitGroupMinSugar'') pair_order"

definition InitGroupAvgFunc :: "register_call list" where
  "InitGroupAvgFunc =
     map (\<lambda>t. CallReadOnlyCFuncWithExecCtx
       (FunctionSignature ''GroupAvg'' [list_type t, kU32List, kU32] kF64List)
       (instance_of ''GroupAvg'' [struct_name t])) pair_order"

definition InitGroupAvgSugarFunc :: "register_call list" where
  "InitGroupAvgSugarFunc =
     map (\<lambda>t. CallLLVMIntrinicFunc
       (FunctionSignature ''GroupAvg'' [list_type t, kU32List] kF64List)
       ''EmitGroupAvgSugar'') pair_order"

definition InitListGroupFunc :: "register_call list" where
  "InitListGroupFunc =
     InitGroupIndexFunc @ InitGroupCountFunc @ InitGroupKeysFunc @ InitGroupKeysSugarFunc @ InitGroupSumFunc
     @ InitGroupSumSugarFunc @ InitGroupMaxFunc @ InitGroupMaxSugarFunc @ InitGroupMinFunc
     @ InitGroupMinSugarFunc @ InitGroupAvgFunc @ InitGroupAvgSugarFunc"

section \<open>Lookup and indexing\<close>

definition InitListLookupIndexFunc :: "register_call list" where
  "InitListLookupIndexFunc =
     concat (map (\<lambda>t.
       [CallReadOnlyCFuncWithExecCtx (FunctionSignature kBuildIntName [list_type t] kPtr) (instance_of ''BuildLookupTableInt'' [struct_name t]),
        CallReadOnlyCFuncWithExecCtx (FunctionSignature kLookupIntName [list_type t, kPtr] kU32List) (instance_of ''LookupTableInt'' [struct_name t])])
       pair_order)
   @ [CallReadOnlyCFuncWithExecCtx (FunctionSignature kBuildStringName [kStringList] kPtr) ''BuildLookupTableString'',
      CallReadOnlyCFuncWithExecCtx (FunctionSignature kLookupStringName [kStringList, kPtr] kU32List) ''LookupTableString'']
   @ map (\<lambda>t. CallLLVMIntrinicFunc (FunctionSignature ''ListLookupIndex'' [list_type t, list_type t] kU32List) ''CodegenListLookupIndex'')
       (pair_order @ [kString])"

definition InitFindFunc :: "register_call list" where
  "InitFindFunc =
     map (\<lambda>t. CallReadOnlyCFunc
       (FunctionSignature ''Find'' [list_type t, t] kU32)
       (instance_of ''Find'' [struct_name t])) pair_order
   @ [CallReadOnlyCFunc (FunctionSignature ''Find'' [kStringList, kString] kU32) ''FindString'']"

definition InitFindSortedFunc :: "register_call list" where
  "InitFindSortedFunc =
     map (\<lambda>t. CallReadOnlyCFunc
       (FunctionSignature ''FindSorted'' [list_type t, t] kU32)
       (instance_of ''FindSorted'' [struct_name t])) pair_order
   @ [CallReadOnlyCFunc (FunctionSignature ''FindSorted'' [kStringList, kString] kU32) ''FindSortedString'']"

definition InitFindMissFunc :: "register_call list" where
  "InitFindMissFunc =
     [CallLLVMIntrinicFunc (FunctionSignature ''FindMiss'' [] kU32) ''CodegenFindMiss'']"

definition InitListCompactFuncs :: "register_call list" where
  "InitListCompactFuncs =
     [CallReadOnlyCFuncWithExecCtx
       (FunctionSignature ''ListCompactPositions'' [kU32List] kU32List) ''ListCompactPositions'']
   @ [CallReadOnlyCFuncWithExecCtx
       (FunctionSignature ''ListCompactIndex'' [kU32List] kU32List) ''ListCompactIndex'']"

definition InitListGatherFunc :: "register_call list" where
  "InitListGatherFunc =
     map (\<lambda>t. CallReadOnlyCFuncWithExecCtx
       (FunctionSignature ''ListGather'' [list_type t, kU32List, t] (list_type t))
       (instance_of ''ListGather'' [struct_name t])) (pair_order @ [kString])"

definition InitBucketizeFunc :: "register_call list" where
  "InitBucketizeFunc =
     map (\<lambda>t. CallReadOnlyCFuncWithExecCtx
       (FunctionSignature ''Bucketize'' [list_type t, list_type t] kU32List)
       (instance_of ''Bucketize'' [struct_name t])) pair_order"

definition InitListIndexingFunc :: "register_call list" where
  "InitListIndexingFunc =
     InitListLookupIndexFunc @ InitFindFunc @ InitFindSortedFunc @ InitFindMissFunc @ InitListCompactFuncs
     @ InitListGatherFunc @ InitBucketizeFunc"

section \<open>The registry\<close>

definition InitListInternalFunc :: "register_call list" where
  "InitListInternalFunc =
     InitListArithmeticFunc @ InitListComparisonFunc @ InitListAggregationFunc @ InitListBasicFunc
     @ InitListGroupFunc @ InitListIndexingFunc"

text \<open>FunctionRegistry::Init on the empty map of FunctionRegistryFactory::CreateFunctionRegistry.\<close>

definition builtin_calls :: "register_call list" where
  "builtin_calls = InitMathInternalFunc @ InitStringInternalFunc @ InitListInternalFunc"

definition FunctionRegistryInit :: "(string \<Rightarrow> u64) \<Rightarrow> registry \<Rightarrow> status \<times> registry" where
  "FunctionRegistryInit addr reg = run_calls addr builtin_calls reg"

definition CreateFunctionRegistry :: "(string \<Rightarrow> u64) \<Rightarrow> status \<times> registry" where
  "CreateFunctionRegistry addr = FunctionRegistryInit addr []"

end
