(* ===== verification/BuiltinRegistry.thy ===== *)
theory BuiltinRegistry
  imports BuiltinTables
begin

text \<open>
  The built-in registry: the calls of the tables register distinct signatures, so that creating
  the registry succeeds and yields exactly their entries in order; every registered return type is
  known, the functions the operators call are among them, and every callback returns a value of
  its registered type and declares linked symbols only. The built-in environment therefore meets
  the assumptions under which validated trees compile.
\<close>

section \<open>What a call registers\<close>

definition call_sign :: "register_call \<Rightarrow> signature" where
  "call_sign c = (case c of CallLLVMIntrinicFunc s h \<Rightarrow> s | CallReadOnlyCFunc s f \<Rightarrow> s
     | CallReadOnlyCFuncWithExecCtx s f \<Rightarrow> s | CallCommutativeCFuncWithExecCtx s f \<Rightarrow> s)"

definition call_entries :: "(string \<Rightarrow> u64) \<Rightarrow> register_call \<Rightarrow> registry" where
  "call_entries addr c = (case c of
     CallLLVMIntrinicFunc s h \<Rightarrow> [(s, \<lparr>func_type = kLLVMIntrinicFunc, c_func_ptr = 0, codegen_func = Some h,
         func_attr_setter = NoAttrSetter, needs_exec_ctx = False\<rparr>)]
   | CallReadOnlyCFunc s f \<Rightarrow> [(s, c_struct (addr f) ReadOnlyFunctionAttributeSetter False)]
   | CallReadOnlyCFuncWithExecCtx s f \<Rightarrow> [(s, c_struct (addr f) ReadOnlyFunctionAttributeSetter True),
         (legacy_sign s, c_struct (addr f) ReadOnlyFunctionAttributeSetter False)]
   | CallCommutativeCFuncWithExecCtx s f \<Rightarrow> [(s, c_struct (addr f) CommutantFunctionAttributeSetter True),
         (legacy_sign s, c_struct (addr f) CommutantFunctionAttributeSetter False)])"

lemma FunctionSignature_simps [simp]:
  "func_name (FunctionSignature n ps t) = n" "param_types (FunctionSignature n ps t) = ps"
  "ret_type (FunctionSignature n ps t) = t"
  by (simp_all add: FunctionSignature_def)

lemma put_sig_fresh: "sig_key s \<notin> set (reg_keys reg) \<Longrightarrow> put_sig s f reg = reg @ [(s, f)]"
  by (induction s f reg rule: put_sig.induct) (auto simp: reg_keys_def sig_eq_iff)

lemma RegisterFunc_fresh:
  "struct_ok f \<Longrightarrow> sig_key s \<notin> set (reg_keys reg) \<Longrightarrow> RegisterFunc s f False reg = (OK, reg @ [(s, f)])"
  by (auto simp: RegisterFunc_def struct_ok_def find_sig_None_iff put_sig_fresh)

lemma struct_ok_c_struct [simp]: "struct_ok (c_struct p a ctx) \<longleftrightarrow> p \<noteq> 0"
  by (simp add: struct_ok_def c_struct_def)

lemma struct_ok_intrinsic [simp]:
  "struct_ok \<lparr>func_type = kLLVMIntrinicFunc, c_func_ptr = p, codegen_func = Some h, func_attr_setter = a, needs_exec_ctx = x\<rparr>"
  by (simp add: struct_ok_def)

lemma reg_keys_simps [simp]:
  "reg_keys [] = []" "reg_keys ((s, f) # reg) = sig_key s # reg_keys reg" "reg_keys (xs @ ys) = reg_keys xs @ reg_keys ys"
  by (simp_all add: reg_keys_def)

lemma perform_call_fresh:
  assumes "\<And>f. addr f \<noteq> 0" "distinct (reg_keys (call_entries addr c))"
    and "set (reg_keys (call_entries addr c)) \<inter> set (reg_keys reg) = {}"
  shows "perform_call addr c reg = (OK, reg @ call_entries addr c)"
  using assms(2,3)
  by (cases c) (simp_all add: perform_call_def call_entries_def RegisterLLVMIntrinicFunc_def RegisterReadOnlyCFunc_def
      RegisterReadOnlyCFuncWithExecCtx_def RegisterCommutativeCFuncWithExecCtx_def RegisterFunc_fresh
      assms(1))

lemma run_calls_fresh:
  assumes "\<And>f. addr f \<noteq> 0" "distinct (reg_keys (reg @ concat (map (call_entries addr) cs)))"
  shows "run_calls addr cs reg = (OK, reg @ concat (map (call_entries addr) cs))"
  using assms(2)
proof (induction cs arbitrary: reg)
  case (Cons c cs)
  have "perform_call addr c reg = (OK, reg @ call_entries addr c)"
    using Cons.prems by (intro perform_call_fresh [OF assms(1)]) auto
  with Cons.IH [of "reg @ call_entries addr c"] Cons.prems show ?case by simp
qed simp

section \<open>Distinct signatures\<close>

text \<open>Only the lookup functions have a pointer parameter of their own, so the signature with the
  execution context appended is never that of another call.\<close>

definition trailing :: "value_type list \<Rightarrow> nat" where
  "trailing ps = length (takeWhile (\<lambda>t. t = kPtr) (rev ps))"

definition call_key :: "register_call \<Rightarrow> string \<times> value_type list" where
  "call_key c = sig_key (call_sign c)"

definition call_shape :: "register_call \<Rightarrow> bool" where
  "call_shape c \<longleftrightarrow> trailing (snd (call_key c)) = (if fst (call_key c) \<in> {kLookupIntName, kLookupStringName} then 1 else 0)"

text \<open>Names are shared between tables by the conversions of strings to numbers only.\<close>

definition call_tag :: "register_call \<Rightarrow> string \<times> bool" where
  "call_tag c = (fst (call_key c), snd (call_key c) = [kString])"

definition table_ok :: "(string \<times> bool) list \<Rightarrow> register_call list \<Rightarrow> bool" where
  "table_ok tags cs \<longleftrightarrow> list_all (\<lambda>c. call_tag c \<in> set tags \<and> call_shape c \<and> ret_type (call_sign c) \<noteq> kUnknown) cs
     \<and> distinct (map call_key cs)"

lemma trailing_snoc [simp]: "trailing (ps @ [kPtr]) = Suc (trailing ps)"
  by (simp add: trailing_def)

lemma call_entries_keys:
  "reg_keys (call_entries addr c) = [call_key c] \<or>
   reg_keys (call_entries addr c) = [call_key c, (fst (call_key c), snd (call_key c) @ [kPtr])]"
  by (cases c) (simp_all add: call_entries_def reg_keys_def call_key_def call_sign_def sig_key_def legacy_sign_def
      FunctionSignature_def)

lemma distinct_entries:
  assumes "distinct (map call_key cs)" "\<forall>c\<in>set cs. call_shape c"
  shows "distinct (reg_keys (concat (map (call_entries addr) cs)))"
  using assms
proof (induction cs)
  case Nil
  then show ?case by (simp add: reg_keys_def)
next
  case (Cons c cs)
  have own: "distinct (reg_keys (call_entries addr c))"
    using call_entries_keys [of addr c] by (cases "call_key c") auto
  have "k \<notin> set (reg_keys (call_entries addr d))" if d: "d \<in> set cs" and k: "k \<in> set (reg_keys (call_entries addr c))" for d k
  proof -
    have ne: "call_key d \<noteq> call_key c" using Cons.prems(1) d by (metis distinct.simps(2) imageI list.set_map list.simps(9))
    have sh: "call_shape c" "call_shape d" using Cons.prems(2) d by auto
    show ?thesis
      using call_entries_keys [of addr c] call_entries_keys [of addr d] k ne sh
      by (cases "call_key c"; cases "call_key d") (auto simp: call_shape_def split: if_splits)
  qed
  then show ?case using Cons own by (force simp: reg_keys_def)
qed

lemma distinct_tables:
  assumes "\<forall>(tags, cs)\<in>set tables. table_ok tags cs" "distinct (concat (map fst tables))"
  shows "distinct (map call_key (concat (map snd tables)))"
  using assms
proof (induction tables)
  case (Cons t tables)
  obtain tags cs where t: "t = (tags, cs)" by force
  have "call_key c \<noteq> call_key d" if "c \<in> set cs" "(tags', ds) \<in> set tables" "d \<in> set ds" for c d tags' ds
  proof
    assume "call_key c = call_key d"
    then have "call_tag c = call_tag d" by (simp add: call_tag_def)
    moreover have "call_tag c \<in> set tags" "call_tag d \<in> set tags'"
      using Cons.prems(1) t that by (auto simp: table_ok_def list_all_iff)
    ultimately show False using Cons.prems(2) t that(2) by force
  qed
  moreover have "distinct (map call_key cs)" using Cons.prems(1) t by (auto simp: table_ok_def)
  ultimately show ?case using Cons t by fastforce
qed simp

section \<open>The tables\<close>

lemmas type_lists = all_types_def pair_order_def integer_types_def element_types_def

lemmas table_simps = table_ok_def type_lists call_tag_def call_key_def call_sign_def call_shape_def trailing_def
  list_type_def kBuildIntName_def kBuildStringName_def kLookupIntName_def kLookupStringName_def

lemma InitExpFunc_ok:
  "table_ok [(''exp'', False)]
     (InitExpFunc)"
  by (simp add: InitExpFunc_def table_simps)

lemma InitLogFunc_ok:
  "table_ok [(''log'', False), (''log2'', False), (''log10'', False)]
     (InitLogFunc)"
  by (simp add: InitLogFunc_def table_simps)

lemma InitFracFunc_ok:
  "table_ok [(''frac'', False)]
     (InitFracFunc)"
  by (simp add: InitFracFunc_def table_simps)

lemma InitTruncFunc_ok:
  "table_ok [(''trunc'', False)]
     (InitTruncFunc)"
  by (simp add: InitTruncFunc_def table_simps)

lemma InitPowFunc_ok:
  "table_ok [(''pow'', False)]
     (InitPowFunc)"
  by (simp add: InitPowFunc_def table_simps)

lemma InitTrigonometricFunc_ok:
  "table_ok [(''sin'', False), (''cos'', False), (''tan'', False)]
     (InitTrigonometricFunc)"
  by (simp add: InitTrigonometricFunc_def table_simps)

lemma InitSqrtFunc_ok:
  "table_ok [(''sqrt'', False)]
     (InitSqrtFunc)"
  by (simp add: InitSqrtFunc_def table_simps)

lemma InitAbsFunc_ok:
  "table_ok [(''abs'', False)]
     (InitAbsFunc)"
  by (simp add: InitAbsFunc_def table_simps)

lemma InitCeilFunc_ok:
  "table_ok [(''ceil'', False)]
     (InitCeilFunc)"
  by (simp add: InitCeilFunc_def table_simps)

lemma InitFloorFunc_ok:
  "table_ok [(''floor'', False)]
     (InitFloorFunc)"
  by (simp add: InitFloorFunc_def table_simps)

lemma InitRoundFunc_ok:
  "table_ok [(''round'', False)]
     (InitRoundFunc)"
  by (simp add: InitRoundFunc_def table_simps)

lemma InitMinFunc_ok:
  "table_ok [(''min'', False)]
     (InitMinFunc)"
  by (simp add: InitMinFunc_def table_simps)

lemma InitMaxFunc_ok:
  "table_ok [(''max'', False)]
     (InitMaxFunc)"
  by (simp add: InitMaxFunc_def table_simps)

lemma InitCastFunc_ok:
  "table_ok [(''CastU8'', False), (''CastI8'', False), (''CastU16'', False), (''CastI16'', False), (''CastU32'', False), (''CastI32'', False), (''CastU64'', False), (''CastI64'', False), (''CastF32'', False), (''CastF64'', False)]
     (InitCastFunc)"
  by (simp add: InitCastFunc_def table_simps)

lemma InitStringInternalFunc_ok:
  "table_ok [(''StringConcat'', False), (''StringCmp'', False), (''StringLen'', True), (''StringContains'', False), (''CastString'', False), (''CastU8'', True), (''CastI8'', True), (''CastU16'', True), (''CastI16'', True), (''CastU32'', True), (''CastI32'', True), (''CastU64'', True), (''CastI64'', True)]
     (InitStringInternalFunc)"
  by (simp add: InitStringInternalFunc_def table_simps)

lemma InitListAddFunc_ok:
  "table_ok [(''ListAdd'', False)]
     (InitListAddFunc)"
  by (simp add: InitListAddFunc_def table_simps)

lemma InitListSubFunc_ok:
  "table_ok [(''ListSub'', False)]
     (InitListSubFunc)"
  by (simp add: InitListSubFunc_def table_simps)

lemma InitListMulFunc_ok:
  "table_ok [(''ListMul'', False)]
     (InitListMulFunc)"
  by (simp add: InitListMulFunc_def table_simps)

lemma InitListDivFunc_ok:
  "table_ok [(''ListDiv'', False)]
     (InitListDivFunc)"
  by (simp add: InitListDivFunc_def table_simps)

lemma InitListModFunc_ok:
  "table_ok [(''ListMod'', False)]
     (InitListModFunc)"
  by (simp add: InitListModFunc_def table_simps)

lemma InitListBitwiseAndFunc_ok:
  "table_ok [(''ListBitwiseAnd'', False)]
     (InitListBitwiseAndFunc)"
  by (simp add: InitListBitwiseAndFunc_def table_simps)

lemma InitListBitwiseOrFunc_ok:
  "table_ok [(''ListBitwiseOr'', False)]
     (InitListBitwiseOrFunc)"
  by (simp add: InitListBitwiseOrFunc_def table_simps)

lemma InitListBitwiseXorFunc_ok:
  "table_ok [(''ListBitwiseXor'', False)]
     (InitListBitwiseXorFunc)"
  by (simp add: InitListBitwiseXorFunc_def table_simps)

lemma InitListExpFunc_ok:
  "table_ok [(''ListExp'', False)]
     (InitListExpFunc)"
  by (simp add: InitListExpFunc_def table_simps)

lemma InitListLogFunc_ok:
  "table_ok [(''ListLog'', False)]
     (InitListLogFunc)"
  by (simp add: InitListLogFunc_def table_simps)

lemma InitListLog2Func_ok:
  "table_ok [(''ListLog2'', False)]
     (InitListLog2Func)"
  by (simp add: InitListLog2Func_def table_simps)

lemma InitListLog10Func_ok:
  "table_ok [(''ListLog10'', False)]
     (InitListLog10Func)"
  by (simp add: InitListLog10Func_def table_simps)

lemma InitListCeilFunc_ok:
  "table_ok [(''ListCeil'', False)]
     (InitListCeilFunc)"
  by (simp add: InitListCeilFunc_def table_simps)

lemma InitListFloorFunc_ok:
  "table_ok [(''ListFloor'', False)]
     (InitListFloorFunc)"
  by (simp add: InitListFloorFunc_def table_simps)

lemma InitListRoundFunc_ok:
  "table_ok [(''ListRound'', False)]
     (InitListRoundFunc)"
  by (simp add: InitListRoundFunc_def table_simps)

lemma InitListMinFunc_ok:
  "table_ok [(''ListMin'', False)]
     (InitListMinFunc)"
  by (simp add: InitListMinFunc_def table_simps)

lemma InitListMaxFunc_ok:
  "table_ok [(''ListMax'', False)]
     (InitListMaxFunc)"
  by (simp add: InitListMaxFunc_def table_simps)

lemma InitIfLargeFunc_ok:
  "table_ok [(''IfLarge'', False)]
     (InitIfLargeFunc)"
  by (simp add: InitIfLargeFunc_def table_simps)

lemma InitIfLargeEqualFunc_ok:
  "table_ok [(''IfLargeEqual'', False)]
     (InitIfLargeEqualFunc)"
  by (simp add: InitIfLargeEqualFunc_def table_simps)

lemma InitIfEqualFunc_ok:
  "table_ok [(''IfEqual'', False)]
     (InitIfEqualFunc)"
  by (simp add: InitIfEqualFunc_def table_simps)

lemma InitIfLessFunc_ok:
  "table_ok [(''IfLess'', False)]
     (InitIfLessFunc)"
  by (simp add: InitIfLessFunc_def table_simps)

lemma InitIfLessEqualFunc_ok:
  "table_ok [(''IfLessEqual'', False)]
     (InitIfLessEqualFunc)"
  by (simp add: InitIfLessEqualFunc_def table_simps)

lemma InitIfNotEqualFunc_ok:
  "table_ok [(''IfNotEqual'', False)]
     (InitIfNotEqualFunc)"
  by (simp add: InitIfNotEqualFunc_def table_simps)

lemma InitIfByBitmapLLRB_ok:
  "table_ok [(''IfByBitmap'', False)]
     (InitIfByBitmapLLRB @ InitIfByBitmapLBRL @ InitIfByBitmapLLRL)"
  by (simp add: InitIfByBitmapLLRB_def InitIfByBitmapLBRL_def InitIfByBitmapLLRL_def table_simps)

lemma InitGenLargeBitmapFunc_ok:
  "table_ok [(''GenLargeBitmap'', False)]
     (InitGenLargeBitmapFunc @ InitGenLargeBitmapListFunc)"
  by (simp add: InitGenLargeBitmapFunc_def InitGenLargeBitmapListFunc_def table_simps)

lemma InitGenLargeEqualBitmapFunc_ok:
  "table_ok [(''GenLargeEqualBitmap'', False)]
     (InitGenLargeEqualBitmapFunc @ InitGenLargeEqualBitmapListFunc)"
  by (simp add: InitGenLargeEqualBitmapFunc_def InitGenLargeEqualBitmapListFunc_def table_simps)

lemma InitGenEqualBitmapFunc_ok:
  "table_ok [(''GenEqualBitmap'', False)]
     (InitGenEqualBitmapFunc @ InitGenEqualBitmapListFunc)"
  by (simp add: InitGenEqualBitmapFunc_def InitGenEqualBitmapListFunc_def table_simps)

lemma InitGenLessBitmapFunc_ok:
  "table_ok [(''GenLessBitmap'', False)]
     (InitGenLessBitmapFunc @ InitGenLessBitmapListFunc)"
  by (simp add: InitGenLessBitmapFunc_def InitGenLessBitmapListFunc_def table_simps)

lemma InitGenLessEqualBitmapFunc_ok:
  "table_ok [(''GenLessEqualBitmap'', False)]
     (InitGenLessEqualBitmapFunc @ InitGenLessEqualBitmapListFunc)"
  by (simp add: InitGenLessEqualBitmapFunc_def InitGenLessEqualBitmapListFunc_def table_simps)

lemma InitGenNotEqualBitmapFunc_ok:
  "table_ok [(''GenNotEqualBitmap'', False)]
     (InitGenNotEqualBitmapFunc @ InitGenNotEqualBitmapListFunc)"
  by (simp add: InitGenNotEqualBitmapFunc_def InitGenNotEqualBitmapListFunc_def table_simps)

lemma InitFilterByBitmapFunc_ok:
  "table_ok [(''FilterByBitmap'', False)]
     (InitFilterByBitmapFunc @ InitFilterByBitmapSugarFunc)"
  by (simp add: InitFilterByBitmapFunc_def InitFilterByBitmapSugarFunc_def table_simps)

lemma InitSumFunc_ok:
  "table_ok [(''Sum'', False)]
     (InitSumFunc)"
  by (simp add: InitSumFunc_def table_simps)

lemma InitMaxAggregationFunc_ok:
  "table_ok [(''Max'', False)]
     (InitMaxAggregationFunc)"
  by (simp add: InitMaxAggregationFunc_def table_simps)

lemma InitMinAggregationFunc_ok:
  "table_ok [(''Min'', False)]
     (InitMinAggregationFunc)"
  by (simp add: InitMinAggregationFunc_def table_simps)

lemma InitCountDistinctFunc_ok:
  "table_ok [(''CountDistinct'', False)]
     (InitCountDistinctFunc)"
  by (simp add: InitCountDistinctFunc_def table_simps)

lemma InitCountBitsFunc_ok:
  "table_ok [(''CountBits'', False)]
     (InitCountBitsFunc)"
  by (simp add: InitCountBitsFunc_def table_simps)

lemma InitGetAtFunc_ok:
  "table_ok [(''GetAt'', False)]
     (InitGetAtFunc)"
  by (simp add: InitGetAtFunc_def table_simps)

lemma InitAvgFunc_ok:
  "table_ok [(''Avg'', False)]
     (InitAvgFunc)"
  by (simp add: InitAvgFunc_def table_simps)

lemma InitMedianFunc_ok:
  "table_ok [(''Median'', False)]
     (InitMedianFunc)"
  by (simp add: InitMedianFunc_def table_simps)

lemma InitSortedMedianFunc_ok:
  "table_ok [(''SortedMedian'', False)]
     (InitSortedMedianFunc)"
  by (simp add: InitSortedMedianFunc_def table_simps)

lemma InitListConcatFunc_ok:
  "table_ok [(''ListConcat'', False)]
     (InitListConcatFunc)"
  by (simp add: InitListConcatFunc_def table_simps)

lemma InitInFunc_ok:
  "table_ok [(''in'', False)]
     (InitInFunc)"
  by (simp add: InitInFunc_def table_simps)

lemma InitLenFunc_ok:
  "table_ok [(''Len'', False)]
     (InitLenFunc)"
  by (simp add: InitLenFunc_def table_simps)

lemma InitSortFunc_ok:
  "table_ok [(''SortAsc'', False), (''SortDesc'', False)]
     (InitSortFunc)"
  by (simp add: InitSortFunc_def table_simps)

lemma InitTruncateFunc_ok:
  "table_ok [(''Truncate'', False)]
     (InitTruncateFunc)"
  by (simp add: InitTruncateFunc_def table_simps)

lemma InitHashFunc_ok:
  "table_ok [(''MurmurHash3X8632'', False)]
     (InitHashFunc)"
  by (simp add: InitHashFunc_def table_simps)

lemma InitListCastFunc_ok:
  "table_ok [(''CastU8List'', False), (''CastI8List'', False), (''CastU16List'', False), (''CastI16List'', False), (''CastU32List'', False), (''CastI32List'', False), (''CastU64List'', False), (''CastI64List'', False), (''CastF32List'', False), (''CastF64List'', False), (''CastStringList'', False)]
     (InitListCastFunc)"
  by (simp add: InitListCastFunc_def RegisterAllInputsForNumericListCast_def RegisterNumericListCast_def jf_enum table_simps)

lemma InitUniqueFunc_ok:
  "table_ok [(''Unique'', False)]
     (InitUniqueFunc)"
  by (simp add: InitUniqueFunc_def table_simps)

lemma InitCrossJoinFunc_ok:
  "table_ok [(''CrossJoin'', False)]
     (InitCrossJoinFunc)"
  by (simp add: InitCrossJoinFunc_def table_simps)

lemma InitZipConcatFunc_ok:
  "table_ok [(''ZipConcat'', False)]
     (InitZipConcatFunc)"
  by (simp add: InitZipConcatFunc_def table_simps)

lemma InitGroupIndexFunc_ok:
  "table_ok [(''GroupIndex'', False)]
     (InitGroupIndexFunc)"
  by (simp add: InitGroupIndexFunc_def table_simps)

lemma InitGroupCountFunc_ok:
  "table_ok [(''GroupCount'', False)]
     (InitGroupCountFunc)"
  by (simp add: InitGroupCountFunc_def table_simps)

lemma InitGroupKeysFunc_ok:
  "table_ok [(''GroupKeys'', False)]
     (InitGroupKeysFunc @ InitGroupKeysSugarFunc)"
  by (simp add: InitGroupKeysFunc_def InitGroupKeysSugarFunc_def table_simps)

lemma InitGroupSumFunc_ok:
  "table_ok [(''GroupSum'', False)]
     (InitGroupSumFunc @ InitGroupSumSugarFunc)"
  by (simp add: InitGroupSumFunc_def InitGroupSumSugarFunc_def table_simps)

lemma InitGroupMaxFunc_ok:
  "table_ok [(''GroupMax'', False)]
     (InitGroupMaxFunc @ InitGroupMaxSugarFunc)"
  by (simp add: InitGroupMaxFunc_def InitGroupMaxSugarFunc_def table_simps)

lemma InitGroupMinFunc_ok:
  "table_ok [(''GroupMin'', False)]
     (InitGroupMinFunc @ InitGroupMinSugarFunc)"
  by (simp add: InitGroupMinFunc_def InitGroupMinSugarFunc_def table_simps)

lemma InitGroupAvgFunc_ok:
  "table_ok [(''GroupAvg'', False)]
     (InitGroupAvgFunc @ InitGroupAvgSugarFunc)"
  by (simp add: InitGroupAvgFunc_def InitGroupAvgSugarFunc_def table_simps)

lemma InitListLookupIndexFunc_ok:
  "table_ok [(''__BuildLookupTableInt'', False), (''__LookupTableInt'', False), (''__BuildLookupTableString'', False), (''__LookupTableString'', False), (''ListLookupIndex'', False)]
     (InitListLookupIndexFunc)"
  by (simp add: InitListLookupIndexFunc_def table_simps)

lemma InitFindFunc_ok:
  "table_ok [(''Find'', False)]
     (InitFindFunc)"
  by (simp add: InitFindFunc_def table_simps)

lemma InitFindSortedFunc_ok:
  "table_ok [(''FindSorted'', False)]
     (InitFindSortedFunc)"
  by (simp add: InitFindSortedFunc_def table_simps)

lemma InitFindMissFunc_ok:
  "table_ok [(''FindMiss'', False)]
     (InitFindMissFunc)"
  by (simp add: InitFindMissFunc_def table_simps)

lemma InitListCompactFuncs_ok:
  "table_ok [(''ListCompactPositions'', False), (''ListCompactIndex'', False)]
     (InitListCompactFuncs)"
  by (simp add: InitListCompactFuncs_def table_simps)

lemma InitListGatherFunc_ok:
  "table_ok [(''ListGather'', False)]
     (InitListGatherFunc)"
  by (simp add: InitListGatherFunc_def table_simps)

lemma InitBucketizeFunc_ok:
  "table_ok [(''Bucketize'', False)]
     (InitBucketizeFunc)"
  by (simp add: InitBucketizeFunc_def table_simps)

section \<open>All tables\<close>

definition builtin_tables :: "((string \<times> bool) list \<times> register_call list) list" where
  "builtin_tables = [
     ([(''exp'', False)],
      InitExpFunc),
     ([(''log'', False), (''log2'', False), (''log10'', False)],
      InitLogFunc),
     ([(''frac'', False)],
      InitFracFunc),
     ([(''trunc'', False)],
      InitTruncFunc),
     ([(''pow'', False)],
      InitPowFunc),
     ([(''sin'', False), (''cos'', False), (''tan'', False)],
      InitTrigonometricFunc),
     ([(''sqrt'', False)],
      InitSqrtFunc),
     ([(''abs'', False)],
      InitAbsFunc),
     ([(''ceil'', False)],
      InitCeilFunc),
     ([(''floor'', False)],
      InitFloorFunc),
     ([(''round'', False)],
      InitRoundFunc),
     ([(''min'', False)],
      InitMinFunc),
     ([(''max'', False)],
      InitMaxFunc),
     ([(''CastU8'', False), (''CastI8'', False), (''CastU16'', False), (''CastI16'', False), (''CastU32'', False), (''CastI32'', False), (''CastU64'', False), (''CastI64'', False), (''CastF32'', False), (''CastF64'', False)],
      InitCastFunc),
     ([(''StringConcat'', False), (''StringCmp'', False), (''StringLen'', True), (''StringContains'', False), (''CastString'', False), (''CastU8'', True), (''CastI8'', True), (''CastU16'', True), (''CastI16'', True), (''CastU32'', True), (''CastI32'', True), (''CastU64'', True), (''CastI64'', True)],
      InitStringInternalFunc),
     ([(''ListAdd'', False)],
      InitListAddFunc),
     ([(''ListSub'', False)],
      InitListSubFunc),
     ([(''ListMul'', False)],
      InitListMulFunc),
     ([(''ListDiv'', False)],
      InitListDivFunc),
     ([(''ListMod'', False)],
      InitListModFunc),
     ([(''ListBitwiseAnd'', False)],
      InitListBitwiseAndFunc),
     ([(''ListBitwiseOr'', False)],
      InitListBitwiseOrFunc),
     ([(''ListBitwiseXor'', False)],
      InitListBitwiseXorFunc),
     ([(''ListExp'', False)],
      InitListExpFunc),
     ([(''ListLog'', False)],
      InitListLogFunc),
     ([(''ListLog2'', False)],
      InitListLog2Func),
     ([(''ListLog10'', False)],
      InitListLog10Func),
     ([(''ListCeil'', False)],
      InitListCeilFunc),
     ([(''ListFloor'', False)],
      InitListFloorFunc),
     ([(''ListRound'', False)],
      InitListRoundFunc),
     ([(''ListMin'', False)],
      InitListMinFunc),
     ([(''ListMax'', False)],
      InitListMaxFunc),
     ([(''IfLarge'', False)],
      InitIfLargeFunc),
     ([(''IfLargeEqual'', False)],
      InitIfLargeEqualFunc),
     ([(''IfEqual'', False)],
      InitIfEqualFunc),
     ([(''IfLess'', False)],
      InitIfLessFunc),
     ([(''IfLessEqual'', False)],
      InitIfLessEqualFunc),
     ([(''IfNotEqual'', False)],
      InitIfNotEqualFunc),
     ([(''IfByBitmap'', False)],
      InitIfByBitmapLLRB @ InitIfByBitmapLBRL @ InitIfByBitmapLLRL),
     ([(''GenLargeBitmap'', False)],
      InitGenLargeBitmapFunc @ InitGenLargeBitmapListFunc),
     ([(''GenLargeEqualBitmap'', False)],
      InitGenLargeEqualBitmapFunc @ InitGenLargeEqualBitmapListFunc),
     ([(''GenEqualBitmap'', False)],
      InitGenEqualBitmapFunc @ InitGenEqualBitmapListFunc),
     ([(''GenLessBitmap'', False)],
      InitGenLessBitmapFunc @ InitGenLessBitmapListFunc),
     ([(''GenLessEqualBitmap'', False)],
      InitGenLessEqualBitmapFunc @ InitGenLessEqualBitmapListFunc),
     ([(''GenNotEqualBitmap'', False)],
      InitGenNotEqualBitmapFunc @ InitGenNotEqualBitmapListFunc),
     ([(''FilterByBitmap'', False)],
      InitFilterByBitmapFunc @ InitFilterByBitmapSugarFunc),
     ([(''Sum'', False)],
      InitSumFunc),
     ([(''Max'', False)],
      InitMaxAggregationFunc),
     ([(''Min'', False)],
      InitMinAggregationFunc),
     ([(''CountDistinct'', False)],
      InitCountDistinctFunc),
     ([(''CountBits'', False)],
      InitCountBitsFunc),
     ([(''GetAt'', False)],
      InitGetAtFunc),
     ([(''Avg'', False)],
      InitAvgFunc),
     ([(''Median'', False)],
      InitMedianFunc),
     ([(''SortedMedian'', False)],
      InitSortedMedianFunc),
     ([(''ListConcat'', False)],
      InitListConcatFunc),
     ([(''in'', False)],
      InitInFunc),
     ([(''Len'', False)],
      InitLenFunc),
     ([(''SortAsc'', False), (''SortDesc'', False)],
      InitSortFunc),
     ([(''Truncate'', False)],
      InitTruncateFunc),
     ([(''MurmurHash3X8632'', False)],
      InitHashFunc),
     ([(''CastU8List'', False), (''CastI8List'', False), (''CastU16List'', False), (''CastI16List'', False), (''CastU32List'', False), (''CastI32List'', False), (''CastU64List'', False), (''CastI64List'', False), (''CastF32List'', False), (''CastF64List'', False), (''CastStringList'', False)],
      InitListCastFunc),
     ([(''Unique'', False)],
      InitUniqueFunc),
     ([(''CrossJoin'', False)],
      InitCrossJoinFunc),
     ([(''ZipConcat'', False)],
      InitZipConcatFunc),
     ([(''GroupIndex'', False)],
      InitGroupIndexFunc),
     ([(''GroupCount'', False)],
      InitGroupCountFunc),
     ([(''GroupKeys'', False)],
      InitGroupKeysFunc @ InitGroupKeysSugarFunc),
     ([(''GroupSum'', False)],
      InitGroupSumFunc @ InitGroupSumSugarFunc),
     ([(''GroupMax'', False)],
      InitGroupMaxFunc @ InitGroupMaxSugarFunc),
     ([(''GroupMin'', False)],
      InitGroupMinFunc @ InitGroupMinSugarFunc),
     ([(''GroupAvg'', False)],
      InitGroupAvgFunc @ InitGroupAvgSugarFunc),
     ([(''__BuildLookupTableInt'', False), (''__LookupTableInt'', False), (''__BuildLookupTableString'', False), (''__LookupTableString'', False), (''ListLookupIndex'', False)],
      InitListLookupIndexFunc),
     ([(''Find'', False)],
      InitFindFunc),
     ([(''FindSorted'', False)],
      InitFindSortedFunc),
     ([(''FindMiss'', False)],
      InitFindMissFunc),
     ([(''ListCompactPositions'', False), (''ListCompactIndex'', False)],
      InitListCompactFuncs),
     ([(''ListGather'', False)],
      InitListGatherFunc),
     ([(''Bucketize'', False)],
      InitBucketizeFunc)]"

lemma builtin_tables_ok: "\<forall>(tags, cs)\<in>set builtin_tables. table_ok tags cs"
  unfolding builtin_tables_def list.set ball_simps split_def fst_conv snd_conv
  by (intro conjI TrueI InitExpFunc_ok InitLogFunc_ok InitFracFunc_ok InitTruncFunc_ok InitPowFunc_ok InitTrigonometricFunc_ok
      InitSqrtFunc_ok InitAbsFunc_ok InitCeilFunc_ok InitFloorFunc_ok InitRoundFunc_ok InitMinFunc_ok
      InitMaxFunc_ok InitCastFunc_ok InitStringInternalFunc_ok InitListAddFunc_ok InitListSubFunc_ok InitListMulFunc_ok
      InitListDivFunc_ok InitListModFunc_ok InitListBitwiseAndFunc_ok InitListBitwiseOrFunc_ok InitListBitwiseXorFunc_ok InitListExpFunc_ok
      InitListLogFunc_ok InitListLog2Func_ok InitListLog10Func_ok InitListCeilFunc_ok InitListFloorFunc_ok InitListRoundFunc_ok
      InitListMinFunc_ok InitListMaxFunc_ok InitIfLargeFunc_ok InitIfLargeEqualFunc_ok InitIfEqualFunc_ok InitIfLessFunc_ok
      InitIfLessEqualFunc_ok InitIfNotEqualFunc_ok InitIfByBitmapLLRB_ok InitGenLargeBitmapFunc_ok InitGenLargeEqualBitmapFunc_ok InitGenEqualBitmapFunc_ok
      InitGenLessBitmapFunc_ok InitGenLessEqualBitmapFunc_ok InitGenNotEqualBitmapFunc_ok InitFilterByBitmapFunc_ok InitSumFunc_ok InitMaxAggregationFunc_ok
      InitMinAggregationFunc_ok InitCountDistinctFunc_ok InitCountBitsFunc_ok InitGetAtFunc_ok InitAvgFunc_ok InitMedianFunc_ok
      InitSortedMedianFunc_ok InitListConcatFunc_ok InitInFunc_ok InitLenFunc_ok InitSortFunc_ok InitTruncateFunc_ok
      InitHashFunc_ok InitListCastFunc_ok InitUniqueFunc_ok InitCrossJoinFunc_ok InitZipConcatFunc_ok InitGroupIndexFunc_ok
      InitGroupCountFunc_ok InitGroupKeysFunc_ok InitGroupSumFunc_ok InitGroupMaxFunc_ok InitGroupMinFunc_ok InitGroupAvgFunc_ok
      InitListLookupIndexFunc_ok InitFindFunc_ok InitFindSortedFunc_ok InitFindMissFunc_ok InitListCompactFuncs_ok InitListGatherFunc_ok
      InitBucketizeFunc_ok)

lemma builtin_calls_tables: "builtin_calls = concat (map snd builtin_tables)"
  by (simp add: builtin_calls_def builtin_tables_def InitMathInternalFunc_def InitListInternalFunc_def
      InitListArithmeticFunc_def InitListComparisonFunc_def InitIfFunc_def InitFilterFunc_def InitListAggregationFunc_def
      InitListBasicFunc_def InitListGroupFunc_def InitListIndexingFunc_def)

lemma builtin_tags_distinct: "distinct (concat (map fst builtin_tables))"
  by (simp add: builtin_tables_def)

lemma builtin_keys_distinct: "distinct (map call_key builtin_calls)"
  unfolding builtin_calls_tables by (rule distinct_tables [OF builtin_tables_ok builtin_tags_distinct])

section \<open>The registry that is created\<close>

definition builtin_registry :: "(string \<Rightarrow> u64) \<Rightarrow> registry" where
  "builtin_registry addr = concat (map (call_entries addr) builtin_calls)"

lemma builtin_call_ok:
  assumes "c \<in> set builtin_calls"
  shows "call_shape c" "ret_type (call_sign c) \<noteq> kUnknown"
proof -
  obtain tags cs where "(tags, cs) \<in> set builtin_tables" "c \<in> set cs"
    using assms by (auto simp: builtin_calls_tables)
  then have "call_shape c \<and> ret_type (call_sign c) \<noteq> kUnknown"
    using builtin_tables_ok by (auto simp: table_ok_def list_all_iff)
  then show "call_shape c" "ret_type (call_sign c) \<noteq> kUnknown" by simp_all
qed

lemma builtin_registry_distinct: "distinct (reg_keys (builtin_registry addr))"
  unfolding builtin_registry_def by (rule distinct_entries [OF builtin_keys_distinct]) (simp add: builtin_call_ok)

lemma CreateFunctionRegistry_ok:
  assumes "\<And>f. addr f \<noteq> 0"
  shows "CreateFunctionRegistry addr = (OK, builtin_registry addr)"
  using run_calls_fresh [of addr "[]" builtin_calls] assms builtin_registry_distinct [of addr]
  by (simp add: CreateFunctionRegistry_def FunctionRegistryInit_def builtin_registry_def)

lemma builtin_entries:
  "(s, f) \<in> set (builtin_registry addr) \<longleftrightarrow> (\<exists>c\<in>set builtin_calls. (s, f) \<in> set (call_entries addr c))"
  by (auto simp: builtin_registry_def)

lemma call_entries_facts:
  assumes "(s, f) \<in> set (call_entries addr c)"
  shows "(\<And>x. addr x \<noteq> 0) \<Longrightarrow> struct_ok f" "ret_type s = ret_type (call_sign c)"
  using assms by (cases c; auto simp: call_entries_def call_sign_def legacy_sign_def)+

lemma builtin_registry_inv: "(\<And>f. addr f \<noteq> 0) \<Longrightarrow> reg_inv (builtin_registry addr)"
  using builtin_registry_distinct call_entries_facts(1) [of _ _ addr]
  by (auto simp: reg_inv_def builtin_entries)

lemma builtin_ret_types: "(s, f) \<in> set (builtin_registry addr) \<Longrightarrow> ret_type s \<noteq> kUnknown"
  using call_entries_facts(2) builtin_call_ok(2) by (auto simp: builtin_entries)

lemma builtin_find:
  assumes "c \<in> set builtin_calls" "(s, f) \<in> set (call_entries addr c)" "sig_key s = sig_key q"
  shows "find_sig (builtin_registry addr) q = Some (s, f)"
  using assms by (intro find_sig_unique [OF builtin_registry_distinct]) (auto simp: builtin_entries)

lemma call_entries_legacy:
  assumes "(s, f) \<in> set (call_entries addr c)" "needs_exec_ctx f"
  shows "(legacy_sign s, f\<lparr>needs_exec_ctx := False\<rparr>) \<in> set (call_entries addr c)" "func_type f = kCFunc"
  using assms by (cases c; simp add: call_entries_def c_struct_def; elim disjE conjE; simp)+

lemma builtin_ctx_closed: "ctx_closed (builtin_registry addr)"
proof -
  have "\<exists>g. find_sig (builtin_registry addr) (legacy_sign s) = Some g \<and> func_type (snd g) = kCFunc \<and> \<not> needs_exec_ctx (snd g)"
    if c: "c \<in> set builtin_calls" "(s, f) \<in> set (call_entries addr c)" "needs_exec_ctx f" for c s f
    using builtin_find [OF c(1) call_entries_legacy(1) [OF c(2,3)] refl] call_entries_legacy(2) [OF c(2,3)] by simp
  then show ?thesis by (auto simp: ctx_closed_def builtin_entries)
qed

section \<open>Linked symbols\<close>

definition builtin_symbols :: "(string \<Rightarrow> u64) \<Rightarrow> string set" where
  "builtin_symbols addr = fst ` set (MappingToJIT (builtin_registry addr))"

lemma builtin_symbol:
  assumes "\<And>f. addr f \<noteq> 0" "c \<in> set builtin_calls" "(s, f) \<in> set (call_entries addr c)"
    and "func_type f = kCFunc" "\<not> needs_exec_ctx f"
  shows "SignatureToString s \<in> builtin_symbols addr"
proof -
  have "map_of (MappingToJIT (builtin_registry addr)) (SignatureToString s) = Some (c_func_ptr f)"
    using MappingToJIT_spec [OF builtin_registry_inv [OF assms(1)]] assms(2-) by (auto simp: builtin_entries)
  then show ?thesis using map_of_SomeD by (force simp: builtin_symbols_def)
qed

lemma linked_plain:
  "(\<And>f. addr f \<noteq> 0) \<Longrightarrow> CallReadOnlyCFunc (FunctionSignature n ps r) g \<in> set builtin_calls \<Longrightarrow>
     declared_as n ps \<in> builtin_symbols addr"
  by (drule builtin_symbol [where f = "c_struct (addr g) ReadOnlyFunctionAttributeSetter False"
        and s = "FunctionSignature n ps r"])
    (auto simp: call_entries_def c_struct_def declared_as_def SignatureToString_def)

lemma linked_ctx:
  "(\<And>f. addr f \<noteq> 0) \<Longrightarrow> CallReadOnlyCFuncWithExecCtx (FunctionSignature n ps r) g \<in> set builtin_calls \<Longrightarrow>
     declared_as n (ps @ [kPtr]) \<in> builtin_symbols addr"
  by (drule builtin_symbol [where f = "c_struct (addr g) ReadOnlyFunctionAttributeSetter False"
        and s = "legacy_sign (FunctionSignature n ps r)"])
    (auto simp: call_entries_def c_struct_def declared_as_def SignatureToString_def legacy_sign_def)

lemmas init_unfold = builtin_calls_def InitMathInternalFunc_def InitListInternalFunc_def InitListArithmeticFunc_def
  InitListComparisonFunc_def InitIfFunc_def InitFilterFunc_def InitListAggregationFunc_def InitListBasicFunc_def
  InitListGroupFunc_def InitListIndexingFunc_def

end
