(* ===== verification/BuiltinCallbacks.thy ===== *)
theory BuiltinCallbacks
  imports BuiltinRegistry
begin

text \<open>
  The callbacks of the built-in tables return values of the registered types and declare symbols
  that are linked; the environment of the built-in registry meets the assumptions of the code
  generator.
\<close>

section \<open>The callbacks of the tables\<close>

definition emits_ok :: "string set \<Rightarrow> register_call \<Rightarrow> bool" where
  "emits_ok L c = (case c of CallLLVMIntrinicFunc s h \<Rightarrow> codegen_ok L (builtin_codegen h) s | _ \<Rightarrow> True)"

lemma list_all_tables:
  "list_all P (map f xs) \<longleftrightarrow> (\<forall>x\<in>set xs. P (f x))" "list_all P (concat xss) \<longleftrightarrow> (\<forall>xs\<in>set xss. list_all P xs)"
  by (simp_all add: list_all_iff)

lemma emits_ok_simps [simp]:
  "emits_ok L (CallLLVMIntrinicFunc s h) = codegen_ok L (builtin_codegen h) s"
  "emits_ok L (CallReadOnlyCFunc s f)" "emits_ok L (CallReadOnlyCFuncWithExecCtx s f)"
  "emits_ok L (CallCommutativeCFuncWithExecCtx s f)"
  by (simp_all add: emits_ok_def)

lemma builtin_codegen_simps [simp]:
  "builtin_codegen ''CallBuiltinExpFunction'' = CallBuiltinExpFunction"
  "builtin_codegen ''CallBuiltinLogFunction'' = CallBuiltinLogFunction"
  "builtin_codegen ''CallBuiltinLog2Function'' = CallBuiltinLog2Function"
  "builtin_codegen ''CallBuiltinLog10Function'' = CallBuiltinLog10Function"
  "builtin_codegen ''CallBuiltinFracFunction'' = CallBuiltinFracFunction"
  "builtin_codegen ''CallBuiltinTruncFunction'' = CallBuiltinTruncFunction"
  "builtin_codegen ''CallBuiltinPowIFunction'' = CallBuiltinPowIFunction"
  "builtin_codegen ''CallBuiltinPowFunction'' = CallBuiltinPowFunction"
  "builtin_codegen ''CallBuiltinSinFunction'' = CallBuiltinSinFunction"
  "builtin_codegen ''CallBuiltinCosFunction'' = CallBuiltinCosFunction"
  "builtin_codegen ''CallBuiltinTanFunction'' = CallBuiltinTanFunction"
  "builtin_codegen ''CallBuiltinSqrtFunction'' = CallBuiltinSqrtFunction"
  "builtin_codegen ''CallBuiltinAbsFunction'' = CallBuiltinAbsFunction"
  "builtin_codegen ''CallBuiltinCeilFunction'' = CallBuiltinCeilFunction"
  "builtin_codegen ''CallBuiltinFloorFunction'' = CallBuiltinFloorFunction"
  "builtin_codegen ''CallBuiltinRoundFunction'' = CallBuiltinRoundFunction"
  "builtin_codegen ''CallBuiltinMinFunction'' = CallBuiltinMinFunction"
  "builtin_codegen ''CallBuiltinMaxFunction'' = CallBuiltinMaxFunction"
  "builtin_codegen ''CallBuiltinCastFunction'' = CallBuiltinCastFunction"
  "builtin_codegen ''CallBuiltinLenFunction'' = CallBuiltinLenFunction"
  "builtin_codegen ''CallBuiltinStringLenFunction'' = CallBuiltinStringLenFunction"
  "builtin_codegen ''CallBuiltinTruncateFunction'' = CallBuiltinTruncateFunction"
  "builtin_codegen ''CodegenFindMiss'' = CodegenFindMiss"
  "builtin_codegen ''EmitFilterByBitmapSugar'' = EmitFilterByBitmapSugar"
  "builtin_codegen ''EmitGroupKeysSugar'' = EmitGroupKeysSugar"
  "builtin_codegen ''EmitGroupSumSugar'' = EmitGroupSumSugar"
  "builtin_codegen ''EmitGroupMaxSugar'' = EmitGroupMaxSugar"
  "builtin_codegen ''EmitGroupMinSugar'' = EmitGroupMinSugar"
  "builtin_codegen ''EmitGroupAvgSugar'' = EmitGroupAvgSugar"
  "builtin_codegen ''CodegenListLookupIndex'' = CodegenListLookupIndex"
  by (simp_all add: builtin_codegen_def builtin_callbacks_def)

lemma unary_callbacks_ok:
  "IsNumericType p \<Longrightarrow> IsNumericType r \<Longrightarrow> codegen_ok L CallBuiltinExpFunction (FunctionSignature n [p] r)"
  "IsNumericType p \<Longrightarrow> IsNumericType r \<Longrightarrow> codegen_ok L CallBuiltinLogFunction (FunctionSignature n [p] r)"
  "IsNumericType p \<Longrightarrow> IsNumericType r \<Longrightarrow> codegen_ok L CallBuiltinLog2Function (FunctionSignature n [p] r)"
  "IsNumericType p \<Longrightarrow> IsNumericType r \<Longrightarrow> codegen_ok L CallBuiltinLog10Function (FunctionSignature n [p] r)"
  "codegen_ok L CallBuiltinTruncFunction (FunctionSignature n [t] t)"
  "codegen_ok L CallBuiltinSinFunction (FunctionSignature n [t] t)"
  "codegen_ok L CallBuiltinCosFunction (FunctionSignature n [t] t)"
  "codegen_ok L CallBuiltinTanFunction (FunctionSignature n [t] t)"
  "codegen_ok L CallBuiltinSqrtFunction (FunctionSignature n [t] t)"
  "codegen_ok L CallBuiltinCeilFunction (FunctionSignature n [t] t)"
  "codegen_ok L CallBuiltinFloorFunction (FunctionSignature n [t] t)"
  "codegen_ok L CallBuiltinRoundFunction (FunctionSignature n [t] t)"
  by (simp_all add: converted_call_ok direct_call_ok CallBuiltinExpFunction_def CallBuiltinLogFunction_def
      CallBuiltinLog2Function_def CallBuiltinLog10Function_def CallBuiltinTruncFunction_def CallBuiltinSinFunction_def
      CallBuiltinCosFunction_def CallBuiltinTanFunction_def CallBuiltinSqrtFunction_def CallBuiltinCeilFunction_def
      CallBuiltinFloorFunction_def CallBuiltinRoundFunction_def)

lemmas callbacks_ok = unary_callbacks_ok frac_ok pow_ok powi_ok abs_int_ok abs_float_ok min_ok max_ok cast_ok
  len_ok string_len_ok truncate_ok find_miss_ok

lemma cast_table_ok: "list_all (emits_ok L) InitCastFunc"
  by (auto simp: InitCastFunc_def list_all_tables pair_order_def jf_enum intro!: cast_ok)

lemma intrinsic_tables_ok:
  "list_all (emits_ok L) InitExpFunc"
  "list_all (emits_ok L) InitLogFunc"
  "list_all (emits_ok L) InitFracFunc"
  "list_all (emits_ok L) InitTruncFunc"
  "list_all (emits_ok L) InitPowFunc"
  "list_all (emits_ok L) InitTrigonometricFunc"
  "list_all (emits_ok L) InitSqrtFunc"
  "list_all (emits_ok L) InitAbsFunc"
  "list_all (emits_ok L) InitCeilFunc"
  "list_all (emits_ok L) InitFloorFunc"
  "list_all (emits_ok L) InitRoundFunc"
  "list_all (emits_ok L) InitMinFunc"
  "list_all (emits_ok L) InitMaxFunc"
  "list_all (emits_ok L) InitStringInternalFunc"
  "list_all (emits_ok L) InitLenFunc"
  "list_all (emits_ok L) InitTruncateFunc"
  "list_all (emits_ok L) InitFindMissFunc"
  by (simp_all add: callbacks_ok jf_enum type_lists list_type_def
      InitExpFunc_def InitLogFunc_def InitFracFunc_def InitTruncFunc_def InitPowFunc_def InitTrigonometricFunc_def
      InitSqrtFunc_def InitAbsFunc_def InitCeilFunc_def InitFloorFunc_def InitRoundFunc_def InitMinFunc_def
      InitMaxFunc_def InitStringInternalFunc_def InitLenFunc_def InitTruncateFunc_def InitFindMissFunc_def)

lemma list_cast_ok: "list_all (emits_ok L) (RegisterAllInputsForNumericListCast n t)"
  by (auto simp: RegisterAllInputsForNumericListCast_def RegisterNumericListCast_def list_all_tables)

lemma c_tables_ok:
  "list_all (emits_ok L) InitListAddFunc"
  "list_all (emits_ok L) InitListSubFunc"
  "list_all (emits_ok L) InitListMulFunc"
  "list_all (emits_ok L) InitListDivFunc"
  "list_all (emits_ok L) InitListModFunc"
  "list_all (emits_ok L) InitListBitwiseAndFunc"
  "list_all (emits_ok L) InitListBitwiseOrFunc"
  "list_all (emits_ok L) InitListBitwiseXorFunc"
  "list_all (emits_ok L) InitListExpFunc"
  "list_all (emits_ok L) InitListLogFunc"
  "list_all (emits_ok L) InitListLog2Func"
  "list_all (emits_ok L) InitListLog10Func"
  "list_all (emits_ok L) InitListCeilFunc"
  "list_all (emits_ok L) InitListFloorFunc"
  "list_all (emits_ok L) InitListRoundFunc"
  "list_all (emits_ok L) InitListMinFunc"
  "list_all (emits_ok L) InitListMaxFunc"
  "list_all (emits_ok L) InitIfLargeFunc"
  "list_all (emits_ok L) InitIfLargeEqualFunc"
  "list_all (emits_ok L) InitIfEqualFunc"
  "list_all (emits_ok L) InitIfLessFunc"
  "list_all (emits_ok L) InitIfLessEqualFunc"
  "list_all (emits_ok L) InitIfNotEqualFunc"
  "list_all (emits_ok L) InitIfByBitmapLLRB"
  "list_all (emits_ok L) InitIfByBitmapLBRL"
  "list_all (emits_ok L) InitIfByBitmapLLRL"
  "list_all (emits_ok L) InitGenLargeBitmapFunc"
  "list_all (emits_ok L) InitGenLargeBitmapListFunc"
  "list_all (emits_ok L) InitGenLargeEqualBitmapFunc"
  "list_all (emits_ok L) InitGenLargeEqualBitmapListFunc"
  "list_all (emits_ok L) InitGenEqualBitmapFunc"
  "list_all (emits_ok L) InitGenEqualBitmapListFunc"
  "list_all (emits_ok L) InitGenLessBitmapFunc"
  "list_all (emits_ok L) InitGenLessBitmapListFunc"
  "list_all (emits_ok L) InitGenLessEqualBitmapFunc"
  "list_all (emits_ok L) InitGenLessEqualBitmapListFunc"
  "list_all (emits_ok L) InitGenNotEqualBitmapFunc"
  "list_all (emits_ok L) InitGenNotEqualBitmapListFunc"
  "list_all (emits_ok L) InitFilterByBitmapFunc"
  "list_all (emits_ok L) InitSumFunc"
  "list_all (emits_ok L) InitMaxAggregationFunc"
  "list_all (emits_ok L) InitMinAggregationFunc"
  "list_all (emits_ok L) InitCountDistinctFunc"
  "list_all (emits_ok L) InitCountBitsFunc"
  "list_all (emits_ok L) InitGetAtFunc"
  "list_all (emits_ok L) InitAvgFunc"
  "list_all (emits_ok L) InitMedianFunc"
  "list_all (emits_ok L) InitSortedMedianFunc"
  "list_all (emits_ok L) InitListConcatFunc"
  "list_all (emits_ok L) InitInFunc"
  "list_all (emits_ok L) InitSortFunc"
  "list_all (emits_ok L) InitHashFunc"
  "list_all (emits_ok L) InitListCastFunc"
  "list_all (emits_ok L) InitUniqueFunc"
  "list_all (emits_ok L) InitCrossJoinFunc"
  "list_all (emits_ok L) InitZipConcatFunc"
  "list_all (emits_ok L) InitGroupIndexFunc"
  "list_all (emits_ok L) InitGroupCountFunc"
  "list_all (emits_ok L) InitGroupKeysFunc"
  "list_all (emits_ok L) InitGroupSumFunc"
  "list_all (emits_ok L) InitGroupMaxFunc"
  "list_all (emits_ok L) InitGroupMinFunc"
  "list_all (emits_ok L) InitGroupAvgFunc"
  "list_all (emits_ok L) InitFindFunc"
  "list_all (emits_ok L) InitFindSortedFunc"
  "list_all (emits_ok L) InitListCompactFuncs"
  "list_all (emits_ok L) InitListGatherFunc"
  "list_all (emits_ok L) InitBucketizeFunc"
  by (simp_all add: list_all_tables list_cast_ok
      InitListAddFunc_def InitListSubFunc_def InitListMulFunc_def InitListDivFunc_def InitListModFunc_def InitListBitwiseAndFunc_def
      InitListBitwiseOrFunc_def InitListBitwiseXorFunc_def InitListExpFunc_def InitListLogFunc_def InitListLog2Func_def InitListLog10Func_def
      InitListCeilFunc_def InitListFloorFunc_def InitListRoundFunc_def InitListMinFunc_def InitListMaxFunc_def InitIfLargeFunc_def
      InitIfLargeEqualFunc_def InitIfEqualFunc_def InitIfLessFunc_def InitIfLessEqualFunc_def InitIfNotEqualFunc_def InitIfByBitmapLLRB_def
      InitIfByBitmapLBRL_def InitIfByBitmapLLRL_def InitGenLargeBitmapFunc_def InitGenLargeBitmapListFunc_def InitGenLargeEqualBitmapFunc_def InitGenLargeEqualBitmapListFunc_def
      InitGenEqualBitmapFunc_def InitGenEqualBitmapListFunc_def InitGenLessBitmapFunc_def InitGenLessBitmapListFunc_def InitGenLessEqualBitmapFunc_def InitGenLessEqualBitmapListFunc_def
      InitGenNotEqualBitmapFunc_def InitGenNotEqualBitmapListFunc_def InitFilterByBitmapFunc_def InitSumFunc_def InitMaxAggregationFunc_def InitMinAggregationFunc_def
      InitCountDistinctFunc_def InitCountBitsFunc_def InitGetAtFunc_def InitAvgFunc_def InitMedianFunc_def InitSortedMedianFunc_def
      InitListConcatFunc_def InitInFunc_def InitSortFunc_def InitHashFunc_def InitListCastFunc_def InitUniqueFunc_def
      InitCrossJoinFunc_def InitZipConcatFunc_def InitGroupIndexFunc_def InitGroupCountFunc_def InitGroupKeysFunc_def InitGroupSumFunc_def
      InitGroupMaxFunc_def InitGroupMinFunc_def InitGroupAvgFunc_def InitFindFunc_def InitFindSortedFunc_def InitListCompactFuncs_def
      InitListGatherFunc_def InitBucketizeFunc_def)

section \<open>The rewritings call linked functions\<close>

lemma FunctionSignature_inject [simp]:
  "FunctionSignature n ps t = FunctionSignature n' ps' t' \<longleftrightarrow> n = n' \<and> ps = ps' \<and> t = t'"
  by (simp add: FunctionSignature_def)

lemma table_members:
  "x \<in> set InitCountBitsFunc \<Longrightarrow> x \<in> set builtin_calls" "x \<in> set InitFilterByBitmapFunc \<Longrightarrow> x \<in> set builtin_calls"
  "x \<in> set InitGroupCountFunc \<Longrightarrow> x \<in> set builtin_calls" "x \<in> set InitGroupKeysFunc \<Longrightarrow> x \<in> set builtin_calls"
  "x \<in> set InitGroupSumFunc \<Longrightarrow> x \<in> set builtin_calls" "x \<in> set InitGroupMaxFunc \<Longrightarrow> x \<in> set builtin_calls"
  "x \<in> set InitGroupMinFunc \<Longrightarrow> x \<in> set builtin_calls" "x \<in> set InitGroupAvgFunc \<Longrightarrow> x \<in> set builtin_calls"
  "x \<in> set InitListLookupIndexFunc \<Longrightarrow> x \<in> set builtin_calls" "x \<in> set InitStringInternalFunc \<Longrightarrow> x \<in> set builtin_calls"
  "x \<in> set InitListConcatFunc \<Longrightarrow> x \<in> set builtin_calls"
  by (simp_all add: init_unfold)

lemma counts_linked:
  assumes "\<And>f. addr f \<noteq> 0"
  shows "declared_as ''CountBits'' [kU8List] \<in> builtin_symbols addr" "declared_as ''GroupCount'' [kU32List] \<in> builtin_symbols addr"
proof -
  have "CallReadOnlyCFunc (FunctionSignature ''CountBits'' [kU8List] kU32) ''CountBits'' \<in> set builtin_calls"
    by (intro table_members(1)) (simp add: InitCountBitsFunc_def)
  then show "declared_as ''CountBits'' [kU8List] \<in> builtin_symbols addr" by (rule linked_plain [OF assms])
  have "CallReadOnlyCFunc (FunctionSignature ''GroupCount'' [kU32List] kU32) ''GroupCount'' \<in> set builtin_calls"
    by (intro table_members(3)) (simp add: InitGroupCountFunc_def)
  then show "declared_as ''GroupCount'' [kU32List] \<in> builtin_symbols addr" by (rule linked_plain [OF assms])
qed

text \<open>A function with the execution context is linked with the pointer as its last parameter.\<close>

definition has_kernel :: "register_call list \<Rightarrow> string \<Rightarrow> value_type list \<Rightarrow> bool" where
  "has_kernel cs n ps \<longleftrightarrow> (\<exists>r g. CallReadOnlyCFuncWithExecCtx (FunctionSignature n ps r) g \<in> set cs)"

lemma kernel_linked:
  assumes "\<And>f. addr f \<noteq> 0" "has_kernel cs n ps" "set cs \<subseteq> set builtin_calls"
  shows "declared_as n (ps @ [kPtr]) \<in> builtin_symbols addr"
  using assms(2,3) linked_ctx [OF assms(1)] by (auto simp: has_kernel_def)

lemma kernels:
  "list_all (\<lambda>t. has_kernel InitFilterByBitmapFunc ''FilterByBitmap'' [list_type t, kU8List, kU32]) all_types"
  "list_all (\<lambda>t. has_kernel InitGroupKeysFunc ''GroupKeys'' [list_type t, kU32List, kU32]) (pair_order @ [kString])"
  "list_all (\<lambda>t. has_kernel InitGroupSumFunc ''GroupSum'' [list_type t, kU32List, kU32]) pair_order"
  "list_all (\<lambda>t. has_kernel InitGroupMaxFunc ''GroupMax'' [list_type t, kU32List, kU32]) pair_order"
  "list_all (\<lambda>t. has_kernel InitGroupMinFunc ''GroupMin'' [list_type t, kU32List, kU32]) pair_order"
  "list_all (\<lambda>t. has_kernel InitGroupAvgFunc ''GroupAvg'' [list_type t, kU32List, kU32]) pair_order"
  by (simp_all add: has_kernel_def InitFilterByBitmapFunc_def InitGroupKeysFunc_def InitGroupSumFunc_def
      InitGroupMaxFunc_def InitGroupMinFunc_def InitGroupAvgFunc_def type_lists list_type_def)

lemma lookup_kernels:
  "list_all (\<lambda>t. has_kernel InitListLookupIndexFunc (if list_type t = kStringList then kBuildStringName else kBuildIntName)
       [list_type t] \<and> has_kernel InitListLookupIndexFunc
         (if list_type t = kStringList then kLookupStringName else kLookupIntName) [list_type t, kPtr])
     (pair_order @ [kString])"
  by (simp add: has_kernel_def InitListLookupIndexFunc_def type_lists list_type_def kBuildIntName_def
      kBuildStringName_def kLookupIntName_def kLookupStringName_def)

lemmas kernel_lists = kernels [unfolded list_all_iff] lookup_kernels [unfolded list_all_iff]

lemma kernels_linked:
  assumes "\<And>f. addr f \<noteq> 0"
  shows "t \<in> set all_types \<Longrightarrow> declared_as ''FilterByBitmap'' [list_type t, kU8List, kU32, kPtr] \<in> builtin_symbols addr"
    and "t \<in> set (pair_order @ [kString]) \<Longrightarrow> declared_as ''GroupKeys'' [list_type t, kU32List, kU32, kPtr] \<in> builtin_symbols addr"
    and "t \<in> set pair_order \<Longrightarrow> declared_as ''GroupSum'' [list_type t, kU32List, kU32, kPtr] \<in> builtin_symbols addr"
    and "t \<in> set pair_order \<Longrightarrow> declared_as ''GroupMax'' [list_type t, kU32List, kU32, kPtr] \<in> builtin_symbols addr"
    and "t \<in> set pair_order \<Longrightarrow> declared_as ''GroupMin'' [list_type t, kU32List, kU32, kPtr] \<in> builtin_symbols addr"
    and "t \<in> set pair_order \<Longrightarrow> declared_as ''GroupAvg'' [list_type t, kU32List, kU32, kPtr] \<in> builtin_symbols addr"
    and "t \<in> set (pair_order @ [kString]) \<Longrightarrow>
      declared_as (if list_type t = kStringList then kBuildStringName else kBuildIntName) [list_type t, kPtr] \<in> builtin_symbols addr"
    and "t \<in> set (pair_order @ [kString]) \<Longrightarrow>
      declared_as (if list_type t = kStringList then kLookupStringName else kLookupIntName) [list_type t, kPtr, kPtr]
        \<in> builtin_symbols addr"
proof -
  have k: "declared_as n (ps @ [kPtr]) \<in> builtin_symbols addr" if "has_kernel cs n ps" "set cs \<subseteq> set builtin_calls" for cs n ps
    using kernel_linked [OF assms that] .
  show "t \<in> set all_types \<Longrightarrow> declared_as ''FilterByBitmap'' [list_type t, kU8List, kU32, kPtr] \<in> builtin_symbols addr"
    using k [of InitFilterByBitmapFunc "''FilterByBitmap''" "[list_type t, kU8List, kU32]"] kernel_lists(1) table_members(2) by auto
  show "t \<in> set (pair_order @ [kString]) \<Longrightarrow> declared_as ''GroupKeys'' [list_type t, kU32List, kU32, kPtr] \<in> builtin_symbols addr"
    using k [of InitGroupKeysFunc "''GroupKeys''" "[list_type t, kU32List, kU32]"] kernel_lists(2) table_members(4) by auto
  show "t \<in> set pair_order \<Longrightarrow> declared_as ''GroupSum'' [list_type t, kU32List, kU32, kPtr] \<in> builtin_symbols addr"
    using k [of InitGroupSumFunc "''GroupSum''" "[list_type t, kU32List, kU32]"] kernel_lists(3) table_members(5) by auto
  show "t \<in> set pair_order \<Longrightarrow> declared_as ''GroupMax'' [list_type t, kU32List, kU32, kPtr] \<in> builtin_symbols addr"
    using k [of InitGroupMaxFunc "''GroupMax''" "[list_type t, kU32List, kU32]"] kernel_lists(4) table_members(6) by auto
  show "t \<in> set pair_order \<Longrightarrow> declared_as ''GroupMin'' [list_type t, kU32List, kU32, kPtr] \<in> builtin_symbols addr"
    using k [of InitGroupMinFunc "''GroupMin''" "[list_type t, kU32List, kU32]"] kernel_lists(5) table_members(7) by auto
  show "t \<in> set pair_order \<Longrightarrow> declared_as ''GroupAvg'' [list_type t, kU32List, kU32, kPtr] \<in> builtin_symbols addr"
    using k [of InitGroupAvgFunc "''GroupAvg''" "[list_type t, kU32List, kU32]"] kernel_lists(6) table_members(8) by auto
  show "t \<in> set (pair_order @ [kString]) \<Longrightarrow>
      declared_as (if list_type t = kStringList then kBuildStringName else kBuildIntName) [list_type t, kPtr] \<in> builtin_symbols addr"
    using k [of InitListLookupIndexFunc "(if list_type t = kStringList then kBuildStringName else kBuildIntName)"
        "[list_type t]"] kernel_lists(7) table_members(9) by (auto split del: if_split)
  show "t \<in> set (pair_order @ [kString]) \<Longrightarrow>
      declared_as (if list_type t = kStringList then kLookupStringName else kLookupIntName) [list_type t, kPtr, kPtr] \<in> builtin_symbols addr"
    using k [of InitListLookupIndexFunc "(if list_type t = kStringList then kLookupStringName else kLookupIntName)"
        "[list_type t, kPtr]"] kernel_lists(7) table_members(9) by (auto split del: if_split)
qed

lemma sugar_tables_ok:
  assumes "\<And>f. addr f \<noteq> 0"
  shows "list_all (emits_ok (builtin_symbols addr)) InitFilterByBitmapSugarFunc"
    and "list_all (emits_ok (builtin_symbols addr)) InitGroupKeysSugarFunc"
    and "list_all (emits_ok (builtin_symbols addr)) InitGroupSumSugarFunc"
    and "list_all (emits_ok (builtin_symbols addr)) InitGroupMaxSugarFunc"
    and "list_all (emits_ok (builtin_symbols addr)) InitGroupMinSugarFunc"
    and "list_all (emits_ok (builtin_symbols addr)) InitGroupAvgSugarFunc"
    and "list_all (emits_ok (builtin_symbols addr)) InitListLookupIndexFunc"
proof -
  note linked = kernels_linked [OF assms] counts_linked [OF assms]
  have keys: "t \<in> set (pair_order @ [kString])" if "t \<in> set pair_order" for t using that by simp
  have nums: "set [kI8, kI16, kI32, kI64] \<subseteq> set pair_order" "set [kU8, kU16, kU32, kU64] \<subseteq> set pair_order"
    "set [kF32, kF64] \<subseteq> set pair_order" by (auto simp: pair_order_def)
  show "list_all (emits_ok (builtin_symbols addr)) InitFilterByBitmapSugarFunc"
    using linked(1) linked(9) by (simp add: InitFilterByBitmapSugarFunc_def list_all_tables filter_sugar_ok)
  show "list_all (emits_ok (builtin_symbols addr)) InitGroupKeysSugarFunc"
    using linked(2) group_keys_ok(1) [OF linked(10)]
    unfolding InitGroupKeysSugarFunc_def list_all_tables by simp
  show "list_all (emits_ok (builtin_symbols addr)) InitGroupMaxSugarFunc"
    using linked(4) group_keys_ok(2) [OF linked(10)] by (simp add: InitGroupMaxSugarFunc_def list_all_tables)
  show "list_all (emits_ok (builtin_symbols addr)) InitGroupMinSugarFunc"
    using linked(5) group_keys_ok(3) [OF linked(10)] by (simp add: InitGroupMinSugarFunc_def list_all_tables)
  show "list_all (emits_ok (builtin_symbols addr)) InitGroupSumSugarFunc"
    using linked(3) nums group_sum_ok(1) [OF linked(10)] by (simp add: InitGroupSumSugarFunc_def list_all_tables)
  show "list_all (emits_ok (builtin_symbols addr)) InitGroupAvgSugarFunc"
    using linked(6) group_sum_ok(2) [OF linked(10)] by (simp add: InitGroupAvgSugarFunc_def list_all_tables)
  show "list_all (emits_ok (builtin_symbols addr)) InitListLookupIndexFunc"
    using lookup_sugar_ok [OF linked(7,8)]
    by (simp add: InitListLookupIndexFunc_def list_all_tables)
qed

lemma builtin_emits_ok:
  assumes "\<And>f. addr f \<noteq> 0" "c \<in> set builtin_calls"
  shows "emits_ok (builtin_symbols addr) c"
proof -
  have "list_all (emits_ok (builtin_symbols addr)) builtin_calls"
    by (simp add: init_unfold intrinsic_tables_ok c_tables_ok cast_table_ok sugar_tables_ok [OF assms(1)])
  with assms(2) show ?thesis by (simp add: list_all_iff)
qed

section \<open>The built-in environment\<close>

definition builtin_env :: "(string \<Rightarrow> u64) \<Rightarrow> (string list \<Rightarrow> string list) \<Rightarrow> cg_env" where
  "builtin_env addr order = \<lparr>function_registry = builtin_registry addr, codegen_callback = builtin_codegen, set_order = order\<rparr>"

lemma entry_callback:
  assumes "(k, f) \<in> set (builtin_registry addr)" "codegen_func f = Some h"
  shows "CallLLVMIntrinicFunc k h \<in> set builtin_calls"
proof -
  obtain c where "c \<in> set builtin_calls" "(k, f) \<in> set (call_entries addr c)"
    using assms(1) by (auto simp: builtin_entries)
  with assms(2) show ?thesis by (cases c) (auto simp: call_entries_def c_struct_def)
qed

lemma builtin_callback_codegen_ok:
  assumes "\<And>f. addr f \<noteq> 0" "(k, f) \<in> set (builtin_registry addr)" "codegen_func f = Some h"
  shows "codegen_ok (builtin_symbols addr) (builtin_codegen h) k"
  using builtin_emits_ok [OF assms(1) entry_callback [OF assms(2,3)]] by simp

lemma builtin_callback_ok:
  assumes "\<And>f. addr f \<noteq> 0"
  shows "callback_ok (builtin_env addr order)"
  unfolding callback_ok_def
proof (intro allI impI)
  fix k f h sign ops s
  assume kf: "(k, f) \<in> set (function_registry (builtin_env addr order))" "codegen_func f = Some h"
    and sign: "sig_key sign = sig_key k" "ret_type sign = ret_type k" and ops: "list_all2 has_type (param_types sign) ops"
  have "sign = k" using sign by (cases sign; cases k) (simp add: sig_key_def)
  have "codegen_ok (builtin_symbols addr) (builtin_codegen h) k"
    using builtin_callback_codegen_ok [OF assms] kf by (simp add: builtin_env_def)
  then have "same_but_code (builtin_symbols addr) s (snd (builtin_codegen h k ops s))"
      "val_ok (ret_type k) (fst (builtin_codegen h k ops s))"
    using ops \<open>sign = k\<close> unfolding codegen_ok_def by blast+
  then show "case codegen_callback (builtin_env addr order) h sign ops s of
      (v, s') \<Rightarrow> val_ok (ret_type sign) v \<and> vc s' = vc s"
    using \<open>sign = k\<close> by (simp add: same_but_code_def builtin_env_def case_prod_unfold)
qed

lemma find_kernel:
  assumes "CallReadOnlyCFuncWithExecCtx (FunctionSignature n ps r) g \<in> set builtin_calls"
  shows "map_option (ret_type \<circ> fst) (find_sig (builtin_registry addr) (FunctionSignature n (ps @ [kPtr]) kUnknown)) = Some r"
  by (subst builtin_find [OF assms, where s = "legacy_sign (FunctionSignature n ps r)"
        and f = "c_struct (addr g) ReadOnlyFunctionAttributeSetter False"])
    (simp_all add: call_entries_def legacy_sign_def)

lemma builtin_builtins_ok: "builtins_ok (builtin_registry addr)"
  unfolding builtins_ok_def
proof (intro conjI allI impI)
  have "CallReadOnlyCFuncWithExecCtx (FunctionSignature ''StringConcat'' [kString, kString] kString) ''StringConcat''
      \<in> set builtin_calls"
    by (intro table_members(10)) (simp add: InitStringInternalFunc_def)
  from find_kernel [OF this] show "map_option (ret_type \<circ> fst) (find_sig (builtin_registry addr)
      (FunctionSignature ''StringConcat'' [kString, kString, kPtr] kUnknown)) = Some kString" by simp
next
  fix t assume "IsListType t"
  then have "\<exists>e\<in>set element_types. t = list_type e"
    by (cases t) (simp_all add: jf_enum list_type_def type_lists)
  then obtain e where e: "t = list_type e" "e \<in> set element_types" by blast
  have "CallReadOnlyCFuncWithExecCtx (FunctionSignature ''ListConcat'' [t, t] t)
      (instance_of ''ListConcat'' [struct_name e]) \<in> set builtin_calls"
    using e by (intro table_members(11)) (auto simp: InitListConcatFunc_def)
  from find_kernel [OF this] show "map_option (ret_type \<circ> fst) (find_sig (builtin_registry addr)
      (FunctionSignature ''ListConcat'' [t, t, kPtr] kUnknown)) = Some t" by simp
next
  have "CallReadOnlyCFunc (FunctionSignature ''StringCmp'' [kString, kString] kI32) ''StringCmp'' \<in> set builtin_calls"
    by (intro table_members(10)) (simp add: InitStringInternalFunc_def)
  from builtin_find [OF this, of _ _ addr "FunctionSignature ''StringCmp'' [kString, kString] kUnknown"]
  show "find_sig (builtin_registry addr) (FunctionSignature ''StringCmp'' [kString, kString] kUnknown) \<noteq> None"
    by (simp add: call_entries_def)
qed

lemma builtin_env_ok:
  assumes "\<And>f. addr f \<noteq> 0" "\<And>ns. set (order ns) = set ns"
  shows "env_ok (builtin_env addr order)"
  using builtin_registry_inv [OF assms(1)] builtin_ret_types builtin_builtins_ok builtin_callback_ok [OF assms(1)] assms(2)
  by (auto simp: env_ok_def builtin_env_def)

end
