(* ===== verification/Symbols.thy ===== *)
theory Symbols
  imports BuiltinCallbacks Execution
begin

text \<open>
  The functions that generated code calls. Generating the code of a tree declares, besides the
  functions declared before, only symbols that the registry maps into the JIT, so that the module
  of a compilation has no undefined function; with the built-in registry this holds for every tree
  the validator accepts.
\<close>

section \<open>Declared functions\<close>

definition declares :: "string set \<Rightarrow> cg_state \<Rightarrow> cg_state \<Rightarrow> bool" where
  "declares L s s' \<longleftrightarrow> fst ` set (callees s') \<subseteq> fst ` set (callees s) \<union> L"

lemma declares_refl [simp]: "declares L s s"
  by (simp add: declares_def)

lemma declares_trans [trans]: "declares L s s1 \<Longrightarrow> declares L s1 s2 \<Longrightarrow> declares L s s2"
  using subset_chain [of "fst ` set (callees s2)" "fst ` set (callees s1)" L "fst ` set (callees s)"]
  by (simp add: declares_def)

lemma same_callees [simp]:
  "callees (append_instr i s) = callees s" "callees (SetInsertPoint b s) = callees s"
  "callees (update_vars f s) = callees s" "callees (snd (emit mk t s)) = callees s"
  "callees (snd (CreateBlock nm s)) = callees s"
  by (simp_all add: append_instr_def SetInsertPoint_def update_vars_def emit_def CreateBlock_def)

lemma declares_same:
  "callees s1 = callees s \<Longrightarrow> declares L s1 s' = declares L s s'"
  "callees s1' = callees s' \<Longrightarrow> declares L s s1' = declares L s s'"
  by (simp_all add: declares_def)

lemma declares_updates [simp]:
  "declares L (append_instr i s) s' = declares L s s'" "declares L s (append_instr i s') = declares L s s'"
  "declares L (SetInsertPoint b s) s' = declares L s s'" "declares L s (SetInsertPoint b s') = declares L s s'"
  "declares L (update_vars f s) s' = declares L s s'" "declares L s (update_vars f s') = declares L s s'"
  "declares L s (snd (emit mk t s')) = declares L s s'"
  "declares L (snd (CreateBlock nm s)) s' = declares L s s'" "declares L s (snd (CreateBlock nm s')) = declares L s s'"
  by (simp_all add: declares_def)

lemma declares_insert: "symb \<in> L \<Longrightarrow> declares L s (getOrInsertFunction symb t s)"
  by (auto simp: declares_def getOrInsertFunction_def)

section \<open>Operations that declare nothing\<close>

lemma convert_callees: "NumericTypeConvert f t v s = Inr (w, s') \<Longrightarrow> callees s' = callees s"
  by (auto simp: NumericTypeConvert_def Let_def case_prod_unfold split: if_splits)

lemma emit_callees: "emit mk t s = (x, s') \<Longrightarrow> callees s' = callees s"
  using same_callees(4) [of mk t s] by simp

lemma to_bool_callees:
  assumes "to_bool msg v s = Inr (w, s')"
  shows "callees s' = callees s"
proof (cases v)
  case (Some x)
  then show ?thesis using assms by (cases "getType x") (auto simp: to_bool_def deref_def dest: emit_callees)
qed (use assms in \<open>simp add: to_bool_def deref_def\<close>)

lemma zext8_callees: "zext8 (emit mk t s) = (x, s') \<Longrightarrow> callees s' = callees s"
  by (auto simp: zext8_def case_prod_unfold)

lemma unary_callees:
  assumes "unary_cg op ct rt v s = Inr (w, s')"
  shows "callees s' = callees s"
proof (cases op)
  case kNot
  show ?thesis
  proof (cases v)
    case (Some x)
    then show ?thesis using assms kNot by (cases "getType x") (auto simp: unary_cg_def deref_def dest: zext8_callees)
  qed (use assms kNot in \<open>simp add: unary_cg_def deref_def\<close>)
qed (use assms in \<open>auto simp: unary_cg_def case_prod_unfold dest!: convert_callees\<close>)

lemma numeric_callees: "SolveBinaryOpNumericType op lt rt r lv rv s = Inr (w, s') \<Longrightarrow> callees s' = callees s"
  by (auto simp: SolveBinaryOpNumericType_def Let_def case_prod_unfold dest!: convert_callees zext8_callees
      split: if_splits option.splits)

lemma finish_arm_callees: "finish_arm m at rt (v, s) = Inr (x, b, s') \<Longrightarrow> callees s' = callees s"
  by (auto simp: finish_arm_def dest!: convert_callees)

lemma emit_phis_callees: "emit_phis infos has_else lc nms s = Inr s' \<Longrightarrow> callees s' = callees s"
  by (induction nms arbitrary: s) (fastforce simp: case_prod_unfold split: option.splits)+

lemma payload_callees: "callees (snd (EmitStringPayloadGlobal str s)) = callees s"
  by (simp add: EmitStringPayloadGlobal_def CreatePrivateGlobal_def split: option.splits)

lemma value_callees: "callees (snd (MakeValue v s)) = callees s"
  by (cases v) (simp_all add: case_prod_unfold payload_callees)

lemma string_elems_callees: "callees (snd (string_elems vs s)) = callees s"
  by (induction vs arbitrary: s) (simp_all add: case_prod_unfold payload_callees)

lemma list_callees: "callees (snd (MakeList l s)) = callees s"
  by (cases l) (simp_all add: case_prod_unfold string_elems_callees CreateNumberList_def EmitTypedArrayGlobal_def
      CreatePrivateGlobal_def)

section \<open>Calls\<close>

text \<open>The symbols a registry with the given callbacks lets a function call declare.\<close>

definition calls_linked :: "cg_env \<Rightarrow> string set \<Rightarrow> bool" where
  "calls_linked env L \<longleftrightarrow>
     (\<forall>q k f. find_sig (function_registry env) q = Some (k, f) \<longrightarrow>
        (case func_type f of
           kCFunc \<Rightarrow> SignatureToString (if needs_exec_ctx f then legacy_sign q else q) \<in> L
         | kLLVMIntrinicFunc \<Rightarrow> (\<forall>h ops s. codegen_func f = Some h \<longrightarrow>
             declares L s (snd (codegen_callback env h (SetRetType (ret_type k) q) ops s)))))"

text \<open>The functions the operators call are called without the execution context being appended.\<close>

definition operators_linked :: "cg_env \<Rightarrow> string set \<Rightarrow> bool" where
  "operators_linked env L \<longleftrightarrow>
     (\<forall>n q. (n = ''StringConcat'' \<or> n = ''ListConcat'') \<and> (\<exists>lt rt. q = FunctionSignature n [lt, rt, kPtr] kUnknown)
          \<or> q = FunctionSignature ''StringCmp'' [kString, kString] kUnknown \<longrightarrow>
        find_sig (function_registry env) q \<noteq> None \<longrightarrow> SignatureToString q \<in> L)"

lemma SignatureToString_SetRetType [simp]: "SignatureToString (SetRetType t q) = SignatureToString q"
  "SignatureToString (legacy_sign (SetRetType t q)) = SignatureToString (legacy_sign q)"
  by (simp_all add: SignatureToString_def SetRetType_def legacy_sign_def FunctionSignature_def)

lemma lookup_function_eq:
  "lookup_function env q = Inr (sign, f) \<longleftrightarrow>
     (\<exists>k. find_sig (function_registry env) q = Some (k, f) \<and> sign = SetRetType (ret_type k) q)"
  by (auto simp: lookup_function_def GetFuncBySign_def split: option.splits sum.splits)

lemma function_declares:
  assumes "function_cg env fn ts rt ops s = Inr (v, s')" "calls_linked env L" "reg_inv (function_registry env)"
  shows "declares L s s'"
proof -
  let ?q = "FunctionSignature fn ts kUnknown"
  obtain k f where f: "find_sig (function_registry env) ?q = Some (k, f)"
    using assms(1) by (auto simp: function_cg_def lookup_function_eq)
  have ok: "struct_ok f" using find_sig_Some_in [OF f] assms(3) unfolding reg_inv_def by blast
  have look: "lookup_function env ?q = Inr (SetRetType (ret_type k) ?q, f)" by (simp add: lookup_function_eq f)
  note linked = assms(2) [unfolded calls_linked_def, rule_format, OF f]
  show ?thesis
  proof (cases "func_type f")
    case kLLVMIntrinicFunc
    then obtain h where "codegen_func f = Some h" using ok by (auto simp: struct_ok_def)
    with assms(1) look kLLVMIntrinicFunc
    have "codegen_callback env h (SetRetType (ret_type k) ?q) ops s = (v, s')" by (simp add: function_cg_def)
    moreover have "declares L s (snd (codegen_callback env h (SetRetType (ret_type k) ?q) ops s))"
      using linked kLLVMIntrinicFunc \<open>codegen_func f = Some h\<close> by simp
    ultimately show ?thesis by simp
  next
    case kCFunc
    then have "SignatureToString (if needs_exec_ctx f then legacy_sign ?q else ?q) \<in> L" using linked by simp
    with assms(1) look kCFunc show ?thesis
      by (auto simp: function_cg_def Let_def case_prod_unfold declares_insert split: if_splits)
  qed
qed

lemma complex_declares:
  assumes "SolveBinaryOpComplexType env op lt rt r lv rv s = Inr (v, s')" "operators_linked env L"
  shows "declares L s s'"
proof (cases "op = kAdd")
  case True
  let ?q = "FunctionSignature (if r = kString then ''StringConcat'' else ''ListConcat'') [lt, rt, kPtr] kUnknown"
  obtain k f where f: "find_sig (function_registry env) ?q = Some (k, f)"
    using assms(1) True by (auto simp: SolveBinaryOpComplexType_def ListOrStringConcat_def lookup_function_eq split: if_splits)
  then have "SignatureToString ?q \<in> L" using assms(2) unfolding operators_linked_def by (smt (verit) option.distinct(1))
  with assms(1) True f show ?thesis
    by (auto simp: SolveBinaryOpComplexType_def ListOrStringConcat_def lookup_function_eq case_prod_unfold declares_insert)
next
  case False
  let ?q = "FunctionSignature ''StringCmp'' [kString, kString] kUnknown"
  obtain k f where f: "find_sig (function_registry env) ?q = Some (k, f)"
    using assms(1) False by (auto simp: SolveBinaryOpComplexType_def lookup_function_eq split: if_splits)
  then have "SignatureToString ?q \<in> L" using assms(2) unfolding operators_linked_def by (smt (verit) option.distinct(1))
  with assms(1) False f show ?thesis
    by (auto simp: SolveBinaryOpComplexType_def lookup_function_eq case_prod_unfold Let_def declares_insert
        zext8_def split: if_splits option.splits)
qed

section \<open>Trees\<close>

definition tree_declares :: "cg_env \<Rightarrow> string set \<Rightarrow> exec_node \<Rightarrow> bool" where
  "tree_declares env L n \<longleftrightarrow> (\<forall>s v s'. cg env n s = Inr (v, s') \<longrightarrow> declares L s s')"

lemma tree_declaresD: "tree_declares env L n \<Longrightarrow> cg env n s = Inr (v, s') \<Longrightarrow> declares L s s'"
  by (simp add: tree_declares_def)

lemma args_declare:
  "\<forall>n\<in>set ns. tree_declares env L n \<Longrightarrow> cg_args env ns s = Inr (xs, s') \<Longrightarrow> declares L s s'"
proof (induction ns arbitrary: s xs)
  case (Cons n ns)
  from Cons.prems(2) obtain v s1 ys where n: "cg env n s = Inr (v, s1)" and rest: "cg_args env ns s1 = Inr (ys, s')"
    by auto
  have "declares L s s1" using tree_declaresD [OF _ n] Cons.prems(1) by simp
  moreover have "declares L s1 s'" using Cons.IH [OF _ rest] Cons.prems(1) by simp
  ultimately show ?case by (rule declares_trans)
qed simp

lemma named_declare:
  "\<forall>p\<in>set vs. tree_declares env L (snd p) \<Longrightarrow> cg_named env isolated vs s = Inr s' \<Longrightarrow> declares L s s'"
proof (induction vs arbitrary: s)
  case (Cons p vs)
  obtain vi n where p: "p = (vi, n)" by force
  from Cons.prems(2) obtain v s1 where cg: "cg env n (if isolated then update_vars PushScope s else s) = Inr (v, s1)"
    and rest: "cg_named env isolated vs (let s2 = if name vi \<noteq> [] then update_vars (SetVar (name vi) v) s1 else s1
        in if isolated then update_vars PopScope s2 else s2) = Inr s'"
    by (auto simp: p Let_def)
  have "declares L s s1" using tree_declaresD [OF _ cg, of L] Cons.prems(1) p by (auto split: if_splits)
  moreover have "declares L s1 s'" using Cons.IH [OF _ rest] Cons.prems(1) by (auto simp: Let_def split: if_splits)
  ultimately show ?case by (rule declares_trans)
qed simp

lemma declares_callees: "callees s' = callees s \<Longrightarrow> declares L s s'"
  by (simp add: declares_def)

lemma to_bool_declares: "to_bool msg v s = Inr (x, s') \<Longrightarrow> declares L s s'"
  by (rule declares_callees [OF to_bool_callees])

lemma finish_arm_declares: "finish_arm m at rt p = Inr (x, b, s') \<Longrightarrow> declares L (snd p) s'"
  by (cases p) (auto intro: declares_callees finish_arm_callees)

lemma switch_declare:
  "\<forall>n\<in>set ns. tree_declares env L n \<Longrightarrow> cg_switch env rt mb ns s = Inr (b, inc, s') \<Longrightarrow> declares L s s'"
proof (induction ns arbitrary: b inc s' rule: induct_list012)
  case (2 d)
  let ?s1 = "SetInsertPoint (fst (CreateBlock ''switch.default'' s)) (snd (CreateBlock ''switch.default'' s))"
  from 2(2) obtain dv s2 x e where d: "cg env d ?s1 = Inr (dv, s2)" "finish_arm mb (GetReturnType d) rt (dv, s2) = Inr (x, e, s')"
    by (auto simp: case_prod_unfold)
  have "declares L s s2" using tree_declaresD [OF _ d(1), of L] 2(1) by simp
  moreover have "declares L s2 s'" using finish_arm_declares [OF d(2)] by simp
  ultimately show ?case by (rule declares_trans)
next
  case (3 c t rest)
  from 3(4) obtain pf inc1 s1 cv s3 cb s4 tv s5 x e where
      rest: "cg_switch env rt mb rest s = Inr (pf, inc1, s1)"
    and c: "cg env c (SetInsertPoint (fst (CreateBlock ''switch.cond'' s1)) (snd (CreateBlock ''switch.cond'' s1))) = Inr (cv, s3)"
    and cb: "to_bool ''unsupported type for switch condition (should be caught by validator)'' cv s3 = Inr (cb, s4)"
    and t: "cg env t (SetInsertPoint (fst (CreateBlock ''switch.then'' s4))
        (append_instr (CondBr cb (fst (CreateBlock ''switch.then'' s4)) pf) (snd (CreateBlock ''switch.then'' s4)))) = Inr (tv, s5)"
    and x: "finish_arm mb (GetReturnType t) rt (tv, s5) = Inr (x, e, s')"
    by (auto simp: case_prod_unfold)
  have "declares L s s1" using 3(1) [OF _ rest] 3(3) by simp
  also have "declares L s1 s3" using tree_declaresD [OF _ c, of L] 3(3) by simp
  also have "declares L s3 s4" by (rule to_bool_declares [OF cb])
  also have "declares L s4 s5" using tree_declaresD [OF _ t, of L] 3(3) by simp
  also have "declares L s5 s'" using finish_arm_declares [OF x] by simp
  finally show ?case .
qed simp

lemma branches_declare:
  "\<forall>n\<in>set ns. tree_declares env L n \<Longrightarrow> cg_branches env mb ns s = Inr (b, infos, lc, s') \<Longrightarrow> declares L s s'"
proof (induction ns arbitrary: b infos lc s' rule: induct_list012)
  case (2 d)
  from 2(2) obtain v s1 where d: "cg env d (update_vars PushScope (SetInsertPoint (fst (CreateBlock ''ifblock.else'' s))
      (snd (CreateBlock ''ifblock.else'' s)))) = Inr (v, s1)" "s' = append_instr (Br mb) (update_vars PopScope s1)"
    by (auto simp: case_prod_unfold)
  then show ?case using tree_declaresD [OF _ d(1), of L] 2(1) by simp
next
  case (3 c body rest)
  from 3(4) obtain pf infos1 lc1 s1 cv s3 cb s4 v s5 where
      rest: "cg_branches env mb rest s = Inr (pf, infos1, lc1, s1)"
    and c: "cg env c (SetInsertPoint (fst (CreateBlock ''ifblock.cond'' s1)) (snd (CreateBlock ''ifblock.cond'' s1))) = Inr (cv, s3)"
    and cb: "to_bool ''unsupported type for if block condition (should be caught by validator)'' cv s3 = Inr (cb, s4)"
    and body: "cg env body (update_vars PushScope (SetInsertPoint (fst (CreateBlock ''ifblock.body'' s4))
        (append_instr (CondBr cb (fst (CreateBlock ''ifblock.body'' s4)) pf) (snd (CreateBlock ''ifblock.body'' s4))))) = Inr (v, s5)"
    and s': "s' = append_instr (Br mb) (update_vars PopScope s5)"
    by (auto simp: case_prod_unfold)
  have "declares L s s1" using 3(1) [OF _ rest] 3(3) by simp
  also have "declares L s1 s3" using tree_declaresD [OF _ c, of L] 3(3) by simp
  also have "declares L s3 s4" by (rule to_bool_declares [OF cb])
  also have "declares L s4 s5" using tree_declaresD [OF _ body, of L] 3(3) by simp
  finally show ?case by (simp add: s')
qed simp

text \<open>The nodes with subtrees.\<close>

lemma binary_declares:
  assumes l: "tree_declares env L l" and r: "tree_declares env L r" and ops: "operators_linked env L"
  shows "tree_declares env L (BinaryOPNode i op l r)"
  unfolding tree_declares_def
proof (intro allI impI)
  fix s v s' assume cg: "cg env (BinaryOPNode i op l r) s = Inr (v, s')"
  show "declares L s s'"
  proof (cases "IsLogicalBinaryOPType op")
    case True
    let ?s1 = "snd (CreateBlock ''sc.rhs'' s)" and ?rhs = "fst (CreateBlock ''sc.rhs'' s)"
    let ?s2 = "snd (CreateBlock ''sc.merge'' ?s1)" and ?mb = "fst (CreateBlock ''sc.merge'' ?s1)"
    from cg True obtain p3 p4 p6 p7 where
        c: "cg env l ?s2 = Inr p3"
      and b: "to_bool ''unsupported type for logical operator lhs (should be caught by validator)'' (fst p3) (snd p3) = Inr p4"
      and d: "cg env r (SetInsertPoint ?rhs (append_instr (if op = kAnd then CondBr (fst p4) ?rhs ?mb
          else CondBr (fst p4) ?mb ?rhs) (snd p4))) = Inr p6"
      and e: "to_bool ''unsupported type for logical operator rhs (should be caught by validator)'' (fst p6) (snd p6) = Inr p7"
      and s': "zext8 (emit (\<lambda>n. Phi n (LInt 1) [(ConstInt 1 (if op = kAnd then 0 else 1), insert_point (snd p4)),
          (fst p7, insert_point (snd p7))]) (LInt 1) (SetInsertPoint ?mb (append_instr (Br ?mb) (snd p7)))) = (v, s')"
      by (simp add: case_prod_unfold Let_def del: split_paired_Ex) blast
    have "declares L s (snd p3)" using tree_declaresD [OF l, of s] tree_declaresD [OF l, of ?s2 "fst p3" "snd p3"] c by simp
    also have "declares L (snd p3) (snd p4)" using to_bool_declares [of _ "fst p3" "snd p3" "fst p4" "snd p4"] b by simp
    also have "declares L (snd p4) (snd p6)" using tree_declaresD [OF r, of _ "fst p6" "snd p6"] d by fastforce
    also have "declares L (snd p6) (snd p7)" using to_bool_declares [of _ "fst p6" "snd p6" "fst p7" "snd p7"] e by simp
    also have "declares L (snd p7) s'" using declares_callees [OF zext8_callees [OF s']] by simp
    finally show ?thesis .
  next
    case False
    from cg False obtain lv s1 rv s2 where lr: "cg env l s = Inr (lv, s1)" "cg env r s1 = Inr (rv, s2)"
      and res: "(if IsNumericType (GetReturnType l) \<and> IsNumericType (GetReturnType r)
          then SolveBinaryOpNumericType op (GetReturnType l) (GetReturnType r) (return_type i) lv rv s2
          else SolveBinaryOpComplexType env op (GetReturnType l) (GetReturnType r) (return_type i) lv rv s2) = Inr (v, s')"
      by auto
    have "declares L s s1" by (rule tree_declaresD [OF l lr(1)])
    also have "declares L s1 s2" by (rule tree_declaresD [OF r lr(2)])
    also have "declares L s2 s'"
      using res ops complex_declares declares_callees [OF numeric_callees] by (auto split: if_splits)
    finally show ?thesis .
  qed
qed

lemma three_args: "(case args of [c, t, e] \<Rightarrow> f c t e | _ \<Rightarrow> Inl x) = Inr y \<Longrightarrow> \<exists>c t e. args = [c, t, e]"
  by (cases args; cases "tl args"; cases "tl (tl args)"; cases "tl (tl (tl args))") simp_all

lemma if_declares:
  assumes args: "\<forall>n\<in>set args. tree_declares env L n"
  shows "tree_declares env L (IfNode i args)"
  unfolding tree_declares_def
proof (intro allI impI)
  fix s v s' assume cg: "cg env (IfNode i args) s = Inr (v, s')"
  obtain c t e where a: "args = [c, t, e]"
    using cg by (auto dest!: three_args)
  let ?msg = "''unsupported type for if condition (should be caught by validator)''"
  from cg obtain ty p1 p2 p6 q6 p7 q7 where
      c: "cg env c s = Inr p1" and b: "to_bool ?msg (fst p1) (snd p1) = Inr p2"
    and t: "cg env t (SetInsertPoint (fst (CreateBlock ''then'' (snd p2)))
        (append_instr (CondBr (fst p2) (fst (CreateBlock ''then'' (snd p2)))
            (fst (CreateBlock ''else'' (snd (CreateBlock ''then'' (snd p2))))))
          (snd (CreateBlock ''merge'' (snd (CreateBlock ''else'' (snd (CreateBlock ''then'' (snd p2))))))))) = Inr p6"
    and ft: "finish_arm (fst (CreateBlock ''merge'' (snd (CreateBlock ''else'' (snd (CreateBlock ''then'' (snd p2)))))))
        (GetReturnType t) (return_type i) p6 = Inr q6"
    and e: "cg env e (SetInsertPoint (fst (CreateBlock ''else'' (snd (CreateBlock ''then'' (snd p2))))) (snd (snd q6))) = Inr p7"
    and fe: "finish_arm (fst (CreateBlock ''merge'' (snd (CreateBlock ''else'' (snd (CreateBlock ''then'' (snd p2)))))))
        (GetReturnType e) (return_type i) p7 = Inr q7"
    and s': "callees s' = callees (snd (snd q7))"
    by (auto simp: a case_prod_unfold simp del: split_paired_Ex)
  have "declares L s (snd p1)" using tree_declaresD [of env L c s "fst p1" "snd p1"] c args a by simp
  also have "declares L (snd p1) (snd p2)" using to_bool_declares [of _ "fst p1" "snd p1" "fst p2" "snd p2"] b by simp
  also have "declares L (snd p2) (snd p6)" using tree_declaresD [of env L t _ "fst p6" "snd p6"] t args a by fastforce
  also have "declares L (snd p6) (snd (snd q6))"
    using finish_arm_declares [of _ _ _ p6 "fst q6" "fst (snd q6)" "snd (snd q6)"] ft by simp
  also have "declares L (snd (snd q6)) (snd p7)" using tree_declaresD [of env L e _ "fst p7" "snd p7"] e args a by fastforce
  also have "declares L (snd p7) (snd (snd q7))"
    using finish_arm_declares [of _ _ _ p7 "fst q7" "fst (snd q7)" "snd (snd q7)"] fe by simp
  finally show "declares L s s'" by (simp add: declares_def s')
qed

lemma switch_node_declares:
  assumes args: "\<forall>n\<in>set args. tree_declares env L n"
  shows "tree_declares env L (SwitchNode i args)"
  unfolding tree_declares_def
proof (intro allI impI)
  fix s v s' assume cg: "cg env (SwitchNode i args) s = Inr (v, s')"
  then obtain p where "cg_switch env (return_type i) (fst (CreateBlock ''switch.merge'' s)) args
      (snd (CreateBlock ''switch.merge'' s)) = Inr p" "callees s' = callees (snd (snd p))"
    by (auto simp: case_prod_unfold Let_def simp del: split_paired_Ex)
  then show "declares L s s'"
    using switch_declare [OF args, of _ _ "snd (CreateBlock ''switch.merge'' s)" "fst p" "fst (snd p)" "snd (snd p)"]
    by (simp add: declares_def)
qed

lemma if_block_declares:
  assumes args: "\<forall>n\<in>set args. tree_declares env L n"
  shows "tree_declares env L (IfBlockNode i args)"
  unfolding tree_declares_def
proof (intro allI impI)
  fix s v s' assume cg: "cg env (IfBlockNode i args) s = Inr (v, s')"
  then obtain p where "cg_branches env (fst (CreateBlock ''ifblock.merge'' s)) args
      (snd (CreateBlock ''ifblock.merge'' s)) = Inr p" "callees s' = callees (snd (snd (snd p)))"
    by (auto simp: case_prod_unfold Let_def dest!: emit_phis_callees simp del: split_paired_Ex)
  then show "declares L s s'"
    using branches_declare [OF args, of _ "snd (CreateBlock ''ifblock.merge'' s)" "fst p" "fst (snd p)"
        "fst (snd (snd p))" "snd (snd (snd p))"]
    by (simp add: declares_def)
qed

lemma every_tree_declares:
  assumes "calls_linked env L" "operators_linked env L" "reg_inv (function_registry env)"
  shows "tree_declares env L n"
proof (induction n)
  case (UnaryOPNode i op n)
  show ?case unfolding tree_declares_def
  proof (intro allI impI)
    fix s v s' assume "cg env (UnaryOPNode i op n) s = Inr (v, s')"
    then obtain w s1 where n: "cg env n s = Inr (w, s1)" and u: "unary_cg op (GetReturnType n) (return_type i) w s1 = Inr (v, s')"
      by auto
    show "declares L s s'"
      using tree_declaresD [OF UnaryOPNode n] unary_callees [OF u] by (simp add: declares_def)
  qed
next
  case (BinaryOPNode i op l r)
  then show ?case using assms(2) by (rule binary_declares)
next
  case (FunctionNode i fn args)
  show ?case unfolding tree_declares_def
  proof (intro allI impI)
    fix s v s' assume "cg env (FunctionNode i fn args) s = Inr (v, s')"
    then obtain xs s1 where a: "cg_args env args s = Inr (xs, s1)"
      and f: "function_cg env fn (map GetReturnType args) (return_type i) xs s1 = Inr (v, s')" by auto
    have "declares L s s1" using args_declare [OF _ a] FunctionNode by blast
    also have "declares L s1 s'" by (rule function_declares [OF f assms(1,3)])
    finally show "declares L s s'" .
  qed
next
  case (NoOPNode i vs isolated)
  then have "\<forall>p\<in>set vs. tree_declares env L (snd p)" by (auto intro: snds.intros)
  then show ?case using named_declare by (auto simp: tree_declares_def)
next
  case (IfNode i args)
  then show ?case using if_declares by blast
next
  case (SwitchNode i args)
  then show ?case using switch_node_declares by blast
next
  case (IfBlockNode i args)
  then show ?case using if_block_declares by blast
next
  case (ConstantValueNode i v)
  then show ?case using value_callees by (auto simp: tree_declares_def case_prod_unfold declares_def)
next
  case (ConstantListValueNode i l)
  then show ?case
    using list_callees by (auto simp: tree_declares_def case_prod_unfold declares_def split: option.splits)
next
  case (RefNode i nm)
  then show ?case by (auto simp: tree_declares_def split: option.splits)
qed (auto simp: tree_declares_def)

section \<open>Modules\<close>

lemma entry_declares:
  assumes "BuildEntryFunction env gs cs t n = Inr s" "tree_declares env L n"
  shows "fst ` set (callees s) \<subseteq> fst ` set cs \<union> L"
proof -
  obtain v s1 where s1: "cg env n (initial_state gs cs) = Inr (v, s1)" "callees s = callees s1"
    using assms(1) by (auto simp: BuildEntryFunction_def split: if_splits)
  then show ?thesis using tree_declaresD [OF assms(2) s1(1)] by (simp add: declares_def initial_state_def)
qed

lemma build_entries_declare:
  assumes "\<And>n. tree_declares env L n" "build_entries env xs i m types = (Inr m', types')"
  shows "fst ` set (mod_callees m') \<subseteq> fst ` set (mod_callees m) \<union> L"
  using assms(2)
proof (induction xs arbitrary: i m types)
  case (Cons x rest)
  obtain n nm where x: "x = (n, nm)" by force
  from Cons.prems obtain s where s: "BuildEntryFunction env (mod_globals m) (mod_callees m) (GetReturnType n) n = Inr s"
    and r: "build_entries env rest (i + 1) (m\<lparr>mod_functions := mod_functions m @ [(nm, blocks s)], mod_globals := globals s,
          mod_callees := callees s\<rparr>) (types[i := GetReturnType n]) = (Inr m', types')"
    by (auto simp: x Let_def split: sum.splits)
  have "fst ` set (mod_callees m') \<subseteq> fst ` set (callees s) \<union> L" using Cons.IH [OF r] by simp
  then show ?case using entry_declares [OF s assms(1)] by (rule subset_chain)
qed simp

lemma module_declares:
  assumes "module_for env ns names m" "calls_linked env L" "operators_linked env L" "reg_inv (function_registry env)"
  shows "fst ` set (mod_callees m) \<subseteq> L"
proof -
  obtain m0 i types types' where m0: "build_entries env (zip ns names) i empty_module types = (Inr m0, types')"
    "mod_callees m = mod_callees m0" using assms(1) by (auto simp: module_for_def with_attrs_def)
  show ?thesis
    using build_entries_declare [OF every_tree_declares [OF assms(2,3,4)] m0(1)] by (simp add: m0(2) empty_module_def)
qed

section \<open>The built-in environment\<close>

lemma key_string: "sig_key a = sig_key b \<Longrightarrow> SignatureToString a = SignatureToString b"
  by (simp add: SignatureToString_def sig_key_def)

lemma key_legacy_string: "sig_key a = sig_key b \<Longrightarrow> SignatureToString (legacy_sign a) = SignatureToString (legacy_sign b)"
  by (simp add: SignatureToString_def sig_key_def legacy_sign_def FunctionSignature_def)

lemma builtin_found:
  assumes "find_sig (builtin_registry addr) q = Some (k, f)"
  obtains c where "c \<in> set builtin_calls" "(k, f) \<in> set (call_entries addr c)" "sig_key k = sig_key q"
  using find_sig_Some_in [OF assms] that by (auto simp: builtin_entries)

lemma builtin_resolves:
  assumes "c \<in> set builtin_calls"
  shows "\<exists>f. GetFuncBySign (builtin_registry addr) (SetRetType kUnknown (call_sign c)) = Inr (call_sign c, f)"
proof -
  obtain f where "(call_sign c, f) \<in> set (call_entries addr c)" by (cases c) (auto simp: call_entries_def call_sign_def)
  then have "find_sig (builtin_registry addr) (SetRetType kUnknown (call_sign c)) = Some (call_sign c, f)"
    by (intro builtin_find [OF assms]) simp_all
  moreover have "SetRetType (ret_type k) (SetRetType t k) = k" for k t by (simp add: SetRetType_def)
  ultimately show ?thesis by (intro exI [of _ f]) (simp add: GetFuncBySign_found)
qed

lemma builtin_resolved:
  assumes "GetFuncBySign (builtin_registry addr) q = Inr (s, f)"
  shows "\<exists>c\<in>set builtin_calls. sig_key q = sig_key (call_sign c) \<or> sig_key q = sig_key (legacy_sign (call_sign c))"
proof -
  obtain k where "find_sig (builtin_registry addr) q = Some (k, f)" using assms by (auto simp: GetFuncBySign_found)
  then obtain c where c: "c \<in> set builtin_calls" "(k, f) \<in> set (call_entries addr c)" "sig_key k = sig_key q"
    by (rule builtin_found)
  have "k = call_sign c \<or> k = legacy_sign (call_sign c)"
    using c(2) by (cases c) (auto simp: call_entries_def call_sign_def)
  then show ?thesis by (intro bexI [OF _ c(1)]) (auto simp: c(3) [symmetric])
qed

lemma builtin_calls_linked:
  assumes addr: "\<And>f. addr f \<noteq> 0"
  shows "calls_linked (builtin_env addr order) (builtin_symbols addr)"
  unfolding calls_linked_def
proof (intro allI impI)
  fix q k f assume "find_sig (function_registry (builtin_env addr order)) q = Some (k, f)"
  then have found: "find_sig (builtin_registry addr) q = Some (k, f)" by (simp add: builtin_env_def)
  obtain c where c: "c \<in> set builtin_calls" "(k, f) \<in> set (call_entries addr c)" "sig_key k = sig_key q"
    by (rule builtin_found [OF found])
  show "case func_type f of
      kCFunc \<Rightarrow> SignatureToString (if needs_exec_ctx f then legacy_sign q else q) \<in> builtin_symbols addr
    | kLLVMIntrinicFunc \<Rightarrow> \<forall>h ops s. codegen_func f = Some h \<longrightarrow>
        declares (builtin_symbols addr) s (snd (codegen_callback (builtin_env addr order) h (SetRetType (ret_type k) q) ops s))"
  proof (cases "func_type f")
    case kCFunc
    show ?thesis
    proof (cases "needs_exec_ctx f")
      case True
      have "SignatureToString (legacy_sign k) \<in> builtin_symbols addr"
        using builtin_symbol [OF addr c(1) call_entries_legacy(1) [OF c(2) True]] kCFunc by simp
      with kCFunc True show ?thesis by (simp add: key_legacy_string [OF c(3)])
    next
      case False
      have "SignatureToString k \<in> builtin_symbols addr" by (rule builtin_symbol [OF addr c(1,2) kCFunc False])
      with kCFunc False show ?thesis by (simp add: key_string [OF c(3)])
    qed
  next
    case kLLVMIntrinicFunc
    have "SetRetType (ret_type k) q = k" using c(3) by (cases k; cases q) (simp add: sig_key_def SetRetType_def)
    moreover have "(k, f) \<in> set (builtin_registry addr)" using c by (auto simp: builtin_entries)
    ultimately show ?thesis
      using kLLVMIntrinicFunc builtin_callback_codegen_ok [OF addr, of k f]
      by (simp add: builtin_env_def codegen_ok_def same_but_code_def declares_def)
  qed
qed

lemma builtin_operators_linked:
  assumes addr: "\<And>f. addr f \<noteq> 0"
  shows "operators_linked (builtin_env addr order) (builtin_symbols addr)"
  unfolding operators_linked_def
proof (intro allI impI)
  fix n q assume q: "(n = ''StringConcat'' \<or> n = ''ListConcat'') \<and> (\<exists>lt rt. q = FunctionSignature n [lt, rt, kPtr] kUnknown)
      \<or> q = FunctionSignature ''StringCmp'' [kString, kString] kUnknown"
    and "find_sig (function_registry (builtin_env addr order)) q \<noteq> None"
  then obtain k f where found: "find_sig (builtin_registry addr) q = Some (k, f)" by (auto simp: builtin_env_def)
  obtain c where c: "c \<in> set builtin_calls" "(k, f) \<in> set (call_entries addr c)" "sig_key k = sig_key q"
    by (rule builtin_found [OF found])
  have "func_type f = kCFunc \<and> \<not> needs_exec_ctx f"
  proof (cases "q = FunctionSignature ''StringCmp'' [kString, kString] kUnknown")
    case True
    have "CallReadOnlyCFunc (FunctionSignature ''StringCmp'' [kString, kString] kI32) ''StringCmp'' \<in> set builtin_calls"
      by (intro table_members(10)) (simp add: InitStringInternalFunc_def)
    from builtin_find [OF this, of _ _ addr q] True found show ?thesis
      by (auto simp: call_entries_def c_struct_def)
  next
    case False
    with q obtain lt rt where n: "n = ''StringConcat'' \<or> n = ''ListConcat''" "q = FunctionSignature n [lt, rt, kPtr] kUnknown"
      by auto
    have "sig_key k \<noteq> call_key c"
    proof
      assume "sig_key k = call_key c"
      then have key: "call_key c = (n, [lt, rt, kPtr])" using c(3) n(2) by simp
      have "trailing [lt, rt, kPtr] \<noteq> 0" using trailing_snoc [of "[lt, rt]"] by simp
      then show False
        using builtin_call_ok(1) [OF c(1)] n(1) by (auto simp: call_shape_def key kLookupIntName_def kLookupStringName_def)
    qed
    then show ?thesis
      using c(2) by (cases c) (auto simp: call_entries_def call_key_def call_sign_def c_struct_def)
  qed
  then have "SignatureToString k \<in> builtin_symbols addr" using builtin_symbol [OF addr c(1,2)] by simp
  then show "SignatureToString q \<in> builtin_symbols addr" by (simp add: key_string [OF c(3)])
qed

lemma builtin_module_linked:
  assumes "\<And>f. addr f \<noteq> 0" "module_for (builtin_env addr order) ns names m"
  shows "fst ` set (mod_callees m) \<subseteq> fst ` set (MappingToJIT (builtin_registry addr))"
  using module_declares [OF assms(2) builtin_calls_linked [OF assms(1)] builtin_operators_linked [OF assms(1)]]
    builtin_registry_inv [OF assms(1)]
  by (simp add: builtin_env_def builtin_symbols_def)

end
