(* ===== verification/BuiltinProperties.thy ===== *)
theory BuiltinProperties
  imports Symbols
begin

text \<open>
  Properties of the built-in functions as the engines use them: the registry that
  FunctionRegistryFactory creates, and the compilation of trees with it.
\<close>

section \<open>The registry\<close>

text \<open>C1: if every C function has an address, FunctionRegistryFactory::CreateFunctionRegistry returns
  OK, because no two of the registrations of src/function/ share a signature. In the registry every
  built-in signature is found with the return type of the table, nothing is found that is not in a
  table (or one with the execution context appended), every function that gets the execution context
  is linked under its longer symbol, and the callback of an intrinsic function, called with operands of
  the parameter types, returns a value of the return type and declares only functions that the
  registry maps into the JIT.\<close>

theorem builtin_registry_complete:
  assumes "\<And>f. addr f \<noteq> 0"
  shows "\<exists>reg. CreateFunctionRegistry addr = (OK, reg) \<and> reg_inv reg \<and> ctx_closed reg
    \<and> (\<forall>c\<in>set builtin_calls. \<exists>f. GetFuncBySign reg (SetRetType kUnknown (call_sign c)) = Inr (call_sign c, f))
    \<and> (\<forall>q s f. GetFuncBySign reg q = Inr (s, f) \<longrightarrow> (\<exists>c\<in>set builtin_calls.
         sig_key q = sig_key (call_sign c) \<or> sig_key q = sig_key (legacy_sign (call_sign c))))
    \<and> (\<forall>k h. CallLLVMIntrinicFunc k h \<in> set builtin_calls \<longrightarrow> (\<forall>ops s. list_all2 has_type (param_types k) ops \<longrightarrow>
         val_ok (ret_type k) (fst (builtin_codegen h k ops s))
         \<and> fst ` set (callees (snd (builtin_codegen h k ops s)))
             \<subseteq> fst ` set (callees s) \<union> fst ` set (MappingToJIT reg)))"
proof (rule exI [of _ "builtin_registry addr"], intro conjI ballI allI impI)
  show "CreateFunctionRegistry addr = (OK, builtin_registry addr)" by (rule CreateFunctionRegistry_ok [OF assms])
  show "reg_inv (builtin_registry addr)" by (rule builtin_registry_inv [OF assms])
  show "ctx_closed (builtin_registry addr)" by (rule builtin_ctx_closed)
next
  fix c assume "c \<in> set builtin_calls"
  then show "\<exists>f. GetFuncBySign (builtin_registry addr) (SetRetType kUnknown (call_sign c)) = Inr (call_sign c, f)"
    by (rule builtin_resolves)
next
  fix q s f assume "GetFuncBySign (builtin_registry addr) q = Inr (s, f)"
  then show "\<exists>c\<in>set builtin_calls. sig_key q = sig_key (call_sign c) \<or> sig_key q = sig_key (legacy_sign (call_sign c))"
    by (rule builtin_resolved)
next
  fix k h ops s
  assume h: "CallLLVMIntrinicFunc k h \<in> set builtin_calls" and ops: "list_all2 has_type (param_types k) ops"
  have "codegen_ok (builtin_symbols addr) (builtin_codegen h) k" using builtin_emits_ok [OF assms h] by simp
  with ops show "val_ok (ret_type k) (fst (builtin_codegen h k ops s))"
    and "fst ` set (callees (snd (builtin_codegen h k ops s))) \<subseteq> fst ` set (callees s) \<union> fst ` set (MappingToJIT (builtin_registry addr))"
    unfolding codegen_ok_def same_but_code_def builtin_symbols_def by blast+
qed

text \<open>With an address for every function, the sum of a list of bytes resolves to a 64-bit result.\<close>

lemma sum_registered: "CallReadOnlyCFunc (FunctionSignature ''Sum'' [kU8List] kU64)
    (instance_of ''Sum'' [''uint64_t'', ''U8ListStruct'']) \<in> set builtin_calls"
  by (simp add: init_unfold InitSumFunc_def)

lemma builtin_registry_complete_witness:
  "\<exists>reg f. CreateFunctionRegistry (\<lambda>_. 4096) = (OK, reg)
    \<and> GetFuncBySign reg (FunctionSignature ''Sum'' [kU8List] kUnknown) = Inr (FunctionSignature ''Sum'' [kU8List] kU64, f)"
proof -
  have "(4096 :: u64) \<noteq> 0" by simp
  from builtin_registry_complete [of "\<lambda>_. 4096", OF this] obtain reg where
    reg: "CreateFunctionRegistry (\<lambda>_. 4096) = (OK, reg)"
    and all: "\<forall>c\<in>set builtin_calls. \<exists>f. GetFuncBySign reg (SetRetType kUnknown (call_sign c)) = Inr (call_sign c, f)"
    by blast
  from all [rule_format, OF sum_registered] reg show ?thesis
    by (simp add: call_sign_def SetRetType_def FunctionSignature_def)
qed

section \<open>Compilation\<close>









end
