(* ===== verification/Spec2Isabelle.thy ===== *)
theory Spec2Isabelle
  imports Execution Grouper ListProperties AthenaProperties BuiltinProperties
begin

text \<open>
  A verification development of jitfusion, a C++ library that compiles expression trees to machine
  code with LLVM and runs them.

  The program. A client builds a tree of \<open>ExecNode\<close>s (by hand or through the athena front end) and
  a \<open>FunctionRegistry\<close> of callable functions. \<open>ExecEngine::Compile\<close> runs the validator, which
  computes a return type for every node, then the code generator, which emits one entry function,
  and hands the module to the JIT with the table of C symbols of the registry. \<open>BatchExecEngine\<close>
  does the same for several trees in one module. Compiled code runs against an \<open>ExecContext\<close>, whose
  arena holds every list and string a run creates and whose error list collects runtime errors.
  Both engines can be saved to a blob and loaded again. The athena front end groups pipelines that
  share subexpressions with a union-find structure.

  Theories, in the order of their imports:
  \<^item> Prelude: collections, early return, decimal printing, lemmas on association lists and lists;
  \<^item> Status (include/status.h), Types (include/type.h, src/type.cc): status values, the value types
    and the class TypeHelper;
  \<^item> Diagnostic (src/diagnostic.cc): lines and carets of an error message;
  \<^item> ScopeStack (src/scope_stack.h): nested scopes, with their contract as the locale
    \<open>scoped_store\<close>, interpreted on the model;
  \<^item> Registry (src/function_registry.cc): signatures, every Register operation, lookup, symbol table;
    the locale \<open>function_table\<close> is the contract of a lookup table and is interpreted on the model;
  \<^item> ExecNode (src/exec_node.cc): the tree, its printing and cloning;
  \<^item> Validator (src/validator.cc): the typing visitor, with the invariant of its scopes;
  \<^item> Ieee, IR, CodeGen (src/codegen/): the order on floating-point bit patterns, the module under
    construction and the visitor that emits it; CodeGenCorrect: on a tree that the validator
    annotated the generator returns an operand of the type the validator computed;
  \<^item> Arena (src/arena.cc): the bump allocator, with its invariant on chunks and live blocks;
  \<^item> Artifact (src/compiled_artifact.cc): the byte format of saved engines, both directions;
  \<^item> Dsu, Grouper (athena/dsu.cc, athena/pipeline_grouper.cc): union-find refines a partition of
    the keys, and the grouper distributes the pipelines over groups;
  \<^item> Engine, Execution (src/jit_core.cc, src/exec_engine.cc, src/batch_exec_engine.cc,
    src/execute_dispatch.h): the two engines, compiled code and execution contexts;
  \<^item> Elem, Buffer, Order: what the function templates of src/function/ share. An element type is a
    record of its C++ operators with their undefined cases, a list argument is a pointer with cells
    that may be unwritten, and std::sort, std::lower_bound and the hash containers are stated by
    their specification. The locale \<open>elem_order\<close> is the contract of an element order and is
    interpreted for integers, floating-point numbers without NaN and strings;
  \<^item> ListArithmetic, ListAggregation, ListComparison, ListGroup, ListIndexing, ListBasic, Murmur
    (src/function/list_*.cc, string_function_init.cc, murmurhash3.cc): every kernel, against the
    list function it computes; ListProperties holds the statements;
  \<^item> Intrinsics (math_function_init.cc and the callbacks of the list files): the instructions each
    code generation callback emits, and that it returns an operand of the promised type and touches
    nothing but the code of the current block;
  \<^item> BuiltinTables (the Init*Func tables, function_init.h, \<open>FunctionRegistry::Init\<close>): the
    registration calls in their order; BuiltinRegistry: their keys are distinct, so that they build
    exactly the registry of the tables; BuiltinCallbacks: their callbacks satisfy the contract that
    the code generator relies on; Symbols: every function that an emitted module calls is declared
    and linked; BuiltinProperties: what follows for a client that uses the built-in registry;
  \<^item> AstBuilder (athena/ast_builder.cc, the actions of athena/parser.yy): the builder, the value
    stack and the semantic actions; AstCorrect: the trees they build for a parsed program; Athena,
    AthenaProperties (athena/athena.cc): the two front ends.

  Correspondence. A class is a record of its fields, a node class a constructor, a hash map an
  association list with distinct keys in one iteration order, a \<open>Status\<close> an option of code and
  message, and a fallible function a sum with the status on the left. Machine integers are words of
  their width. A call through a null pointer, a read outside of a buffer and a dereference of an
  empty \<open>Value*\<close> are the value \<open>None\<close>, never a made-up result. LLVM, the C allocator and the host
  are parameters, and what is assumed of them is a named predicate (\<open>malloc_ok\<close>, \<open>llvm_links\<close>,
  \<open>host_ok\<close>, \<open>object_links\<close>, \<open>machine_ok\<close>), each shown to hold of a concrete instance.

  Groups of lemmas. Artifacts: the round trip, the bounds of the view and the blobs whose length
  field wraps. Engines: what compiling, executing, saving and loading do on each branch and which
  executions a failed operation leaves possible. Arena: blocks are disjoint and inside live chunks
  until a reset. Union-find: the sets of the structure are the classes of the unions made, and
  \<open>Find\<close> returns. Validator: scopes are framed, a second validation of the result or of a clone
  gives the same, promotion is a join. Registry: registering and looking up, distinct symbol names.

  Kernels: the result and the errors on every branch, never an access outside of the arguments under
  the stated bounds. Built-in functions: registration succeeds, and every tree that the validator
  accepts with them compiles. Front end: which trees a text gives, and which error it reports.

  Termination and fuel. Every visitor recurses on the tree. The loops over a position have a measure.
  \<open>Find\<close> of the union-find structure is a \<open>partial_function\<close>; that it returns is part of its theorem.
  There is no fuel.

  Not modelled. The LALR automaton and the scanner tables that bison and flex generated
  (athena/parser.hh, the automaton of athena/parser.cc, athena/token.cc): the text is related to the
  reductions of the grammar by a parameter. The pass pipeline of LLVM and the canonicaliser of
  commutative calls in src/jit_core.cc, which run inside LLVM, and the meaning of the emitted
  instructions. The two 128-bit variants of the hash function, which nothing calls. Tests and
  benchmarks.
\<close>

section \<open>Compiled artifacts\<close>

text \<open>C3: a blob written by SerializeArtifact is accepted by DeserializeArtifact, which gives back the
  header and a view of exactly the object bytes.\<close>

theorem artifact_round_trip:
  assumes "header_ok h" "SerializeArtifact h obj [] = Inr blob" "length blob < 2 ^ 63"
  shows "\<exists>v. DeserializeArtifact blob = Inr (h, v) \<and> view_bytes blob v = Some obj"
  using assms by (rule DeserializeArtifact_bytes)

definition sample_header :: artifact_header where
  "sample_header = \<lparr>llvm_version = ''18.1'', target_triple = ''x86'', cpu_name = ''znver'', mode = kSingle,
     fp_mode = kStrict, per_entry_ret_types = [9], extensions = [\<lparr>tag = 1, payload = ''p''\<rparr>]\<rparr>"

definition sample_blob :: string where
  "sample_blob = (case SerializeArtifact sample_header ''obj'' [] of Inl _ \<Rightarrow> [] | Inr b \<Rightarrow> b)"

lemma sample_header_ok: "header_ok sample_header"
  by (simp add: header_ok_def sample_header_def)

lemma sample_blob_saved: "SerializeArtifact sample_header ''obj'' [] = Inr sample_blob" "length sample_blob < 100"
   apply (simp add: sample_blob_def SerializeArtifact_bytes [OF sample_header_ok])
  apply code_simp
  done

lemma artifact_round_trip_witness:
  "\<exists>v. DeserializeArtifact sample_blob = Inr (sample_header, v) \<and> view_bytes sample_blob v = Some ''obj''"
  using artifact_round_trip [OF sample_header_ok sample_blob_saved(1)] sample_blob_saved(2) by simp

text \<open>C4: the view of an accepted blob lies inside the blob, unless its length field is at least 2^63.\<close>

theorem artifact_view_in_bounds:
  assumes "DeserializeArtifact blob = Inr (h, v)" "length blob < 2 ^ 63" "unat (snd v) < 2 ^ 63"
  shows "view_bytes blob v \<noteq> None"
  using assms by (rule DeserializeArtifact_view)

definition sample_view :: "artifact_header \<times> view" where
  "sample_view = (case DeserializeArtifact sample_blob of Inl _ \<Rightarrow> (sample_header, (0, 0)) | Inr r \<Rightarrow> r)"

lemma sample_view_read:
  "DeserializeArtifact sample_blob = Inr (fst sample_view, snd sample_view)" "unat (snd (snd sample_view)) < 2 ^ 63"
proof -
  obtain v where v: "DeserializeArtifact sample_blob = Inr (sample_header, v)" "view_bytes sample_blob v = Some ''obj''"
    using DeserializeArtifact_bytes [OF sample_header_ok sample_blob_saved(1)] sample_blob_saved(2) by auto
  then show "DeserializeArtifact sample_blob = Inr (fst sample_view, snd sample_view)" by (simp add: sample_view_def)
  show "unat (snd (snd sample_view)) < 2 ^ 63"
    using v sample_blob_saved(2) by (auto simp: sample_view_def view_bytes_def split: if_splits)
qed

lemma artifact_view_in_bounds_witness: "view_bytes sample_blob (snd sample_view) \<noteq> None"
  using artifact_view_in_bounds [OF sample_view_read(1) _ sample_view_read(2)] sample_blob_saved(2) by simp

text \<open>The bound on the length field is needed: this blob of 51 bytes is accepted with a view that
  ends outside of it, because the check \<open>pos_ + n > size\<close> wraps around.\<close>

lemma wrapping_view_escapes:
  "accepted_view wrapping_blob = Some (47, - 27) \<and> view_bytes wrapping_blob (47, - 27) = None"
  by (simp add: wrapping_blob_accepted view_bytes_def wrapping_blob_length)

section \<open>Engines\<close>

text \<open>C5: what an engine saves, an engine on the same host loads, whatever checks are on: the loaded
  engine has the return type of the saved one, and its entry pointer is that of the symbol \<open>entry\<close>
  in exactly the object bytes that were saved.\<close>

theorem saved_engine_loads:
  assumes "entry_func_ptr eng \<noteq> 0" "compiled_object_bytes (core eng) = obj" "obj \<noteq> []" "host_ok ll"
    "SaveCompiled ll eng [] = Inr blob" "length blob < 2 ^ 63"
    "object_links ll reg obj [kEntryFunctionName] [p]"
  shows "\<exists>c. jit c = ObjectJit obj \<and> LoadCompiled ll reg opts blob eng2 =
    Some (None, \<lparr>core = c, entry_func_ptr = p, engine_ret_type = engine_ret_type eng\<rparr>)"
  using assms by (rule SaveCompiled_load)

definition sample_llvm :: llvm where
  "sample_llvm = \<lparr>create_jit = None, verify_module = (\<lambda>m. None), add_image = (\<lambda>i. None),
     define_symbols = (\<lambda>s. None), lookup_symbol = (\<lambda>i s nm. Inr 4096), object_code = (\<lambda>m. ''obj''),
     ir_text = (\<lambda>m. ''ir''), host_llvm_version = ''18.1'', host_triple = ''x86'', host_cpu = ''znver''\<rparr>"

definition sample_option :: engine_option where
  "sample_option = \<lparr>arena_min_chunk = 4096, dump_ir = False, opt_fp_math_mode = kFast, enable_save_compiled = True\<rparr>"

definition sample_core :: jit_core where
  "sample_core = (NewJitCore sample_option)\<lparr>jit := ModuleJit empty_module, compiled_object_bytes := ''obj''\<rparr>"

definition sample_engine :: exec_engine where
  "sample_engine = \<lparr>core = sample_core, entry_func_ptr = 4096, engine_ret_type = kI32\<rparr>"

definition sample_save :: string where
  "sample_save = (case SaveCompiled sample_llvm sample_engine [] of Inl _ \<Rightarrow> [] | Inr b \<Rightarrow> b)"

lemma sample_host_ok: "host_ok sample_llvm"
  by (simp add: host_ok_def sample_llvm_def)

lemma sample_save_ok: "SaveCompiled sample_llvm sample_engine [] = Inr sample_save" "length sample_save < 100"
   apply (simp add: sample_save_def SaveCompiled_def sample_engine_def sample_core_def NewJitCore_def Let_def
     SerializeArtifact_def host_header_def)
  apply code_simp
  done

lemma sample_object_links: "object_links sample_llvm [] obj [nm] [4096]"
  by (simp add: object_links_def sample_llvm_def)

lemma saved_engine_loads_witness:
  "\<exists>c. jit c = ObjectJit ''obj'' \<and> LoadCompiled sample_llvm [] \<lparr>check_llvm_version = True, check_target_triple = True,
      check_cpu_name = True\<rparr> sample_save (NewEngine sample_option) =
    Some (None, \<lparr>core = c, entry_func_ptr = 4096, engine_ret_type = kI32\<rparr>)"
  using saved_engine_loads [of sample_engine "''obj''" sample_llvm sample_save "[]" 4096
      "\<lparr>check_llvm_version = True, check_target_triple = True, check_cpu_name = True\<rparr>" "NewEngine sample_option"]
    sample_save_ok sample_host_ok sample_object_links
  by (simp add: sample_engine_def sample_core_def)

text \<open>C6: the same for an engine with several entries: names, pointers and return types keep their
  order.\<close>

theorem saved_batch_loads:
  assumes "entry_func_ptrs eng \<noteq> []" "length (ret_types eng) = length (entry_func_ptrs eng)"
    "length (ret_types eng) < 2 ^ 32" "compiled_object_bytes (bcore eng) = obj" "obj \<noteq> []" "host_ok ll"
    "BatchSave ll eng [] = Inr blob" "length blob < 2 ^ 63"
    "object_links ll reg obj (map entry_name [0..<length (ret_types eng)]) ps"
  shows "\<exists>c. jit c = ObjectJit obj \<and> BatchLoad ll reg opts blob eng2 =
    Some (None, \<lparr>bcore = c, entry_func_ptrs = ps, ret_types = ret_types eng\<rparr>)"
  using assms by (rule BatchSave_load)

definition sample_batch :: batch_engine where
  "sample_batch = \<lparr>bcore = sample_core, entry_func_ptrs = [4096, 4096], ret_types = [kI32, kStringList]\<rparr>"

definition sample_batch_save :: string where
  "sample_batch_save = (case BatchSave sample_llvm sample_batch [] of Inl _ \<Rightarrow> [] | Inr b \<Rightarrow> b)"

lemma sample_batch_save_ok: "BatchSave sample_llvm sample_batch [] = Inr sample_batch_save" "length sample_batch_save < 100"
   apply (simp add: sample_batch_save_def BatchSave_def sample_batch_def sample_core_def NewJitCore_def Let_def
     SerializeArtifact_def host_header_def)
  apply code_simp
  done

lemma saved_batch_loads_witness:
  "\<exists>c. jit c = ObjectJit ''obj'' \<and> BatchLoad sample_llvm [] \<lparr>check_llvm_version = True, check_target_triple = True,
      check_cpu_name = True\<rparr> sample_batch_save (NewBatch sample_option) =
    Some (None, \<lparr>bcore = c, entry_func_ptrs = [4096, 4096], ret_types = [kI32, kStringList]\<rparr>)"
  using saved_batch_loads [of sample_batch "''obj''" sample_llvm sample_batch_save "[]" "[4096, 4096]"
      "\<lparr>check_llvm_version = True, check_target_triple = True, check_cpu_name = True\<rparr>" "NewBatch sample_option"]
    sample_batch_save_ok sample_host_ok
  by (simp add: sample_batch_def sample_core_def object_links_def sample_llvm_def)

text \<open>C7: ExecuteAll runs every entry, whatever the others return: with one non-null pointer and one
  return type per entry it returns, its i-th result is that of ExecuteAt on entry i, and its status is
  OK exactly if that of every entry is.\<close>

theorem execute_all_runs_every_entry:
  assumes "length (ret_types eng) = length (entry_func_ptrs eng)" "0 \<notin> set (entry_func_ptrs eng)"
  shows "\<exists>st rs. ExecuteAll mach eng results = Some (st, rs) \<and> length rs = length (entry_func_ptrs eng)
    \<and> (\<forall>i<length rs. \<exists>sti. ExecuteAt mach eng i (resize (length rs) ret_default results ! i) = Some (sti, rs ! i))
    \<and> (ok st \<longleftrightarrow> (\<forall>i<length rs. \<exists>r sti.
         ExecuteAt mach eng i (resize (length rs) ret_default results ! i) = Some (sti, r) \<and> ok sti))"
  by (rule ExecuteAll_ok, rule executes_iff) (rule assms)+

definition sample_machine :: machine where
  "sample_machine = \<lparr>run_entry = (\<lambda>p res ctx. ((7, 0), (\<lambda>_. 0), if p = 4096 then AddError ''boom'' ctx else ctx))\<rparr>"

lemma execute_all_runs_every_entry_witness:
  "\<exists>st rs. ExecuteAll sample_machine sample_batch [] = Some (st, rs) \<and> length rs = 2"
  using execute_all_runs_every_entry [of sample_batch sample_machine "[]"] by (auto simp: sample_batch_def)

text \<open>C8: a context passed to ExecuteAll is clean again afterwards, so that no error and no
  allocation of one call is seen by the next.\<close>

theorem execute_all_leaves_context_clean:
  assumes "machine_ok mach" "ctx_clean ctx" "ExecuteAllCtx mach eng ctx results = Some (st, rs, ctx')"
  shows "ctx_clean ctx'"
  using assms(3,1,2) unfolding ExecuteAllCtx_def Let_def by (rule execute_loop_ctx_clean)

lemma sample_machine_ok: "machine_ok sample_machine"
  by (simp add: machine_ok_def sample_machine_def AddError_def)

lemma new_context_clean: "ctx_clean (NewContext n)"
  by (simp add: ctx_clean_def NewContext_def ArenaInit_def arena_inv_def heap_ok_def)

lemma sample_batch_runs:
  "\<exists>st rs ctx. ExecuteAllCtx sample_machine sample_batch (NewContext 4096) [] = Some (st, rs, ctx)"
  by (simp add: ExecuteAllCtx_def sample_batch_def ExecuteAtCtx_def dispatch_def sample_machine_def Let_def upt_rec)

lemma execute_all_leaves_context_clean_witness:
  "\<exists>st rs ctx. ExecuteAllCtx sample_machine sample_batch (NewContext 4096) [] = Some (st, rs, ctx) \<and> ctx_clean ctx"
  using sample_batch_runs execute_all_leaves_context_clean [OF sample_machine_ok new_context_clean] by blast


text \<open>C9: after a Compile that fails, Execute refuses to run: it reports an unsupported return type and
  calls nothing.\<close>

theorem failed_compile_refuses_execution:
  assumes "Compile ll env n eng = (Some e, eng')"
  shows "Execute mach eng' result = Some (RuntimeError ''Unsupported return type'', result)"
  using Compile_failed [OF assms] by (simp add: Execute_def dispatch_def)

definition empty_env :: cg_env where
  "empty_env = \<lparr>function_registry = [], codegen_callback = (\<lambda>h sg ops s. (None, s)), set_order = (\<lambda>ns. ns)\<rparr>"

lemma failed_compile_refuses_execution_witness:
  "Execute sample_machine (snd (Compile sample_llvm empty_env (RefNode new_info ''x'') sample_engine)) ret_default
     = Some (RuntimeError ''Unsupported return type'', ret_default)"
  by (rule failed_compile_refuses_execution [where ll = sample_llvm and env = empty_env
        and n = "RefNode new_info ''x''" and eng = sample_engine])
    (auto simp: Compile_def BuildAndLink_def Validate_def empty_env_def split: prod.splits)

text \<open>C10: a LoadCompiled whose object LLVM rejects has already replaced the JIT but keeps the old entry
  pointer and return type: the pointer of the code that was freed with the old JIT is still called.\<close>

theorem failed_load_keeps_stale_pointer:
  assumes "DeserializeArtifact bytes = Inr (h, v)" "view_bytes bytes v = Some obj"
    "ok (CheckHostCompatibility h opts (host_llvm_version ll) (host_triple ll) (host_cpu ll) kSingle)"
    "create_jit ll = None" "add_image ll (ObjectJit obj) = Some msg"
  shows "\<exists>c. jit c = EmptyJit \<and> LoadCompiled ll reg opts bytes eng
     = Some (Some (RuntimeError (''LoadCompiled: addObjectFile failed: '' @ msg)), eng\<lparr>core := c\<rparr>)"
  using assms by (intro exI [of _ "(ResetCore (load_core (core eng) h))\<lparr>jit := EmptyJit\<rparr>"])
    (simp add: LoadCompiled_def LoadObject_def CreateJit_def Let_def)

definition rejecting_llvm :: llvm where
  "rejecting_llvm = sample_llvm\<lparr>add_image := (\<lambda>i. Some ''bad object'')\<rparr>"

lemma failed_load_keeps_stale_pointer_witness:
  "\<exists>c. jit c = EmptyJit \<and> LoadCompiled rejecting_llvm [] \<lparr>check_llvm_version = True, check_target_triple = True,
      check_cpu_name = True\<rparr> sample_blob sample_engine =
    Some (Some (RuntimeError ''LoadCompiled: addObjectFile failed: bad object''), sample_engine\<lparr>core := c\<rparr>)"
proof -
  obtain v where v: "DeserializeArtifact sample_blob = Inr (sample_header, v)" "view_bytes sample_blob v = Some ''obj''"
    using DeserializeArtifact_bytes [OF sample_header_ok sample_blob_saved(1)] sample_blob_saved(2) by auto
  from failed_load_keeps_stale_pointer [OF v, of "\<lparr>check_llvm_version = True, check_target_triple = True,
      check_cpu_name = True\<rparr>" rejecting_llvm "''bad object''" "[]" sample_engine]
  show ?thesis
    by (simp add: rejecting_llvm_def sample_llvm_def CheckHostCompatibility_def sample_header_def)
qed

section \<open>Arena\<close>

text \<open>C11: the blocks that any sequence of requests obtains from an arena are aligned as bump
  allocation promises, lie in the chunks of the arena and do not overlap, and its invariant is kept.\<close>

theorem arena_blocks_disjoint:
  assumes "arena_inv (a, live)" "malloc_ok m" "\<forall>(n, al, d)\<in>set rs. n \<noteq> 0 \<and> request_ok n al"
    "allocate_all m rs (a, live) = (bs, a', live')"
  shows "arena_inv (a', live') \<and> handed_ok a' bs"
  using allocate_all_ok [OF assms(1-3) _ assms(4), of "[]"] by (simp add: handed_ok_def)

definition bump_malloc :: malloc_fun where
  "bump_malloc live n =
     (let e = foldr (\<lambda>b acc. max acc (unat (fst b) + unat (snd b))) live 4096 in
      if e + unat n < 2 ^ 64 then of_nat e else 0)"

lemma bump_malloc_ok: "malloc_ok bump_malloc"
proof -
  have up: "unat (fst b) + unat (snd b) \<le> foldr (\<lambda>b acc. max acc (unat (fst b) + unat (snd b))) live (k :: nat)"
    if "b \<in> set live" for b and live :: "mem_block list" and k
    using that by (induction live) (auto simp: le_max_iff_disj)
  show ?thesis
    by (auto simp: malloc_ok_def bump_malloc_def block_ok_def disjoint_def Let_def unat_of_nat dest!: up split: if_splits)
qed

lemma arena_blocks_disjoint_witness:
  "arena_inv (snd (allocate_all bump_malloc [(24, 8, None), (1, 1, Some 3), (5000, 16, None)] (ArenaInit 4096, [])))"
proof -
  have r: "request_ok 24 8" "request_ok 1 1" "request_ok 5000 16"
    unfolding request_ok_def by (rule exI [of _ 3], simp, rule exI [of _ 0], simp, rule exI [of _ 4], simp)
  obtain bs a' live' where "allocate_all bump_malloc [(24, 8, None), (1, 1, Some 3), (5000, 16, None)] (ArenaInit 4096, [])
      = (bs, a', live')" by (metis prod_cases3)
  with arena_blocks_disjoint [OF _ bump_malloc_ok _ this] r show ?thesis by (simp add: heap_ok_def)
qed

text \<open>C12: Reset runs the finalizers of Create in reverse order, once, keeps the first chunk, empty
  again, and gives every other chunk back to the heap and nothing else: free is called once for each of
  them, in their order, on blocks that are live.\<close>

theorem arena_reset:
  assumes "arena_inv (a, live)" "Reset (a, live) = (calls, freed, a', live')"
  shows "arena_inv (a', live') \<and> calls = rev (finalizers a) \<and> finalizers a' = []
    \<and> chunks a' = take 1 (chunks a) \<and> set live' = set live - set (drop 1 (chunks a))
    \<and> freed = map fst (drop 1 (chunks a)) \<and> valid_frees live freed
    \<and> (chunks a \<noteq> [] \<longrightarrow> avail_buf a' = fst (hd (chunks a)) \<and> avail_bytes a' = snd (hd (chunks a)))"
  using Reset_ok [OF assms] by blast

definition used_arena :: arena_heap where
  "used_arena = (\<lparr>min_chunk_size = 64, total_bytes = 164, avail_bytes = 60, avail_buf = 8232,
     chunks = [(4096, 64), (8192, 100)], finalizers = [(4096, 1), (4104, 2)]\<rparr>, [(4096, 64), (8192, 100), (100, 8)])"

lemma arena_reset_witness:
  "fst (Reset used_arena) = [(4104, 2), (4096, 1)] \<and> fst (snd (Reset used_arena)) = [8192]
    \<and> arena_inv (snd (snd (Reset used_arena)))"
proof -
  have "arena_inv used_arena"
    by (simp add: used_arena_def arena_inv_def heap_ok_def block_ok_def pairwise_def disjoint_def)
  moreover obtain calls freed a' live' where r: "Reset used_arena = (calls, freed, a', live')" by (metis prod_cases4)
  ultimately show ?thesis using arena_reset [of "fst used_arena" "snd used_arena" calls freed a' live']
    by (simp add: used_arena_def)
qed

text \<open>C13: destroying an arena runs its finalizers in reverse order and calls free once for each of its
  chunks, in their order and each time on a block that is live, so that nothing is freed twice; what
  stays live is what did not belong to the arena.\<close>

theorem arena_destroy_frees_chunks:
  assumes "arena_inv (a, live)" "ArenaDestroy (a, live) = (calls, freed, live')"
  shows "calls = rev (finalizers a) \<and> freed = map fst (chunks a) \<and> valid_frees live freed \<and> distinct freed
    \<and> set live' = set live - set (chunks a)"
  by (rule ArenaDestroy_ok [OF assms])

lemma arena_destroy_frees_chunks_witness:
  "fst (snd (ArenaDestroy used_arena)) = [4096, 8192] \<and> set (snd (snd (ArenaDestroy used_arena))) = {(100, 8)}"
proof -
  have "arena_inv used_arena"
    by (simp add: used_arena_def arena_inv_def heap_ok_def block_ok_def pairwise_def disjoint_def)
  moreover obtain calls freed live' where r: "ArenaDestroy used_arena = (calls, freed, live')" by (metis prod_cases3)
  ultimately show ?thesis using arena_destroy_frees_chunks [of "fst used_arena" "snd used_arena" calls freed live']
    by (simp add: used_arena_def)
qed

section \<open>Pipelines\<close>

text \<open>C14: a sequence of unions on an empty structure always returns, and then Connected answers
  exactly whether two elements are joined by the reflexive, symmetric and transitive closure of the
  pairs: 64-bit ranks are never exceeded.\<close>

theorem dsu_connected:
  "\<exists>d d'. Unions DsuInit es = Some d \<and> Connected d x y = Some ((x, y) \<in> joined es, d')"
proof -
  have "\<exists>d rep. Unions DsuInit es = Some d \<and> dsu_rep d rep \<and> (\<forall>u v. rep u = rep v \<longleftrightarrow> (u, v) \<in> joined es)"
    using Unions_ok [OF dsu_rep_init, of "{}" es] by (auto simp: joined_def)
  then obtain d rep where "Unions DsuInit es = Some d" "dsu_rep d rep" "\<forall>u v. rep u = rep v \<longleftrightarrow> (u, v) \<in> joined es"
    by blast
  with Connected_ok [of d rep x y] show ?thesis by auto
qed

text \<open>C15: Group returns, in some order, one isolated NoOP node per class of pipelines; each pipeline
  is in exactly one of them, and the pipelines of a node are in their order. Pipelines that are
  connected by subexpressions of height 1 with the same text are always together, whatever the hash
  does, so that no shared computation is split over two modules; and when the 64-bit hashes of the
  texts at hand do not collide, only those are.\<close>

theorem group_partitions_pipelines:
  assumes "\<And>g. mset (map_order g) = mset g" "nodes \<noteq> []"
  shows "\<exists>(cls :: nat \<Rightarrow> 64 word) us d'.
       (\<forall>i j. (i, j) \<in> (shares nodes)\<^sup>* \<longrightarrow> cls i = cls j)
     \<and> (inj_on StringHash (hashed_texts nodes) \<longrightarrow>
          (\<forall>i<length nodes. \<forall>j<length nodes. cls i = cls j \<longrightarrow> (i, j) \<in> (shares nodes)\<^sup>*))
     \<and> distinct us \<and> set us = cls ` {..<length nodes}
     \<and> Group map_order nodes DsuInit = Some (map (\<lambda>u. NoOPOfNodes
          (map (\<lambda>i. nodes ! i) (filter (\<lambda>i. cls i = u) [0..<length nodes])) True) us, d')"
  by (rule Group_shared [OF assms])

definition call_tree :: "string \<Rightarrow> exec_node" where
  "call_tree f = FunctionNode new_info f [EntryArgumentNode new_info]"

definition three_pipelines :: "exec_node list" where
  "three_pipelines = [call_tree ''f'', call_tree ''g'', UnaryOPNode new_info kNot (call_tree ''f'')]"

lemma light_texts_call:
  "light_texts (call_tree f) = {NodeToString [] (call_tree f)}"
  "light_texts (UnaryOPNode new_info kNot (call_tree f)) = {NodeToString [] (call_tree f)}"
  by (simp_all add: light_texts_def call_tree_def self_light_def)

lemma three_pipelines_no_collision: "inj_on StringHash (hashed_texts three_pipelines)"
proof -
  let ?texts = "[root_text 0, root_text 1, root_text 2, NodeToString [] (call_tree ''f''), NodeToString [] (call_tree ''g'')]"
  have "hashed_texts three_pipelines = set ?texts"
    by (simp add: hashed_texts_def three_pipelines_def light_texts_call lessThan_Suc numeral_3_eq_3 numeral_2_eq_2 insert_commute)
  moreover have "distinct (map StringHash ?texts)" by code_simp
  ultimately show ?thesis unfolding distinct_map by metis
qed

lemma three_pipelines_shares: "(i, j) \<in> shares three_pipelines \<longleftrightarrow> i < 3 \<and> j < 3 \<and> (i = 1 \<longleftrightarrow> j = 1)"
proof -
  have ne: "NodeToString [] (call_tree ''f'') \<noteq> NodeToString [] (call_tree ''g'')" by (simp add: call_tree_def)
  have at: "light_texts (three_pipelines ! k) = {NodeToString [] (call_tree (if k = 1 then ''g'' else ''f''))}" if "k < 3" for k
    using that by (auto simp: three_pipelines_def light_texts_call less_Suc_eq numeral_3_eq_3)
  have "length three_pipelines = 3" by (simp add: three_pipelines_def)
  then show ?thesis using at ne ne [symmetric] by (cases "i = 1"; cases "j = 1") (auto simp: shares_def)
qed

lemma group_partitions_pipelines_witness:
  "\<exists>gs d. Group rev three_pipelines DsuInit = Some (gs, d) \<and> mset gs =
     {#NoOPOfNodes [call_tree ''f'', UnaryOPNode new_info kNot (call_tree ''f'')] True, NoOPOfNodes [call_tree ''g''] True#}"
proof -
  have len: "length three_pipelines = 3" by (simp add: three_pipelines_def)
  have rev: "\<And>g. mset (rev g) = mset g" by simp
  have ne: "three_pipelines \<noteq> []" by (simp add: three_pipelines_def)
  obtain cls :: "nat \<Rightarrow> 64 word" and us d' where c: "\<forall>i j. (i, j) \<in> (shares three_pipelines)\<^sup>* \<longrightarrow> cls i = cls j"
    "inj_on StringHash (hashed_texts three_pipelines) \<longrightarrow>
       (\<forall>i<3. \<forall>j<3. cls i = cls j \<longrightarrow> (i, j) \<in> (shares three_pipelines)\<^sup>*)"
    "distinct us" "set us = cls ` {..<3}"
    "Group rev three_pipelines DsuInit = Some (map (\<lambda>u. NoOPOfNodes
          (map (\<lambda>i. three_pipelines ! i) (filter (\<lambda>i. cls i = u) [0..<3])) True) us, d')"
    using group_partitions_pipelines [OF rev ne] unfolding len by (elim exE conjE) (rule that)
  have inv: "i = 1 \<longleftrightarrow> j = 1" if "(i, j) \<in> (shares three_pipelines)\<^sup>*" for i j
    using that by (induction rule: rtrancl_induct) (auto simp: three_pipelines_shares)
  have "cls 0 = cls 2" using c(1) by (simp add: three_pipelines_shares r_into_rtrancl)
  moreover have "cls 0 \<noteq> cls 1" using c(2) three_pipelines_no_collision inv [of 0 1] by force
  ultimately have cls: "cls 2 = cls 0" "cls 1 \<noteq> cls 0" by simp_all
  have three: "{..<3} = {0, 1, 2 :: nat}" by auto
  have "set us = set [cls 0, cls 1]" unfolding c(4) three using cls(1) by auto
  moreover have "distinct [cls 0, cls 1]" using cls(2) by auto
  ultimately have "mset us = mset [cls 0, cls 1]" using c(3) set_eq_iff_mset_eq_distinct by metis
  then have "mset (map F us) = {#F (cls 0), F (cls 1)#}" for F :: "64 word \<Rightarrow> exec_node" by simp
  moreover have "[0..<3] = [0, 1, 2 :: nat]" by code_simp
  ultimately show ?thesis using c(5) cls by (simp add: three_pipelines_def)
qed

section \<open>Validation\<close>

text \<open>C16: validation of a tree keeps the scope stack well formed, leaves every enclosing scope as it
  was, and never changes the type or constness of a variable that was visible before.\<close>

theorem validation_frames_scopes:
  assumes "visit reg n st = Inr (n', st')" "tinv st"
  shows "tinv st' \<and> PopScope st' = PopScope st \<and> (\<forall>x e. Lookup st x = Some e \<longrightarrow> Lookup st' x = Some e)
    \<and> (GetReturnType n' \<noteq> kVoid \<longrightarrow> st' = st)"
  using visit_frame [OF assms] visit_pure [OF assms] by (auto simp: frame_def extends_def)

definition sample_body :: exec_node where
  "sample_body = NoOPNode new_info [(\<lparr>name = ''x'', is_const = False\<rparr>, ConstantValueNode new_info (CI32 7)),
     (no_var, IfBlockNode new_info [ConstantValueNode new_info (CU8 1),
       NoOPNode new_info [(\<lparr>name = ''x'', is_const = False\<rparr>, ConstantValueNode new_info (CI32 8))] False])] False"

lemma sample_body_valid: "\<exists>n' st'. visit [] sample_body ScopeStackInit = Inr (n', st')"
  by (simp add: sample_body_def no_var_def assign_var_def TrySetVar_def VarEntry_def ScopeStackInit_def SetVar_def
      PushScope_def new_info_def SetReturnType_def GetReturnType_def jf_enum)

lemma validation_frames_scopes_witness:
  "\<exists>n' st'. visit [] sample_body ScopeStackInit = Inr (n', st') \<and> tinv st'"
  using sample_body_valid validation_frames_scopes by (meson tinv_init)

text \<open>C17: validation reads only the structure of a tree: a clone validates exactly as the tree it was
  made from, and so does the tree annotated by an earlier validation.\<close>

theorem validation_of_clone_and_again:
  assumes "visit reg n st = Inr (n', st')" "tinv st"
  shows "visit reg (Clone n) st = Inr (n', st') \<and> visit reg n' st = Inr (n', st')"
proof -
  have "visit reg (Clone n) st = visit reg n st" by (rule visit_same_structure) simp
  moreover have "visit reg n' st = visit reg n st" by (rule visit_same_structure) (rule visit_erase [OF assms])
  ultimately show ?thesis using assms(1) by simp
qed

lemma validation_of_clone_and_again_witness:
  "\<exists>n' st'. visit [] (Clone sample_body) ScopeStackInit = Inr (n', st') \<and> visit [] n' ScopeStackInit = Inr (n', st')"
  using sample_body_valid validation_of_clone_and_again by (meson tinv_init)

text \<open>C18: promotion of numeric types is commutative and associative, stays numeric, picks the operand
  of the larger weight, and yields an integer type only from integer types.\<close>

theorem promotion_is_a_join:
  assumes "IsNumericType r" "IsNumericType s" "IsNumericType t"
  shows "GetPromotedType s t = GetPromotedType t s
    \<and> GetPromotedType (GetPromotedType r s) t = GetPromotedType r (GetPromotedType s t)
    \<and> IsNumericType (GetPromotedType s t) \<and> kWeightTable (GetPromotedType s t) = max (kWeightTable s) (kWeightTable t)
    \<and> (IsIntegerType (GetPromotedType s t) \<longleftrightarrow> IsIntegerType s \<and> IsIntegerType t)"
proof (intro conjI)
  show "IsIntegerType (GetPromotedType s t) \<longleftrightarrow> IsIntegerType s \<and> IsIntegerType t"
    using assms(2,3) by (cases s; cases t; simp add: jf_enum GetPromotedType_def kWeightTable_def)
qed (use assms promoted_commute promoted_assoc promoted_numeric promoted_weight in auto)

lemma promotion_is_a_join_witness: "GetPromotedType kU32 kF32 = GetPromotedType kF32 kU32"
  using promotion_is_a_join [of kU8 kU32 kF32] by (simp add: jf_enum)

section \<open>Function registry\<close>

text \<open>C19: registering a list of functions with distinct names and parameter types on top of a
  registry that has none of them succeeds; afterwards each is found, and everything registered before
  is found as before.\<close>

theorem registration_succeeds:
  assumes "reg_inv reg" "\<forall>(s, f)\<in>set es. struct_ok f" "distinct (map (sig_key \<circ> fst) es)"
    "\<forall>(s, f)\<in>set es. find_sig reg s = None"
  shows "\<exists>reg'. registry_table.register_all es reg = (OK, reg') \<and> reg_inv reg'
    \<and> resolve_key reg' = resolve_key reg ++ map_of (map (\<lambda>(s, f). (sig_key s, f)) es)"
  using assms registry_table.register_all_succeeds [of reg es] by (auto simp: resolve_key_sig)

definition sample_sig :: signature where
  "sample_sig = FunctionSignature ''f'' [kI32, kString] kF64"

lemma registration_succeeds_witness:
  "\<exists>reg'. registry_table.register_all [(sample_sig, c_struct 4096 NoAttrSetter False)] [] = (OK, reg') \<and> reg_inv reg'"
  using registration_succeeds [of "[]" "[(sample_sig, c_struct 4096 NoAttrSetter False)]"]
  by (auto simp: struct_ok_def c_struct_def find_sig_def)

text \<open>C20: overriding a function keeps the return type of the first registration: the new function is
  called, but typed with the return type of the old one.\<close>

theorem override_keeps_return_type:
  assumes "find_sig reg s = Some (k, f)" "struct_ok g"
  shows "\<exists>reg'. RegisterFunc s g True reg = (OK, reg') \<and>
    GetFuncBySign reg' (FunctionSignature (func_name s) (param_types s) kUnknown)
      = Inr (FunctionSignature (func_name s) (param_types s) (ret_type k), g)"
proof -
  have "RegisterFunc s g True reg = (OK, put_sig s g reg)"
    using assms(2) by (auto simp: RegisterFunc_def struct_ok_def)
  moreover have "find_sig (put_sig s g reg) (FunctionSignature (func_name s) (param_types s) kUnknown) = Some (k, g)"
    using assms(1) by (simp add: find_sig_put) (simp add: sig_key_def)
  ultimately show ?thesis by (simp add: GetFuncBySign_def SetRetType_def FunctionSignature_def)
qed

lemma override_keeps_return_type_witness:
  "\<exists>reg'. RegisterFunc (SetRetType kI8 sample_sig) (c_struct 8192 NoAttrSetter False) True
      [(sample_sig, c_struct 4096 NoAttrSetter False)] = (OK, reg')
    \<and> GetFuncBySign reg' (FunctionSignature ''f'' [kI32, kString] kUnknown)
      = Inr (FunctionSignature ''f'' [kI32, kString] kF64, c_struct 8192 NoAttrSetter False)"
  using override_keeps_return_type [of "[(sample_sig, c_struct 4096 NoAttrSetter False)]"
      "SetRetType kI8 sample_sig" sample_sig "c_struct 4096 NoAttrSetter False" "c_struct 8192 NoAttrSetter False"]
  by (simp add: find_sig_def sig_eq_iff struct_ok_def c_struct_def)
    (simp add: sample_sig_def FunctionSignature_def SetRetType_def)

text \<open>C21: two signatures have the same symbol name exactly if operator== holds of them, so that no two
  functions of the registry share a symbol.\<close>

theorem symbol_names_are_unique:
  "SignatureToString a = SignatureToString b \<longleftrightarrow> sig_eq a b"
  by (simp add: SignatureToString_inject sig_eq_iff)

text \<open>C22: the JIT library defines the symbol of every C function that is not completed with the
  context, at its address, and no other symbol.\<close>

theorem linked_symbols:
  assumes "reg_inv reg"
  shows "map_of (MappingToJIT reg) symb = Some p \<longleftrightarrow>
       (\<exists>s f. (s, f) \<in> set reg \<and> func_type f = kCFunc \<and> \<not> needs_exec_ctx f
          \<and> symb = SignatureToString s \<and> p = c_func_ptr f)"
  using assms by (rule MappingToJIT_spec)

lemma linked_symbols_witness:
  "map_of (MappingToJIT [(sample_sig, c_struct 4096 NoAttrSetter False)]) (SignatureToString sample_sig) = Some 4096"
  using linked_symbols [of "[(sample_sig, c_struct 4096 NoAttrSetter False)]" "SignatureToString sample_sig" 4096]
  by (simp add: reg_inv_def reg_keys_def struct_ok_def c_struct_def)

section \<open>Diagnostics\<close>

text \<open>C23: SplitLines loses nothing: joining the lines with newlines gives back the source, and no line
  contains one.\<close>

theorem split_lines_round_trip:
  "join_lines (SplitLines src) = src \<and> newline \<notin> set (concat (SplitLines src))"
  using SplitLines_spec [of src] by auto

end
